(* ===== verification/Prelude.thy ===== *)
theory Prelude
  imports Complex_Main "HOL-Library.Multiset"
begin

text \<open>
  What every component shares: the collections that carry the component proofs, the stable
  sort that models \<open>Array.prototype.sort\<close>, insertion-ordered association lists that model
  the \<open>Map\<close> objects and plain objects of the code, bounded runs of a state machine, and
  generic lemmas on lists and filters.
\<close>

named_theorems js_defs \<open>definitions of the JavaScript value operations\<close>
named_theorems alist_simps \<open>lookup laws of the association lists\<close>
named_theorems frame_simps \<open>fields an operation leaves unchanged\<close>
named_theorems inv_intros \<open>introduction rules for component invariants\<close>

section \<open>Insertion-ordered maps\<close>

text \<open>
  A JavaScript \<open>Map\<close> or plain object keeps its keys in insertion order; overwriting a key
  keeps its place. An association list with distinct keys is exactly that.
\<close>

type_synonym ('k, 'v) omap = "('k \<times> 'v) list"

fun om_get :: "('k, 'v) omap \<Rightarrow> 'k \<Rightarrow> 'v option" where
  "om_get [] k = None"
| "om_get ((k', v) # m) k = (if k' = k then Some v else om_get m k)"

fun om_set :: "('k, 'v) omap \<Rightarrow> 'k \<Rightarrow> 'v \<Rightarrow> ('k, 'v) omap" where
  "om_set [] k v = [(k, v)]"
| "om_set ((k', v') # m) k v = (if k' = k then (k', v) # m else (k', v') # om_set m k v)"

definition om_del :: "('k, 'v) omap \<Rightarrow> 'k \<Rightarrow> ('k, 'v) omap" where
  "om_del m k = filter (\<lambda>p. fst p \<noteq> k) m"

abbreviation om_keys :: "('k, 'v) omap \<Rightarrow> 'k list" where
  "om_keys m \<equiv> map fst m"

lemma om_get_set [simp, alist_simps]:
  "om_get (om_set m k v) k' = (if k' = k then Some v else om_get m k')"
  by (induction m) auto

lemma om_get_del [simp, alist_simps]:
  "om_get (om_del m k) k' = (if k' = k then None else om_get m k')"
  by (induction m) (auto simp: om_del_def)

lemma om_del_Nil [simp]: "om_del [] k = []"
  by (simp add: om_del_def)

lemma om_set_twice [simp]: "om_set (om_set m k u) k v = om_set m k v"
  by (induction m k u rule: om_set.induct) auto

lemma keys_om_set [simp]: "fst ` set (om_set m k v) = insert k (fst ` set m)"
proof (induction m k v rule: om_set.induct)
  case (2 k' v' m k v)
  then show ?case by (cases "k' = k") (simp_all add: insert_commute)
qed simp

lemma keys_om_del [simp]: "fst ` set (om_del m k) = fst ` set m - {k}"
  by (auto simp: om_del_def)

lemma distinct_om_set [intro]: "distinct (om_keys m) \<Longrightarrow> distinct (om_keys (om_set m k v))"
  by (induction m k v rule: om_set.induct) auto

lemma distinct_om_del [intro]: "distinct (om_keys m) \<Longrightarrow> distinct (om_keys (om_del m k))"
  by (simp add: om_del_def distinct_map_filter)

lemma om_get_append: "om_get (xs @ ys) k = (case om_get xs k of Some v \<Rightarrow> Some v | None \<Rightarrow> om_get ys k)"
  by (induction xs) auto

lemma om_get_None_iff: "om_get m k = None \<longleftrightarrow> k \<notin> fst ` set m"
proof (induction m k rule: om_get.induct)
  case (2 k' v m k)
  then show ?case by (cases "k' = k") simp_all
qed simp

lemma om_get_Some_set: "om_get m k = Some v \<Longrightarrow> (k, v) \<in> set m"
  by (induction m) (auto split: if_splits)

lemma om_get_map_of: "om_get m = map_of m"
proof
  fix k show "om_get m k = map_of m k"
    by (induction m) auto
qed

lemma om_get_eq_Some_iff:
  "distinct (om_keys m) \<Longrightarrow> om_get m k = Some v \<longleftrightarrow> (k, v) \<in> set m"
  by (simp add: om_get_map_of)

lemma om_get_filter:
  assumes "distinct (om_keys m)"
  shows "om_get (filter P m) k = (case om_get m k of None \<Rightarrow> None
    | Some v \<Rightarrow> if P (k, v) then Some v else None)"
  using assms
proof (induction m)
  case Nil
  then show ?case by simp
next
  case (Cons a m)
  then have "om_get m (fst a) = None" by (simp add: om_get_None_iff)
  with Cons show ?case
    by (cases a; cases "om_get m k") (simp_all, metis option.distinct(1))
qed

lemma distinct_om_filter [intro]: "distinct (om_keys m) \<Longrightarrow> distinct (om_keys (filter P m))"
  by (simp add: distinct_map_filter)

lemma om_del_absent: "om_get m k = None \<Longrightarrow> om_del m k = m"
  by (force simp: om_get_None_iff om_del_def filter_id_conv)

text \<open>Sums over the values of a map: one key's contribution can be split off.\<close>

lemma sum_list_om_set:
  fixes f :: "'v \<Rightarrow> 'n::comm_monoid_add"
  assumes "distinct (om_keys m)"
  shows "sum_list (map (f \<circ> snd) (om_set m k v)) =
    f v + sum_list (map (f \<circ> snd) (om_del m k))"
  using assms
proof (induction m)
  case Nil
  then show ?case by simp
next
  case (Cons a m)
  show ?case
  proof (cases "fst a = k")
    case True
    with Cons.prems have "om_del m k = m"
      by (simp add: om_del_absent om_get_None_iff)
    with True show ?thesis by (cases a) (simp add: om_del_def)
  next
    case False
    with Cons show ?thesis by (cases a) (simp add: om_del_def ac_simps)
  qed
qed

lemma sum_list_om_get:
  fixes f :: "'v \<Rightarrow> 'n::comm_monoid_add"
  assumes "distinct (om_keys m)" and "om_get m k = Some v"
  shows "sum_list (map (f \<circ> snd) m) = f v + sum_list (map (f \<circ> snd) (om_del m k))"
  using assms
proof (induction m)
  case Nil
  then show ?case by simp
next
  case (Cons a m)
  show ?case
  proof (cases "fst a = k")
    case True
    with Cons.prems have "om_del m k = m"
      by (simp add: om_del_absent om_get_None_iff)
    with True Cons.prems show ?thesis by (cases a) (simp add: om_del_def)
  next
    case False
    with Cons show ?thesis by (cases a) (simp add: om_del_def ac_simps)
  qed
qed

definition om_sum :: "('v \<Rightarrow> 'n::comm_monoid_add) \<Rightarrow> ('k, 'v) omap \<Rightarrow> 'n" where
  "om_sum f m = sum_list (map (f \<circ> snd) m)"

lemma om_sum_Nil [simp]: "om_sum f [] = 0"
  by (simp add: om_sum_def)

lemma om_sum_set:
  fixes f :: "'v \<Rightarrow> 'n::ab_group_add"
  assumes "distinct (om_keys m)"
  shows "om_sum f (om_set m k v) = om_sum f m + f v - (case om_get m k of None \<Rightarrow> 0 | Some u \<Rightarrow> f u)"
proof (cases "om_get m k")
  case None
  then show ?thesis using sum_list_om_set [OF assms, of f k v] by (simp add: om_sum_def om_del_absent)
next
  case (Some u)
  then show ?thesis
    using sum_list_om_set [OF assms, of f k v] sum_list_om_get [OF assms Some, of f]
    by (simp add: om_sum_def)
qed

lemma om_sum_del:
  fixes f :: "'v \<Rightarrow> 'n::ab_group_add"
  assumes "distinct (om_keys m)"
  shows "om_sum f (om_del m k) = om_sum f m - (case om_get m k of None \<Rightarrow> 0 | Some u \<Rightarrow> f u)"
proof (cases "om_get m k")
  case None
  then show ?thesis by (simp add: om_del_absent)
next
  case (Some u)
  then show ?thesis using sum_list_om_get [OF assms Some, of f] by (simp add: om_sum_def)
qed

lemma om_sum_nonneg:
  fixes f :: "'v \<Rightarrow> int"
  shows "(\<And>v. 0 \<le> f v) \<Longrightarrow> 0 \<le> om_sum f m"
  by (induction m) (auto simp: om_sum_def)

lemma om_sum_ge:
  fixes f :: "'v \<Rightarrow> int"
  assumes "\<And>v. 0 \<le> f v" and "om_get m k = Some v"
  shows "f v \<le> om_sum f m"
  using assms(2)
proof (induction m)
  case (Cons a m)
  have "0 \<le> om_sum f m" using assms(1) by (rule om_sum_nonneg)
  with Cons assms(1) [of "snd a"] show ?case by (cases a) (auto simp: om_sum_def split: if_splits)
qed simp

text \<open>A change of the entry of one key, when there is one.\<close>

definition om_adjust :: "('k, 'v) omap \<Rightarrow> 'k \<Rightarrow> ('v \<Rightarrow> 'v) \<Rightarrow> ('k, 'v) omap" where
  "om_adjust m k f = (case om_get m k of None \<Rightarrow> m | Some v \<Rightarrow> om_set m k (f v))"

lemma om_get_adjust [simp, alist_simps]:
  "om_get (om_adjust m k f) k' = (if k' = k then map_option f (om_get m k) else om_get m k')"
  by (simp add: om_adjust_def split: option.split)

lemma distinct_om_adjust [intro]: "distinct (om_keys m) \<Longrightarrow> distinct (om_keys (om_adjust m k f))"
  by (auto simp: om_adjust_def split: option.split)

lemma keys_om_adjust [simp]: "fst ` set (om_adjust m k f) = fst ` set m"
  by (auto simp: om_adjust_def om_get_None_iff insert_absorb split: option.split dest: om_get_Some_set)
    (metis fst_conv image_eqI om_get_Some_set)+

section \<open>Array.prototype.sort\<close>

text \<open>
  The sort of the language is stable (ECMAScript 2019 on). With a comparator that is a strict
  weak order the result does not depend on the algorithm, as the locale below proves; the model
  computes it by insertion. \<open>lt x y\<close> stands for \<open>comparator(x, y) < 0\<close>.
\<close>

fun insort_lt :: "('a \<Rightarrow> 'a \<Rightarrow> bool) \<Rightarrow> 'a \<Rightarrow> 'a list \<Rightarrow> 'a list" where
  "insort_lt lt x [] = [x]"
| "insort_lt lt x (y # ys) = (if lt y x then y # insort_lt lt x ys else x # y # ys)"

fun js_sort :: "('a \<Rightarrow> 'a \<Rightarrow> bool) \<Rightarrow> 'a list \<Rightarrow> 'a list" where
  "js_sort lt [] = []"
| "js_sort lt (x # xs) = insort_lt lt x (js_sort lt xs)"

lemma mset_insort_lt [simp]: "mset (insort_lt lt x ys) = add_mset x (mset ys)"
  by (induction ys) auto

lemma mset_js_sort [simp]: "mset (js_sort lt xs) = mset xs"
  by (induction xs) auto

lemma set_js_sort [simp]: "set (js_sort lt xs) = set xs"
  by (metis mset_js_sort set_mset_mset)

lemma length_js_sort [simp]: "length (js_sort lt xs) = length xs"
  by (metis mset_js_sort size_mset)

lemma js_sort_Nil_iff [simp]: "js_sort lt xs = [] \<longleftrightarrow> xs = []"
  by (metis length_0_conv length_js_sort)

lemma distinct_js_sort [simp]: "distinct (js_sort lt xs) = distinct xs"
  by (metis mset_js_sort mset_eq_imp_distinct_iff)

lemma insort_lt_map:
  assumes "\<And>y. y \<in> set ys \<Longrightarrow> lt (f y) (f x) = lt' y x"
  shows "insort_lt lt (f x) (map f ys) = map f (insort_lt lt' x ys)"
  using assms by (induction ys) simp_all

lemma js_sort_map:
  assumes "\<And>a b. lt (f a) (f b) = lt' a b"
  shows "js_sort lt (map f xs) = map f (js_sort lt' xs)"
proof (induction xs)
  case (Cons x xs)
  then show ?case by (simp add: insort_lt_map [of _ lt f x lt'] assms)
qed simp

lemma js_sort_const: "(\<And>a b. \<not> lt a b) \<Longrightarrow> js_sort lt xs = xs"
proof (induction xs)
  case (Cons x xs)
  then show ?case by (cases xs) simp_all
qed simp

locale strict_weak_order =
  fixes lt :: "'a \<Rightarrow> 'a \<Rightarrow> bool"
  assumes lt_asym: "lt x y \<Longrightarrow> \<not> lt y x"
    and lt_cotrans: "lt x z \<Longrightarrow> lt x y \<or> lt y z"
begin

lemma lt_irrefl: "\<not> lt x x"
  using lt_asym by blast

lemma lt_trans: "lt x y \<Longrightarrow> lt y z \<Longrightarrow> lt x z"
  using lt_asym lt_cotrans by blast

lemma not_lt_trans: "\<not> lt y x \<Longrightarrow> \<not> lt z y \<Longrightarrow> \<not> lt z x"
  using lt_cotrans by blast

lemma insort_lt_sorted:
  assumes "sorted_wrt (\<lambda>x y. \<not> lt y x) ys"
  shows "sorted_wrt (\<lambda>x y. \<not> lt y x) (insort_lt lt x ys)"
  using assms
proof (induction ys)
  case Nil
  then show ?case by simp
next
  case (Cons y ys)
  have mem: "\<And>z. z \<in> set (insort_lt lt x ys) \<longleftrightarrow> z = x \<or> z \<in> set ys"
    by (metis insert_iff mset_insort_lt set_mset_add_mset_insert set_mset_mset)
  show ?case
  proof (cases "lt y x")
    case True
    with Cons mem show ?thesis by (auto dest: lt_asym)
  next
    case False
    with Cons.prems show ?thesis using not_lt_trans by auto
  qed
qed

lemma js_sort_sorted: "sorted_wrt (\<lambda>x y. \<not> lt y x) (js_sort lt xs)"
  by (induction xs) (auto intro: insort_lt_sorted)

text \<open>Stability: elements the comparator cannot tell apart keep their order.\<close>

definition tie :: "'a \<Rightarrow> 'a \<Rightarrow> bool" where
  "tie x y \<longleftrightarrow> \<not> lt x y \<and> \<not> lt y x"

lemma insort_lt_filter_tie:
  assumes "sorted_wrt (\<lambda>x y. \<not> lt y x) ys"
  shows "filter (tie z) (insort_lt lt x ys) = filter (tie z) (x # ys)"
  using assms
proof (induction ys)
  case Nil
  then show ?case by simp
next
  case (Cons y ys)
  show ?case
  proof (cases "lt y x")
    case True
    have "\<not> (tie z x \<and> tie z y)"
      using True lt_cotrans unfolding tie_def by blast
    with True Cons show ?thesis by auto
  qed simp
qed

lemma js_sort_stable: "filter (tie z) (js_sort lt xs) = filter (tie z) xs"
  by (induction xs) (auto simp: insort_lt_filter_tie js_sort_sorted)

lemma js_sort_hd_min:
  assumes "js_sort lt xs = y # ys" and "x \<in> set xs"
  shows "\<not> lt x y"
proof -
  have "x \<in> set (y # ys)" using assms by (metis set_js_sort)
  moreover have "sorted_wrt (\<lambda>x y. \<not> lt y x) (y # ys)" using js_sort_sorted assms(1) by metis
  ultimately show ?thesis using lt_irrefl by auto
qed

end

section \<open>Runs of a state machine\<close>

text \<open>
  Every stateful component is a function of its state and an event. The locale states the
  contract \<open>an invariant that every step keeps\<close> and what follows for whole runs.
\<close>

locale machine =
  fixes step :: "'s \<Rightarrow> 'e \<Rightarrow> 's"
    and inv :: "'s \<Rightarrow> bool"
  assumes step_inv: "inv s \<Longrightarrow> inv (step s e)"
begin

lemma run_inv: "inv s \<Longrightarrow> inv (foldl step s es)"
  by (induction es arbitrary: s) (auto intro: step_inv)

lemma run_inv_prefix: "inv s \<Longrightarrow> inv (foldl step s (take n es))"
  by (rule run_inv)

lemma run_measure:
  fixes m :: "'s \<Rightarrow> nat"
  assumes "\<And>s e. inv s \<Longrightarrow> m (step s e) \<le> m s + b" and "inv s"
  shows "m (foldl step s es) \<le> m s + b * length es"
  using assms(2)
proof (induction es arbitrary: s)
  case Nil
  then show ?case by simp
next
  case (Cons e es)
  have "m (foldl step s (e # es)) \<le> m (step s e) + b * length es"
    using Cons by (simp add: step_inv)
  also have "\<dots> \<le> m s + b + b * length es"
    using assms(1) Cons.prems by simp
  finally show ?case by simp
qed

end

section \<open>Generic list lemmas\<close>

lemma find_None_filter: "find P xs = None \<longleftrightarrow> filter P xs = []"
  by (induction xs) auto

lemma find_Some_in: "find P xs = Some x \<Longrightarrow> x \<in> set xs \<and> P x"
  by (induction xs) (auto split: if_splits)

lemma filter_hd_sat: "filter P xs = y # ys \<Longrightarrow> y \<in> set xs \<and> P y"
  by (metis filter_set list.set_intros(1) Set.filter_eq mem_Collect_eq)

lemma length_filter_remove1:
  "x \<in> set xs \<Longrightarrow> int (length (filter P (remove1 x xs))) = int (length (filter P xs)) - of_bool (P x)"
  by (induction xs) auto

lemma distinct_map_remove1: "distinct (map f xs) \<Longrightarrow> distinct (map f (remove1 x xs))"
  by (induction xs) (auto dest: in_set_remove1 [THEN iffD1, rotated] notin_set_remove1)

lemma set_map_remove1:
  "distinct (map f xs) \<Longrightarrow> x \<in> set xs \<Longrightarrow> f ` set (remove1 x xs) = f ` set xs - {f x}"
  by (induction xs) (auto simp: image_iff)

lemma mset_filter_partition: "mset (filter P xs) + mset (filter (\<lambda>x. \<not> P x) xs) = mset xs"
  by (induction xs) auto

end
