(* ===== verification/JsValue.thy ===== *)
theory JsValue
  imports Prelude
begin

text \<open>
  The values the code computes with: numbers with their special values, strings, arrays and
  objects, and the operations of the language the modelled functions use on them (truthiness,
  property access, \<open>Number(v)\<close>, \<open>String(v)\<close>, \<open>JSON.stringify\<close>, \<open>toLowerCase\<close>,
  \<open>str_includes\<close>, \<open>trim\<close>).

  Numbers are exact rationals with the infinities and NaN: rounding of double-precision
  arithmetic is not modelled, the overflow of a numeric literal to an infinity is. Strings are
  lists of code units below 256 (the \<open>char\<close> type read as Latin-1), on which case mapping and
  white space are exact. Objects are insertion-ordered maps; reference identity of objects is
  not modelled.
\<close>

section \<open>Numbers\<close>

datatype jsnum = Fin rat | PInf | NInf | NaN

fun is_finite :: "jsnum \<Rightarrow> bool" where
  "is_finite (Fin _) = True"
| "is_finite _ = False"

fun num_rank :: "jsnum \<Rightarrow> nat" where
  "num_rank NInf = 0" | "num_rank (Fin _) = 1" | "num_rank PInf = 2" | "num_rank NaN = 3"

text \<open>
  A total order for keys and sorting; NaN is put above the infinities. On numbers other than NaN
  it is the order of the language.
\<close>

instantiation jsnum :: linorder
begin

definition less_eq_jsnum :: "jsnum \<Rightarrow> jsnum \<Rightarrow> bool" where
  "less_eq_jsnum x y = (case (x, y) of (Fin a, Fin b) \<Rightarrow> a \<le> b | _ \<Rightarrow> num_rank x \<le> num_rank y)"

definition less_jsnum :: "jsnum \<Rightarrow> jsnum \<Rightarrow> bool" where
  "less_jsnum x y = (case (x, y) of (Fin a, Fin b) \<Rightarrow> a < b | _ \<Rightarrow> num_rank x < num_rank y)"

instance
proof
  fix x y z :: jsnum
  show "(x < y) = (x \<le> y \<and> \<not> y \<le> x)"
    by (cases x; cases y) (auto simp: less_eq_jsnum_def less_jsnum_def)
  show "x \<le> x" by (cases x) (auto simp: less_eq_jsnum_def)
  show "x \<le> y \<Longrightarrow> y \<le> z \<Longrightarrow> x \<le> z"
    by (cases x; cases y; cases z) (auto simp: less_eq_jsnum_def)
  show "x \<le> y \<Longrightarrow> y \<le> x \<Longrightarrow> x = y"
    by (cases x; cases y) (auto simp: less_eq_jsnum_def)
  show "x \<le> y \<or> y \<le> x"
    by (cases x; cases y) (auto simp: less_eq_jsnum_def)
qed

end

lemma jsnum_less_simps [simp]:
  "Fin a < Fin b \<longleftrightarrow> a < b" "Fin a < PInf" "NInf < Fin a" "\<not> PInf < Fin a" "\<not> Fin a < NInf"
  "NInf < PInf" "Fin a < NaN" "PInf < NaN" "\<not> NaN < x"
  by (cases x; simp add: less_jsnum_def)+

lemma jsnum_le_simps [simp]:
  "Fin a \<le> Fin b \<longleftrightarrow> a \<le> b" "Fin a \<le> PInf" "NInf \<le> Fin a" "\<not> PInf \<le> Fin a" "\<not> Fin a \<le> NInf"
  by (simp_all add: less_eq_jsnum_def)

text \<open>The comparison operators: anything compared with NaN is false.\<close>

definition num_lt :: "jsnum \<Rightarrow> jsnum \<Rightarrow> bool" where
  "num_lt x y \<longleftrightarrow> x \<noteq> NaN \<and> y \<noteq> NaN \<and> x < y"

definition num_le :: "jsnum \<Rightarrow> jsnum \<Rightarrow> bool" where
  "num_le x y \<longleftrightarrow> x \<noteq> NaN \<and> y \<noteq> NaN \<and> x \<le> y"

lemma num_lt_simps [simp]:
  "num_lt (Fin a) (Fin b) \<longleftrightarrow> a < b" "num_lt (Fin a) PInf" "\<not> num_lt PInf (Fin a)"
  "\<not> num_lt NaN x" "\<not> num_lt x NaN" "\<not> num_lt PInf PInf" "\<not> num_lt (Fin a) NInf" "num_lt NInf (Fin a)"
  by (simp_all add: num_lt_def)

lemma num_le_simps [simp]:
  "num_le (Fin a) (Fin b) \<longleftrightarrow> a \<le> b" "\<not> num_le NaN x" "\<not> num_le x NaN"
  by (simp_all add: num_le_def)

fun num_neg :: "jsnum \<Rightarrow> jsnum" where
  "num_neg (Fin a) = Fin (- a)" | "num_neg PInf = NInf" | "num_neg NInf = PInf" | "num_neg NaN = NaN"

fun num_add :: "jsnum \<Rightarrow> jsnum \<Rightarrow> jsnum" where
  "num_add NaN _ = NaN" | "num_add _ NaN = NaN"
| "num_add (Fin a) (Fin b) = Fin (a + b)"
| "num_add PInf NInf = NaN" | "num_add NInf PInf = NaN"
| "num_add PInf _ = PInf" | "num_add _ PInf = PInf"
| "num_add NInf _ = NInf" | "num_add _ NInf = NInf"

definition num_sub :: "jsnum \<Rightarrow> jsnum \<Rightarrow> jsnum" where
  "num_sub x y = num_add x (num_neg y)"

definition num_sgn :: "jsnum \<Rightarrow> rat" where
  "num_sgn x = (case x of Fin a \<Rightarrow> sgn a | PInf \<Rightarrow> 1 | NInf \<Rightarrow> -1 | NaN \<Rightarrow> 0)"

fun num_mul :: "jsnum \<Rightarrow> jsnum \<Rightarrow> jsnum" where
  "num_mul (Fin a) (Fin b) = Fin (a * b)"
| "num_mul x y = (if x = NaN \<or> y = NaN then NaN
     else let s = num_sgn x * num_sgn y in if s = 0 then NaN else if 0 < s then PInf else NInf)"

text \<open>Division, for a nonzero finite divisor (the only ones the code divides by).\<close>

definition num_div :: "jsnum \<Rightarrow> rat \<Rightarrow> jsnum" where
  "num_div x d = (case x of Fin a \<Rightarrow> (if d = 0 then (if a = 0 then NaN else if 0 < a then PInf else NInf)
      else Fin (a / d))
    | PInf \<Rightarrow> if d < 0 then NInf else PInf | NInf \<Rightarrow> if d < 0 then PInf else NInf | NaN \<Rightarrow> NaN)"

definition num_floor :: "jsnum \<Rightarrow> jsnum" where
  "num_floor x = (case x of Fin a \<Rightarrow> Fin (of_int \<lfloor>a\<rfloor>) | y \<Rightarrow> y)"

text \<open>Numeric zero and NaN are falsy.\<close>

fun num_truthy :: "jsnum \<Rightarrow> bool" where
  "num_truthy (Fin a) = (a \<noteq> 0)" | "num_truthy NaN = False" | "num_truthy _ = True"

definition is_integer_num :: "jsnum \<Rightarrow> bool" where
  "is_integer_num x = (case x of Fin a \<Rightarrow> of_int \<lfloor>a\<rfloor> = a | _ \<Rightarrow> False)"

section \<open>Strings\<close>

definition lower_char :: "char \<Rightarrow> char" where
  "lower_char c = (let n = of_char c :: nat in
     if (65 \<le> n \<and> n \<le> 90) \<or> (192 \<le> n \<and> n \<le> 222 \<and> n \<noteq> 215) then char_of (n + 32) else c)"

text \<open>Characters compare through binary integers when the model is evaluated.\<close>

lemma of_char_int: "(of_char c :: int) = int (of_char c)"
  by (rule of_nat_of_char [symmetric])

lemma lower_char_code [code]: "lower_char c = (let n = of_char c :: int in
     if (65 \<le> n \<and> n \<le> 90) \<or> (192 \<le> n \<and> n \<le> 222 \<and> n \<noteq> 215) then char_of (n + 32) else c)"
proof -
  have "char_of (of_char c + 32 :: int) = (char_of (of_char c + 32 :: nat) :: char)"
    by (metis char_of_nat of_nat_add of_nat_numeral of_char_int)
  then show ?thesis by (simp add: lower_char_def Let_def of_char_int)
qed

definition to_lower :: "string \<Rightarrow> string" where
  "to_lower s = map lower_char s"

fun starts_with :: "string \<Rightarrow> string \<Rightarrow> bool" where
  "starts_with s [] = True"
| "starts_with [] (p # ps) = False"
| "starts_with (c # cs) (p # ps) = (c = p \<and> starts_with cs ps)"

text \<open>\<open>s.includes(p)\<close>\<close>

fun str_includes :: "string \<Rightarrow> string \<Rightarrow> bool" where
  "str_includes [] p = (p = [])"
| "str_includes (c # cs) p = (starts_with (c # cs) p \<or> str_includes cs p)"

lemma starts_with_iff: "starts_with s p \<longleftrightarrow> (\<exists>v. s = p @ v)"
  by (induction s p rule: starts_with.induct) auto

lemma includes_iff: "str_includes s p \<longleftrightarrow> (\<exists>u v. s = u @ p @ v)"
proof (induction s)
  case Nil
  then show ?case by auto
next
  case (Cons c cs)
  show ?case
  proof
    assume "str_includes (c # cs) p"
    then consider "starts_with (c # cs) p" | "str_includes cs p" by auto
    then show "\<exists>u v. c # cs = u @ p @ v"
    proof cases
      case 1
      then show ?thesis by (metis starts_with_iff append_Nil)
    next
      case 2
      then show ?thesis using Cons by (metis append_Cons)
    qed
  next
    assume "\<exists>u v. c # cs = u @ p @ v"
    then obtain u v where uv: "c # cs = u @ p @ v" by blast
    show "str_includes (c # cs) p"
    proof (cases u)
      case Nil
      with uv have "starts_with (c # cs) p" unfolding starts_with_iff by simp
      then show ?thesis by simp
    next
      case (Cons a u')
      with uv have "cs = u' @ p @ v" by simp
      then show ?thesis using Cons.IH by auto
    qed
  qed
qed

lemma includes_append: "str_includes s p \<Longrightarrow> str_includes (u @ s @ v) p"
  unfolding includes_iff by (metis append.assoc)

definition is_ws :: "char \<Rightarrow> bool" where
  "is_ws c = (let n = of_char c :: nat in (9 \<le> n \<and> n \<le> 13) \<or> n = 32 \<or> n = 160)"

lemma is_ws_code [code]: "is_ws c = (let n = of_char c :: int in (9 \<le> n \<and> n \<le> 13) \<or> n = 32 \<or> n = 160)"
  by (simp add: is_ws_def Let_def of_char_int)

definition trim :: "string \<Rightarrow> string" where
  "trim s = rev (dropWhile is_ws (rev (dropWhile is_ws s)))"

text \<open>\<open>s.split("/").pop()\<close>\<close>

definition last_segment :: "string \<Rightarrow> string" where
  "last_segment s = rev (takeWhile (\<lambda>c. c \<noteq> CHR ''/'') (rev s))"

lemma last_segment_no_slash: "CHR ''/'' \<notin> set s \<Longrightarrow> last_segment s = s"
  unfolding last_segment_def by (subst takeWhile_eq_all_conv [THEN iffD2]) auto

lemma last_segment_clean: "CHR ''/'' \<notin> set (last_segment s)"
  by (auto simp: last_segment_def dest: set_takeWhileD)

definition is_digit :: "char \<Rightarrow> bool" where
  "is_digit c = (let n = of_char c :: nat in 48 \<le> n \<and> n \<le> 57)"

lemma is_digit_code [code]: "is_digit c = (let n = of_char c :: int in 48 \<le> n \<and> n \<le> 57)"
  by (simp add: is_digit_def Let_def of_char_int)

definition digit_val :: "char \<Rightarrow> nat" where
  "digit_val c = of_char c - 48"

definition digit_char :: "nat \<Rightarrow> char" where
  "digit_char d = char_of (48 + d)"

text \<open>Decimal numerals and their values.\<close>

fun nat_str :: "nat \<Rightarrow> string" where
  "nat_str n = (if n < 10 then [digit_char n] else nat_str (n div 10) @ [digit_char (n mod 10)])"

declare nat_str.simps [simp del]

definition digits_val :: "string \<Rightarrow> nat" where
  "digits_val s = foldl (\<lambda>a c. 10 * a + digit_val c) 0 s"

text \<open>The same numerals over binary integers, for evaluation.\<close>

definition pos_str :: "int \<Rightarrow> string" where
  "pos_str k = nat_str (nat k)"

lemma nat_str_nat [code_unfold]: "nat_str (nat k) = pos_str k"
  by (simp add: pos_str_def)

lemma pos_str_code [code]:
  "pos_str k = (if k < 10 then [char_of (48 + max 0 k)] else pos_str (k div 10) @ [char_of (48 + k mod 10)])"
proof -
  have c: "char_of (48 + int n) = (char_of (48 + n) :: char)" for n
    by (metis char_of_nat of_nat_add of_nat_numeral)
  show ?thesis
  proof (cases "k < 10")
    case True
    then have "nat k < 10" by simp
    then show ?thesis using True c [of "nat k"]
      by (simp add: pos_str_def nat_str.simps [of "nat k"] digit_char_def max_def)
  next
    case False
    then have "nat (k div 10) = nat k div 10" "nat (k mod 10) = nat k mod 10" "\<not> nat k < 10" "int (nat k mod 10) = k mod 10"
      by (simp_all add: nat_div_distrib nat_mod_distrib zmod_int)
    then show ?thesis using False c [of "nat k mod 10"]
      by (simp add: pos_str_def nat_str.simps [of "nat k"] digit_char_def)
  qed
qed

definition digits_int :: "string \<Rightarrow> int" where
  "digits_int s = int (digits_val s)"

lemma digits_int_unfold [code_unfold]:
  "int (digits_val s) = digits_int s" "(of_nat (digits_val s) :: rat) = of_int (digits_int s)"
  by (simp_all add: digits_int_def)

lemma digits_int_code [code]: "digits_int s = foldl (\<lambda>a c. 10 * a + max 0 (of_char c - 48)) 0 s"
proof -
  have "int (foldl (\<lambda>a c. 10 * a + digit_val c) n s) = foldl (\<lambda>a c. 10 * a + max 0 (of_char c - 48)) (int n) s" for n
    by (induction s arbitrary: n) (simp_all add: digit_val_def of_char_int max_def of_nat_diff)
  from this [of 0] show ?thesis by (simp add: digits_int_def digits_val_def)
qed

definition int_str :: "int \<Rightarrow> string" where
  "int_str i = (if i < 0 then CHR ''-'' # nat_str (nat (- i)) else nat_str (nat i))"

lemma of_char_digit_char: "d < 10 \<Longrightarrow> of_char (digit_char d) = (48 + d :: nat)"
  by (simp add: digit_char_def of_char_of)

lemma digit_val_char [simp]: "d < 10 \<Longrightarrow> digit_val (digit_char d) = d"
  by (simp add: digit_val_def of_char_digit_char)

lemma is_digit_char [simp]: "d < 10 \<Longrightarrow> is_digit (digit_char d)"
  by (simp add: is_digit_def of_char_digit_char)

lemma digits_val_append: "digits_val (s @ [c]) = 10 * digits_val s + digit_val c"
  by (simp add: digits_val_def)

lemma digits_val_nat_str [simp]: "digits_val (nat_str n) = n"
proof (induction n rule: nat_str.induct)
  case (1 n)
  show ?case
  proof (cases "n < 10")
    case True
    then show ?thesis by (subst nat_str.simps) (simp add: digits_val_def)
  next
    case False
    with 1 show ?thesis
      by (subst nat_str.simps) (simp add: digits_val_append)
  qed
qed

lemma nat_str_digits: "\<forall>c \<in> set (nat_str n). is_digit c"
proof (induction n rule: nat_str.induct)
  case (1 n)
  then show ?case by (subst nat_str.simps) auto
qed

lemma nat_str_not_Nil [simp]: "nat_str n \<noteq> []"
  by (subst nat_str.simps) simp

text \<open>The order of texts, by code units: \<open>s <= t\<close>.\<close>

fun str_le :: "string \<Rightarrow> string \<Rightarrow> bool" where
  "str_le [] t = True"
| "str_le (c # s) [] = False"
| "str_le (c # s) (d # t) = (if c = d then str_le s t else (of_char c :: nat) < of_char d)"

lemma str_le_refl [simp]: "str_le s s"
  by (induction s) auto

text \<open>
  \<open>Number(s)\<close> on a string: white space around it is ignored, the empty string is 0, then an
  infinity, a hexadecimal, octal or binary integer, or a decimal literal.
\<close>

definition round_num :: "rat \<Rightarrow> jsnum" where
  "round_num r = (if 2 ^ 1024 - 2 ^ 970 \<le> r then PInf else if r \<le> - (2 ^ 1024 - 2 ^ 970) then NInf else Fin r)"

lemma round_num_small [code]:
  "round_num r = (if - 1000000000000000000000 < r \<and> r < 1000000000000000000000 then Fin r
     else if 2 ^ 1024 - 2 ^ 970 \<le> r then PInf else if r \<le> - (2 ^ 1024 - 2 ^ 970) then NInf else Fin r)"
proof -
  define M :: rat where "M = 2 ^ 1024 - 2 ^ 970"
  have m: "1000000000000000000000 \<le> M" by (simp add: M_def)
  show ?thesis unfolding round_num_def M_def [symmetric] using m by auto
qed

definition hex_val :: "char \<Rightarrow> nat option" where
  "hex_val c = (let n = of_char c :: nat in
     if 48 \<le> n \<and> n \<le> 57 then Some (n - 48) else if 97 \<le> n \<and> n \<le> 102 then Some (n - 87)
     else if 65 \<le> n \<and> n \<le> 70 then Some (n - 55) else None)"

fun radix_val :: "nat \<Rightarrow> nat \<Rightarrow> string \<Rightarrow> nat option" where
  "radix_val b acc [] = Some acc"
| "radix_val b acc (c # cs) = (case hex_val c of None \<Rightarrow> None
     | Some d \<Rightarrow> if d < b then radix_val b (b * acc + d) cs else None)"

definition radix_of :: "char \<Rightarrow> nat" where
  "radix_of c = (if c \<in> {CHR ''x'', CHR ''X''} then 16 else if c \<in> {CHR ''o'', CHR ''O''} then 8
     else if c \<in> {CHR ''b'', CHR ''B''} then 2 else 0)"

definition exponent_val :: "string \<Rightarrow> int option" where
  "exponent_val s = (case s of [] \<Rightarrow> None
     | c # ds \<Rightarrow> let body = (if c \<in> {CHR ''+'', CHR ''-''} then ds else s)
       in if body = [] \<or> \<not> list_all is_digit body then None
          else Some ((if c = CHR ''-'' then -1 else 1) * int (digits_val body)))"

definition pow10 :: "int \<Rightarrow> rat" where
  "pow10 e = (if 0 \<le> e then 10 ^ nat e else 1 / 10 ^ nat (- e))"

definition unsigned_decimal :: "string \<Rightarrow> rat option" where
  "unsigned_decimal s =
     (let ip = takeWhile is_digit s; r1 = dropWhile is_digit s;
          (fp, r2) = (case r1 of [] \<Rightarrow> ([], [])
             | c # cs \<Rightarrow> if c = CHR ''.'' then (takeWhile is_digit cs, dropWhile is_digit cs) else ([], r1));
          ex = (case r2 of [] \<Rightarrow> Some 0
             | c # cs \<Rightarrow> if c \<in> {CHR ''e'', CHR ''E''} then exponent_val cs else None)
      in if ip = [] \<and> fp = [] then None
         else map_option (\<lambda>e. of_nat (digits_val (ip @ fp)) * pow10 (e - int (length fp))) ex)"

definition string_to_number :: "string \<Rightarrow> jsnum" where
  "string_to_number s0 =
     (let s = trim s0
      in if s = [] then Fin 0
         else if s = ''Infinity'' \<or> s = ''+Infinity'' then PInf
         else if s = ''-Infinity'' then NInf
         else if hd s = CHR ''0'' \<and> 2 < length s \<and> radix_of (s ! 1) \<noteq> 0
              then (case radix_val (radix_of (s ! 1)) 0 (drop 2 s) of None \<Rightarrow> NaN
                     | Some n \<Rightarrow> round_num (of_nat n))
         else let neg = (hd s = CHR ''-''); body = (if hd s \<in> {CHR ''+'', CHR ''-''} then tl s else s)
              in case unsigned_decimal body of None \<Rightarrow> NaN
                 | Some r \<Rightarrow> round_num (if neg then - r else r))"

section \<open>Values\<close>

datatype jv = Undef | Null | Bool bool | Num jsnum | Str string | Arr "jv list" | Obj "(string \<times> jv) list"

abbreviation JInt :: "int \<Rightarrow> jv" where
  "JInt i \<equiv> Num (Fin (of_int i))"

fun truthy :: "jv \<Rightarrow> bool" where
  "truthy Undef = False" | "truthy Null = False" | "truthy (Bool b) = b"
| "truthy (Num n) = num_truthy n" | "truthy (Str s) = (s \<noteq> [])"
| "truthy (Arr _) = True" | "truthy (Obj _) = True"

text \<open>\<open>o?.k\<close>; on a value that is no object the property is absent.\<close>

fun get :: "jv \<Rightarrow> string \<Rightarrow> jv" where
  "get (Obj m) k = (case om_get m k of None \<Rightarrow> Undef | Some v \<Rightarrow> v)"
| "get _ k = Undef"

fun has_own :: "jv \<Rightarrow> string \<Rightarrow> bool" where
  "has_own (Obj m) k = (om_get m k \<noteq> None)"
| "has_own _ k = False"

fun is_nullish :: "jv \<Rightarrow> bool" where
  "is_nullish Undef = True" | "is_nullish Null = True" | "is_nullish _ = False"

text \<open>\<open>a ?? b\<close> and \<open>a || b\<close>\<close>

definition coalesce :: "jv \<Rightarrow> jv \<Rightarrow> jv" where
  "coalesce a b = (if is_nullish a then b else a)"

definition js_or :: "jv \<Rightarrow> jv \<Rightarrow> jv" where
  "js_or a b = (if truthy a then a else b)"

fun is_array :: "jv \<Rightarrow> bool" where
  "is_array (Arr _) = True" | "is_array _ = False"

fun is_string :: "jv \<Rightarrow> bool" where
  "is_string (Str _) = True" | "is_string _ = False"

fun is_bool :: "jv \<Rightarrow> bool" where
  "is_bool (Bool _) = True" | "is_bool _ = False"

text \<open>\<open>v && typeof v === "object"\<close>\<close>

fun is_object :: "jv \<Rightarrow> bool" where
  "is_object (Arr _) = True" | "is_object (Obj _) = True" | "is_object _ = False"

fun arr_items :: "jv \<Rightarrow> jv list" where
  "arr_items (Arr xs) = xs" | "arr_items _ = []"

fun obj_entries :: "jv \<Rightarrow> (string \<times> jv) list" where
  "obj_entries (Obj m) = m" | "obj_entries _ = []"

text \<open>
  Strict equality. Two objects are never equal here: the code compares primitives only, and
  identity of references is outside the model.
\<close>

fun seq :: "jv \<Rightarrow> jv \<Rightarrow> bool" where
  "seq (Num a) (Num b) = (a = b \<and> a \<noteq> NaN)"
| "seq (Arr _) _ = False" | "seq (Obj _) _ = False"
| "seq a b = (a = b)"

text \<open>Decimal output of a number with at most 20 fractional digits.\<close>

definition dec_digits :: "rat \<Rightarrow> nat option" where
  "dec_digits r = find (\<lambda>k. of_int \<lfloor>r * 10 ^ k\<rfloor> = r * 10 ^ k) [0..<21]"

definition pad_left :: "nat \<Rightarrow> string \<Rightarrow> string" where
  "pad_left n s = replicate (n - length s) (CHR ''0'') @ s"

definition rat_str :: "rat \<Rightarrow> string" where
  "rat_str r = (let a = \<bar>r\<bar>; k = (case dec_digits a of None \<Rightarrow> 20 | Some k \<Rightarrow> k);
       ip = nat \<lfloor>a\<rfloor>; fp = nat \<lfloor>(a - of_int \<lfloor>a\<rfloor>) * 10 ^ k\<rfloor>
     in (if r < 0 then ''-'' else []) @ nat_str ip @ (if k = 0 then [] else CHR ''.'' # pad_left k (nat_str fp)))"

lemma rat_str_code [code]: "rat_str r = (let a = \<bar>r\<bar>; k = (case dec_digits a of None \<Rightarrow> 20 | Some k \<Rightarrow> k)
     in (if r < 0 then ''-'' else []) @ pos_str \<lfloor>a\<rfloor>
       @ (if k = 0 then [] else CHR ''.'' # pad_left k (pos_str \<lfloor>(a - of_int \<lfloor>a\<rfloor>) * 10 ^ k\<rfloor>)))"
  by (simp add: rat_str_def pos_str_def Let_def)

fun num_str :: "jsnum \<Rightarrow> string" where
  "num_str (Fin r) = rat_str r"
| "num_str PInf = ''Infinity''" | "num_str NInf = ''-Infinity''" | "num_str NaN = ''NaN''"

fun join_with :: "string \<Rightarrow> string list \<Rightarrow> string" where
  "join_with sep [] = []"
| "join_with sep [x] = x"
| "join_with sep (x # y # ys) = x @ sep @ join_with sep (y # ys)"

text \<open>\<open>String(v)\<close>\<close>

fun jstr :: "jv \<Rightarrow> string" where
  "jstr Undef = ''undefined''" | "jstr Null = ''null''"
| "jstr (Bool b) = (if b then ''true'' else ''false'')"
| "jstr (Num n) = num_str n" | "jstr (Str s) = s"
| "jstr (Arr xs) = join_with '','' (map (\<lambda>x. if is_nullish x then [] else jstr x) xs)"
| "jstr (Obj _) = ''[object Object]''"

text \<open>\<open>Number(v)\<close>\<close>

fun to_number :: "jv \<Rightarrow> jsnum" where
  "to_number Undef = NaN" | "to_number Null = Fin 0"
| "to_number (Bool b) = Fin (if b then 1 else 0)"
| "to_number (Num n) = n" | "to_number (Str s) = string_to_number s"
| "to_number (Arr xs) = string_to_number (jstr (Arr xs))"
| "to_number (Obj _) = NaN"

text \<open>\<open>JSON.stringify(v)\<close>; \<open>None\<close> is \<open>undefined\<close>.\<close>

definition json_escape_char :: "char \<Rightarrow> string" where
  "json_escape_char c = (let n = of_char c :: nat in
     if n = 34 then [char_of (92::nat), c] else if n = 92 then [c, c]
     else if n = 8 then [char_of (92::nat), CHR ''b''] else if n = 9 then [char_of (92::nat), CHR ''t'']
     else if n = 10 then [char_of (92::nat), CHR ''n''] else if n = 12 then [char_of (92::nat), CHR ''f'']
     else if n = 13 then [char_of (92::nat), CHR ''r'']
     else if n < 32 then [char_of (92::nat)] @ ''u00'' @ [digit_char (n div 16)]
       @ [if n mod 16 < 10 then digit_char (n mod 16) else char_of (87 + n mod 16)]
     else [c])"

definition json_quote :: "string \<Rightarrow> string" where
  "json_quote s = CHR 0x22 # concat (map json_escape_char s) @ [CHR 0x22]"

fun json_str :: "jv \<Rightarrow> string option" where
  "json_str Undef = None" | "json_str Null = Some ''null''"
| "json_str (Bool b) = Some (if b then ''true'' else ''false'')"
| "json_str (Num n) = Some (if is_finite n then num_str n else ''null'')"
| "json_str (Str s) = Some (json_quote s)"
| "json_str (Arr xs) = Some (''['' @ join_with '',''
     (map (\<lambda>x. case json_str x of None \<Rightarrow> ''null'' | Some s \<Rightarrow> s) xs) @ '']'')"
| "json_str (Obj m) = Some (''{'' @ join_with '','' (concat
     (map (\<lambda>(k, v). case json_str v of None \<Rightarrow> [] | Some s \<Rightarrow> [json_quote k @ '':'' @ s]) m)) @ ''}'')"

lemma seq_refl_iff: "seq a a \<longleftrightarrow> a \<noteq> Num NaN \<and> \<not> is_object a"
  by (cases a) auto

lemma seq_Str [simp]: "seq (Str a) (Str b) \<longleftrightarrow> a = b"
  by simp

lemma seq_imp_eq: "seq a b \<Longrightarrow> a = b"
  by (cases "(a, b)" rule: seq.cases) auto

lemma truthy_get_Obj: "truthy (get v k) \<Longrightarrow> \<exists>m. v = Obj m"
  by (cases v) auto

end
