(* ===== verification/JsDate.thy ===== *)
theory JsDate
  imports JsValue "HOL-Library.Monad_Syntax"
begin

text \<open>
  Instants: \<open>Date.parse\<close>, \<open>new Date(v).getTime()\<close> and \<open>toISOString\<close>, on the proleptic
  Gregorian calendar. The parser reads the ISO format of the language (four-digit and signed
  six-digit years, date only or date and time, \<open>Z\<close> or an offset; a date-time without an offset is
  read in a process that runs in UTC); the implementation-defined formats an engine may also accept
  are not modelled and read as invalid. An invalid date is \<open>None\<close>.
  The main lemma is the round trip \<open>date_parse_to_iso\<close> over the whole range of time values.
\<close>

section \<open>Calendar\<close>

definition days_from_civil :: "int \<Rightarrow> int \<Rightarrow> int \<Rightarrow> int" where
  "days_from_civil y0 m d =
     (let y = (if m \<le> 2 then y0 - 1 else y0); yoe = y mod 400; mp = (m + 9) mod 12;
          doy = (153 * mp + 2) div 5 + d - 1; doe = yoe * 365 + yoe div 4 - yoe div 100 + doy
      in (y div 400) * 146097 + doe - 719468)"

text \<open>
  A day of a 400-year era splits in mixed radix into centuries, four-year cycles, years and the
  day of the year; years start in March.
\<close>

definition split_era :: "int \<Rightarrow> int \<times> int" where
  "split_era doe =
     (let c = min 3 (doe div 36524); r = doe - 36524 * c; q = r div 1461; s = r - 1461 * q;
          n = min 3 (s div 365)
      in (100 * c + 4 * q + n, s - 365 * n))"

definition civil_from_days :: "int \<Rightarrow> int \<times> int \<times> int" where
  "civil_from_days z0 =
     (let z = z0 + 719468; (yoe, doy) = split_era (z mod 146097); mp = (5 * doy + 2) div 153;
          d = doy - (153 * mp + 2) div 5 + 1; m = (if mp < 10 then mp + 3 else mp - 9);
          y = yoe + (z div 146097) * 400 + (if m \<le> 2 then 1 else 0)
      in (y, m, d))"

definition is_leap :: "int \<Rightarrow> bool" where
  "is_leap y \<longleftrightarrow> y mod 4 = 0 \<and> (y mod 100 \<noteq> 0 \<or> y mod 400 = 0)"

definition days_in_month :: "int \<Rightarrow> int \<Rightarrow> int" where
  "days_in_month y m = (if m = 2 then (if is_leap y then 29 else 28)
     else if m \<in> {4, 6, 9, 11} then 30 else 31)"

abbreviation ms_per_day :: int where "ms_per_day \<equiv> 86400000"

abbreviation max_time :: int where "max_time \<equiv> 8640000000000000"

definition time_clip :: "int \<Rightarrow> int option" where
  "time_clip t = (if \<bar>t\<bar> \<le> max_time then Some t else None)"

section \<open>toISOString\<close>

definition pad_num :: "nat \<Rightarrow> int \<Rightarrow> string" where
  "pad_num n k = pad_left n (nat_str (nat k))"

definition year_str :: "int \<Rightarrow> string" where
  "year_str y = (if 0 \<le> y \<and> y \<le> 9999 then pad_num 4 y
     else (if y < 0 then CHR ''-'' else CHR ''+'') # pad_num 6 \<bar>y\<bar>)"

definition to_iso :: "int \<Rightarrow> string" where
  "to_iso t =
     (let (y, m, d) = civil_from_days (t div ms_per_day); tod = t mod ms_per_day
      in year_str y @ ''-'' @ pad_num 2 m @ ''-'' @ pad_num 2 d @ ''T'' @ pad_num 2 (tod div 3600000)
         @ '':'' @ pad_num 2 (tod div 60000 mod 60) @ '':'' @ pad_num 2 (tod div 1000 mod 60)
         @ ''.'' @ pad_num 3 (tod mod 1000) @ ''Z'')"

section \<open>Date.parse\<close>

definition take_num :: "nat \<Rightarrow> string \<Rightarrow> (int \<times> string) option" where
  "take_num n s = (if n \<le> length s \<and> list_all is_digit (take n s)
     then Some (int (digits_val (take n s)), drop n s) else None)"

definition expect :: "char \<Rightarrow> string \<Rightarrow> string option" where
  "expect c s = (case s of [] \<Rightarrow> None | x # xs \<Rightarrow> if x = c then Some xs else None)"

definition parse_year :: "string \<Rightarrow> (int \<times> string) option" where
  "parse_year s = (case s of [] \<Rightarrow> None
     | c # cs \<Rightarrow> if c = CHR ''+'' then take_num 6 cs
         else if c = CHR ''-'' then (case take_num 6 cs of None \<Rightarrow> None
           | Some (y, r) \<Rightarrow> if y = 0 then None else Some (- y, r))
         else take_num 4 s)"

text \<open>\<open>-MM\<close> and \<open>-DD\<close>, each absent as 1.\<close>

definition parse_dash2 :: "string \<Rightarrow> (int \<times> string) option" where
  "parse_dash2 s = (case s of [] \<Rightarrow> Some (1, [])
     | c # cs \<Rightarrow> if c = CHR ''-'' then take_num 2 cs else Some (1, s))"

definition parse_fraction :: "string \<Rightarrow> (int \<times> string) option" where
  "parse_fraction s = (case s of [] \<Rightarrow> Some (0, [])
     | c # cs \<Rightarrow> if c = CHR ''.'' then
         (let ds = takeWhile is_digit cs in if ds = [] then None
          else Some (int (digits_val (take 3 (ds @ ''00''))), dropWhile is_digit cs))
       else Some (0, s))"

definition parse_seconds :: "string \<Rightarrow> (int \<times> int \<times> string) option" where
  "parse_seconds s = (case s of [] \<Rightarrow> Some (0, 0, [])
     | c # cs \<Rightarrow> if c = CHR '':'' then do {
           (sec, r) \<leftarrow> take_num 2 cs;
           (ms, r) \<leftarrow> parse_fraction r;
           Some (sec, ms, r) }
       else Some (0, 0, s))"

definition parse_zone :: "string \<Rightarrow> int option" where
  "parse_zone s = (case s of [] \<Rightarrow> Some 0
     | c # cs \<Rightarrow> if c = CHR ''Z'' then (if cs = [] then Some 0 else None)
       else if c = CHR ''+'' \<or> c = CHR ''-'' then do {
           (h, r) \<leftarrow> take_num 2 cs;
           r \<leftarrow> expect CHR '':'' r;
           (m, r) \<leftarrow> take_num 2 r;
           (if r = [] \<and> h \<le> 23 \<and> m \<le> 59
            then Some ((if c = CHR ''-'' then -1 else 1) * (h * 3600000 + m * 60000)) else None) }
       else None)"

definition parse_time :: "string \<Rightarrow> int option" where
  "parse_time s = do {
     (h, r) \<leftarrow> take_num 2 s;
     r \<leftarrow> expect CHR '':'' r;
     (mi, r) \<leftarrow> take_num 2 r;
     (sec, ms, r) \<leftarrow> parse_seconds r;
     off \<leftarrow> parse_zone r;
     (if mi \<le> 59 \<and> sec \<le> 59 \<and> (h \<le> 23 \<or> h = 24 \<and> mi = 0 \<and> sec = 0 \<and> ms = 0)
      then Some (h * 3600000 + mi * 60000 + sec * 1000 + ms - off) else None) }"

definition date_parse :: "string \<Rightarrow> int option" where
  "date_parse s = do {
     (y, r) \<leftarrow> parse_year s;
     (m, r) \<leftarrow> parse_dash2 r;
     (d, r) \<leftarrow> parse_dash2 r;
     tod \<leftarrow> (if r = [] then Some 0 else do { r \<leftarrow> expect CHR ''T'' r; parse_time r });
     (if 1 \<le> m \<and> m \<le> 12 \<and> 1 \<le> d \<and> d \<le> days_in_month y m
      then time_clip (days_from_civil y m d * ms_per_day + tod) else None) }"

text \<open>\<open>new Date(v).getTime()\<close>\<close>

definition num_to_time :: "jsnum \<Rightarrow> int option" where
  "num_to_time x = (case x of Fin r \<Rightarrow> time_clip (if 0 \<le> r then \<lfloor>r\<rfloor> else \<lceil>r\<rceil>) | _ \<Rightarrow> None)"

fun date_of :: "jv \<Rightarrow> int option" where
  "date_of Undef = None" | "date_of Null = Some 0" | "date_of (Bool b) = Some (if b then 1 else 0)"
| "date_of (Num n) = num_to_time n" | "date_of (Str s) = date_parse s"
| "date_of (Arr xs) = date_parse (jstr (Arr xs))" | "date_of (Obj _) = None"

section \<open>The round trip\<close>

lemma length_nat_str: "0 < n \<Longrightarrow> k < 10 ^ n \<Longrightarrow> length (nat_str k) \<le> n"
proof (induction n arbitrary: k)
  case 0
  then show ?case by simp
next
  case (Suc n)
  show ?case
  proof (cases "k < 10")
    case True
    then show ?thesis by (subst nat_str.simps) simp
  next
    case False
    with Suc.prems have "0 < n" by (cases n) auto
    moreover have "k div 10 < 10 ^ n" using Suc.prems by (simp add: less_mult_imp_div_less mult.commute)
    ultimately have "length (nat_str (k div 10)) \<le> n" by (rule Suc.IH)
    with False show ?thesis by (subst nat_str.simps) simp
  qed
qed

lemma digits_val_zeros: "digits_val (replicate j (CHR ''0'') @ s) = digits_val s"
  by (induction j) (simp_all add: digits_val_def digit_val_def)

lemma is_digit_zero [simp]: "is_digit (CHR ''0'')"
  by (simp add: is_digit_def)

lemma length_pad_num [simp]:
  "0 < n \<Longrightarrow> 0 \<le> k \<Longrightarrow> k < 10 ^ n \<Longrightarrow> length (pad_num n k) = n"
  using length_nat_str [of n "nat k"] by (simp add: pad_num_def pad_left_def nat_less_iff)

lemma digits_pad_num: "list_all is_digit (pad_num n k)"
  using nat_str_digits by (auto simp: pad_num_def pad_left_def list_all_iff)

lemma take_num_pad [simp]:
  assumes "0 < n" "0 \<le> k" "k < 10 ^ n"
  shows "take_num n (pad_num n k @ r) = Some (k, r)"
proof -
  have "digits_val (pad_num n k) = nat k"
    by (simp add: pad_num_def pad_left_def digits_val_zeros)
  with assms show ?thesis by (simp add: take_num_def digits_pad_num)
qed

lemma takeWhile_digits_pad:
  "\<not> is_digit c \<Longrightarrow> takeWhile is_digit (pad_num n k @ c # r) = pad_num n k"
  "\<not> is_digit c \<Longrightarrow> dropWhile is_digit (pad_num n k @ c # r) = c # r"
  using digits_pad_num [of n k] by (simp_all add: list_all_iff takeWhile_append2 dropWhile_append2)

lemma pad_num_Cons:
  assumes "0 < n" "0 \<le> k" "k < 10 ^ n"
  shows "\<exists>c cs. pad_num n k = c # cs \<and> is_digit c"
  using length_pad_num [OF assms] digits_pad_num [of n k] assms(1)
  by (cases "pad_num n k") auto

lemma parse_year_str:
  assumes "-999999 \<le> y" "y \<le> 999999"
  shows "parse_year (year_str y @ r) = Some (y, r)"
proof (cases "0 \<le> y \<and> y \<le> 9999")
  case True
  then obtain c cs where c: "pad_num 4 y = c # cs" "is_digit c" using pad_num_Cons [of 4 y] by auto
  have nc: "c \<noteq> CHR ''+''" "c \<noteq> CHR ''-''" using c(2) by (auto simp: is_digit_def)
  have "take_num 4 (pad_num 4 y @ r) = Some (y, r)" using True by simp
  with c nc True show ?thesis by (simp add: parse_year_def year_str_def)
next
  case False
  with assms show ?thesis by (auto simp: parse_year_def year_str_def)
qed

lemma parse_clock:
  assumes "0 \<le> h" "h \<le> 23" "0 \<le> mi" "mi \<le> 59" "0 \<le> sec" "sec \<le> 59" "0 \<le> ms" "ms \<le> 999"
  shows "parse_time (pad_num 2 h @ CHR '':'' # pad_num 2 mi @ CHR '':'' # pad_num 2 sec
     @ CHR ''.'' # pad_num 3 ms @ ''Z'') = Some (h * 3600000 + mi * 60000 + sec * 1000 + ms)"
proof -
  have len: "length (pad_num 3 ms) = 3" using assms by simp
  have "digits_val (take 3 (pad_num 3 ms @ ''00'')) = nat ms"
    using len by (simp add: pad_num_def pad_left_def digits_val_zeros)
  moreover have "\<not> is_digit (CHR ''Z'')" by (simp add: is_digit_def)
  ultimately have "parse_fraction (CHR ''.'' # pad_num 3 ms @ ''Z'') = Some (ms, ''Z'')" using len assms
    by (simp add: parse_fraction_def takeWhile_digits_pad)
      (auto simp: takeWhile_digits_pad length_0_conv [symmetric] simp del: length_0_conv)
  then have sec: "parse_seconds (CHR '':'' # pad_num 2 sec @ CHR ''.'' # pad_num 3 ms @ ''Z'')
      = Some (sec, ms, ''Z'')"
    using assms by (simp add: parse_seconds_def)
  show ?thesis using assms by (simp add: parse_time_def expect_def sec parse_zone_def)
qed

lemma clock_sum:
  fixes t :: int
  assumes "t = s * 1000 + a" "s = m * 60 + b" "m = h * 60 + c"
  shows "h * 3600000 + c * 60000 + b * 1000 + a = t"
  using assms by simp

lemma parse_iso_time:
  assumes "0 \<le> tod" "tod < ms_per_day"
  shows "parse_time (pad_num 2 (tod div 3600000) @ CHR '':'' # pad_num 2 (tod div 60000 mod 60)
     @ CHR '':'' # pad_num 2 (tod div 1000 mod 60) @ CHR ''.'' # pad_num 3 (tod mod 1000) @ ''Z'') = Some tod"
proof -
  have b: "0 \<le> tod div 3600000" "tod div 3600000 \<le> 23" using assms by auto
  have sum: "(tod div 3600000) * 3600000 + (tod div 60000 mod 60) * 60000 + (tod div 1000 mod 60) * 1000
      + tod mod 1000 = tod"
  proof (rule clock_sum)
    have "tod div 60000 = tod div 1000 div 60" "tod div 3600000 = tod div 1000 div 60 div 60"
      by (simp_all flip: zdiv_zmult2_eq)
    then show "tod = tod div 1000 * 1000 + tod mod 1000"
      and "tod div 1000 = tod div 60000 * 60 + tod div 1000 mod 60"
      and "tod div 60000 = tod div 3600000 * 60 + tod div 60000 mod 60"
      by (metis div_mult_mod_eq)+
  qed
  have m60: "0 \<le> k mod 60 \<and> k mod 60 \<le> 59" for k :: int
    using pos_mod_bound [of 60 k] by simp
  have m1000: "0 \<le> k mod 1000 \<and> k mod 1000 \<le> 999" for k :: int
    using pos_mod_bound [of 1000 k] by simp
  have "0 \<le> tod div 60000 mod 60" "tod div 60000 mod 60 \<le> 59" "0 \<le> tod div 1000 mod 60"
    "tod div 1000 mod 60 \<le> 59" "0 \<le> tod mod 1000" "tod mod 1000 \<le> 999"
    using m60 m1000 by blast+
  note parse_clock [OF b this]
  then show ?thesis unfolding sum .
qed

lemma split_era_props:
  assumes "0 \<le> doe" "doe < 146097" and "split_era doe = (yoe, doy)"
  shows "0 \<le> yoe" "yoe \<le> 399" "0 \<le> doy" "doy \<le> 365"
    and "365 * yoe + yoe div 4 - yoe div 100 + doy = doe"
    and "doy = 365 \<Longrightarrow> is_leap (yoe + 1)"
proof -
  define c where "c = min 3 (doe div 36524)"
  define r where "r = doe - 36524 * c"
  define q where "q = r div 1461"
  define s where "s = r - 1461 * q"
  define n where "n = min 3 (s div 365)"
  have yoe: "yoe = 100 * c + 4 * q + n" and doy: "doy = s - 365 * n"
    using assms(3) by (simp_all add: split_era_def c_def r_def q_def s_def n_def Let_def)
  have c: "0 \<le> c" "c \<le> 3" using assms by (auto simp: c_def)
  have r: "0 \<le> r" "r \<le> 36524" "c < 3 \<Longrightarrow> r \<le> 36523"
    using assms unfolding r_def c_def by (auto simp: min_def split: if_splits)
  have q: "0 \<le> q" "q \<le> 24" using r unfolding q_def by auto
  have sm: "s = r mod 1461" by (simp add: s_def q_def minus_mult_div_eq_mod)
  have s: "0 \<le> s" "s \<le> 1460" using pos_mod_bound [of 1461 r] by (simp_all add: sm)
  have n: "0 \<le> n" "n \<le> 3" using s by (auto simp: n_def)
  have d: "0 \<le> doy" "doy \<le> 365" "doy = 365 \<Longrightarrow> n = 3 \<and> s = 1460"
    using s unfolding doy n_def by (auto simp: min_def split: if_splits)
  have d4: "yoe div 4 = 25 * c + q" and d100: "yoe div 100 = c"
    using n q by (auto simp: yoe)
  show "0 \<le> yoe" "yoe \<le> 399" using c q n by (auto simp: yoe)
  show "0 \<le> doy" "doy \<le> 365" using d by auto
  show "365 * yoe + yoe div 4 - yoe div 100 + doy = doe"
    unfolding d4 d100 by (simp add: yoe doy s_def r_def)
  show "is_leap (yoe + 1)" if "doy = 365"
  proof -
    from d(3) [OF that] have "n = 3" "s = 1460" by auto
    then have "r = 1461 * q + 1460" by (simp add: s_def)
    then have "q = 24 \<Longrightarrow> c = 3" using r c by (cases "c < 3") auto
    then consider "q < 24" | "c = 3" "q = 24" using q by fastforce
    then show ?thesis
    proof cases
      case 1
      have "yoe + 1 = (4 * q + 4) + 100 * c" using \<open>n = 3\<close> by (simp add: yoe)
      then have "(yoe + 1) mod 100 = (4 * q + 4) mod 100" by (simp only: mod_mult_self2)
      also have "\<dots> = 4 * q + 4" using 1 q by simp
      finally have "(yoe + 1) mod 100 \<noteq> 0" using q by simp
      moreover have "yoe + 1 = 4 * (25 * c + q + 1)" using \<open>n = 3\<close> by (simp add: yoe)
      then have "(yoe + 1) mod 4 = 0" by (simp only: mod_mult_self1_is_0)
      ultimately show ?thesis by (simp add: is_leap_def)
    next
      case 2
      then show ?thesis using \<open>n = 3\<close> by (simp add: is_leap_def yoe)
    qed
  qed
qed

lemma is_leap_era: "is_leap (a + 400 * k) = is_leap a"
proof -
  have "(a + 400 * k) mod 4 = a mod 4" "(a + 400 * k) mod 100 = a mod 100"
    "(a + 400 * k) mod 400 = a mod 400"
    using mod_mult_self2 [of a 4 "100 * k"] mod_mult_self2 [of a 100 "4 * k"] mod_mult_self2 [of a 400 k]
    by simp_all
  then show ?thesis by (simp add: is_leap_def)
qed

lemma month_bounds:
  fixes doy mp :: int
  assumes "0 \<le> doy" "doy \<le> 365" and mp: "mp = (5 * doy + 2) div 153"
  shows "(153 * mp + 2) div 5 \<le> doy \<and> doy < (153 * (mp + 1) + 2) div 5"
proof -
  have l: "153 * mp \<le> 5 * doy + 2" "5 * doy + 2 < 153 * mp + 153"
    using pos_mod_bound [of 153 "5 * doy + 2"] pos_mod_sign [of 153 "5 * doy + 2"]
      div_mult_mod_eq [of "5 * doy + 2" 153] unfolding mp by linarith+
  then have "0 \<le> mp" "mp \<le> 11" using assms(1,2) by simp_all
  then have "mp \<in> {0,1,2,3,4,5,6,7,8,9,10,11}" unfolding insert_iff empty_iff by presburger
  then show ?thesis using l by (elim insertE) simp_all
qed

lemma civil_from_days_props:
  assumes "civil_from_days z = (y, m, d)"
  shows "1 \<le> m" "m \<le> 12" "1 \<le> d" "d \<le> days_in_month y m" "days_from_civil y m d = z"
    and "400 * ((z + 719468) div 146097) \<le> y" "y \<le> 400 * ((z + 719468) div 146097) + 400"
proof -
  define zz where "zz = z + 719468"
  obtain yoe doy where sp: "split_era (zz mod 146097) = (yoe, doy)" by (cases "split_era (zz mod 146097)")
  note b = split_era_props [OF _ _ sp, simplified]
  define mp where "mp = (5 * doy + 2) div 153"
  have mp: "0 \<le> mp" "mp \<le> 11" using b(3,4) by (auto simp: mp_def)
  have eq: "(yoe + (zz div 146097) * 400 + (if (if mp < 10 then mp + 3 else mp - 9) \<le> 2 then 1 else 0),
      (if mp < 10 then mp + 3 else mp - 9), doy - (153 * mp + 2) div 5 + 1) = (y, m, d)"
    using assms unfolding civil_from_days_def Let_def zz_def [symmetric] sp prod.case mp_def [symmetric] .
  then have m: "m = (if mp < 10 then mp + 3 else mp - 9)" and d: "d = doy - (153 * mp + 2) div 5 + 1"
    by simp_all
  from eq have "yoe + (zz div 146097) * 400 + (if (if mp < 10 then mp + 3 else mp - 9) \<le> 2 then 1 else 0) = y"
    by blast
  then have y: "y = yoe + (zz div 146097) * 400 + (if m \<le> 2 then 1 else 0)"
    by (simp only: m)
  show "400 * ((z + 719468) div 146097) \<le> y" "y \<le> 400 * ((z + 719468) div 146097) + 400"
    using b(1,2) by (simp_all add: y zz_def)
  show m12: "1 \<le> m" "m \<le> 12" using mp by (auto simp: m)
  note mb = month_bounds [OF b(3,4) mp_def]
  have dlow: "(153 * mp + 2) div 5 \<le> doy" and dhigh: "doy < (153 * (mp + 1) + 2) div 5"
    using mb by simp_all
  show "1 \<le> d" using dlow by (simp add: d)
  have "(m + 9) mod 12 = mp" using mp by (auto simp: m)
  moreover have "(if m \<le> 2 then y - 1 else y) = yoe + (zz div 146097) * 400" by (simp add: y)
  moreover have "(yoe + (zz div 146097) * 400) mod 400 = yoe" using b(1,2) by simp
  moreover have "(yoe + (zz div 146097) * 400) div 400 = zz div 146097" using b(1,2) by simp
  ultimately have "days_from_civil y m d = (zz div 146097) * 146097
      + (yoe * 365 + yoe div 4 - yoe div 100 + ((153 * mp + 2) div 5 + d - 1)) - 719468"
    by (simp add: days_from_civil_def Let_def)
  also have "\<dots> = (zz div 146097) * 146097 + zz mod 146097 - 719468"
    using b(5) by (simp add: d algebra_simps)
  also have "\<dots> = z" by (simp add: zz_def)
  finally show "days_from_civil y m d = z" .
  show "d \<le> days_in_month y m"
  proof (cases "mp = 11")
    case True
    then have m2: "m = 2" by (simp add: m)
    then have yy: "y = yoe + 1 + 400 * (zz div 146097)" by (simp add: y)
    have leap: "is_leap y = is_leap (yoe + 1)" unfolding yy by (rule is_leap_era)
    have "d \<le> 29" using b(4) True by (simp add: d)
    moreover have "d = 29 \<Longrightarrow> doy = 365" using True by (simp add: d)
    ultimately show ?thesis using b(6) leap m2
      by (cases "d = 29") (simp_all add: days_in_month_def)
  next
    case False
    with mp have "0 \<le> mp" "mp \<le> 10" by simp_all
    then have "mp \<in> {0,1,2,3,4,5,6,7,8,9,10}" unfolding insert_iff empty_iff by presburger
    then show ?thesis using dhigh by (elim insertE) (simp_all add: days_in_month_def m d)
  qed
qed

lemma days_in_month_bound: "days_in_month y m \<le> 31"
  by (simp add: days_in_month_def)

theorem date_parse_to_iso [simp]:
  assumes "\<bar>t\<bar> \<le> max_time"
  shows "date_parse (to_iso t) = Some t"
proof -
  obtain y m d where c: "civil_from_days (t div ms_per_day) = (y, m, d)"
    by (cases "civil_from_days (t div ms_per_day)")
  note p = civil_from_days_props [OF c]
  define tod where "tod = t mod ms_per_day"
  have tod: "0 \<le> tod" "tod < ms_per_day" by (simp_all add: tod_def)
  have z: "-100000000 \<le> t div ms_per_day" "t div ms_per_day \<le> 100000000" using assms by auto
  have "-999999 \<le> y" "y \<le> 999999" using p(6,7) z by auto
  note py = parse_year_str [OF this]
  have m: "0 \<le> m" "m < 10 ^ 2" "0 \<le> d" "d < 10 ^ 2"
    using p(1-4) days_in_month_bound [of y m] by auto
  have dash: "parse_dash2 (CHR ''-'' # pad_num 2 k @ r) = Some (k, r)" if "0 \<le> k" "k < 10 ^ 2" for k r
    using that by (simp add: parse_dash2_def)
  have iso: "to_iso t = year_str y @ CHR ''-'' # pad_num 2 m @ CHR ''-'' # pad_num 2 d @ CHR ''T'' #
      (pad_num 2 (tod div 3600000) @ CHR '':'' # pad_num 2 (tod div 60000 mod 60)
       @ CHR '':'' # pad_num 2 (tod div 1000 mod 60) @ CHR ''.'' # pad_num 3 (tod mod 1000) @ ''Z'')"
    by (simp add: to_iso_def c tod_def Let_def)
  have "t div ms_per_day * ms_per_day + tod = t" by (simp add: tod_def)
  then show ?thesis
    unfolding iso date_parse_def using p(1-5) assms m
    by (simp add: py dash parse_iso_time [OF tod] expect_def time_clip_def)
qed

lemma date_of_iso [simp]: "\<bar>t\<bar> \<le> max_time \<Longrightarrow> date_of (Str (to_iso t)) = Some t"
  by simp

lemma date_parse_range: "date_parse s = Some t \<Longrightarrow> \<bar>t\<bar> \<le> max_time"
  by (auto simp: date_parse_def time_clip_def split: Option.bind_splits if_splits)

lemma to_iso_inj:
  "\<bar>s\<bar> \<le> max_time \<Longrightarrow> \<bar>t\<bar> \<le> max_time \<Longrightarrow> to_iso s = to_iso t \<longleftrightarrow> s = t"
  using date_parse_to_iso by (metis option.inject)

lemma to_iso_not_Nil [simp]: "to_iso t \<noteq> []"
  by (simp add: to_iso_def Let_def split: prod.splits)

end
