(* ===== verification/ErrorPolicy.thy ===== *)
theory ErrorPolicy
  imports JsDate
begin

text \<open>
  How an upstream failure is classified (\<open>open-sse/config/errorConfig.js\<close> and the first half of
  \<open>open-sse/services/accountFallback.js\<close>): the rule table, the exponential backoff, the depletion
  markers, and \<open>checkFallbackError\<close> with the account updates built on it. The backoff
  configuration resolved from the environment is an argument (\<open>cfg\<close>), and so is the clock.
\<close>

section \<open>errorConfig.js\<close>

definition ERROR_TYPES :: "(int, string \<times> string) omap" where
  "ERROR_TYPES = [
     (400, (''invalid_request_error'', ''bad_request'')),
     (401, (''authentication_error'', ''invalid_api_key'')),
     (402, (''billing_error'', ''payment_required'')),
     (403, (''permission_error'', ''insufficient_quota'')),
     (404, (''invalid_request_error'', ''model_not_found'')),
     (413, (''invalid_request_error'', ''context_length_exceeded'')),
     (406, (''invalid_request_error'', ''model_not_supported'')),
     (429, (''rate_limit_error'', ''rate_limit_exceeded'')),
     (500, (''server_error'', ''internal_server_error'')),
     (502, (''server_error'', ''bad_gateway'')),
     (503, (''server_error'', ''service_unavailable'')),
     (504, (''server_error'', ''gateway_timeout''))]"

definition DEFAULT_ERROR_MESSAGES :: "(int, string) omap" where
  "DEFAULT_ERROR_MESSAGES = [
     (400, ''Bad request''),
     (401, ''Invalid API key provided''),
     (402, ''Payment required''),
     (403, ''You exceeded your current quota''),
     (404, ''Model not found''),
     (413, ''Context length exceeded''),
     (406, ''Model not supported''),
     (429, ''Rate limit exceeded''),
     (500, ''Internal server error''),
     (502, ''Bad gateway - upstream provider error''),
     (503, ''Service temporarily unavailable''),
     (504, ''Gateway timeout'')]"

record backoff_config =
  base :: int
  max_ms :: int
  maxLevel :: int

definition DEFAULT_BACKOFF_CONFIG :: backoff_config where
  "DEFAULT_BACKOFF_CONFIG = \<lparr>base = 2000, max_ms = 5 * 60 * 1000, maxLevel = 15\<rparr>"

definition max_safe_integer :: int where
  "max_safe_integer = 2 ^ 53 - 1"

definition parsePositiveInteger :: "jv \<Rightarrow> int option" where
  "parsePositiveInteger v = (case v of
     Str s \<Rightarrow> if trim s = [] \<or> \<not> list_all is_digit (trim s) then None
       else (case string_to_number s of
           Fin r \<Rightarrow> if of_int \<lfloor>r\<rfloor> = r \<and> \<lfloor>r\<rfloor> \<le> max_safe_integer \<and> 0 < r then Some \<lfloor>r\<rfloor> else None
         | _ \<Rightarrow> None)
   | _ \<Rightarrow> None)"

definition resolveBackoffConfig :: "jv \<Rightarrow> backoff_config" where
  "resolveBackoffConfig env =
     (let b = parsePositiveInteger (get env ''BACKOFF_BASE_MS'');
          m = parsePositiveInteger (get env ''BACKOFF_MAX_MS'');
          l = parsePositiveInteger (get env ''BACKOFF_MAX_LEVEL'');
          config = \<lparr>base = (case b of None \<Rightarrow> base DEFAULT_BACKOFF_CONFIG | Some x \<Rightarrow> x),
                    max_ms = (case m of None \<Rightarrow> max_ms DEFAULT_BACKOFF_CONFIG | Some x \<Rightarrow> x),
                    maxLevel = (case l of None \<Rightarrow> maxLevel DEFAULT_BACKOFF_CONFIG | Some x \<Rightarrow> x)\<rparr>
      in if max_ms config < base config then DEFAULT_BACKOFF_CONFIG else config)"

definition TRANSIENT_COOLDOWN_MS :: int where "TRANSIENT_COOLDOWN_MS = 5 * 1000"

definition EMPTY_CONTENT_COOLDOWN_MS :: int where "EMPTY_CONTENT_COOLDOWN_MS = 7 * 60 * 1000"

definition MAX_RATE_LIMIT_COOLDOWN_MS :: int where "MAX_RATE_LIMIT_COOLDOWN_MS = 6 * 60 * 60 * 1000"

definition FREE_TIER_RATE_LIMIT_COOLDOWN_MS :: int where "FREE_TIER_RATE_LIMIT_COOLDOWN_MS = 60 * 1000"

definition COOLDOWN_long :: int where "COOLDOWN_long = 2 * 60 * 1000"

definition COOLDOWN_short :: int where "COOLDOWN_short = 5 * 1000"

definition LONG_CONTEXT_DEPLETION_MARKERS :: "string list" where
  "LONG_CONTEXT_DEPLETION_MARKERS =
     [''extra usage is required for long context'', ''usage credits are required for long context'']"

definition LONG_CONTEXT_DEPLETION_COOLDOWN_MS :: int where
  "LONG_CONTEXT_DEPLETION_COOLDOWN_MS = COOLDOWN_long"

definition LONG_CONTEXT_DEPLETION_MESSAGE :: string where
  "LONG_CONTEXT_DEPLETION_MESSAGE = ''upstream account has no remaining quota for this request size''"

definition MODEL_CREDIT_DEPLETION_MARKERS :: "string list" where
  "MODEL_CREDIT_DEPLETION_MARKERS =
     [''usage credits are required for this model'', ''extra usage is required for this model'']"

text \<open>\<open>typeof e === "string" ? e : JSON.stringify(e)\<close>, for a value that is not undefined.\<close>

definition text_of :: "jv \<Rightarrow> string" where
  "text_of v = (case v of Str s \<Rightarrow> s | _ \<Rightarrow> (case json_str v of None \<Rightarrow> [] | Some s \<Rightarrow> s))"

text \<open>A case-insensitive search for one of several literal phrases.\<close>

definition mentions :: "string list \<Rightarrow> string \<Rightarrow> bool" where
  "mentions markers s = list_ex (str_includes (to_lower s)) markers"

definition isModelCreditDepletion :: "jv \<Rightarrow> bool" where
  "isModelCreditDepletion errorText =
     (truthy errorText \<and> mentions MODEL_CREDIT_DEPLETION_MARKERS (text_of errorText))"

definition isLongContextDepletion :: "jv \<Rightarrow> bool" where
  "isLongContextDepletion errorText =
     (truthy errorText \<and> mentions LONG_CONTEXT_DEPLETION_MARKERS (text_of errorText))"

text \<open>Global replacement of the first marker that matches at each position, left to right.\<close>

definition marker_at :: "string list \<Rightarrow> string \<Rightarrow> string option" where
  "marker_at markers s = find (starts_with (to_lower s)) (filter (\<lambda>m. m \<noteq> []) markers)"

lemma marker_at_not_Nil: "marker_at markers s = Some m \<Longrightarrow> 0 < length m"
  unfolding marker_at_def by (drule find_Some_in) auto

function replace_markers :: "string list \<Rightarrow> string \<Rightarrow> string \<Rightarrow> string" where
  "replace_markers markers repl [] = []"
| "replace_markers markers repl (c # cs) = (case marker_at markers (c # cs) of
       None \<Rightarrow> c # replace_markers markers repl cs
     | Some m \<Rightarrow> repl @ replace_markers markers repl (drop (length m) (c # cs)))"
  by pat_completeness auto
termination
  by (relation "measure (\<lambda>(_, _, s). length s)") (auto dest: marker_at_not_Nil)

definition scrubLongContextDepletion :: "jv \<Rightarrow> jv" where
  "scrubLongContextDepletion message = (case message of
     Str s \<Rightarrow> Str (replace_markers LONG_CONTEXT_DEPLETION_MARKERS LONG_CONTEXT_DEPLETION_MESSAGE s)
   | v \<Rightarrow> v)"

text \<open>A rule matches by text or by status; a rule that is neither \<open>pass\<close> nor \<open>backoff\<close> carries a
  fixed cooldown.\<close>

record error_rule =
  r_text :: "string option"
  r_status :: "int option"
  r_cooldown :: "int option"
  r_backoff :: bool
  r_pass :: bool

abbreviation pass_text :: "string \<Rightarrow> error_rule" where
  "pass_text t \<equiv> \<lparr>r_text = Some t, r_status = None, r_cooldown = None, r_backoff = False, r_pass = True\<rparr>"

abbreviation backoff_text :: "string \<Rightarrow> error_rule" where
  "backoff_text t \<equiv> \<lparr>r_text = Some t, r_status = None, r_cooldown = None, r_backoff = True, r_pass = False\<rparr>"

abbreviation cool_text :: "string \<Rightarrow> int \<Rightarrow> error_rule" where
  "cool_text t c \<equiv> \<lparr>r_text = Some t, r_status = None, r_cooldown = Some c, r_backoff = False, r_pass = False\<rparr>"

abbreviation pass_status :: "int \<Rightarrow> error_rule" where
  "pass_status s \<equiv> \<lparr>r_text = None, r_status = Some s, r_cooldown = None, r_backoff = False, r_pass = True\<rparr>"

abbreviation backoff_status :: "int \<Rightarrow> error_rule" where
  "backoff_status s \<equiv> \<lparr>r_text = None, r_status = Some s, r_cooldown = None, r_backoff = True, r_pass = False\<rparr>"

abbreviation cool_status :: "int \<Rightarrow> int \<Rightarrow> error_rule" where
  "cool_status s c \<equiv> \<lparr>r_text = None, r_status = Some s, r_cooldown = Some c, r_backoff = False, r_pass = False\<rparr>"

definition ERROR_RULES :: "error_rule list" where
  "ERROR_RULES =
     [cool_text ''no credentials'' COOLDOWN_long, cool_text ''request not allowed'' COOLDOWN_short]
     @ map pass_text [''invalid_request_error'', ''invalid_request'', ''improperly formed request'',
         ''invalid model id'', ''model_not_found'', ''model not found'', ''unknown model'', ''no such model'',
         ''bad request'', ''unsupported parameter'', ''unsupported_parameter'', ''invalid parameter'',
         ''invalid_parameter'', ''maximum context length'', ''context_length_exceeded'',
         ''prompt is too long'', ''exceeds the limit'', ''content policy'', ''content_policy'',
         ''policy violation'', ''prohibited_content'', ''blocked by safety'', ''safety_violation'']
     @ map backoff_text [''rate limit'', ''too many requests'', ''quota exceeded'', ''capacity'', ''overloaded'',
         ''to prevent abuse'']
     @ [pass_status 400, cool_status 401 COOLDOWN_long, cool_status 402 COOLDOWN_long,
        cool_status 403 COOLDOWN_long, cool_status 404 COOLDOWN_long, pass_status 413, pass_status 422,
        backoff_status 429]"

section \<open>accountFallback.js: classification\<close>

definition REQUEST_REPLAY_BUFFER_ERROR :: string where
  "REQUEST_REPLAY_BUFFER_ERROR = ''exceeded request buffer limit while retrying upstream''"

definition isRequestReplayBufferError :: "jv \<Rightarrow> jv \<Rightarrow> bool" where
  "isRequestReplayBufferError status errorText =
     (to_number status = Fin 507 \<and>
      str_includes (to_lower (if is_string errorText then text_of errorText else text_of (js_or errorText (Str []))))
        REQUEST_REPLAY_BUFFER_ERROR)"

definition SHARED_PATH_FAILURE_MARKERS :: "string list" where
  "SHARED_PATH_FAILURE_MARKERS = [''model_capacity_exhausted'', ''[proxyfetch] proxy required but failed'',
     ''econnrefused'', ''enotfound'', ''eai_again'', ''etimedout'', ''und_err_connect_timeout'',
     ''upstream response headers exceeded'']"

definition isSharedPathFailure :: "jv \<Rightarrow> bool" where
  "isSharedPathFailure errorText =
     (truthy errorText \<and> mentions SHARED_PATH_FAILURE_MARKERS (text_of errorText))"

definition getQuotaCooldown :: "backoff_config \<Rightarrow> int \<Rightarrow> int" where
  "getQuotaCooldown cfg backoffLevel =
     (let level = max 0 (backoffLevel - 1); cooldown = base cfg * 2 ^ nat level
      in min cooldown (max_ms cfg))"

definition RETRYABLE_CLIENT_ERROR_STATUSES :: "int list" where
  "RETRYABLE_CLIENT_ERROR_STATUSES = [402, 408, 409, 425, 429]"

definition isDeterministicClientError :: "jv \<Rightarrow> bool" where
  "isDeterministicClientError status = (case to_number status of
     Fin code \<Rightarrow> 400 \<le> code \<and> code < 500 \<and> code \<notin> of_int ` set RETRYABLE_CLIENT_ERROR_STATUSES
   | _ \<Rightarrow> False)"

record fallback_decision =
  shouldFallback :: bool
  cooldownMs :: int
  newBackoffLevel :: "int option"

abbreviation no_fallback :: fallback_decision where
  "no_fallback \<equiv> \<lparr>shouldFallback = False, cooldownMs = 0, newBackoffLevel = None\<rparr>"

abbreviation rotate_for :: "int \<Rightarrow> fallback_decision" where
  "rotate_for c \<equiv> \<lparr>shouldFallback = True, cooldownMs = c, newBackoffLevel = None\<rparr>"

definition back_off :: "backoff_config \<Rightarrow> int \<Rightarrow> fallback_decision" where
  "back_off cfg backoffLevel =
     (let newLevel = min (backoffLevel + 1) (maxLevel cfg)
      in \<lparr>shouldFallback = True, cooldownMs = getQuotaCooldown cfg newLevel, newBackoffLevel = Some newLevel\<rparr>)"

definition rule_matches :: "error_rule \<Rightarrow> jv \<Rightarrow> string \<Rightarrow> bool" where
  "rule_matches rule status lowerError =
     ((case r_text rule of None \<Rightarrow> False | Some t \<Rightarrow> t \<noteq> [] \<and> lowerError \<noteq> [] \<and> str_includes lowerError t)
      \<or> (case r_status rule of None \<Rightarrow> False | Some s \<Rightarrow> s \<noteq> 0 \<and> seq (JInt s) status))"

definition rule_decision :: "backoff_config \<Rightarrow> error_rule \<Rightarrow> int \<Rightarrow> fallback_decision" where
  "rule_decision cfg rule backoffLevel =
     (if r_pass rule then no_fallback
      else if r_backoff rule then back_off cfg backoffLevel
      else rotate_for (case r_cooldown rule of None \<Rightarrow> 0 | Some c \<Rightarrow> c))"

text \<open>The loop over the rules: the first that matches decides.\<close>

fun apply_rules :: "backoff_config \<Rightarrow> error_rule list \<Rightarrow> jv \<Rightarrow> string \<Rightarrow> int \<Rightarrow> fallback_decision option" where
  "apply_rules cfg [] status lowerError lvl = None"
| "apply_rules cfg (rule # rules) status lowerError lvl =
     (if rule_matches rule status lowerError then Some (rule_decision cfg rule lvl)
      else apply_rules cfg rules status lowerError lvl)"

definition checkFallbackError :: "backoff_config \<Rightarrow> jv \<Rightarrow> jv \<Rightarrow> int \<Rightarrow> fallback_decision" where
  "checkFallbackError cfg status errorText backoffLevel =
     (if isRequestReplayBufferError status errorText then no_fallback
      else if isSharedPathFailure errorText then rotate_for 0
      else if seq status (JInt 429) then
        (if isLongContextDepletion errorText \<or> isModelCreditDepletion errorText
         then rotate_for LONG_CONTEXT_DEPLETION_COOLDOWN_MS
         else back_off cfg backoffLevel)
      else case apply_rules cfg ERROR_RULES status
             (if truthy errorText then to_lower (text_of errorText) else []) backoffLevel of
          Some d \<Rightarrow> d
        | None \<Rightarrow> if isDeterministicClientError status then no_fallback else rotate_for TRANSIENT_COOLDOWN_MS)"

section \<open>What the classification guarantees\<close>

definition config_wf :: "backoff_config \<Rightarrow> bool" where
  "config_wf cfg \<longleftrightarrow> 0 < base cfg \<and> base cfg \<le> max_ms cfg \<and> 0 < maxLevel cfg"

lemmas cooldown_defs = TRANSIENT_COOLDOWN_MS_def LONG_CONTEXT_DEPLETION_COOLDOWN_MS_def
  COOLDOWN_long_def COOLDOWN_short_def

lemma parsePositiveInteger_pos: "parsePositiveInteger v = Some n \<Longrightarrow> 0 < n"
  by (auto simp: parsePositiveInteger_def split: jv.splits jsnum.splits if_splits)

text \<open>whatever the environment holds, the resolved backoff schedule is well formed: a positive
  initial delay, a ceiling no lower than it, and at least one level.\<close>

theorem resolveBackoffConfig_wf: "config_wf (resolveBackoffConfig env)"
  by (auto simp: resolveBackoffConfig_def config_wf_def DEFAULT_BACKOFF_CONFIG_def Let_def
      dest: parsePositiveInteger_pos split: option.splits)

lemma getQuotaCooldown_range:
  assumes "config_wf cfg"
  shows "base cfg \<le> getQuotaCooldown cfg l" "getQuotaCooldown cfg l \<le> max_ms cfg"
proof -
  have "base cfg * 1 \<le> base cfg * 2 ^ nat (max 0 (l - 1))"
    using assms by (intro mult_left_mono) (auto simp: config_wf_def)
  then show "base cfg \<le> getQuotaCooldown cfg l"
    using assms by (simp add: getQuotaCooldown_def Let_def config_wf_def)
qed (simp add: getQuotaCooldown_def Let_def)

lemma getQuotaCooldown_mono:
  assumes "config_wf cfg" and "l \<le> l'"
  shows "getQuotaCooldown cfg l \<le> getQuotaCooldown cfg l'"
proof -
  have "(2::int) ^ nat (max 0 (l - 1)) \<le> 2 ^ nat (max 0 (l' - 1))"
    using assms(2) by (intro power_increasing) auto
  then have "base cfg * 2 ^ nat (max 0 (l - 1)) \<le> base cfg * 2 ^ nat (max 0 (l' - 1))"
    using assms(1) by (simp add: config_wf_def)
  then show ?thesis by (simp add: getQuotaCooldown_def Let_def min.coboundedI1)
qed

text \<open>the delay doubles from one level to the next until it meets the ceiling, where it stays.\<close>

theorem getQuotaCooldown_doubles:
  assumes "config_wf cfg" and "1 \<le> l"
  shows "getQuotaCooldown cfg (l + 1) = min (2 * getQuotaCooldown cfg l) (max_ms cfg)"
proof -
  define x where "x = base cfg * 2 ^ nat (max 0 (l - 1))"
  have "nat (max 0 (l + 1 - 1)) = Suc (nat (max 0 (l - 1)))" using assms(2) by auto
  then have "(2::int) ^ nat (max 0 (l + 1 - 1)) = 2 * 2 ^ nat (max 0 (l - 1))"
    by (simp only: power_Suc)
  then have e: "base cfg * 2 ^ nat (max 0 (l + 1 - 1)) = 2 * x" unfolding x_def by (simp only: mult.left_commute)
  have "getQuotaCooldown cfg (l + 1) = min (2 * x) (max_ms cfg)"
    unfolding getQuotaCooldown_def Let_def e ..
  moreover have "getQuotaCooldown cfg l = min x (max_ms cfg)"
    unfolding getQuotaCooldown_def Let_def x_def ..
  moreover have "0 < x" and "0 < max_ms cfg" using assms(1) by (auto simp: x_def config_wf_def)
  ultimately show ?thesis by (simp add: min_def)
qed

theorem getQuotaCooldown_doubles_witness:
  "getQuotaCooldown DEFAULT_BACKOFF_CONFIG (3 + 1) = min (2 * getQuotaCooldown DEFAULT_BACKOFF_CONFIG 3) 300000"
proof -
  have "config_wf DEFAULT_BACKOFF_CONFIG" by (simp add: config_wf_def DEFAULT_BACKOFF_CONFIG_def)
  from getQuotaCooldown_doubles [OF this, of 3] show ?thesis by (simp add: DEFAULT_BACKOFF_CONFIG_def)
qed

lemma back_off_simps [simp]:
  "shouldFallback (back_off cfg l)" "newBackoffLevel (back_off cfg l) = Some (min (l + 1) (maxLevel cfg))"
  "cooldownMs (back_off cfg l) = getQuotaCooldown cfg (min (l + 1) (maxLevel cfg))"
  by (simp_all add: back_off_def Let_def)

text \<open>The rule loop picks the first rule that matches.\<close>

lemma apply_rules_find:
  "apply_rules cfg rules st e l =
     map_option (\<lambda>r. rule_decision cfg r l) (find (\<lambda>r. rule_matches r st e) rules)"
  by (induction rules) auto

lemma apply_rules_Some:
  assumes "apply_rules cfg rules st e l = Some d"
  obtains r where "r \<in> set rules" "d = rule_decision cfg r l" "rule_matches r st e"
  using assms unfolding apply_rules_find by (auto dest: find_Some_in)

lemma apply_rules_None: "apply_rules cfg rules st e l = None \<longleftrightarrow> (\<forall>r \<in> set rules. \<not> rule_matches r st e)"
  by (induction rules) auto

lemma ERROR_RULES_wf:
  "r \<in> set ERROR_RULES \<Longrightarrow> r_pass r \<or> r_backoff r \<or> r_cooldown r = Some COOLDOWN_long \<or> r_cooldown r = Some COOLDOWN_short"
  by (auto simp: ERROR_RULES_def)

lemma rule_decision_bounds:
  assumes "config_wf cfg" and "r \<in> set ERROR_RULES" and "0 \<le> l"
  shows "0 \<le> cooldownMs (rule_decision cfg r l) \<and>
    cooldownMs (rule_decision cfg r l) \<le> max (max_ms cfg) COOLDOWN_long \<and>
    (\<forall>n. newBackoffLevel (rule_decision cfg r l) = Some n \<longrightarrow> 1 \<le> n \<and> n \<le> maxLevel cfg)"
proof -
  have "0 \<le> getQuotaCooldown cfg k" "getQuotaCooldown cfg k \<le> max_ms cfg" for k
    using getQuotaCooldown_range [OF assms(1), of k] assms(1) by (auto simp: config_wf_def)
  then show ?thesis
    using ERROR_RULES_wf [OF assms(2)] assms(1,3)
    by (auto simp: rule_decision_def config_wf_def cooldown_defs le_max_iff_disj)
qed

text \<open>every classification is bounded: the cooldown lies between zero and the larger of the backoff
  ceiling and the long cooldown, a backoff level lies between one and the configured maximum, and a
  decision not to fall back never locks the account.\<close>

theorem checkFallbackError_bounds:
  assumes "config_wf cfg" and "0 \<le> l" and d: "d = checkFallbackError cfg status err l"
  shows "0 \<le> cooldownMs d \<and> cooldownMs d \<le> max (max_ms cfg) COOLDOWN_long \<and>
    (\<forall>n. newBackoffLevel d = Some n \<longrightarrow> 1 \<le> n \<and> n \<le> maxLevel cfg) \<and>
    (\<not> shouldFallback d \<longrightarrow> cooldownMs d = 0 \<and> newBackoffLevel d = None)"
proof -
  have off: "0 \<le> getQuotaCooldown cfg k" "getQuotaCooldown cfg k \<le> max_ms cfg" for k
    using getQuotaCooldown_range [OF assms(1), of k] assms(1) by (auto simp: config_wf_def)
  have rules: "0 \<le> cooldownMs e \<and> cooldownMs e \<le> max (max_ms cfg) COOLDOWN_long \<and>
      (\<forall>n. newBackoffLevel e = Some n \<longrightarrow> 1 \<le> n \<and> n \<le> maxLevel cfg) \<and>
      (\<not> shouldFallback e \<longrightarrow> cooldownMs e = 0 \<and> newBackoffLevel e = None)"
    if "apply_rules cfg ERROR_RULES status t l = Some e" for e t
  proof -
    from that obtain r where r: "r \<in> set ERROR_RULES" "e = rule_decision cfg r l"
      by (rule apply_rules_Some)
    from rule_decision_bounds [OF assms(1) r(1) assms(2)] show ?thesis
      by (auto simp: r(2)) (auto simp: rule_decision_def split: if_splits)
  qed
  show ?thesis
    using off assms(1,2) rules unfolding d checkFallbackError_def
    by (auto simp: cooldown_defs config_wf_def le_max_iff_disj split: option.split)
qed

theorem checkFallbackError_bounds_witness:
  "cooldownMs (checkFallbackError DEFAULT_BACKOFF_CONFIG (JInt 429) (Str ''slow down'') 20) \<le> 300000"
proof -
  have "config_wf DEFAULT_BACKOFF_CONFIG" by (simp add: config_wf_def DEFAULT_BACKOFF_CONFIG_def)
  from checkFallbackError_bounds [OF this _ refl, of 20 "JInt 429" "Str ''slow down''"] show ?thesis
    by (simp add: DEFAULT_BACKOFF_CONFIG_def COOLDOWN_long_def)
qed

lemma seq_JInt [simp]: "seq (JInt a) (JInt b) \<longleftrightarrow> a = b"
  by simp

text \<open>a 429 always moves on to another account, whatever words its body carries: no text rule can
  reclassify a rate limit as the client's error. The account is left unlocked only when the failure
  belongs to the shared path.\<close>

theorem rate_limit_always_rotates:
  assumes "config_wf cfg"
  shows "shouldFallback (checkFallbackError cfg (JInt 429) err l) \<and>
    (cooldownMs (checkFallbackError cfg (JInt 429) err l) = 0 \<longleftrightarrow> isSharedPathFailure err)"
proof -
  have "\<not> isRequestReplayBufferError (JInt 429) err"
    by (simp add: isRequestReplayBufferError_def)
  moreover have "0 < getQuotaCooldown cfg k" for k
    using getQuotaCooldown_range(1) [OF assms, of k] assms by (simp add: config_wf_def)
  ultimately show ?thesis
    by (auto simp: checkFallbackError_def cooldown_defs less_le)
qed

theorem rate_limit_always_rotates_witness:
  "shouldFallback (checkFallbackError DEFAULT_BACKOFF_CONFIG (JInt 429) (Str ''invalid_request_error'') 0)"
proof -
  have "config_wf DEFAULT_BACKOFF_CONFIG" by (simp add: config_wf_def DEFAULT_BACKOFF_CONFIG_def)
  from rate_limit_always_rotates [OF this] show ?thesis by blast
qed

text \<open>The texts whose rules rotate the account; every other text rule passes.\<close>

definition rotating_texts :: "string list" where
  "rotating_texts = [''no credentials'', ''request not allowed'', ''rate limit'', ''too many requests'',
     ''quota exceeded'', ''capacity'', ''overloaded'', ''to prevent abuse'']"

lemma ERROR_RULES_text:
  "r \<in> set ERROR_RULES \<Longrightarrow> r_text r = Some t \<Longrightarrow> r_pass r \<or> t \<in> set rotating_texts"
  by (auto simp: ERROR_RULES_def rotating_texts_def)

lemma ERROR_RULES_status:
  "r \<in> set ERROR_RULES \<Longrightarrow> r_status r = Some s \<Longrightarrow> r_pass r \<or> s \<in> {401, 402, 403, 404, 429}"
  by (auto simp: ERROR_RULES_def)

text \<open>a 4xx answer that is not about credentials, a missing resource or timing leaves the account
  alone (no rotation, no lock, no backoff level), unless its text carries one of the rotating phrases
  or names the shared path.\<close>

theorem client_error_leaves_account:
  assumes "400 \<le> s" "s < 500" "s \<notin> {401, 402, 403, 404, 408, 409, 425, 429}"
    and "\<not> mentions rotating_texts (text_of err)" and "\<not> isSharedPathFailure err"
  shows "checkFallbackError cfg (JInt s) err l = no_fallback"
proof -
  have det: "isDeterministicClientError (JInt s)"
    using assms(1-3) by (simp add: isDeterministicClientError_def RETRYABLE_CLIENT_ERROR_STATUSES_def)
  have "d = no_fallback"
    if "apply_rules cfg ERROR_RULES (JInt s) (if truthy err then to_lower (text_of err) else []) l = Some d" for d
  proof -
    from that obtain r where r: "r \<in> set ERROR_RULES" "d = rule_decision cfg r l"
        "rule_matches r (JInt s) (if truthy err then to_lower (text_of err) else [])"
      by (rule apply_rules_Some)
    have "r_pass r"
    proof (rule ccontr)
      assume np: "\<not> r_pass r"
      from r(3) consider t where "r_text r = Some t" "str_includes (to_lower (text_of err)) t"
        | "r_status r = Some s"
        by (auto simp: rule_matches_def split: option.splits if_splits)
      then show False
      proof cases
        case 1
        with ERROR_RULES_text [OF r(1)] np assms(4) show ?thesis
          by (auto simp: mentions_def list_ex_iff)
      next
        case 2
        with ERROR_RULES_status [OF r(1)] np assms(3) show ?thesis by auto
      qed
    qed
    then show ?thesis by (simp add: r(2) rule_decision_def)
  qed
  with det assms(3,5) show ?thesis
    by (auto simp: checkFallbackError_def split: option.split)
qed

theorem client_error_leaves_account_witness:
  "checkFallbackError DEFAULT_BACKOFF_CONFIG (JInt 415) (Str ''unsupported media type'') 3 = no_fallback"
proof (rule client_error_leaves_account)
  show "\<not> mentions rotating_texts (text_of (Str ''unsupported media type''))" by code_simp
  show "\<not> isSharedPathFailure (Str ''unsupported media type'')" by code_simp
qed simp_all

section \<open>The client-bound message\<close>

lemma marker_at_None_if_absent:
  assumes "\<not> mentions markers (c # cs)"
  shows "marker_at markers (c # cs) = None" "\<not> mentions (filter (\<lambda>m. m \<noteq> []) markers) cs"
proof -
  have none: "\<not> str_includes (to_lower (c # cs)) m" if "m \<in> set markers" for m
    using assms that by (auto simp: mentions_def list_ex_iff)
  then show "marker_at markers (c # cs) = None"
    by (fastforce simp: marker_at_def find_None_iff to_lower_def)
  show "\<not> mentions (filter (\<lambda>m. m \<noteq> []) markers) cs"
    using none by (auto simp: mentions_def list_ex_iff to_lower_def)
qed

lemma replace_markers_absent:
  assumes "\<forall>m \<in> set markers. m \<noteq> []" and "\<not> mentions markers s"
  shows "replace_markers markers repl s = s"
  using assms(2)
proof (induction s)
  case Nil
  then show ?case by simp
next
  case (Cons c cs)
  have "filter (\<lambda>m. m \<noteq> []) markers = markers" using assms(1) by simp
  with marker_at_None_if_absent [OF Cons.prems] Cons.IH show ?case by simp
qed

text \<open>scrubbing touches latch phrases only: a message without one, and any value that is no string,
  is returned unchanged; a message that starts with one has it replaced.\<close>

theorem scrub_only_latch_phrases:
  "(\<not> mentions LONG_CONTEXT_DEPLETION_MARKERS s \<longrightarrow> scrubLongContextDepletion (Str s) = Str s) \<and>
   (\<not> is_string v \<longrightarrow> scrubLongContextDepletion v = v) \<and>
   (marker_at LONG_CONTEXT_DEPLETION_MARKERS s = Some m \<longrightarrow>
      scrubLongContextDepletion (Str s) = Str (LONG_CONTEXT_DEPLETION_MESSAGE
        @ replace_markers LONG_CONTEXT_DEPLETION_MARKERS LONG_CONTEXT_DEPLETION_MESSAGE (drop (length m) s)))"
proof -
  have "\<not> mentions LONG_CONTEXT_DEPLETION_MARKERS s \<Longrightarrow> scrubLongContextDepletion (Str s) = Str s"
    by (simp add: scrubLongContextDepletion_def replace_markers_absent LONG_CONTEXT_DEPLETION_MARKERS_def)
  moreover have "\<not> is_string v \<Longrightarrow> scrubLongContextDepletion v = v"
    by (cases v) (simp_all add: scrubLongContextDepletion_def)
  moreover have "scrubLongContextDepletion (Str s) = Str (LONG_CONTEXT_DEPLETION_MESSAGE
        @ replace_markers LONG_CONTEXT_DEPLETION_MARKERS LONG_CONTEXT_DEPLETION_MESSAGE (drop (length m) s))"
    if "marker_at LONG_CONTEXT_DEPLETION_MARKERS s = Some m"
    using that by (cases s) (simp_all add: scrubLongContextDepletion_def,
      simp add: marker_at_def to_lower_def LONG_CONTEXT_DEPLETION_MARKERS_def)
  ultimately show ?thesis by blast
qed

theorem scrub_only_latch_phrases_witness:
  "scrubLongContextDepletion (Str ''plain upstream failure'') = Str ''plain upstream failure''"
proof -
  have "\<not> mentions LONG_CONTEXT_DEPLETION_MARKERS ''plain upstream failure''" by code_simp
  with scrub_only_latch_phrases [of "''plain upstream failure''"] show ?thesis by blast
qed

text \<open>one pass does not always remove every latch phrase: the substitute ends in the letter the first
  phrase starts with, so the tail of a replaced phrase can complete a new one.\<close>

theorem scrub_can_leave_a_latch_phrase:
  "isLongContextDepletion (scrubLongContextDepletion
     (Str ''Extra usage is required for long contextxtra usage is required for long context''))"
  by code_simp

end
