(* ===== verification/AccountState.thy ===== *)
theory AccountState
  imports ErrorPolicy
begin

text \<open>
  The legacy per-account cooldown of \<open>open-sse/services/accountFallback.js\<close>: timestamps on the
  account object, the update after a failure, the reset after a success, the filter over a pool
  and the human-readable retry hint. Accounts are objects; the clock is an argument.
\<close>

text \<open>\<open>{...o, k: v}\<close>\<close>

definition spread :: "jv \<Rightarrow> (string \<times> jv) list \<Rightarrow> jv" where
  "spread v kvs = Obj (foldl (\<lambda>m (k, x). om_set m k x) (obj_entries v) kvs)"

lemma get_spread:
  "get (spread v kvs) k = (case om_get (rev kvs) k of Some x \<Rightarrow> x | None \<Rightarrow> get v k)"
proof -
  have "om_get (foldl (\<lambda>m (k, x). om_set m k x) m kvs) k =
      (case om_get (rev kvs) k of Some x \<Rightarrow> Some x | None \<Rightarrow> om_get m k)" for m
    by (induction kvs rule: rev_induct) (auto split: option.splits)
  then show ?thesis by (cases v) (auto simp: spread_def split: option.splits)
qed

definition isAccountUnavailable :: "int \<Rightarrow> jv \<Rightarrow> bool" where
  "isAccountUnavailable now unavailableUntil =
     (truthy unavailableUntil \<and> (case date_of unavailableUntil of None \<Rightarrow> False | Some t \<Rightarrow> now < t))"

definition getUnavailableUntil :: "int \<Rightarrow> int \<Rightarrow> string" where
  "getUnavailableUntil now cooldown = to_iso (now + cooldown)"

text \<open>
  The running minimum of the loop. A falsy minimum (none yet, NaN or zero) is replaced by the next
  candidate; a candidate that is NaN fails both comparisons, so it can only replace a falsy one.
\<close>

definition earlier :: "int \<Rightarrow> int option \<Rightarrow> int option \<Rightarrow> int option" where
  "earlier now earliest until = (case until of
     None \<Rightarrow> (case earliest of Some e \<Rightarrow> if e = 0 then None else Some e | None \<Rightarrow> None)
   | Some t \<Rightarrow> if t \<le> now then earliest
       else (case earliest of None \<Rightarrow> Some t | Some e \<Rightarrow> if e = 0 \<or> t < e then Some t else Some e))"

definition iso_or_none :: "int option \<Rightarrow> string option" where
  "iso_or_none e = (case e of None \<Rightarrow> None | Some t \<Rightarrow> if t = 0 then None else Some (to_iso t))"

definition getEarliestRateLimitedUntil :: "int \<Rightarrow> jv list \<Rightarrow> string option" where
  "getEarliestRateLimitedUntil now accounts =
     iso_or_none (foldl (\<lambda>earliest acc. if \<not> truthy (get acc ''rateLimitedUntil'') then earliest
        else earlier now earliest (date_of (get acc ''rateLimitedUntil''))) None accounts)"

text \<open>An invalid date gives NaN in every field; the string below is what the template then prints.\<close>

definition formatRetryAfter :: "int \<Rightarrow> jv \<Rightarrow> string" where
  "formatRetryAfter now rateLimitedUntil =
     (if \<not> truthy rateLimitedUntil then []
      else case date_of rateLimitedUntil of
        None \<Rightarrow> ''reset after NaNs''
      | Some t \<Rightarrow> let diffMs = t - now in
          if diffMs \<le> 0 then ''reset after 0s''
          else let totalSec = - ((- diffMs) div 1000); h = totalSec div 3600;
                   m = (totalSec mod 3600) div 60; s = totalSec mod 60;
                   parts1 = (if 0 < h then [int_str h @ ''h''] else []);
                   parts2 = parts1 @ (if 0 < m then [int_str m @ ''m''] else []);
                   parts = parts2 @ (if 0 < s \<or> parts2 = [] then [int_str s @ ''s''] else [])
               in ''reset after '' @ join_with '' '' parts)"

definition filterAvailableAccounts :: "int \<Rightarrow> jv list \<Rightarrow> jv \<Rightarrow> jv list" where
  "filterAvailableAccounts now accounts excludeId =
     filter (\<lambda>acc. if truthy excludeId \<and> seq (get acc ''id'') excludeId then False
        else if truthy (get acc ''rateLimitedUntil'')
             then (case date_of (get acc ''rateLimitedUntil'') of None \<Rightarrow> True | Some t \<Rightarrow> \<not> now < t)
        else True) accounts"

definition resetAccountState :: "jv \<Rightarrow> jv" where
  "resetAccountState account = (if \<not> truthy account then account
     else spread account [(''rateLimitedUntil'', Null), (''backoffLevel'', JInt 0), (''lastError'', Null),
       (''status'', Str ''active'')])"

text \<open>\<open>account.backoffLevel || 0\<close>, for a stored level that is an integer or absent.\<close>

definition stored_level :: "jv \<Rightarrow> int" where
  "stored_level account = (case js_or (get account ''backoffLevel'') (JInt 0) of Num (Fin r) \<Rightarrow> \<lfloor>r\<rfloor> | _ \<Rightarrow> 0)"

definition applyErrorState :: "backoff_config \<Rightarrow> int \<Rightarrow> jv \<Rightarrow> jv \<Rightarrow> jv \<Rightarrow> jv" where
  "applyErrorState cfg now account status errorText = (if \<not> truthy account then account
     else let backoffLevel = stored_level account; d = checkFallbackError cfg status errorText backoffLevel
       in spread account
         [(''rateLimitedUntil'', if 0 < cooldownMs d then Str (getUnavailableUntil now (cooldownMs d)) else Null),
          (''backoffLevel'', JInt (case newBackoffLevel d of Some l \<Rightarrow> l | None \<Rightarrow> backoffLevel)),
          (''lastError'', Obj [(''status'', status), (''message'', errorText), (''timestamp'', Str (to_iso now))]),
          (''status'', Str ''error'')])"

section \<open>Properties\<close>

lemma stored_level_spread [simp]:
  "om_get (rev kvs) ''backoffLevel'' = Some (Num (Fin r)) \<Longrightarrow> stored_level (spread a kvs) = \<lfloor>r\<rfloor>"
  by (auto simp: stored_level_def get_spread js_or_def)

lemma applyErrorState_Obj:
  assumes "a = Obj m"
  shows "get (applyErrorState cfg now a st e) ''rateLimitedUntil'' =
      (let d = checkFallbackError cfg st e (stored_level a)
       in if 0 < cooldownMs d then Str (to_iso (now + cooldownMs d)) else Null)"
    and "stored_level (applyErrorState cfg now a st e) =
      (case newBackoffLevel (checkFallbackError cfg st e (stored_level a)) of
         Some l \<Rightarrow> l | None \<Rightarrow> stored_level a)"
    and "\<exists>m'. applyErrorState cfg now a st e = Obj m'"
  unfolding assms by (simp_all add: applyErrorState_def Let_def get_spread getUnavailableUntil_def)
    (simp add: spread_def)

lemma is_available_iff:
  assumes "a = Obj m" and "\<bar>now + cd\<bar> \<le> max_time" and "get a ''rateLimitedUntil'' = Str (to_iso (now + cd))"
  shows "filterAvailableAccounts t [a] Null = (if t < now + cd then [] else [a])"
  using assms by (simp add: filterAvailableAccounts_def)

text \<open>an account is out of the pool exactly for its cooldown: after a failure that carries one, the
  pool filter drops the account at every instant before \<open>now + cooldown\<close> and offers it again from then on;
  after a failure without a cooldown, and after a success, it stays available.\<close>

theorem cooldown_controls_availability:
  assumes "a = Obj m" and "\<bar>now + cooldownMs (checkFallbackError cfg st e (stored_level a))\<bar> \<le> max_time"
  shows "filterAvailableAccounts t [applyErrorState cfg now a st e] Null =
      (let cd = cooldownMs (checkFallbackError cfg st e (stored_level a))
       in if 0 < cd \<and> t < now + cd then [] else [applyErrorState cfg now a st e]) \<and>
    filterAvailableAccounts t [resetAccountState a] Null = [resetAccountState a]"
proof -
  let ?d = "checkFallbackError cfg st e (stored_level a)"
  have "filterAvailableAccounts t [applyErrorState cfg now a st e] Null =
      (if 0 < cooldownMs ?d \<and> t < now + cooldownMs ?d then [] else [applyErrorState cfg now a st e])"
    using assms(2) applyErrorState_Obj(1) [OF assms(1), of cfg now st e]
    by (simp add: filterAvailableAccounts_def Let_def split: if_splits)
  then show ?thesis
    using assms(1) by (simp add: filterAvailableAccounts_def resetAccountState_def get_spread Let_def)
qed

theorem cooldown_controls_availability_witness:
  "filterAvailableAccounts 1005999 [applyErrorState DEFAULT_BACKOFF_CONFIG 1000000
     (Obj [(''id'', Str ''a''), (''backoffLevel'', JInt 2)]) (JInt 429) (Str ''slow down'')] Null = []"
proof -
  let ?a = "Obj [(''id'', Str ''a''), (''backoffLevel'', JInt 2)]"
  have cd: "cooldownMs (checkFallbackError DEFAULT_BACKOFF_CONFIG (JInt 429) (Str ''slow down'') (stored_level ?a)) = 8000"
    by code_simp
  then have "\<bar>1000000 + cooldownMs (checkFallbackError DEFAULT_BACKOFF_CONFIG (JInt 429) (Str ''slow down'')
      (stored_level ?a))\<bar> \<le> max_time" by simp
  from cooldown_controls_availability [OF refl this, of 1005999] cd show ?thesis by (simp add: Let_def)
qed

text \<open>the schedule of a persistently rate-limited account: after \<open>n\<close> consecutive 429 answers that are
  neither shared-path failures nor depletion, its level is \<open>min (l + n) maxLevel\<close>, so the delay grows
  level by level and never past the ceiling.\<close>

theorem consecutive_rate_limits_level:
  assumes "a = Obj m" and "stored_level a \<le> maxLevel cfg"
    and "\<not> isSharedPathFailure e" "\<not> isLongContextDepletion e" "\<not> isModelCreditDepletion e"
  shows "stored_level (foldl (\<lambda>acc now. applyErrorState cfg now acc (JInt 429) e) a nows)
     = min (stored_level a + int (length nows)) (maxLevel cfg)"
  using assms(1,2)
proof (induction nows arbitrary: a m)
  case Nil
  then show ?case by simp
next
  case (Cons now nows)
  have d: "checkFallbackError cfg (JInt 429) e l = back_off cfg l" for l
    using assms(3-5) by (simp add: checkFallbackError_def isRequestReplayBufferError_def)
  obtain m' where m': "applyErrorState cfg now a (JInt 429) e = Obj m'"
    using applyErrorState_Obj(3) [OF Cons.prems(1)] by blast
  have l: "stored_level (applyErrorState cfg now a (JInt 429) e) = min (stored_level a + 1) (maxLevel cfg)"
    unfolding applyErrorState_Obj(2) [OF Cons.prems(1)] d by simp
  with Cons.IH [OF m'] show ?case by (simp add: min_def)
qed

theorem consecutive_rate_limits_level_witness:
  "stored_level (foldl (\<lambda>acc now. applyErrorState DEFAULT_BACKOFF_CONFIG now acc (JInt 429) (Str ''slow down''))
     (Obj []) [10, 20, 30]) = 3"
proof -
  have "stored_level (Obj []) \<le> maxLevel DEFAULT_BACKOFF_CONFIG" by code_simp
  moreover have "\<not> isSharedPathFailure (Str ''slow down'')" "\<not> isLongContextDepletion (Str ''slow down'')"
    "\<not> isModelCreditDepletion (Str ''slow down'')" by code_simp+
  ultimately show ?thesis
    using consecutive_rate_limits_level [OF refl, of "[]" DEFAULT_BACKOFF_CONFIG "Str ''slow down''" "[10, 20, 30]"]
    by (simp add: stored_level_def js_or_def DEFAULT_BACKOFF_CONFIG_def)
qed

end
