(* ===== verification/ModelLocks.thy ===== *)
theory ModelLocks
  imports AccountState
begin

text \<open>
  Per-model locks (\<open>open-sse/services/accountFallback.js\<close>, second half): flat fields
  \<open>modelLock_<model>\<close> and \<open>modelFailure_<model>\<close> on a connection, the quota windows of the one
  provider whose quota is keyed by model, the queries over both, and the update objects that set
  and clear them. A connection is an object value; an update is applied by spreading it.
\<close>

definition MODEL_LOCK_PREFIX :: string where "MODEL_LOCK_PREFIX = ''modelLock_''"

definition MODEL_FAILURE_PREFIX :: string where "MODEL_FAILURE_PREFIX = ''modelFailure_''"

definition MODEL_LOCK_ALL :: string where "MODEL_LOCK_ALL = MODEL_LOCK_PREFIX @ ''__all''"

definition getModelLockKey :: "jv \<Rightarrow> string" where
  "getModelLockKey model = (if truthy model then MODEL_LOCK_PREFIX @ jstr model else MODEL_LOCK_ALL)"

definition getModelFailureKey :: "jv \<Rightarrow> string" where
  "getModelFailureKey model =
     (if truthy model then MODEL_FAILURE_PREFIX @ jstr model else MODEL_FAILURE_PREFIX @ ''__all'')"

definition isActiveLockUntil :: "int \<Rightarrow> jv \<Rightarrow> bool" where
  "isActiveLockUntil now until = (case date_of until of None \<Rightarrow> False | Some expiry \<Rightarrow> now < expiry)"

definition MODEL_KEYED_QUOTA_PROVIDERS :: "string list" where
  "MODEL_KEYED_QUOTA_PROVIDERS = [''antigravity'']"

text \<open>The key and the reset instant (ISO) of the window that is out, or nothing.\<close>

definition getExhaustedQuotaWindow :: "int \<Rightarrow> jv \<Rightarrow> jv \<Rightarrow> (jv \<times> string) option" where
  "getExhaustedQuotaWindow now connection model =
     (if \<not> truthy connection \<or> \<not> truthy model then None
      else if \<not> list_ex (\<lambda>p. seq (get connection ''provider'') (Str p)) MODEL_KEYED_QUOTA_PROVIDERS then None
      else let windows = get (get connection ''lastQuotaSnapshot'') ''windows''
        in if \<not> is_array windows then None
        else case find (\<lambda>entry. seq (get entry ''key'') model) (arr_items windows) of
          None \<Rightarrow> None
        | Some quotaWindow \<Rightarrow>
            if \<not> truthy quotaWindow \<or> get quotaWindow ''unlimited'' = Bool True then None
            else let remaining = get quotaWindow ''remainingPercentage''
              in if (case remaining of Num _ \<Rightarrow> False | Str s \<Rightarrow> trim s = [] | _ \<Rightarrow> True) then None
              else if to_number remaining \<noteq> Fin 0 then None
              else case date_of (get quotaWindow ''resetAt'') of
                None \<Rightarrow> None
              | Some resetAt \<Rightarrow> if resetAt \<le> now then None
                  else Some (get quotaWindow ''key'', to_iso resetAt))"

definition isModelLockActive :: "int \<Rightarrow> jv \<Rightarrow> jv \<Rightarrow> bool" where
  "isModelLockActive now connection model =
     (isActiveLockUntil now (get connection (getModelLockKey model))
      \<or> isActiveLockUntil now (get connection MODEL_LOCK_ALL)
      \<or> getExhaustedQuotaWindow now connection model \<noteq> None)"

record model_failure =
  mf_lockKey :: string
  mf_failureKey :: string
  mf_until :: jv
  mf_status :: jv
  mf_message :: jv
  mf_resetsAt :: jv
  mf_clientErrorStatus :: jv
  mf_unknownModelVerified :: bool

definition lock_report :: "jv \<Rightarrow> jv \<Rightarrow> model_failure" where
  "lock_report connection candidate =
     (let lockKey = getModelLockKey candidate; until = get connection lockKey;
          failureKey = getModelFailureKey candidate; metadata = get connection failureKey;
          matching = (if truthy metadata \<and> is_object metadata \<and> seq (get metadata ''until'') until
            then metadata else Null)
      in \<lparr>mf_lockKey = lockKey, mf_failureKey = failureKey, mf_until = until,
          mf_status = coalesce (get matching ''status'') Null,
          mf_message = coalesce (get matching ''message'') Null,
          mf_resetsAt = coalesce (get matching ''resetsAt'') Null,
          mf_clientErrorStatus = coalesce (get matching ''clientErrorStatus'') Null,
          mf_unknownModelVerified = (get matching ''unknownModelVerified'' = Bool True)\<rparr>)"

fun first_active_lock :: "int \<Rightarrow> jv \<Rightarrow> jv list \<Rightarrow> model_failure option" where
  "first_active_lock now connection [] = None"
| "first_active_lock now connection (candidate # rest) =
     (if \<not> isActiveLockUntil now (get connection (getModelLockKey candidate))
      then first_active_lock now connection rest
      else Some (lock_report connection candidate))"

definition getActiveModelFailure :: "int \<Rightarrow> jv \<Rightarrow> jv \<Rightarrow> model_failure option" where
  "getActiveModelFailure now connection model =
     (if \<not> truthy connection then None
      else case first_active_lock now connection (if truthy model then [Null, model] else [Null]) of
        Some r \<Rightarrow> Some r
      | None \<Rightarrow> (case getExhaustedQuotaWindow now connection model of
            None \<Rightarrow> None
          | Some (key, until) \<Rightarrow> Some \<lparr>mf_lockKey = getModelLockKey model,
              mf_failureKey = getModelFailureKey model, mf_until = Str until, mf_status = JInt 429,
              mf_message = Str (''Quota exhausted for '' @ jstr key), mf_resetsAt = Str until,
              mf_clientErrorStatus = Null, mf_unknownModelVerified = False\<rparr>))"

fun scan_locks :: "int \<Rightarrow> int option \<Rightarrow> (string \<times> jv) list \<Rightarrow> int option" where
  "scan_locks now earliest [] = earliest"
| "scan_locks now earliest ((key, val) # entries) =
     (if \<not> starts_with key MODEL_LOCK_PREFIX \<or> \<not> truthy val then scan_locks now earliest entries
      else scan_locks now (earlier now earliest (date_of val)) entries)"

text \<open>The one-argument call scans every lock field; the two-argument call asks for one model.\<close>

definition getEarliestModelLockUntil :: "int \<Rightarrow> jv \<Rightarrow> jv option \<Rightarrow> jv" where
  "getEarliestModelLockUntil now connection model =
     (if \<not> truthy connection then Null
      else case model of
        Some m \<Rightarrow> (case getActiveModelFailure now connection m of
            None \<Rightarrow> Null | Some f \<Rightarrow> js_or (mf_until f) Null)
      | None \<Rightarrow> (case iso_or_none (scan_locks now None (obj_entries connection)) of
          None \<Rightarrow> Null | Some s \<Rightarrow> Str s))"

definition buildModelLockUpdateAt :: "jv \<Rightarrow> jv \<Rightarrow> (string \<times> jv) list" where
  "buildModelLockUpdateAt model until = [(getModelLockKey model, until)]"

definition buildModelLockUpdate :: "int \<Rightarrow> jv \<Rightarrow> int \<Rightarrow> (string \<times> jv) list" where
  "buildModelLockUpdate now model cooldown = buildModelLockUpdateAt model (Str (to_iso (now + cooldown)))"

definition default_null :: "jv \<Rightarrow> jv" where
  "default_null v = (if v = Undef then Null else v)"

definition buildModelFailureUpdate :: "jv \<Rightarrow> jv \<Rightarrow> (string \<times> jv) list" where
  "buildModelFailureUpdate model opts =
     [(getModelFailureKey model, Obj [
         (''status'', default_null (get opts ''status'')),
         (''message'', default_null (get opts ''message'')),
         (''until'', get opts ''until''),
         (''resetsAt'', default_null (get opts ''resetsAt'')),
         (''clientErrorStatus'', default_null (get opts ''clientErrorStatus'')),
         (''unknownModelVerified'', Bool (get opts ''unknownModelVerified'' = Bool True))])]"

definition buildClearModelFailurePairUpdate :: "jv \<Rightarrow> (string \<times> jv) list" where
  "buildClearModelFailurePairUpdate model = [(getModelLockKey model, Null), (getModelFailureKey model, Null)]"

definition buildClearModelLocksUpdate :: "jv \<Rightarrow> (string \<times> jv) list" where
  "buildClearModelLocksUpdate connection = map (\<lambda>key. (key, Null))
     (filter (\<lambda>key. starts_with key MODEL_LOCK_PREFIX \<or> starts_with key MODEL_FAILURE_PREFIX)
       (map fst (obj_entries connection)))"

section \<open>Lemmas\<close>

lemmas lock_key_defs = getModelLockKey_def getModelFailureKey_def MODEL_LOCK_PREFIX_def
  MODEL_FAILURE_PREFIX_def MODEL_LOCK_ALL_def

lemma getModelLockKey_falsy [simp]: "\<not> truthy m \<Longrightarrow> getModelLockKey m = MODEL_LOCK_ALL"
  by (simp add: getModelLockKey_def)

lemma lock_keys_differ [simp]:
  "getModelLockKey m \<noteq> ''provider''" "getModelLockKey m \<noteq> ''lastQuotaSnapshot''"
  "getModelFailureKey m \<noteq> ''provider''" "getModelFailureKey m \<noteq> ''lastQuotaSnapshot''"
  "getModelLockKey m \<noteq> getModelFailureKey m'" "getModelFailureKey m' \<noteq> getModelLockKey m"
  by (simp_all add: lock_key_defs)

lemma getModelLockKey_Str_inj:
  "a \<noteq> [] \<Longrightarrow> b \<noteq> [] \<Longrightarrow> getModelLockKey (Str a) = getModelLockKey (Str b) \<longleftrightarrow> a = b"
  by (simp add: getModelLockKey_def)

lemma getModelLockKey_all:
  "a \<noteq> [] \<Longrightarrow> getModelLockKey (Str a) = MODEL_LOCK_ALL \<longleftrightarrow> a = ''__all''"
  by (simp add: getModelLockKey_def MODEL_LOCK_ALL_def)

lemma isActiveLockUntil_iso [simp]:
  "\<bar>e\<bar> \<le> max_time \<Longrightarrow> isActiveLockUntil t (Str (to_iso e)) \<longleftrightarrow> t < e"
  by (simp add: isActiveLockUntil_def)

lemma isActiveLockUntil_Null: "0 \<le> t \<Longrightarrow> \<not> isActiveLockUntil t Null"
  by (simp add: isActiveLockUntil_def)

lemma isActiveLockUntil_Undef [simp]: "\<not> isActiveLockUntil t Undef"
  by (simp add: isActiveLockUntil_def)

lemma getExhaustedQuotaWindow_cong:
  assumes "get c ''provider'' = get c' ''provider''"
    and "get c ''lastQuotaSnapshot'' = get c' ''lastQuotaSnapshot''" and "truthy c = truthy c'"
  shows "getExhaustedQuotaWindow now c m = getExhaustedQuotaWindow now c' m"
  using assms by (simp add: getExhaustedQuotaWindow_def)

lemma truthy_spread [simp]: "truthy (spread c u)"
  by (simp add: spread_def)

section \<open>Properties\<close>

text \<open>a connection is refused for a model exactly when there is a failure to report for it: the
  routing test and the diagnostic query agree on every connection, model and instant.\<close>

theorem lock_active_iff_reported:
  assumes "truthy c"
  shows "isModelLockActive now c m \<longleftrightarrow> getActiveModelFailure now c m \<noteq> None"
  using assms by (auto simp: isModelLockActive_def getActiveModelFailure_def split: option.splits prod.splits)

theorem lock_active_iff_reported_witness:
  "isModelLockActive 5 (Obj [(''modelLock___all'', Str ''1970-01-01T00:00:00.006Z'')]) (Str ''gpt'')"
proof -
  have "getActiveModelFailure 5 (Obj [(''modelLock___all'', Str ''1970-01-01T00:00:00.006Z'')]) (Str ''gpt'') \<noteq> None"
    by code_simp
  with lock_active_iff_reported show ?thesis by (metis truthy.simps(7))
qed

text \<open>a lock set for one model holds for that model until the stated instant and for no other model:
  the answers for every other model are what they were before the update (a model whose name is the
  account-wide marker is the one exception).\<close>

theorem model_lock_scope:
  assumes "c = Obj kv" and "m \<noteq> []" and "m \<noteq> ''__all''" and "\<bar>e\<bar> \<le> max_time"
    and c': "c' = spread c (buildModelLockUpdateAt (Str m) (Str (to_iso e)))"
  shows "(t < e \<longrightarrow> isModelLockActive t c' (Str m)) \<and>
    (isModelLockActive t c' (Str m) \<longleftrightarrow> t < e \<or> isActiveLockUntil t (get c MODEL_LOCK_ALL)
       \<or> getExhaustedQuotaWindow t c (Str m) \<noteq> None) \<and>
    (\<forall>m'. m' \<noteq> m \<longrightarrow> isModelLockActive t c' (Str m') = isModelLockActive t c (Str m'))"
proof -
  have get: "get c' k = (if k = getModelLockKey (Str m) then Str (to_iso e) else get c k)" for k
    by (simp add: c' get_spread buildModelLockUpdateAt_def)
  have ne: "getModelLockKey (Str m) \<noteq> MODEL_LOCK_ALL" using assms(2,3) getModelLockKey_all by blast
  have ex: "getExhaustedQuotaWindow t c' x = getExhaustedQuotaWindow t c x" for x
  proof (rule getExhaustedQuotaWindow_cong)
    show "get c' ''provider'' = get c ''provider''" "get c' ''lastQuotaSnapshot'' = get c ''lastQuotaSnapshot''"
      unfolding get using lock_keys_differ(1,2) by metis+
    show "truthy c' = truthy c" by (simp add: c' assms(1))
  qed
  have other: "isModelLockActive t c' (Str m') = isModelLockActive t c (Str m')" if "m' \<noteq> m" for m'
  proof -
    have "getModelLockKey (Str m') \<noteq> getModelLockKey (Str m)"
      using that ne assms(2) getModelLockKey_Str_inj by (cases "m' = []") auto
    with ne show ?thesis by (simp add: isModelLockActive_def get ex)
  qed
  have this: "isModelLockActive t c' (Str m) \<longleftrightarrow> t < e \<or> isActiveLockUntil t (get c MODEL_LOCK_ALL)
      \<or> getExhaustedQuotaWindow t c (Str m) \<noteq> None"
    using ne assms(4) by (auto simp: isModelLockActive_def get ex)
  from this other show ?thesis by blast
qed

theorem model_lock_scope_witness:
  "isModelLockActive 5 (spread (Obj []) (buildModelLockUpdateAt (Str ''gpt'') (Str (to_iso 9)))) (Str ''gpt'')"
  using model_lock_scope [OF refl, of "''gpt''" 9 _ "[]" 5] by simp

text \<open>an account-wide lock refuses every model until it expires, whatever stale per-model field the
  connection still carries.\<close>

theorem account_lock_covers_every_model:
  assumes "get c MODEL_LOCK_ALL = Str (to_iso e)" and "\<bar>e\<bar> \<le> max_time" and "t < e"
  shows "isModelLockActive t c m"
  using assms by (simp add: isModelLockActive_def)

theorem account_lock_covers_every_model_witness:
  "isModelLockActive 100 (Obj [(''modelLock_gpt'', Str (to_iso 50)), (''modelLock___all'', Str (to_iso 200))]) (Str ''gpt'')"
  by (rule account_lock_covers_every_model [where e = 200])
    (simp_all add: MODEL_LOCK_ALL_def MODEL_LOCK_PREFIX_def)

lemma clear_update_get:
  assumes "c = Obj kv"
  shows "get (spread c (buildClearModelLocksUpdate c)) k =
    (if k \<in> fst ` set kv \<and> (starts_with k MODEL_LOCK_PREFIX \<or> starts_with k MODEL_FAILURE_PREFIX)
     then Null else get c k)"
proof -
  let ?ks = "filter (\<lambda>key. starts_with key MODEL_LOCK_PREFIX \<or> starts_with key MODEL_FAILURE_PREFIX) (map fst kv)"
  have "om_get (rev (map (\<lambda>key. (key, Null)) ks)) k = (if k \<in> set ks then Some Null else None)" for ks
    by (induction ks rule: rev_induct) auto
  with assms show ?thesis
    by (auto simp: get_spread buildClearModelLocksUpdate_def split: option.splits)
qed

text \<open>clearing a connection's locks lifts every timed lock, per model and account-wide; only a quota the
  provider itself reports as exhausted can still refuse a model.\<close>

theorem clear_lifts_every_lock:
  assumes "c = Obj kv" and "0 \<le> t" and "truthy m \<Longrightarrow> is_string m"
  shows "isModelLockActive t (spread c (buildClearModelLocksUpdate c)) m \<longleftrightarrow>
    getExhaustedQuotaWindow t c m \<noteq> None"
proof -
  let ?c' = "spread c (buildClearModelLocksUpdate c)"
  have pre: "starts_with (getModelLockKey x) MODEL_LOCK_PREFIX" for x
    by (auto simp: getModelLockKey_def MODEL_LOCK_ALL_def starts_with_iff)
  have "get ?c' (getModelLockKey x) \<in> {Null, Undef}" for x
    unfolding clear_update_get [OF assms(1)] using pre [of x] assms(1)
    by (auto simp: om_get_None_iff [symmetric])
  then have off: "\<not> isActiveLockUntil t (get ?c' (getModelLockKey x))" for x
    using isActiveLockUntil_Null [OF assms(2)] isActiveLockUntil_Undef by (metis insertE singletonD)
  moreover have "getExhaustedQuotaWindow t ?c' m = getExhaustedQuotaWindow t c m"
    by (intro getExhaustedQuotaWindow_cong)
      (simp_all add: clear_update_get [OF assms(1)], simp_all add: assms(1) MODEL_LOCK_PREFIX_def MODEL_FAILURE_PREFIX_def)
  ultimately show ?thesis
    using off [of Null] by (simp add: isModelLockActive_def)
qed

theorem clear_lifts_every_lock_witness:
  "\<not> isModelLockActive 100 (spread (Obj [(''modelLock_gpt'', Str (to_iso 500)), (''modelLock___all'', Str (to_iso 200))])
     (buildClearModelLocksUpdate (Obj [(''modelLock_gpt'', Str (to_iso 500)), (''modelLock___all'', Str (to_iso 200))]))) (Str ''gpt'')"
  using clear_lifts_every_lock [OF refl, of 100 "Str ''gpt''"
      "[(''modelLock_gpt'', Str (to_iso 500)), (''modelLock___all'', Str (to_iso 200))]"]
  by (simp add: getExhaustedQuotaWindow_def MODEL_KEYED_QUOTA_PROVIDERS_def)

text \<open>The loop of the earliest expiry computes the minimum of the future ones.\<close>

definition is_first :: "int \<Rightarrow> int set \<Rightarrow> int option \<Rightarrow> bool" where
  "is_first now S e = (case e of None \<Rightarrow> \<forall>u \<in> S. u \<le> now
     | Some r \<Rightarrow> r \<in> S \<and> now < r \<and> (\<forall>u \<in> S. now < u \<longrightarrow> r \<le> u))"

lemma is_first_earlier:
  "0 \<le> now \<Longrightarrow> is_first now S e \<Longrightarrow> is_first now (S \<union> set_option a) (earlier now e a)"
  by (cases e; cases a) (auto simp: is_first_def earlier_def)

lemma is_first_foldl:
  assumes "0 \<le> now" and "is_first now S e"
  shows "is_first now (S \<union> {u. Some u \<in> set us}) (foldl (earlier now) e us)"
  using assms(2)
proof (induction us arbitrary: S e)
  case Nil
  then show ?case by simp
next
  case (Cons a us)
  have "is_first now (S \<union> set_option a \<union> {u. Some u \<in> set us}) (foldl (earlier now) (earlier now e a) us)"
    using Cons.IH is_first_earlier [OF assms(1) Cons.prems] by blast
  moreover have "S \<union> set_option a \<union> {u. Some u \<in> set us} = S \<union> {u. Some u \<in> set (a # us)}"
    by (auto split: option.splits)
  ultimately show ?case by simp
qed

lemma is_first_Min:
  assumes "is_first now S e" and "finite {u \<in> S. now < u}"
  shows "e = (if {u \<in> S. now < u} = {} then None else Some (Min {u \<in> S. now < u}))"
proof (cases e)
  case None
  with assms(1) show ?thesis by (auto simp: is_first_def)
next
  case (Some r)
  with assms(1) have "r \<in> {u \<in> S. now < u}" "\<And>u. u \<in> {u \<in> S. now < u} \<Longrightarrow> r \<le> u"
    by (auto simp: is_first_def)
  with Some assms(2) show ?thesis by (metis (no_types, lifting) Min_eqI empty_iff)
qed

definition lock_expiries :: "jv \<Rightarrow> int option list" where
  "lock_expiries c = map (date_of \<circ> snd)
     (filter (\<lambda>(k, v). starts_with k MODEL_LOCK_PREFIX \<and> truthy v) (obj_entries c))"

lemma scan_locks_foldl:
  "scan_locks now e0 kv = foldl (earlier now) e0 (lock_expiries (Obj kv))"
  unfolding lock_expiries_def by (induction now e0 kv rule: scan_locks.induct) auto

text \<open>the expiry shown for a connection is the earliest instant at which one of its running locks ends;
  nothing is shown when no lock is running.\<close>

theorem earliest_lock_is_minimum:
  assumes "c = Obj kv" and "0 \<le> now"
  defines "S \<equiv> {u. Some u \<in> set (lock_expiries c) \<and> now < u}"
  shows "getEarliestModelLockUntil now c None = (if S = {} then Null else Str (to_iso (Min S)))"
proof -
  have "S \<subseteq> the ` set (lock_expiries c)" by (auto simp: S_def image_iff) (metis option.sel)
  then have fin: "finite S" using finite_surj by blast
  let ?r = "foldl (earlier now) None (lock_expiries c)"
  have "is_first now {u. Some u \<in> set (lock_expiries c)} ?r"
    using is_first_foldl [OF assms(2), of "{}" None] by (simp add: is_first_def)
  from is_first_Min [OF this] fin have r: "?r = (if S = {} then None else Some (Min S))"
    by (simp add: S_def)
  have "getEarliestModelLockUntil now c None = (case iso_or_none ?r of None \<Rightarrow> Null | Some s \<Rightarrow> Str s)"
    using assms(1) by (simp add: getEarliestModelLockUntil_def scan_locks_foldl)
  moreover have "S \<noteq> {} \<Longrightarrow> Min S \<noteq> 0"
    using Min_in [OF fin] assms(2) by (auto simp: S_def)
  ultimately show ?thesis unfolding r by (simp add: iso_or_none_def)
qed

theorem earliest_lock_is_minimum_witness:
  "getEarliestModelLockUntil 100 (Obj [(''modelLock_a'', Str (to_iso 50)), (''modelLock_b'', Str (to_iso 700)),
     (''modelLock_c'', Str (to_iso 300)), (''other'', Str (to_iso 200))]) None = Str (to_iso 300)"
proof -
  let ?kv = "[(''modelLock_a'', Str (to_iso 50)), (''modelLock_b'', Str (to_iso 700)),
     (''modelLock_c'', Str (to_iso 300)), (''other'', Str (to_iso 200))]"
  have "lock_expiries (Obj ?kv) = [Some 50, Some 700, Some 300]"
    by (simp add: lock_expiries_def MODEL_LOCK_PREFIX_def)
  then have S: "{u. Some u \<in> set (lock_expiries (Obj ?kv)) \<and> 100 < u} = {300, 700}" by auto
  have "(0::int) \<le> 100" by simp
  from earliest_lock_is_minimum [OF refl this, of ?kv, unfolded S] show ?thesis by simp
qed

text \<open>a model is skipped on quota evidence only when the provider keys its quota by model, the window of
  exactly this model reads a numeric zero, is not unlimited, and resets in the future; anything missing or
  malformed leaves the account in service.\<close>

theorem exhausted_quota_is_positive_evidence:
  assumes "getExhaustedQuotaWindow now c m = Some (key, until)"
  shows "get c ''provider'' = Str ''antigravity'' \<and> key = m \<and> is_array (get (get c ''lastQuotaSnapshot'') ''windows'') \<and>
    (\<exists>w \<in> set (arr_items (get (get c ''lastQuotaSnapshot'') ''windows'')). get w ''key'' = m \<and>
       get w ''unlimited'' \<noteq> Bool True \<and> to_number (get w ''remainingPercentage'') = Fin 0 \<and>
       (\<exists>r. date_of (get w ''resetAt'') = Some r \<and> now < r \<and> until = to_iso r))"
  using assms
  by (auto simp: getExhaustedQuotaWindow_def MODEL_KEYED_QUOTA_PROVIDERS_def Let_def
      dest!: find_Some_in seq_imp_eq split: if_splits option.splits)

theorem exhausted_quota_is_positive_evidence_witness:
  "\<exists>w. to_number (get w ''remainingPercentage'') = Fin 0"
proof -
  have "getExhaustedQuotaWindow 100 (Obj [(''provider'', Str ''antigravity''), (''lastQuotaSnapshot'',
      Obj [(''windows'', Arr [Obj [(''key'', Str ''gemini''), (''remainingPercentage'', JInt 0),
        (''resetAt'', Str (to_iso 500))]])])]) (Str ''gemini'') = Some (Str ''gemini'', to_iso 500)"
    by (simp add: getExhaustedQuotaWindow_def MODEL_KEYED_QUOTA_PROVIDERS_def)
  from exhausted_quota_is_positive_evidence [OF this] show ?thesis by blast
qed

end
