(* ===== verification/AdmissionPolicy.thy ===== *)
theory AdmissionPolicy
  imports JsValue
begin

text \<open>
  The operator policy of the resource admission gate, from src/sse/services/resourceAdmission.js:
  the defaults, and the validation that turns an arbitrary settings value into a policy or the
  message of the TypeError it throws.
\<close>

record admission_policy =
  adaptive :: bool
  minStreams :: int
  maxStreams :: int
  maxHandlers :: int
  clientStreams :: int
  clientHandlers :: int
  providerStreams :: int
  queueDepth :: int
  clientQueueDepth :: int
  maxWaitMs :: int
  memoryBudgetMb :: int
  eventLoopBudgetMs :: int
  minSamples :: int
  cooldownMs :: int
  overrideStreams :: "int option"

definition ADMISSION_DEFAULTS :: "(string \<times> jv) list" where
  "ADMISSION_DEFAULTS =
     [(''adaptive'', Bool True), (''minStreams'', JInt 8), (''maxStreams'', JInt 128),
      (''maxHandlers'', JInt 64), (''clientStreams'', JInt 32), (''clientHandlers'', JInt 32),
      (''providerStreams'', JInt 64), (''queueDepth'', JInt 512), (''clientQueueDepth'', JInt 128),
      (''maxWaitMs'', JInt 30000), (''memoryBudgetMb'', JInt 2048), (''eventLoopBudgetMs'', JInt 100),
      (''minSamples'', JInt 5), (''cooldownMs'', JInt 10000), (''overrideStreams'', Null)]"

text \<open>\<open>{...m, ...n}\<close>\<close>

fun spread_over :: "(string \<times> jv) list \<Rightarrow> (string \<times> jv) list \<Rightarrow> (string \<times> jv) list" where
  "spread_over m [] = m"
| "spread_over m ((k, v) # n) = spread_over (om_set m k v) n"

definition max_safe_integer :: int where
  "max_safe_integer = 2 ^ 53 - 1"

definition is_safe_integer :: "jv \<Rightarrow> bool" where
  "is_safe_integer v = (case v of Num n \<Rightarrow> is_integer_num n
     \<and> num_le (Fin (of_int (- max_safe_integer))) n \<and> num_le n (Fin (of_int max_safe_integer)) | _ \<Rightarrow> False)"

definition ends_with :: "string \<Rightarrow> string \<Rightarrow> bool" where
  "ends_with s p = starts_with (rev s) (rev p)"

definition setting_ceiling :: "string \<Rightarrow> int" where
  "setting_ceiling key = (if ends_with key ''Ms'' then 300000 else 65536)"

definition int_of :: "jv \<Rightarrow> int" where
  "int_of v = (case v of Num (Fin r) \<Rightarrow> \<lfloor>r\<rfloor> | _ \<Rightarrow> 0)"

text \<open>One round of the loop over the merged entries: the error it throws, if any.\<close>

definition check_setting :: "string \<Rightarrow> jv \<Rightarrow> string option" where
  "check_setting key value =
     (if om_get ADMISSION_DEFAULTS key = None then Some (''Unknown admission setting '' @ key)
      else if key = ''adaptive'' then (if is_bool value then None else Some ''adaptive must be boolean'')
      else if key = ''overrideStreams'' \<and> value = Null then None
      else if \<not> is_safe_integer value \<or> int_of value < 1 \<or> setting_ceiling key < int_of value
        then Some (''Invalid '' @ key)
      else None)"

fun check_settings :: "(string \<times> jv) list \<Rightarrow> string option" where
  "check_settings [] = None"
| "check_settings ((key, value) # rest) =
     (case check_setting key value of Some e \<Rightarrow> Some e | None \<Rightarrow> check_settings rest)"

definition read_policy :: "(string \<times> jv) list \<Rightarrow> admission_policy" where
  "read_policy m = (let num = (\<lambda>k. int_of (get (Obj m) k)) in
     \<lparr> adaptive = truthy (get (Obj m) ''adaptive''), minStreams = num ''minStreams'',
       maxStreams = num ''maxStreams'', maxHandlers = num ''maxHandlers'',
       clientStreams = num ''clientStreams'', clientHandlers = num ''clientHandlers'',
       providerStreams = num ''providerStreams'', queueDepth = num ''queueDepth'',
       clientQueueDepth = num ''clientQueueDepth'', maxWaitMs = num ''maxWaitMs'',
       memoryBudgetMb = num ''memoryBudgetMb'', eventLoopBudgetMs = num ''eventLoopBudgetMs'',
       minSamples = num ''minSamples'', cooldownMs = num ''cooldownMs'',
       overrideStreams = (if is_nullish (get (Obj m) ''overrideStreams'') then None
         else Some (num ''overrideStreams'')) \<rparr>)"

definition validateAdmissionPolicy :: "jv \<Rightarrow> string + admission_policy" where
  "validateAdmissionPolicy input0 =
     (let input = (if input0 = Undef then Obj [] else input0) in
      if \<not> truthy input \<or> \<not> is_object input \<or> is_array input
        then Inl ''Admission policy must be an object''
      else let merged = spread_over ADMISSION_DEFAULTS (obj_entries input) in
        case check_settings merged of Some e \<Rightarrow> Inl e
        | None \<Rightarrow> let policy = read_policy merged in
            if maxStreams policy < minStreams policy then Inl ''Minimum streams exceeds maximum''
            else case overrideStreams policy of
              Some n \<Rightarrow> if n < minStreams policy \<or> maxStreams policy < n
                then Inl ''Override must be inside operator bounds'' else Inr policy
            | None \<Rightarrow> Inr policy)"

section \<open>What a validated policy guarantees\<close>

definition policy_wf :: "admission_policy \<Rightarrow> bool" where
  "policy_wf p \<longleftrightarrow> 1 \<le> minStreams p \<and> minStreams p \<le> maxStreams p \<and> maxStreams p \<le> 65536
     \<and> 1 \<le> maxHandlers p \<and> 1 \<le> clientStreams p \<and> 1 \<le> clientHandlers p \<and> 1 \<le> providerStreams p
     \<and> 1 \<le> queueDepth p \<and> 1 \<le> clientQueueDepth p \<and> 1 \<le> maxWaitMs p \<and> maxWaitMs p \<le> 300000
     \<and> 1 \<le> memoryBudgetMb p \<and> 1 \<le> eventLoopBudgetMs p \<and> 1 \<le> minSamples p \<and> 1 \<le> cooldownMs p
     \<and> (case overrideStreams p of None \<Rightarrow> True | Some n \<Rightarrow> minStreams p \<le> n \<and> n \<le> maxStreams p)"

lemma check_settings_None:
  "check_settings m = None \<Longrightarrow> (k, v) \<in> set m \<Longrightarrow> check_setting k v = None"
  by (induction m rule: check_settings.induct) (auto split: option.splits)

lemma spread_over_keeps:
  "om_get m k \<noteq> None \<Longrightarrow> om_get (spread_over m n) k \<noteq> None"
  by (induction m n rule: spread_over.induct) auto

lemma merged_setting_in_range:
  assumes ok: "check_settings (spread_over ADMISSION_DEFAULTS es) = None"
    and k: "om_get ADMISSION_DEFAULTS k \<noteq> None" "k \<noteq> ''adaptive''" "k \<noteq> ''overrideStreams''"
  shows "1 \<le> int_of (get (Obj (spread_over ADMISSION_DEFAULTS es)) k)
    \<and> int_of (get (Obj (spread_over ADMISSION_DEFAULTS es)) k) \<le> setting_ceiling k"
proof -
  obtain v where v: "om_get (spread_over ADMISSION_DEFAULTS es) k = Some v"
    using spread_over_keeps [OF k(1)] by blast
  then have "check_setting k v = None"
    using check_settings_None [OF ok om_get_Some_set] by blast
  then show ?thesis using k v by (auto simp: check_setting_def split: if_splits)
qed

definition numeric_settings :: "string list" where
  "numeric_settings = [''minStreams'', ''maxStreams'', ''maxHandlers'', ''clientStreams'',
     ''clientHandlers'', ''providerStreams'', ''queueDepth'', ''clientQueueDepth'', ''maxWaitMs'',
     ''memoryBudgetMb'', ''eventLoopBudgetMs'', ''minSamples'', ''cooldownMs'']"

lemma numeric_settings_known:
  "list_all (\<lambda>k. om_get ADMISSION_DEFAULTS k \<noteq> None \<and> k \<noteq> ''adaptive'' \<and> k \<noteq> ''overrideStreams'')
     numeric_settings"
  by code_simp

lemma accepted_policy_wf:
  assumes "validateAdmissionPolicy input = Inr p"
  shows "policy_wf p"
proof -
  define es where "es = obj_entries (if input = Undef then Obj [] else input)"
  have m: "check_settings (spread_over ADMISSION_DEFAULTS es) = None"
    and p: "p = read_policy (spread_over ADMISSION_DEFAULTS es)"
    and b: "minStreams p \<le> maxStreams p"
    and ov: "case overrideStreams p of None \<Rightarrow> True | Some n \<Rightarrow> minStreams p \<le> n \<and> n \<le> maxStreams p"
    using assms unfolding validateAdmissionPolicy_def es_def
    by (auto simp: Let_def split: if_splits option.splits)
  let ?get = "\<lambda>k. int_of (get (Obj (spread_over ADMISSION_DEFAULTS es)) k)"
  have "list_all (\<lambda>k. 1 \<le> ?get k \<and> ?get k \<le> setting_ceiling k) numeric_settings"
    using numeric_settings_known merged_setting_in_range [OF m] unfolding list_all_iff by blast
  note r = this [unfolded numeric_settings_def list.pred_inject]
  have c: "setting_ceiling ''maxStreams'' = 65536" "setting_ceiling ''maxWaitMs'' = 300000"
    by (simp_all add: setting_ceiling_def ends_with_def)
  show ?thesis
    using b ov r
    unfolding policy_wf_def p read_policy_def Let_def c
    by (simp del: get.simps)
qed

text \<open>a settings value the validator accepts, whatever its shape, gives a policy in which every
  bound is a positive integer, the stream bounds are ordered, and an operator override lies
  between them. No later division by a budget can be by zero.\<close>

theorem validated_policy_wf:
  assumes "validateAdmissionPolicy input = Inr p"
  shows "policy_wf p"
  using assms by (rule accepted_policy_wf)

theorem validated_policy_wf_witness:
  "case validateAdmissionPolicy (Obj [(''maxStreams'', JInt 16), (''overrideStreams'', JInt 9)]) of
     Inr p \<Rightarrow> overrideStreams p = Some 9 \<and> policy_wf p | Inl _ \<Rightarrow> False"
proof -
  let ?v = "validateAdmissionPolicy (Obj [(''maxStreams'', JInt 16), (''overrideStreams'', JInt 9)])"
  have "case ?v of Inr p \<Rightarrow> overrideStreams p = Some 9 | Inl _ \<Rightarrow> False" by code_simp
  then show ?thesis using validated_policy_wf [of _ "projr ?v"] by (cases ?v) auto
qed

definition default_policy :: admission_policy where
  "default_policy = read_policy ADMISSION_DEFAULTS"

lemma default_policy_valid: "validateAdmissionPolicy Undef = Inr default_policy"
  by code_simp

lemma default_policy_wf [simp]: "policy_wf default_policy"
  by (rule accepted_policy_wf [OF default_policy_valid])

end
