(* ===== verification/Admission.thy ===== *)
theory Admission
  imports AdmissionPolicy JsDate
begin

text \<open>
  The process-wide admission gate of src/sse/services/resourceAdmission.js: the state the closure
  \<open>createResourceAdmission\<close> keeps, and one definition per operation on it. Every operation takes the
  reading of the clock as an argument.

  A request is named by the number its \<open>acquire\<close> call gets; a queued waiter and the permit the
  request may receive carry that number, which stands for the identity of the promise and of the
  permit object. \<open>settled\<close> lists the promises that have resolved and their values. \<open>permits\<close> holds
  the two flags every permit closes over. The client entry a permit or a waiter holds a reference
  to is found under its key: the theory AdmissionInvariant shows it stays in the map while they live.
\<close>

record client_state =
  c_handlers :: int
  c_streams :: int
  c_queued :: int

record waiter =
  w_id :: nat
  w_client :: string
  w_signal :: "nat option"
  w_enqueuedAt :: int
  w_deadline :: int

record permit =
  g_client :: string
  g_handler :: bool
  g_stream :: bool

datatype outcome = Admitted int | Refused string "int option"

record pressure_sample =
  s_eventLoopMs :: "rat option"
  s_memoryMb :: "rat option"
  s_heapPressure :: "rat option"
  s_connectionPressure :: "rat option"

record provider_state =
  pv_active :: int
  pv_throttledUntil :: int
  pv_effective :: "int option"
  pv_limit :: int
  pv_reason :: string
  pv_lastSeen :: int

record quota_evidence =
  q_observedAt :: int
  q_paused :: bool

record adm =
  policy :: admission_policy
  effective :: int
  handlers :: int
  streams :: int
  samples :: int
  smoothed :: "rat option"
  healthy :: int
  lastChange :: "int option"
  decision :: string
  lastSample :: "(pressure_sample \<times> int) option"
  lastClient :: "string option"
  clients :: "(string, client_state) omap"
  queue :: "waiter list"
  providers :: "(string, provider_state) omap"
  quotaEvidence :: "(string, quota_evidence) omap"
  n_admitted :: int
  n_refused :: int
  n_aborted :: int
  n_timedOut :: int
  n_released :: int
  permits :: "(nat, permit) omap"
  providerPermits :: "(nat \<times> string) list"
  settled :: "(nat \<times> outcome) list"
  abortedSignals :: "nat list"
  nextId :: nat
  nextPermit :: nat

definition createResourceAdmission :: "jv \<Rightarrow> string + adm" where
  "createResourceAdmission initial = (case validateAdmissionPolicy initial of Inl e \<Rightarrow> Inl e
     | Inr p \<Rightarrow> Inr \<lparr> policy = p, effective = minStreams p, handlers = 0, streams = 0, samples = 0,
         smoothed = None, healthy = 0, lastChange = None, decision = ''awaiting-pressure-samples'',
         lastSample = None, lastClient = None, clients = [], queue = [], providers = [],
         quotaEvidence = [], n_admitted = 0, n_refused = 0, n_aborted = 0, n_timedOut = 0,
         n_released = 0, permits = [], providerPermits = [], settled = [], abortedSignals = [],
         nextId = 0, nextPermit = 0 \<rparr>)"

section \<open>Clients\<close>

definition currentLimit :: "adm \<Rightarrow> int" where
  "currentLimit st = (case overrideStreams (policy st) of Some n \<Rightarrow> n
     | None \<Rightarrow> if adaptive (policy st) then effective st else maxStreams (policy st))"

definition no_client :: client_state where
  "no_client = \<lparr> c_handlers = 0, c_streams = 0, c_queued = 0 \<rparr>"

definition client_of :: "adm \<Rightarrow> string \<Rightarrow> client_state" where
  "client_of st key = (case om_get (clients st) key of None \<Rightarrow> no_client | Some s \<Rightarrow> s)"

definition stateFor :: "string \<Rightarrow> adm \<Rightarrow> adm" where
  "stateFor key st = st\<lparr> clients := (if om_get (clients st) key = None
     then om_set (clients st) key no_client else clients st) \<rparr>"

text \<open>A write through the reference \<open>s\<close> to the entry of a client.\<close>

definition upd_client :: "string \<Rightarrow> (client_state \<Rightarrow> client_state) \<Rightarrow> adm \<Rightarrow> adm" where
  "upd_client key f st = st\<lparr> clients := om_adjust (clients st) key f \<rparr>"

definition clean :: "string \<Rightarrow> adm \<Rightarrow> adm" where
  "clean key st = st\<lparr> clients := (case om_get (clients st) key of None \<Rightarrow> clients st
     | Some s \<Rightarrow> if c_handlers s = 0 \<and> c_streams s = 0 \<and> c_queued s = 0
         then om_del (clients st) key else clients st) \<rparr>"

definition fits :: "adm \<Rightarrow> string \<Rightarrow> bool" where
  "fits st client = (let s = client_of st client in
     handlers st < maxHandlers (policy st) \<and> streams st < currentLimit st
     \<and> c_handlers s < clientHandlers (policy st)
     \<and> c_streams s < min (clientStreams (policy st)) (max 1 (currentLimit st div 2)))"

section \<open>Granting and draining\<close>

definition grant :: "waiter \<Rightarrow> adm \<Rightarrow> adm" where
  "grant w st = (upd_client (w_client w)
       (\<lambda>s. s\<lparr> c_handlers := c_handlers s + 1, c_streams := c_streams s + 1 \<rparr>) (stateFor (w_client w) st))
     \<lparr> handlers := handlers st + 1, streams := streams st + 1, n_admitted := n_admitted st + 1,
       lastClient := Some (w_client w),
       permits := om_set (permits st) (w_id w) \<lparr> g_client = w_client w, g_handler = True, g_stream = True \<rparr> \<rparr>"

definition resolve :: "nat \<Rightarrow> outcome \<Rightarrow> adm \<Rightarrow> adm" where
  "resolve i r st = st\<lparr> settled := settled st @ [(i, r)] \<rparr>"

text \<open>\<open>w.settle(null, why)\<close> and \<open>w.settle(permit)\<close>\<close>

definition leave_queue :: "waiter \<Rightarrow> adm \<Rightarrow> adm" where
  "leave_queue w st = clean (w_client w) (upd_client (w_client w) (\<lambda>s. s\<lparr> c_queued := c_queued s - 1 \<rparr>)
     (st\<lparr> queue := remove1 w (queue st) \<rparr>))"

definition count_refusal :: "string \<Rightarrow> adm \<Rightarrow> adm" where
  "count_refusal why st = (if why = ''aborted''
     then st\<lparr> n_refused := n_refused st + 1, n_aborted := n_aborted st + 1 \<rparr>
     else st\<lparr> n_refused := n_refused st + 1, n_timedOut := n_timedOut st + 1 \<rparr>)"

definition settle_refused :: "int \<Rightarrow> waiter \<Rightarrow> string \<Rightarrow> adm \<Rightarrow> adm" where
  "settle_refused now w why st =
     resolve (w_id w) (Refused why (Some (now - w_enqueuedAt w))) (count_refusal why (leave_queue w st))"

definition settle_granted :: "int \<Rightarrow> waiter \<Rightarrow> adm \<Rightarrow> adm" where
  "settle_granted now w st =
     resolve (w_id w) (Admitted (max 0 (now - w_enqueuedAt w))) (leave_queue w (grant w st))"

definition signal_aborted :: "adm \<Rightarrow> nat option \<Rightarrow> bool" where
  "signal_aborted st sig = (case sig of None \<Rightarrow> False | Some s \<Rightarrow> s \<in> set (abortedSignals st))"

text \<open>The waiter a round of \<open>drain\<close> picks: the oldest that fits from another client than the last
  one served, else the oldest that fits.\<close>

definition next_waiter :: "adm \<Rightarrow> waiter option" where
  "next_waiter st = (case find (\<lambda>w. Some (w_client w) \<noteq> lastClient st \<and> fits st (w_client w)) (queue st) of
       Some w \<Rightarrow> Some w
     | None \<Rightarrow> find (\<lambda>w. fits st (w_client w)) (queue st))"

definition drain_one :: "int \<Rightarrow> waiter \<Rightarrow> adm \<Rightarrow> adm" where
  "drain_one now w st =
     (if signal_aborted st (w_signal w) \<or> w_deadline w \<le> now
      then settle_refused now w (if signal_aborted st (w_signal w) then ''aborted'' else ''wait-timeout'') st
      else settle_granted now w st)"

lemma queue_upd_client [simp]: "queue (upd_client k f st) = queue st"
  by (simp add: upd_client_def)

lemma queue_clean [simp]: "queue (clean k st) = queue st"
  by (simp add: clean_def)

lemma queue_stateFor [simp]: "queue (stateFor k st) = queue st"
  by (simp add: stateFor_def)

lemma queue_drain_one [simp]: "queue (drain_one now w st) = remove1 w (queue st)"
  by (simp add: drain_one_def settle_refused_def settle_granted_def leave_queue_def grant_def
      resolve_def count_refusal_def)

lemma next_waiter_in_queue: "next_waiter st = Some w \<Longrightarrow> w \<in> set (queue st) \<and> fits st (w_client w)"
  by (auto simp: next_waiter_def dest!: find_Some_in split: option.splits)

function drain :: "int \<Rightarrow> adm \<Rightarrow> adm" where
  "drain now st = (case next_waiter st of None \<Rightarrow> st | Some w \<Rightarrow> drain now (drain_one now w st))"
  by auto

termination
proof (relation "measure (\<lambda>(_, st). length (queue st))")
  fix now st w assume "next_waiter st = Some w"
  then show "((now, drain_one now w st), now, st) \<in> measure (\<lambda>(_, st). length (queue st))"
    using next_waiter_in_queue length_remove1 [of w "queue st"] length_pos_if_in_set [of w "queue st"]
    by fastforce
qed simp

declare drain.simps [simp del]

section \<open>Acquiring and releasing\<close>

definition acquire :: "int \<Rightarrow> string \<Rightarrow> nat option \<Rightarrow> int option \<Rightarrow> adm \<Rightarrow> adm" where
  "acquire now client sig deadline st0 =
     (let i = nextId st0; st = st0\<lparr> nextId := i + 1 \<rparr>;
          late = (case deadline of None \<Rightarrow> False | Some d \<Rightarrow> d \<le> now);
          until = (case deadline of None \<Rightarrow> now + maxWaitMs (policy st) | Some d \<Rightarrow> min d (now + maxWaitMs (policy st)));
          w = \<lparr> w_id = i, w_client = client, w_signal = sig, w_enqueuedAt = now, w_deadline = until \<rparr>
      in if signal_aborted st sig \<or> late
           then resolve i (Refused (if signal_aborted st sig then ''aborted'' else ''wait-timeout'') None) st
         else if queue st = [] \<and> fits st client then resolve i (Admitted (max 0 (now - now))) (grant w st)
         else let st1 = stateFor client st in
           if queueDepth (policy st1) \<le> int (length (queue st1))
              \<or> clientQueueDepth (policy st1) \<le> c_queued (client_of st1 client)
           then resolve i (Refused ''queue-full'' None)
                  (clean client (st1\<lparr> n_refused := n_refused st1 + 1 \<rparr>))
           else drain now (upd_client client (\<lambda>s. s\<lparr> c_queued := c_queued s + 1 \<rparr>)
                  (st1\<lparr> queue := queue st1 @ [w] \<rparr>)))"

definition releaseHandler :: "int \<Rightarrow> nat \<Rightarrow> adm \<Rightarrow> adm \<times> bool" where
  "releaseHandler now i st = (case om_get (permits st) i of None \<Rightarrow> (st, False)
     | Some g \<Rightarrow> if \<not> g_handler g then (st, False)
         else (drain now (clean (g_client g) (upd_client (g_client g) (\<lambda>s. s\<lparr> c_handlers := c_handlers s - 1 \<rparr>)
                (st\<lparr> permits := om_set (permits st) i (g\<lparr> g_handler := False \<rparr>), handlers := handlers st - 1 \<rparr>))), True))"

definition release :: "int \<Rightarrow> nat \<Rightarrow> adm \<Rightarrow> adm \<times> bool" where
  "release now i st = (case om_get (permits st) i of None \<Rightarrow> (st, False)
     | Some g \<Rightarrow> if \<not> g_stream g then (st, False)
         else let st1 = upd_client (g_client g) (\<lambda>s. s\<lparr> c_streams := c_streams s - 1 \<rparr>)
                (st\<lparr> permits := om_set (permits st) i (g\<lparr> g_stream := False \<rparr>), streams := streams st - 1,
                     n_released := n_released st + 1 \<rparr>);
              st2 = fst (releaseHandler now i st1)
           in (drain now (clean (g_client g) st2), True))"

text \<open>The waiter's timer and its abort listener; both are removed once the waiter has settled.\<close>

definition waiter_event :: "int \<Rightarrow> string \<Rightarrow> nat \<Rightarrow> adm \<Rightarrow> adm" where
  "waiter_event now why i st = (case find (\<lambda>w. w_id w = i) (queue st) of None \<Rightarrow> st
     | Some w \<Rightarrow> drain now (settle_refused now w why st))"

fun waiter_events :: "int \<Rightarrow> string \<Rightarrow> nat list \<Rightarrow> adm \<Rightarrow> adm" where
  "waiter_events now why [] st = st"
| "waiter_events now why (i # is) st = waiter_events now why is (waiter_event now why i st)"

text \<open>A signal aborts: its flag is set first, then its listeners run in the order they were added.\<close>

definition abort_signal :: "int \<Rightarrow> nat \<Rightarrow> adm \<Rightarrow> adm" where
  "abort_signal now sig st = (if sig \<in> set (abortedSignals st) then st
     else waiter_events now ''aborted'' (map w_id (filter (\<lambda>w. w_signal w = Some sig) (queue st)))
       (st\<lparr> abortedSignals := sig # abortedSignals st \<rparr>))"

section \<open>Adapting the limit\<close>

definition the_values :: "rat option list \<Rightarrow> rat list" where
  "the_values xs = map the (filter (\<lambda>x. x \<noteq> None) xs)"

definition measurements :: "admission_policy \<Rightarrow> pressure_sample \<Rightarrow> rat list" where
  "measurements p sample = the_values
     [map_option (\<lambda>x. x / of_int (eventLoopBudgetMs p)) (s_eventLoopMs sample),
      map_option (\<lambda>x. x / of_int (memoryBudgetMb p)) (s_memoryMb sample),
      s_heapPressure sample, s_connectionPressure sample]"

definition demand :: "int \<Rightarrow> adm \<Rightarrow> bool" where
  "demand now st \<longleftrightarrow>
     (case queue st of [] \<Rightarrow> False
      | w # _ \<Rightarrow> min 1000 (of_int (maxWaitMs (policy st)) / 4) \<le> (of_int (now - w_enqueuedAt w) :: rat))
     \<or> of_int (effective st) * 3 / 4 \<le> (of_int (streams st) :: rat)"

definition adapt :: "int \<Rightarrow> rat \<Rightarrow> adm \<Rightarrow> adm" where
  "adapt now level st =
     (if \<not> adaptive (policy st) \<or> overrideStreams (policy st) \<noteq> None
      then st\<lparr> decision := (if overrideStreams (policy st) \<noteq> None then ''operator-override'' else ''operator-fixed'') \<rparr>
      else if samples st < minSamples (policy st) then st\<lparr> decision := ''minimum-samples'' \<rparr>
      else if (case lastChange st of None \<Rightarrow> False | Some t \<Rightarrow> now - t < cooldownMs (policy st))
        then st\<lparr> decision := ''cooldown'' \<rparr>
      else if 1 < level
        then st\<lparr> effective := max (minStreams (policy st)) (effective st * 4 div 5), lastChange := Some now,
                 healthy := 0, decision := ''measured-process-pressure'' \<rparr>
      else if level < 65 / 100
        then (let st1 = st\<lparr> healthy := healthy st + 1 \<rparr> in
          if 3 \<le> healthy st1 \<and> demand now st1
          then drain now (st1\<lparr> effective := min (maxStreams (policy st1)) (effective st1 + 1),
                 lastChange := Some now, healthy := 0, decision := ''healthy-demand-gradual-recovery'' \<rparr>)
          else st1\<lparr> decision := ''healthy-awaiting-demand'' \<rparr>)
      else st\<lparr> healthy := 0, decision := ''hysteresis-hold'' \<rparr>)"

definition observe :: "int \<Rightarrow> pressure_sample \<Rightarrow> adm \<Rightarrow> adm" where
  "observe now sample st0 =
     (let st = st0\<lparr> lastSample := Some (sample, now) \<rparr>; valid = measurements (policy st) sample in
      if length valid < 2 then st\<lparr> samples := 0, healthy := 0, decision := ''pressure-evidence-unavailable'' \<rparr>
      else let pressure = Max (set valid);
               level = (case smoothed st of None \<Rightarrow> pressure | Some old \<Rightarrow> pressure / 4 + old * 3 / 4)
           in adapt now level (st\<lparr> smoothed := Some level, samples := samples st + 1 \<rparr>))"

definition configure :: "int \<Rightarrow> jv \<Rightarrow> adm \<Rightarrow> adm" where
  "configure now input st = (case validateAdmissionPolicy input of Inl _ \<Rightarrow> st
     | Inr next \<Rightarrow> if next = policy st then st
         else drain now (st\<lparr> policy := next, samples := 0, smoothed := None, healthy := 0,
                effective := max (minStreams next) (min (maxStreams next) (effective st)),
                decision := (if overrideStreams next \<noteq> None then ''operator-override'' else ''policy-updated'') \<rparr>))"

section \<open>Providers and quota evidence\<close>

definition sweep_providers :: "int \<Rightarrow> adm \<Rightarrow> adm" where
  "sweep_providers now st = st\<lparr> providers :=
     filter (\<lambda>(_, s). \<not> (pv_active s = 0 \<and> 300000 < now - pv_lastSeen s)) (providers st) \<rparr>"

definition provider_key :: "string option \<Rightarrow> string" where
  "provider_key provider = (case provider of None \<Rightarrow> ''unknown'' | Some k \<Rightarrow> if k = [] then ''unknown'' else k)"

definition provider_limit :: "admission_policy \<Rightarrow> jv \<Rightarrow> int" where
  "provider_limit p configured = (case configured of Num (Fin r) \<Rightarrow>
       if of_int \<lfloor>r\<rfloor> = r \<and> 0 < r then min \<lfloor>r\<rfloor> (providerStreams p) else providerStreams p
     | _ \<Rightarrow> providerStreams p)"

definition refreshed_provider :: "int \<Rightarrow> admission_policy \<Rightarrow> jv \<Rightarrow> provider_state \<Rightarrow> provider_state" where
  "refreshed_provider now p configured s =
     (let limit = provider_limit p configured;
          eff = min (case pv_effective s of None \<Rightarrow> limit | Some e \<Rightarrow> e) limit;
          s1 = s\<lparr> pv_lastSeen := now, pv_limit := limit, pv_effective := Some eff \<rparr>
      in if pv_throttledUntil s1 \<le> now \<and> eff < limit
         then s1\<lparr> pv_effective := Some (eff + 1), pv_throttledUntil := now + cooldownMs p,
                   pv_reason := ''provider-gradual-recovery'' \<rparr>
         else s1)"

definition reserveProvider :: "int \<Rightarrow> string option \<Rightarrow> jv \<Rightarrow> adm \<Rightarrow> adm \<times> nat option" where
  "reserveProvider now provider configured st0 =
     (let st = sweep_providers now st0; key = provider_key provider;
          s0 = (case om_get (providers st) key of Some s \<Rightarrow> s
            | None \<Rightarrow> \<lparr> pv_active = 0, pv_throttledUntil = 0, pv_effective = None,
                pv_limit = providerStreams (policy st), pv_reason = ''operator-provider-limit'', pv_lastSeen = now \<rparr>);
          s = refreshed_provider now (policy st) configured s0;
          st1 = st\<lparr> providers := om_set (providers st) key s \<rparr>
      in if (case pv_effective s of None \<Rightarrow> 0 | Some cap \<Rightarrow> cap) \<le> pv_active s then (st1, None)
         else (st1\<lparr> providers := om_set (providers st1) key (s\<lparr> pv_active := pv_active s + 1 \<rparr>),
                    providerPermits := providerPermits st1 @ [(nextPermit st1, key)], nextPermit := nextPermit st1 + 1 \<rparr>,
               Some (nextPermit st1)))"

definition release_provider :: "nat \<Rightarrow> adm \<Rightarrow> adm \<times> bool" where
  "release_provider i st = (case om_get (providerPermits st) i of None \<Rightarrow> (st, False)
     | Some key \<Rightarrow> (st\<lparr> providerPermits := om_del (providerPermits st) i,
         providers := om_adjust (providers st) key (\<lambda>s. s\<lparr> pv_active := pv_active s - 1 \<rparr>) \<rparr>, True))"

definition throttled_provider :: "int \<Rightarrow> admission_policy \<Rightarrow> provider_state \<Rightarrow> provider_state" where
  "throttled_provider now p s =
     (if pv_reason s \<noteq> ''observed-provider-throttle'' \<or> pv_throttledUntil s \<le> now
      then s\<lparr> pv_effective := Some (max 1 ((case pv_effective s of None \<Rightarrow> pv_limit s | Some e \<Rightarrow> e) div 2)),
              pv_throttledUntil := now + cooldownMs p, pv_reason := ''observed-provider-throttle'',
              pv_lastSeen := now \<rparr>
      else s)"

definition providerThrottle :: "int \<Rightarrow> string \<Rightarrow> adm \<Rightarrow> adm" where
  "providerThrottle now provider st0 = (let st = sweep_providers now st0 in
     case om_get (providers st) provider of None \<Rightarrow> st
     | Some s \<Rightarrow> st\<lparr> providers := om_set (providers st) provider (throttled_provider now (policy st) s) \<rparr>)"

definition recordQuota :: "int \<Rightarrow> string \<Rightarrow> jv \<Rightarrow> jv \<Rightarrow> adm \<Rightarrow> adm" where
  "recordQuota now connectionId snap paused st =
     (case date_parse (jstr (get snap ''fetchedAt'')) of None \<Rightarrow> st
      | Some observedAt \<Rightarrow>
        if now < observedAt \<or> 120000 < now - observedAt then st
        else st\<lparr> quotaEvidence := om_set (filter (\<lambda>(_, v). \<not> 120000 < now - q_observedAt v) (quotaEvidence st))
                 connectionId \<lparr> q_observedAt = observedAt, q_paused = seq paused (Bool True) \<rparr> \<rparr>)"

section \<open>What the gate reports\<close>

text \<open>The computed fields of \<open>snapshot\<close>; the others are copies of fields of the state.\<close>

record admission_report =
  r_effectiveStreams :: int
  r_activeHandlers :: int
  r_activeStreams :: int
  r_queued :: int
  r_oldestQueueMs :: int
  r_activeClients :: int
  r_providers :: "(string \<times> int \<times> int \<times> string) list"
  r_freshAccounts :: int
  r_pausedAccounts :: int

definition snapshot :: "int \<Rightarrow> adm \<Rightarrow> admission_report" where
  "snapshot now st = \<lparr> r_effectiveStreams = currentLimit st, r_activeHandlers = handlers st,
     r_activeStreams = streams st, r_queued = int (length (queue st)),
     r_oldestQueueMs = (case queue st of [] \<Rightarrow> 0 | w # _ \<Rightarrow> max 0 (now - w_enqueuedAt w)),
     r_activeClients = int (length (clients st)),
     r_providers = map (\<lambda>(k, s). (k, pv_active s, (case pv_effective s of None \<Rightarrow> pv_limit s | Some e \<Rightarrow> e),
        (if (case pv_effective s of None \<Rightarrow> 0 | Some e \<Rightarrow> e) < pv_limit s then pv_reason s
         else ''operator-provider-limit''))) (providers st),
     r_freshAccounts = int (length (filter (\<lambda>(_, v). now - q_observedAt v \<le> 120000) (quotaEvidence st))),
     r_pausedAccounts = int (length (filter (\<lambda>(_, v). now - q_observedAt v \<le> 120000 \<and> q_paused v)
        (quotaEvidence st))) \<rparr>"

section \<open>Histories of calls\<close>

datatype adm_event =
    Acquire string "nat option" "int option"
  | ReleaseHandler nat
  | Release nat
  | Abort nat
  | WaitTimer nat
  | Observe pressure_sample
  | Configure jv
  | ReserveProvider "string option" jv
  | ReleaseProvider nat
  | ProviderThrottle string
  | RecordQuota string jv jv

fun adm_step :: "adm \<Rightarrow> int \<times> adm_event \<Rightarrow> adm" where
  "adm_step st (now, Acquire client sig deadline) = acquire now client sig deadline st"
| "adm_step st (now, ReleaseHandler i) = fst (releaseHandler now i st)"
| "adm_step st (now, Release i) = fst (release now i st)"
| "adm_step st (now, Abort sig) = abort_signal now sig st"
| "adm_step st (now, WaitTimer i) = waiter_event now ''wait-timeout'' i st"
| "adm_step st (now, Observe sample) = observe now sample st"
| "adm_step st (now, Configure input) = configure now input st"
| "adm_step st (now, ReserveProvider p limit) = fst (reserveProvider now p limit st)"
| "adm_step st (now, ReleaseProvider i) = fst (release_provider i st)"
| "adm_step st (now, ProviderThrottle p) = providerThrottle now p st"
| "adm_step st (now, RecordQuota c snap paused) = recordQuota now c snap paused st"

end
