(* ===== verification/AdmissionInvariant.thy ===== *)
theory AdmissionInvariant
  imports Admission
begin

text \<open>
  The invariant of the admission gate and what follows from it for every history of calls: the
  counters the gate decides by are the true numbers of live permits, no client entry leaks, every
  request settles at most once, the limits are respected, and no waiter that would fit is left
  waiting.
\<close>

section \<open>The load a state really carries\<close>

definition held_handlers :: "adm \<Rightarrow> int" where
  "held_handlers st = om_sum (\<lambda>g. of_bool (g_handler g)) (permits st)"

definition held_streams :: "adm \<Rightarrow> int" where
  "held_streams st = om_sum (\<lambda>g. of_bool (g_stream g)) (permits st)"

definition client_load :: "adm \<Rightarrow> string \<Rightarrow> client_state" where
  "client_load st k =
     \<lparr> c_handlers = om_sum (\<lambda>g. of_bool (g_client g = k \<and> g_handler g)) (permits st),
       c_streams = om_sum (\<lambda>g. of_bool (g_client g = k \<and> g_stream g)) (permits st),
       c_queued = int (length (filter (\<lambda>w. w_client w = k) (queue st))) \<rparr>"

definition entry_for :: "client_state \<Rightarrow> client_state option" where
  "entry_for c = (if c = no_client then None else Some c)"

definition requests :: "adm \<Rightarrow> nat list" where
  "requests st = map w_id (queue st) @ map fst (settled st)"

definition limits_inv :: "adm \<Rightarrow> bool" where
  "limits_inv st \<longleftrightarrow> policy_wf (policy st)
     \<and> minStreams (policy st) \<le> effective st \<and> effective st \<le> maxStreams (policy st)"

definition permits_inv :: "adm \<Rightarrow> bool" where
  "permits_inv st \<longleftrightarrow> distinct (om_keys (permits st))
     \<and> (\<forall>i g. om_get (permits st) i = Some g \<longrightarrow> g_handler g \<longrightarrow> g_stream g)
     \<and> handlers st = held_handlers st \<and> streams st = held_streams st"

definition clients_inv :: "adm \<Rightarrow> bool" where
  "clients_inv st \<longleftrightarrow> distinct (om_keys (clients st))
     \<and> (\<forall>k. om_get (clients st) k = entry_for (client_load st k))"

definition requests_inv :: "adm \<Rightarrow> bool" where
  "requests_inv st \<longleftrightarrow> distinct (requests st) \<and> set (requests st) = {..<nextId st}
     \<and> fst ` set (permits st) = {i. \<exists>n. (i, Admitted n) \<in> set (settled st)}"

definition books_inv :: "adm \<Rightarrow> bool" where
  "books_inv st \<longleftrightarrow> n_admitted st = int (length (permits st)) \<and> n_admitted st = n_released st + streams st"

definition adm_inv :: "adm \<Rightarrow> bool" where
  "adm_inv st \<longleftrightarrow> limits_inv st \<and> permits_inv st \<and> clients_inv st \<and> requests_inv st \<and> books_inv st"

lemmas inv_parts = limits_inv_def permits_inv_def clients_inv_def requests_inv_def books_inv_def

lemma client_load_nonneg:
  "0 \<le> c_handlers (client_load st k)" "0 \<le> c_streams (client_load st k)" "0 \<le> c_queued (client_load st k)"
  by (simp_all add: client_load_def om_sum_nonneg)

lemma entry_for_nonzero:
  "0 < c_handlers c \<or> 0 < c_streams c \<or> 0 < c_queued c \<Longrightarrow> entry_for c = Some c"
  by (auto simp: entry_for_def no_client_def)

lemma client_of_load: "clients_inv st \<Longrightarrow> client_of st k = client_load st k"
  by (auto simp: clients_inv_def client_of_def entry_for_def)

lemma no_client_iff: "c_handlers s = 0 \<and> c_streams s = 0 \<and> c_queued s = 0 \<longleftrightarrow> s = no_client"
  by (cases s) (auto simp: no_client_def)

text \<open>Lookup after each of the three writes on the client map.\<close>

lemma om_get_stateFor [simp]:
  "om_get (clients (stateFor key st)) k = (if k = key then Some (client_of st key) else om_get (clients st) k)"
  by (auto simp: stateFor_def client_of_def split: option.splits)

lemma om_get_upd_client [simp]:
  "om_get (clients (upd_client key f st)) k
     = (if k = key then map_option f (om_get (clients st) key) else om_get (clients st) k)"
  by (simp add: upd_client_def)

lemma om_get_clean [simp]:
  "om_get (clients (clean key st)) k
     = (if k = key then Option.bind (om_get (clients st) key) entry_for else om_get (clients st) k)"
  by (auto simp: clean_def entry_for_def no_client_iff split: option.splits)

lemma distinct_client_writes [simp, intro]:
  "distinct (om_keys (clients st)) \<Longrightarrow> distinct (om_keys (clients (stateFor key st)))"
  "distinct (om_keys (clients st)) \<Longrightarrow> distinct (om_keys (clients (upd_client key f st)))"
  "distinct (om_keys (clients st)) \<Longrightarrow> distinct (om_keys (clients (clean key st)))"
  by (auto simp: stateFor_def upd_client_def clean_def split: option.splits)

lemma client_writes_frame [frame_simps]:
  "policy (stateFor key st) = policy st" "policy (upd_client key f st) = policy st" "policy (clean key st) = policy st"
  "effective (stateFor key st) = effective st" "effective (upd_client key f st) = effective st" "effective (clean key st) = effective st"
  "handlers (stateFor key st) = handlers st" "handlers (upd_client key f st) = handlers st" "handlers (clean key st) = handlers st"
  "streams (stateFor key st) = streams st" "streams (upd_client key f st) = streams st" "streams (clean key st) = streams st"
  "permits (stateFor key st) = permits st" "permits (upd_client key f st) = permits st" "permits (clean key st) = permits st"
  "settled (stateFor key st) = settled st" "settled (upd_client key f st) = settled st" "settled (clean key st) = settled st"
  "nextId (stateFor key st) = nextId st" "nextId (upd_client key f st) = nextId st" "nextId (clean key st) = nextId st"
  "n_admitted (stateFor key st) = n_admitted st" "n_admitted (upd_client key f st) = n_admitted st" "n_admitted (clean key st) = n_admitted st"
  "n_released (stateFor key st) = n_released st" "n_released (upd_client key f st) = n_released st" "n_released (clean key st) = n_released st"
  "n_refused (stateFor key st) = n_refused st" "n_refused (upd_client key f st) = n_refused st" "n_refused (clean key st) = n_refused st"
  "abortedSignals (stateFor key st) = abortedSignals st" "abortedSignals (upd_client key f st) = abortedSignals st" "abortedSignals (clean key st) = abortedSignals st"
  "lastClient (stateFor key st) = lastClient st" "lastClient (upd_client key f st) = lastClient st" "lastClient (clean key st) = lastClient st"
  by (simp_all add: stateFor_def upd_client_def clean_def)

section \<open>A permit is granted, a waiter leaves\<close>

lemma held_grant:
  assumes "permits_inv st" and "w_id w \<notin> fst ` set (permits st)"
  shows "held_handlers (grant w st) = held_handlers st + 1" "held_streams (grant w st) = held_streams st + 1"
proof -
  have "om_get (permits st) (w_id w) = None" using assms(2) by (simp add: om_get_None_iff)
  then show "held_handlers (grant w st) = held_handlers st + 1" "held_streams (grant w st) = held_streams st + 1"
    using assms(1) by (simp_all add: held_handlers_def held_streams_def grant_def permits_inv_def om_sum_set)
qed

lemma load_grant:
  assumes "permits_inv st" and "w_id w \<notin> fst ` set (permits st)"
  shows "client_load (grant w st) k = (let c = client_load st k in
    if k = w_client w then c\<lparr> c_handlers := c_handlers c + 1, c_streams := c_streams c + 1 \<rparr> else c)"
proof -
  have "om_get (permits st) (w_id w) = None" using assms(2) by (simp add: om_get_None_iff)
  then show ?thesis
    using assms(1)
    by (auto simp: client_load_def grant_def permits_inv_def om_sum_set Let_def upd_client_def stateFor_def)
qed

lemma clients_grant:
  assumes "clients_inv st" "permits_inv st" "w_id w \<notin> fst ` set (permits st)"
  shows "clients_inv (grant w st)"
proof -
  have "clients (grant w st) = clients (upd_client (w_client w)
       (\<lambda>s. s\<lparr> c_handlers := c_handlers s + 1, c_streams := c_streams s + 1 \<rparr>) (stateFor (w_client w) st))"
    by (simp add: grant_def)
  moreover have "om_get (clients (grant w st)) k = entry_for (client_load (grant w st) k)" for k
    unfolding load_grant [OF assms(2,3)] calculation
    using assms(1) client_load_nonneg [of st k] client_of_load [OF assms(1), of k]
    by (auto simp: Let_def clients_inv_def entry_for_nonzero)
  ultimately show ?thesis
    using assms(1) by (auto simp: clients_inv_def)
qed

lemma load_leave_queue:
  assumes "w \<in> set (queue st)"
  shows "client_load (leave_queue w st) k = (let c = client_load st k in
    if k = w_client w then c\<lparr> c_queued := c_queued c - 1 \<rparr> else c)"
  using assms
  by (auto simp: client_load_def leave_queue_def Let_def frame_simps length_filter_remove1)

lemma queued_pos:
  assumes "w \<in> set (queue st)"
  shows "0 < c_queued (client_load st (w_client w))"
  using assms by (auto simp: client_load_def filter_empty_conv)

lemma clients_leave_queue:
  assumes "clients_inv st" "w \<in> set (queue st)"
  shows "clients_inv (leave_queue w st)"
proof -
  have "om_get (clients (leave_queue w st)) k = entry_for (client_load (leave_queue w st) k)" for k
    unfolding load_leave_queue [OF assms(2)] using assms(1) queued_pos [OF assms(2)]
    by (auto simp: leave_queue_def clients_inv_def Let_def entry_for_nonzero upd_client_def)
  moreover have "distinct (om_keys (clients (leave_queue w st)))"
    using assms(1) unfolding leave_queue_def clients_inv_def
    by (intro distinct_client_writes) simp
  ultimately show ?thesis by (simp add: clients_inv_def)
qed

lemma permits_inv_grant:
  assumes "permits_inv st" and "w_id w \<notin> fst ` set (permits st)"
  shows "permits_inv (grant w st)"
  using assms held_grant [OF assms]
  by (auto simp: permits_inv_def grant_def)

lemma leave_queue_frame [frame_simps]:
  "policy (leave_queue w st) = policy st" "effective (leave_queue w st) = effective st"
  "handlers (leave_queue w st) = handlers st" "streams (leave_queue w st) = streams st"
  "permits (leave_queue w st) = permits st" "settled (leave_queue w st) = settled st"
  "nextId (leave_queue w st) = nextId st" "n_admitted (leave_queue w st) = n_admitted st"
  "n_released (leave_queue w st) = n_released st" "queue (leave_queue w st) = remove1 w (queue st)"
  "abortedSignals (leave_queue w st) = abortedSignals st"
  by (simp_all add: leave_queue_def frame_simps)

lemma grant_frame [frame_simps]:
  "policy (grant w st) = policy st" "effective (grant w st) = effective st"
  "settled (grant w st) = settled st" "nextId (grant w st) = nextId st"
  "n_released (grant w st) = n_released st" "queue (grant w st) = queue st"
  "abortedSignals (grant w st) = abortedSignals st"
  "handlers (grant w st) = handlers st + 1" "streams (grant w st) = streams st + 1"
  "n_admitted (grant w st) = n_admitted st + 1"
  by (simp_all add: grant_def frame_simps)

lemma count_refusal_frame [frame_simps]:
  "policy (count_refusal why st) = policy st" "effective (count_refusal why st) = effective st"
  "settled (count_refusal why st) = settled st" "nextId (count_refusal why st) = nextId st"
  "n_released (count_refusal why st) = n_released st" "queue (count_refusal why st) = queue st"
  "handlers (count_refusal why st) = handlers st" "streams (count_refusal why st) = streams st"
  "n_admitted (count_refusal why st) = n_admitted st" "permits (count_refusal why st) = permits st"
  "clients (count_refusal why st) = clients st" "abortedSignals (count_refusal why st) = abortedSignals st"
  by (simp_all add: count_refusal_def)

lemma resolve_frame [frame_simps]:
  "policy (resolve i r st) = policy st" "effective (resolve i r st) = effective st"
  "nextId (resolve i r st) = nextId st"
  "n_released (resolve i r st) = n_released st" "queue (resolve i r st) = queue st"
  "handlers (resolve i r st) = handlers st" "streams (resolve i r st) = streams st"
  "n_admitted (resolve i r st) = n_admitted st" "permits (resolve i r st) = permits st"
  "clients (resolve i r st) = clients st" "abortedSignals (resolve i r st) = abortedSignals st"
  "settled (resolve i r st) = settled st @ [(i, r)]"
  by (simp_all add: resolve_def)

text \<open>The parts of the invariant depend on the state only through the fields they mention.\<close>

lemma limits_inv_cong:
  "policy st' = policy st \<Longrightarrow> effective st' = effective st \<Longrightarrow> limits_inv st' = limits_inv st"
  by (simp add: limits_inv_def)

lemma permits_inv_cong:
  "permits st' = permits st \<Longrightarrow> handlers st' = handlers st \<Longrightarrow> streams st' = streams st
   \<Longrightarrow> permits_inv st' = permits_inv st"
  by (simp add: permits_inv_def held_handlers_def held_streams_def)

lemma client_load_cong:
  "permits st' = permits st \<Longrightarrow> queue st' = queue st \<Longrightarrow> client_load st' k = client_load st k"
  by (simp add: client_load_def)

lemma clients_inv_cong:
  "permits st' = permits st \<Longrightarrow> queue st' = queue st \<Longrightarrow> clients st' = clients st
   \<Longrightarrow> clients_inv st' = clients_inv st"
  by (simp add: clients_inv_def client_load_def)

section \<open>Draining keeps the invariant\<close>

lemma requests_leave:
  assumes r: "distinct (requests st)" "set (requests st) = {..<nextId st}" and w: "w \<in> set (queue st)"
    and q: "queue st' = remove1 w (queue st)" and s: "settled st' = settled st @ [(w_id w, oc)]"
    and n: "nextId st' = nextId st"
  shows "distinct (requests st')" "set (requests st') = {..<nextId st'}"
proof -
  have d: "distinct (map w_id (queue st))" using r(1) by (simp add: requests_def)
  have ids: "w_id ` set (remove1 w (queue st)) = w_id ` set (queue st) - {w_id w}"
    using d w by (rule set_map_remove1)
  have "w_id w \<notin> fst ` set (settled st)" using r(1) w by (force simp: requests_def)
  then show "distinct (requests st')"
    using r(1) distinct_map_remove1 [OF d, of w] ids by (auto simp: requests_def q s)
  show "set (requests st') = {..<nextId st'}"
    using r(2) ids w by (auto simp: requests_def q s n)
qed

lemma waiter_not_permitted:
  assumes "requests_inv st" "w \<in> set (queue st)"
  shows "w_id w \<notin> fst ` set (permits st)"
proof -
  have "{i. \<exists>n. (i, Admitted n) \<in> set (settled st)} \<subseteq> fst ` set (settled st)"
    by (auto intro: rev_image_eqI)
  then have "fst ` set (permits st) \<subseteq> fst ` set (settled st)"
    using assms(1) by (simp add: requests_inv_def)
  moreover have "w_id ` set (queue st) \<inter> fst ` set (settled st) = {}"
    using assms(1) by (simp add: requests_inv_def requests_def)
  ultimately show ?thesis using assms(2) by blast
qed

lemma settle_refused_inv:
  assumes "adm_inv st" and w: "w \<in> set (queue st)"
  shows "adm_inv (settle_refused now w why st)"
proof -
  let ?st = "settle_refused now w why st"
  have i: "limits_inv st" "permits_inv st" "clients_inv st" "requests_inv st" "books_inv st"
    using assms(1) by (simp_all add: adm_inv_def)
  have l: "limits_inv ?st" using i(1) by (simp add: limits_inv_def settle_refused_def frame_simps)
  have p: "permits_inv ?st"
    using i(2) by (simp add: permits_inv_def settle_refused_def frame_simps held_handlers_def held_streams_def)
  have c: "clients_inv ?st"
    using clients_leave_queue [OF i(3) w]
    by (simp add: settle_refused_def frame_simps clients_inv_def client_load_def)
  have "distinct (requests ?st)" "set (requests ?st) = {..<nextId ?st}"
    using i(4) requests_leave [of st w ?st "Refused why (Some (now - w_enqueuedAt w))"] w
    unfolding requests_inv_def settle_refused_def by (simp_all add: frame_simps)
  with i(4) have r: "requests_inv ?st" by (auto simp: requests_inv_def settle_refused_def frame_simps)
  have "books_inv ?st" using i(5) by (simp add: books_inv_def settle_refused_def frame_simps)
  with l p c r show ?thesis by (simp add: adm_inv_def)
qed

lemma length_om_set_fresh: "om_get m k = None \<Longrightarrow> length (om_set m k v) = Suc (length m)"
  by (induction m k v rule: om_set.induct) (auto split: if_splits)

lemma settle_granted_inv:
  assumes "adm_inv st" and w: "w \<in> set (queue st)"
  shows "adm_inv (settle_granted now w st)"
proof -
  let ?st = "settle_granted now w st"
  have i: "limits_inv st" "permits_inv st" "clients_inv st" "requests_inv st" "books_inv st"
    using assms(1) by (simp_all add: adm_inv_def)
  have f: "w_id w \<notin> fst ` set (permits st)" using i(4) w by (rule waiter_not_permitted)
  have ps: "permits ?st = permits (grant w st)" by (simp add: settle_granted_def frame_simps)
  have l: "limits_inv ?st" using i(1) by (simp add: limits_inv_def settle_granted_def frame_simps)
  have p: "permits_inv ?st"
    using permits_inv_grant [OF i(2) f]
    by (simp add: permits_inv_def settle_granted_def frame_simps held_handlers_def held_streams_def)
  have "clients_inv (leave_queue w (grant w st))"
    using clients_grant [OF i(3,2) f] w by (intro clients_leave_queue) (simp_all add: frame_simps)
  then have c: "clients_inv ?st"
    by (simp add: settle_granted_def frame_simps clients_inv_def client_load_def)
  have "distinct (requests ?st)" "set (requests ?st) = {..<nextId ?st}"
    using i(4) requests_leave [of st w ?st "Admitted (max 0 (now - w_enqueuedAt w))"] w
    unfolding requests_inv_def settle_granted_def by (simp_all add: frame_simps)
  moreover have "fst ` set (permits ?st) = insert (w_id w) (fst ` set (permits st))"
    by (simp add: ps grant_def)
  ultimately have r: "requests_inv ?st"
    using i(4) by (auto simp: requests_inv_def settle_granted_def frame_simps)
  have "books_inv ?st"
    using i(5) f by (simp add: books_inv_def settle_granted_def frame_simps grant_def
        length_om_set_fresh om_get_None_iff)
  with l p c r show ?thesis by (simp add: adm_inv_def)
qed

lemma drain_one_inv: "adm_inv st \<Longrightarrow> w \<in> set (queue st) \<Longrightarrow> adm_inv (drain_one now w st)"
  by (simp add: drain_one_def settle_refused_inv settle_granted_inv)

lemma drain_induct [consumes 1, case_names step]:
  assumes "P st"
    and "\<And>now st w. P st \<Longrightarrow> next_waiter st = Some w \<Longrightarrow> P (drain_one now w st)"
  shows "P (drain now st)"
  using assms(1)
proof (induction now st rule: drain.induct)
  case (1 n st)
  show ?case
  proof (cases "next_waiter st")
    case None
    with 1 show ?thesis by (simp add: drain.simps [of n st])
  next
    case (Some w)
    with 1 assms(2) show ?thesis by (simp add: drain.simps [of n st])
  qed
qed

lemma drain_inv: "adm_inv st \<Longrightarrow> adm_inv (drain now st)"
  by (induction rule: drain_induct) (auto dest: next_waiter_in_queue intro: drain_one_inv)

text \<open>After a drain nobody in the queue fits.\<close>

lemma drain_quiet: "next_waiter (drain now st) = None"
proof (induction now st rule: drain.induct)
  case (1 n st)
  then show ?case by (cases "next_waiter st") (simp_all add: drain.simps [of n st])
qed

lemma drain_idle: "next_waiter st = None \<Longrightarrow> drain now st = st"
  by (simp add: drain.simps)

lemma next_waiter_None: "next_waiter st = None \<longleftrightarrow> (\<forall>w \<in> set (queue st). \<not> fits st (w_client w))"
  by (auto simp: next_waiter_def find_None_iff dest: find_Some_in split: option.splits)

section \<open>Every operation keeps the invariant\<close>

lemma requests_new:
  assumes r: "distinct (requests st)" "set (requests st) = {..<nextId st}" and n: "nextId st' = nextId st + 1"
    and q: "queue st' = queue st \<and> settled st' = settled st @ [(nextId st, oc)]
      \<or> queue st' = queue st @ [w] \<and> w_id w = nextId st \<and> settled st' = settled st"
  shows "distinct (requests st')" "set (requests st') = {..<nextId st'}"
proof -
  have e: "mset (requests st') = mset (requests st @ [nextId st])"
    using q by (auto simp: requests_def)
  note m = mset_eq_imp_distinct_iff [OF e] mset_eq_setD [OF e]
  show "distinct (requests st')" using m(1) r by auto
  show "set (requests st') = {..<nextId st'}" using m(2) r(2) n by auto
qed

lemma next_id_fresh:
  assumes "requests_inv st"
  shows "nextId st \<notin> fst ` set (permits st)" "nextId st \<notin> fst ` set (settled st)"
proof -
  have "set (requests st) = {..<nextId st}" using assms by (simp add: requests_inv_def)
  then show n: "nextId st \<notin> fst ` set (settled st)" unfolding requests_def by auto
  have "{i. \<exists>n. (i, Admitted n) \<in> set (settled st)} \<subseteq> fst ` set (settled st)"
    by (auto intro: rev_image_eqI)
  with n assms show "nextId st \<notin> fst ` set (permits st)" by (auto simp: requests_inv_def)
qed

lemma acquire_refused_inv:
  assumes "adm_inv st"
    and "policy st' = policy st" "effective st' = effective st" "handlers st' = handlers st"
    "streams st' = streams st" "permits st' = permits st" "n_admitted st' = n_admitted st"
    "n_released st' = n_released st" "queue st' = queue st" "nextId st' = nextId st + 1"
    "settled st' = settled st @ [(nextId st, Refused why oc)]"
    and cl: "distinct (om_keys (clients st'))" "\<And>k. om_get (clients st') k = om_get (clients st) k"
  shows "adm_inv st'"
proof -
  have i: "limits_inv st" "permits_inv st" "clients_inv st" "requests_inv st" "books_inv st"
    using assms(1) by (simp_all add: adm_inv_def)
  have l: "limits_inv st'" using i(1) assms by (simp add: limits_inv_def)
  have p: "permits_inv st'" using i(2) assms by (simp add: permits_inv_def held_handlers_def held_streams_def)
  have c: "clients_inv st'" using i(3) assms by (simp add: clients_inv_def client_load_def)
  have "distinct (requests st')" "set (requests st') = {..<nextId st'}"
    using i(4) assms requests_new [of st st'] by (simp_all add: requests_inv_def)
  then have r: "requests_inv st'" using i(4) assms by (simp add: requests_inv_def)
  have "books_inv st'" using i(5) assms by (simp add: books_inv_def)
  with l p c r show ?thesis by (simp add: adm_inv_def)
qed

lemma acquire_granted_inv:
  assumes "adm_inv st" and w: "w_id w = nextId st"
  shows "adm_inv (resolve (nextId st) (Admitted n) (grant w (st\<lparr> nextId := nextId st + 1 \<rparr>)))" (is "adm_inv ?st")
proof -
  let ?s0 = "st\<lparr> nextId := nextId st + 1 \<rparr>"
  have i: "limits_inv st" "permits_inv st" "clients_inv st" "requests_inv st" "books_inv st"
    using assms(1) by (simp_all add: adm_inv_def)
  have i0: "permits_inv ?s0" "clients_inv ?s0"
    using i by (simp_all add: permits_inv_def clients_inv_def client_load_def held_handlers_def held_streams_def)
  have f: "w_id w \<notin> fst ` set (permits ?s0)" using next_id_fresh(1) [OF i(4)] w by simp
  have l: "limits_inv ?st" using i(1) by (simp add: limits_inv_def frame_simps)
  have p: "permits_inv ?st"
    using permits_inv_grant [OF i0(1) f] by (simp add: permits_inv_def frame_simps held_handlers_def held_streams_def)
  have c: "clients_inv ?st"
    using clients_grant [OF i0(2,1) f] by (simp add: frame_simps clients_inv_def client_load_def)
  have "distinct (requests ?st)" "set (requests ?st) = {..<nextId ?st}"
    using i(4) requests_new [of st ?st "Admitted n"] by (simp_all add: requests_inv_def frame_simps)
  then have r: "requests_inv ?st"
    using i(4) w by (auto simp: requests_inv_def frame_simps grant_def)
  have "books_inv ?st"
    using i(5) f by (simp add: books_inv_def frame_simps grant_def length_om_set_fresh om_get_None_iff)
  with l p c r show ?thesis by (simp add: adm_inv_def)
qed

lemma acquire_queued_inv:
  assumes "adm_inv st" and w: "w_id w = nextId st" "w_client w = client"
  shows "adm_inv (upd_client client (\<lambda>s. s\<lparr> c_queued := c_queued s + 1 \<rparr>)
    ((stateFor client (st\<lparr> nextId := nextId st + 1 \<rparr>))\<lparr> queue := queue st @ [w] \<rparr>))" (is "adm_inv ?st")
proof -
  have i: "limits_inv st" "permits_inv st" "clients_inv st" "requests_inv st" "books_inv st"
    using assms(1) by (simp_all add: adm_inv_def)
  have l: "limits_inv ?st" using i(1) by (simp add: limits_inv_def frame_simps)
  have p: "permits_inv ?st"
    using i(2) by (simp add: permits_inv_def frame_simps held_handlers_def held_streams_def)
  have ld: "client_load ?st k = (let c = client_load st k in
      if k = client then c\<lparr> c_queued := c_queued c + 1 \<rparr> else c)" for k
    using w by (auto simp: client_load_def frame_simps Let_def)
  have cl: "clients ?st = om_adjust (clients (stateFor client st)) client (\<lambda>s. s\<lparr> c_queued := c_queued s + 1 \<rparr>)"
    by (simp add: upd_client_def stateFor_def)
  have "om_get (clients ?st) k = entry_for (client_load ?st k)" for k
    unfolding ld cl using i(3) client_load_nonneg [of st k] client_of_load [OF i(3), of k]
    by (auto simp: clients_inv_def Let_def entry_for_nonzero)
  moreover have "distinct (om_keys (clients ?st))"
    unfolding cl using i(3) by (intro distinct_om_adjust distinct_client_writes) (simp add: clients_inv_def)
  ultimately have c: "clients_inv ?st" by (simp add: clients_inv_def)
  have "distinct (requests ?st)" "set (requests ?st) = {..<nextId ?st}"
    using i(4) w requests_new [of st ?st _ w] by (simp_all add: requests_inv_def frame_simps)
  then have r: "requests_inv ?st" using i(4) by (simp add: requests_inv_def frame_simps)
  have "books_inv ?st" using i(5) by (simp add: books_inv_def frame_simps)
  with l p c r show ?thesis by (simp add: adm_inv_def)
qed

lemma adm_inv_if [inv_intros]:
  "(c \<Longrightarrow> adm_inv a) \<Longrightarrow> (\<not> c \<Longrightarrow> adm_inv b) \<Longrightarrow> adm_inv (if c then a else b)"
  by simp

lemma acquire_inv:
  assumes "adm_inv st"
  shows "adm_inv (acquire now client sig deadline st)"
proof -
  have i: "clients_inv st" using assms by (simp add: adm_inv_def)
  have d: "distinct (om_keys (clients st))" using i by (simp add: clients_inv_def)
  have e: "client_of st client = client_load st client" using i by (rule client_of_load)
  have full: "om_get (clients (clean client (stateFor client st))) k = om_get (clients st) k" for k
    using i e by (simp add: clients_inv_def)
  have full': "clients (clean client ((stateFor client (st\<lparr>nextId := n\<rparr>))\<lparr>n_refused := m\<rparr>))
      = clients (clean client (stateFor client st))" for n m
    by (simp add: clean_def stateFor_def split: option.splits)
  define st1 where "st1 = st\<lparr> nextId := nextId st + 1 \<rparr>"
  have early: "adm_inv (resolve (nextId st) (Refused why oc) st1)" for why oc
    by (rule acquire_refused_inv [OF assms]) (use d in \<open>simp_all add: st1_def frame_simps\<close>)
  have refuse: "adm_inv (resolve (nextId st) (Refused why oc) (clean client ((stateFor client st1)\<lparr> n_refused := m \<rparr>)))"
    for why oc m
    by (rule acquire_refused_inv [OF assms, where why = why and oc = oc])
      (use d full full' in \<open>simp_all add: st1_def frame_simps\<close>)
  have grant: "adm_inv (resolve (nextId st) (Admitted n) (grant w st1))" if "w_id w = nextId st" for n w
    unfolding st1_def using assms that by (rule acquire_granted_inv)
  have wait: "adm_inv (drain now (upd_client client (\<lambda>s. s\<lparr> c_queued := c_queued s + 1 \<rparr>)
      ((stateFor client st1)\<lparr> queue := queue (stateFor client st1) @ [w] \<rparr>)))"
    if "w_id w = nextId st" "w_client w = client" for w
    using acquire_queued_inv [OF assms that] unfolding st1_def by (intro drain_inv) simp
  show ?thesis
    unfolding acquire_def Let_def st1_def [symmetric]
    by (intro adm_inv_if early refuse grant wait) simp_all
qed

lemma length_om_set_present: "om_get m k \<noteq> None \<Longrightarrow> length (om_set m k v) = length m"
  by (induction m k v rule: om_set.induct) (auto split: if_splits)

lemma permit_update_inv:
  assumes "adm_inv st" and g: "om_get (permits st) i = Some g"
    and g': "g_client g' = g_client g" "g_handler g' \<longrightarrow> g_stream g'"
    and st': "permits st' = om_set (permits st) i g'"
      "handlers st' = handlers st - (of_bool (g_handler g) - of_bool (g_handler g'))"
      "streams st' = streams st - (of_bool (g_stream g) - of_bool (g_stream g'))"
      "n_released st' = n_released st + (of_bool (g_stream g) - of_bool (g_stream g'))"
      "policy st' = policy st" "effective st' = effective st" "n_admitted st' = n_admitted st"
      "queue st' = queue st" "settled st' = settled st" "nextId st' = nextId st"
    and cl: "distinct (om_keys (clients st'))"
      "\<And>k. om_get (clients st') k = (if k = g_client g
         then entry_for (let c = client_load st k in c\<lparr>
            c_handlers := c_handlers c - (of_bool (g_handler g) - of_bool (g_handler g')),
            c_streams := c_streams c - (of_bool (g_stream g) - of_bool (g_stream g')) \<rparr>)
         else om_get (clients st) k)"
  shows "adm_inv st'"
proof -
  have i: "limits_inv st" "permits_inv st" "clients_inv st" "requests_inv st" "books_inv st"
    using assms(1) by (simp_all add: adm_inv_def)
  have d: "distinct (om_keys (permits st))" using i(2) by (simp add: permits_inv_def)
  have l: "limits_inv st'" using i(1) st' by (simp add: limits_inv_def)
  have p: "permits_inv st'"
    using i(2) st' g g' by (auto simp: permits_inv_def held_handlers_def held_streams_def om_sum_set [OF d])
  have "client_load st' k = (if k = g_client g
         then (let c = client_load st k in c\<lparr>
            c_handlers := c_handlers c - (of_bool (g_handler g) - of_bool (g_handler g')),
            c_streams := c_streams c - (of_bool (g_stream g) - of_bool (g_stream g')) \<rparr>)
         else client_load st k)" for k
    using g g' by (auto simp: client_load_def st' om_sum_set [OF d] Let_def)
  then have c: "clients_inv st'" using i(3) cl by (simp add: clients_inv_def)
  have "i \<in> fst ` set (permits st)" using g by (metis om_get_None_iff option.distinct(1))
  then have r: "requests_inv st'"
    using i(4) st' by (auto simp: requests_inv_def requests_def)
  have "books_inv st'" using i(5) st' g by (simp add: books_inv_def length_om_set_present)
  with l p c r show ?thesis by (simp add: adm_inv_def)
qed

lemma permit_client_entry:
  assumes "adm_inv st" "om_get (permits st) i = Some g" "g_stream g"
  shows "om_get (clients st) (g_client g) = Some (client_load st (g_client g))"
proof -
  have "1 \<le> c_streams (client_load st (g_client g))"
    using om_sum_ge [of "\<lambda>g'. of_bool (g_client g' = g_client g \<and> g_stream g')" "permits st" i g] assms
    by (simp add: client_load_def)
  then show ?thesis using assms(1) by (simp add: adm_inv_def clients_inv_def entry_for_nonzero)
qed

text \<open>The state a release leaves before the queue is drained.\<close>

definition handler_given_back :: "nat \<Rightarrow> permit \<Rightarrow> adm \<Rightarrow> adm" where
  "handler_given_back i g st = clean (g_client g) (upd_client (g_client g) (\<lambda>s. s\<lparr> c_handlers := c_handlers s - 1 \<rparr>)
     (st\<lparr> permits := om_set (permits st) i (g\<lparr> g_handler := False \<rparr>), handlers := handlers st - 1 \<rparr>))"

definition stream_given_back :: "nat \<Rightarrow> permit \<Rightarrow> adm \<Rightarrow> adm" where
  "stream_given_back i g st = upd_client (g_client g) (\<lambda>s. s\<lparr> c_streams := c_streams s - 1 \<rparr>)
     (st\<lparr> permits := om_set (permits st) i (g\<lparr> g_stream := False \<rparr>), streams := streams st - 1,
          n_released := n_released st + 1 \<rparr>)"

lemma handler_given_back_inv:
  assumes "adm_inv st" "om_get (permits st) i = Some g" "g_handler g" "g_stream g"
  shows "adm_inv (handler_given_back i g st)"
proof (rule permit_update_inv [OF assms(1,2), where g' = "g\<lparr> g_handler := False \<rparr>"])
  have d: "distinct (om_keys (clients st))" using assms(1) by (simp add: adm_inv_def clients_inv_def)
  show "distinct (om_keys (clients (handler_given_back i g st)))"
    unfolding handler_given_back_def using d by (intro distinct_client_writes) simp
  show "om_get (clients (handler_given_back i g st)) k = (if k = g_client g
         then entry_for (let c = client_load st k in c\<lparr>
            c_handlers := c_handlers c - (of_bool (g_handler g) - of_bool (g_handler (g\<lparr> g_handler := False \<rparr>))),
            c_streams := c_streams c - (of_bool (g_stream g) - of_bool (g_stream (g\<lparr> g_handler := False \<rparr>))) \<rparr>)
         else om_get (clients st) k)" for k
    using permit_client_entry [OF assms(1,2,4)] assms
    by (simp add: handler_given_back_def Let_def upd_client_def)
qed (use assms in \<open>simp_all add: handler_given_back_def frame_simps\<close>)

lemma releaseHandler_inv:
  assumes "adm_inv st"
  shows "adm_inv (fst (releaseHandler now i st))"
proof -
  have "g_stream g" if "om_get (permits st) i = Some g" "g_handler g" for g
    using assms that by (auto simp: adm_inv_def permits_inv_def)
  then show ?thesis
    using assms handler_given_back_inv [of st i, unfolded handler_given_back_def]
    by (auto simp: releaseHandler_def intro: drain_inv split: option.splits)
qed

lemma stream_given_back_inv:
  assumes "adm_inv st" "om_get (permits st) i = Some g" "g_stream g" "\<not> g_handler g"
  shows "adm_inv (clean (g_client g) (stream_given_back i g st))"
proof (rule permit_update_inv [OF assms(1,2), where g' = "g\<lparr> g_stream := False \<rparr>"])
  have d: "distinct (om_keys (clients st))" using assms(1) by (simp add: adm_inv_def clients_inv_def)
  show "distinct (om_keys (clients (clean (g_client g) (stream_given_back i g st))))"
    unfolding stream_given_back_def using d by (intro distinct_client_writes) simp
  show "om_get (clients (clean (g_client g) (stream_given_back i g st))) k = (if k = g_client g
         then entry_for (let c = client_load st k in c\<lparr>
            c_handlers := c_handlers c - (of_bool (g_handler g) - of_bool (g_handler (g\<lparr> g_stream := False \<rparr>))),
            c_streams := c_streams c - (of_bool (g_stream g) - of_bool (g_stream (g\<lparr> g_stream := False \<rparr>))) \<rparr>)
         else om_get (clients st) k)" for k
    using permit_client_entry [OF assms(1,2,3)] assms
    by (simp add: stream_given_back_def Let_def upd_client_def)
qed (use assms in \<open>simp_all add: stream_given_back_def frame_simps\<close>)

lemma both_given_back_inv:
  assumes "adm_inv st" "om_get (permits st) i = Some g" "g_stream g" "g_handler g"
  shows "adm_inv (handler_given_back i (g\<lparr> g_stream := False \<rparr>) (stream_given_back i g st))"
    (is "adm_inv ?st")
proof (rule permit_update_inv [OF assms(1,2), where g' = "g\<lparr> g_stream := False, g_handler := False \<rparr>"])
  have d: "distinct (om_keys (clients st))" using assms(1) by (simp add: adm_inv_def clients_inv_def)
  show "distinct (om_keys (clients ?st))"
    unfolding stream_given_back_def handler_given_back_def upd_client_def using d
    by (intro distinct_client_writes) (auto intro!: distinct_om_adjust)
  show "om_get (clients ?st) k = (if k = g_client g
         then entry_for (let c = client_load st k in c\<lparr>
            c_handlers := c_handlers c - (of_bool (g_handler g) - of_bool (g_handler (g\<lparr> g_stream := False, g_handler := False \<rparr>))),
            c_streams := c_streams c - (of_bool (g_stream g) - of_bool (g_stream (g\<lparr> g_stream := False, g_handler := False \<rparr>))) \<rparr>)
         else om_get (clients st) k)" for k
    using permit_client_entry [OF assms(1,2,3)] assms
    by (cases "client_load st (g_client g)")
      (simp add: stream_given_back_def handler_given_back_def Let_def upd_client_def)
qed (use assms in \<open>simp_all add: stream_given_back_def handler_given_back_def frame_simps om_set_twice\<close>)

lemma clean_settled: "clients_inv st \<Longrightarrow> clean k st = st"
  by (auto simp: clients_inv_def clean_def entry_for_def no_client_iff split: option.splits)

text \<open>The release of a permit, in one equation.\<close>

lemma release_eq:
  assumes "adm_inv st" and "om_get (permits st) i = Some g" and "g_stream g"
  shows "release now i st = (drain now (if g_handler g
      then handler_given_back i (g\<lparr> g_stream := False \<rparr>) (stream_given_back i g st)
      else clean (g_client g) (stream_given_back i g st)), True)"
proof -
  have p: "om_get (permits (stream_given_back i g st)) i = Some (g\<lparr> g_stream := False \<rparr>)"
    by (simp add: stream_given_back_def frame_simps)
  show ?thesis
  proof (cases "g_handler g")
    case True
    let ?s = "handler_given_back i (g\<lparr> g_stream := False \<rparr>) (stream_given_back i g st)"
    have "adm_inv (drain now ?s)" using both_given_back_inv [OF assms True] by (rule drain_inv)
    then have "clean (g_client g) (drain now ?s) = drain now ?s"
      by (intro clean_settled) (simp add: adm_inv_def)
    then show ?thesis
      using assms True p
      by (simp add: release_def Let_def releaseHandler_def stream_given_back_def [symmetric]
          handler_given_back_def drain_idle drain_quiet)
  next
    case False
    then show ?thesis
      using assms p by (simp add: release_def Let_def releaseHandler_def stream_given_back_def [symmetric])
  qed
qed

lemma release_inv: "adm_inv st \<Longrightarrow> adm_inv (fst (release now i st))"
proof (cases "\<exists>g. om_get (permits st) i = Some g \<and> g_stream g")
  case True
  assume "adm_inv st"
  with True show ?thesis
    by (auto simp: release_eq intro!: drain_inv both_given_back_inv stream_given_back_inv)
qed (auto simp: release_def split: option.splits)

lemma waiter_event_inv: "adm_inv st \<Longrightarrow> adm_inv (waiter_event now why i st)"
  by (auto simp: waiter_event_def dest!: find_Some_in intro!: drain_inv settle_refused_inv split: option.split)

lemma waiter_events_inv: "adm_inv st \<Longrightarrow> adm_inv (waiter_events now why is st)"
  by (induction "is" arbitrary: st) (auto intro: waiter_event_inv)

text \<open>Writes to fields the invariant does not mention.\<close>

lemma adm_inv_other_fields:
  assumes "adm_inv st"
    and "policy st' = policy st" "handlers st' = handlers st" "streams st' = streams st"
      "permits st' = permits st" "n_admitted st' = n_admitted st" "n_released st' = n_released st"
      "queue st' = queue st" "nextId st' = nextId st" "settled st' = settled st" "clients st' = clients st"
    and "minStreams (policy st) \<le> effective st'" "effective st' \<le> maxStreams (policy st)"
  shows "adm_inv st'"
  using assms
  by (simp add: adm_inv_def inv_parts held_handlers_def held_streams_def requests_def client_load_def)

lemma abort_signal_inv:
  assumes "adm_inv st"
  shows "adm_inv (abort_signal now sig st)"
proof -
  have "adm_inv (st\<lparr> abortedSignals := sig # abortedSignals st \<rparr>)"
    by (rule adm_inv_other_fields [OF assms]) (use assms in \<open>simp_all add: adm_inv_def limits_inv_def\<close>)
  then show ?thesis using assms by (simp add: abort_signal_def waiter_events_inv)
qed

lemma adapt_inv:
  assumes "adm_inv st"
  shows "adm_inv (adapt now level st)"
proof -
  have l: "minStreams (policy st) \<le> effective st" "effective st \<le> maxStreams (policy st)"
    "1 \<le> minStreams (policy st)"
    using assms by (auto simp: adm_inv_def limits_inv_def policy_wf_def)
  show ?thesis
    unfolding adapt_def Let_def
    by (intro adm_inv_if drain_inv adm_inv_other_fields [OF assms]) (use l in simp_all)
qed

lemma observe_inv:
  assumes "adm_inv st"
  shows "adm_inv (observe now sample st)"
proof -
  have l: "minStreams (policy st) \<le> effective st" "effective st \<le> maxStreams (policy st)"
    using assms by (auto simp: adm_inv_def limits_inv_def)
  show ?thesis
    unfolding observe_def Let_def
    by (intro adm_inv_if adapt_inv adm_inv_other_fields [OF assms]) (use l in simp_all)
qed

lemma configure_inv:
  assumes "adm_inv st"
  shows "adm_inv (configure now input st)"
proof (cases "validateAdmissionPolicy input")
  case (Inr p)
  have wf: "policy_wf p" using Inr by (rule accepted_policy_wf)
  have "adm_inv (st\<lparr> policy := p, samples := 0, smoothed := None, healthy := 0,
          effective := max (minStreams p) (min (maxStreams p) (effective st)), decision := d \<rparr>)" for d
    using assms wf
    by (simp add: adm_inv_def inv_parts held_handlers_def held_streams_def requests_def client_load_def
        policy_wf_def)
  then show ?thesis using assms Inr by (simp add: configure_def drain_inv)
qed (simp add: configure_def assms)

lemma provider_calls_inv:
  assumes "adm_inv st"
  shows "adm_inv (fst (reserveProvider now p limit st))" "adm_inv (fst (release_provider i st))"
    "adm_inv (providerThrottle now k st)" "adm_inv (recordQuota now c snap paused st)"
proof -
  have l: "minStreams (policy st) \<le> effective st" "effective st \<le> maxStreams (policy st)"
    using assms by (auto simp: adm_inv_def limits_inv_def)
  note i = adm_inv_other_fields [OF assms]
  show "adm_inv (fst (reserveProvider now p limit st))"
    by (rule i) (use l in \<open>simp_all add: reserveProvider_def Let_def sweep_providers_def\<close>)
  show "adm_inv (fst (release_provider i st))"
    by (rule i) (use l in \<open>simp_all add: release_provider_def split: option.splits\<close>)
  show "adm_inv (providerThrottle now k st)"
    by (rule i) (use l in \<open>simp_all add: providerThrottle_def Let_def sweep_providers_def split: option.splits\<close>)
  show "adm_inv (recordQuota now c snap paused st)"
    by (rule i) (use l in \<open>simp_all add: recordQuota_def split: option.splits\<close>)
qed

lemma adm_step_inv: "adm_inv st \<Longrightarrow> adm_inv (adm_step st e)"
proof (induction st e rule: adm_step.induct)
qed (simp_all add: acquire_inv releaseHandler_inv release_inv abort_signal_inv waiter_event_inv
    observe_inv configure_inv provider_calls_inv)

lemma policy_wf_order: "policy_wf p \<Longrightarrow> minStreams p \<le> maxStreams p"
  by (simp add: policy_wf_def)

lemma created_inv: "createResourceAdmission initial = Inr st \<Longrightarrow> adm_inv st"
  by (auto simp: createResourceAdmission_def adm_inv_def inv_parts held_handlers_def policy_wf_order
      held_streams_def requests_def client_load_def entry_for_def no_client_def
      dest: accepted_policy_wf split: sum.splits)

interpretation gate: machine adm_step adm_inv
  by unfold_locales (rule adm_step_inv)

section \<open>Nobody who fits is left waiting\<close>

definition quiet :: "adm \<Rightarrow> bool" where
  "quiet st \<longleftrightarrow> (\<forall>w \<in> set (queue st). \<not> fits st (w_client w))"

lemma quiet_drain [simp, intro]: "quiet (drain now st)"
  using drain_quiet by (simp add: quiet_def next_waiter_None)

lemma fits_clients:
  assumes "client_of st' k = client_of st k" "handlers st' = handlers st" "streams st' = streams st"
    "policy st' = policy st" "currentLimit st' \<le> currentLimit st" "fits st' k"
  shows "fits st k"
proof -
  have "currentLimit st' div 2 \<le> currentLimit st div 2" using assms(5) by (rule zdiv_mono1) simp
  then show ?thesis using assms by (auto simp: fits_def Let_def)
qed

lemma quiet_mono:
  assumes "quiet st" "queue st' = queue st" "\<And>k. client_of st' k = client_of st k"
    "handlers st' = handlers st" "streams st' = streams st" "policy st' = policy st"
    "currentLimit st' \<le> currentLimit st"
  shows "quiet st'"
  using assms fits_clients [of st' _ st] by (auto simp: quiet_def)

lemma quiet_other_fields:
  assumes "quiet st" "queue st' = queue st" "clients st' = clients st" "handlers st' = handlers st"
    "streams st' = streams st" "policy st' = policy st" "effective st' \<le> effective st"
  shows "quiet st'"
  by (rule quiet_mono [OF assms(1)])
    (use assms in \<open>auto simp: client_of_def currentLimit_def split: option.split\<close>)

lemma quiet_if: "(c \<Longrightarrow> quiet a) \<Longrightarrow> (\<not> c \<Longrightarrow> quiet b) \<Longrightarrow> quiet (if c then a else b)"
  by simp

lemma client_of_clean_new: "clients_inv st \<Longrightarrow> client_of (clean key (stateFor key st)) k = client_of st k"
  unfolding client_of_def om_get_clean om_get_stateFor
  by (auto simp: clients_inv_def entry_for_def client_of_def split: option.splits)

lemma quiet_acquire:
  assumes "quiet st" "adm_inv st"
  shows "quiet (acquire now client sig deadline st)"
proof -
  define st1 where "st1 = st\<lparr> nextId := nextId st + 1 \<rparr>"
  have early: "quiet (resolve i oc st1)" for i oc
    by (rule quiet_other_fields [OF assms(1)]) (simp_all add: st1_def resolve_def)
  have refuse: "quiet (resolve i oc (clean client ((stateFor client st1)\<lparr> n_refused := m \<rparr>)))" for i oc m
  proof (rule quiet_mono [OF assms(1)])
    have "clients (clean client ((stateFor client st1)\<lparr> n_refused := m \<rparr>)) = clients (clean client (stateFor client st))"
      by (simp add: clean_def stateFor_def st1_def split: option.splits)
    then show "client_of (resolve i oc (clean client ((stateFor client st1)\<lparr> n_refused := m \<rparr>))) k = client_of st k" for k
      using client_of_clean_new [of st client k] assms(2) by (simp add: client_of_def resolve_def adm_inv_def)
  qed (simp_all add: st1_def resolve_def currentLimit_def frame_simps cong: option.case_cong)
  have grant: "quiet (resolve i oc (grant w st1))" if "queue st1 = []" for i oc w
    using that by (simp add: quiet_def frame_simps)
  show ?thesis
    unfolding acquire_def Let_def st1_def [symmetric]
    by (intro quiet_if early refuse grant quiet_drain) simp_all
qed

lemma quiet_releaseHandler: "quiet st \<Longrightarrow> quiet (fst (releaseHandler now i st))"
  by (auto simp: releaseHandler_def split: option.split)

lemma quiet_release: "quiet st \<Longrightarrow> quiet (fst (release now i st))"
  by (auto simp: release_def Let_def split: option.split)

lemma quiet_waiter_event: "quiet st \<Longrightarrow> quiet (waiter_event now why i st)"
  by (auto simp: waiter_event_def split: option.split)

lemma quiet_waiter_events: "quiet st \<Longrightarrow> quiet (waiter_events now why is st)"
  by (induction "is" arbitrary: st) (auto intro: quiet_waiter_event)

lemma quiet_abort: "quiet st \<Longrightarrow> quiet (abort_signal now sig st)"
  unfolding abort_signal_def
  by (auto intro!: quiet_waiter_events elim!: quiet_other_fields)

lemma quiet_adapt:
  assumes "quiet st" "adm_inv st"
  shows "quiet (adapt now level st)"
proof -
  have "1 \<le> minStreams (policy st)" "minStreams (policy st) \<le> effective st"
    using assms(2) by (auto simp: adm_inv_def limits_inv_def policy_wf_def)
  then have e: "max (minStreams (policy st)) (effective st * 4 div 5) \<le> effective st" by auto
  show ?thesis
    unfolding adapt_def Let_def
    by (intro quiet_if quiet_drain quiet_other_fields [OF assms(1)]) (use e in simp_all)
qed

lemma quiet_observe:
  assumes "quiet st" "adm_inv st"
  shows "quiet (observe now sample st)"
proof -
  have l: "minStreams (policy st) \<le> effective st" "effective st \<le> maxStreams (policy st)"
    using assms(2) by (auto simp: adm_inv_def limits_inv_def)
  show ?thesis
    unfolding observe_def Let_def
    by (intro quiet_if quiet_adapt quiet_other_fields [OF assms(1)] adm_inv_other_fields [OF assms(2)])
      (use l in simp_all)
qed

lemma quiet_configure: "quiet st \<Longrightarrow> quiet (configure now input st)"
  by (auto simp: configure_def split: sum.split)

lemma quiet_provider_calls:
  assumes "quiet st"
  shows "quiet (fst (reserveProvider now p limit st))" "quiet (fst (release_provider i st))"
    "quiet (providerThrottle now k st)" "quiet (recordQuota now c snap paused st)"
  using quiet_other_fields [OF assms]
  by (simp_all add: reserveProvider_def Let_def sweep_providers_def release_provider_def
      providerThrottle_def recordQuota_def split: option.splits)

lemma quiet_step: "adm_inv st \<and> quiet st \<Longrightarrow> adm_inv (adm_step st e) \<and> quiet (adm_step st e)"
proof (induction st e rule: adm_step.induct)
qed (simp_all add: acquire_inv releaseHandler_inv release_inv abort_signal_inv waiter_event_inv
    observe_inv configure_inv provider_calls_inv quiet_acquire quiet_releaseHandler quiet_release
    quiet_abort quiet_waiter_event quiet_observe quiet_configure quiet_provider_calls)

interpretation busy_gate: machine adm_step "\<lambda>st. adm_inv st \<and> quiet st"
  by unfold_locales (rule quiet_step)

lemma created_quiet: "createResourceAdmission initial = Inr st \<Longrightarrow> quiet st"
  by (auto simp: createResourceAdmission_def quiet_def split: sum.splits)

end
