(* ===== verification/AdmissionGuarantees.thy ===== *)
theory AdmissionGuarantees
  imports AdmissionInvariant
begin

text \<open>
  What the admission gate promises over every history of calls, timers, aborts, samples and
  policy changes, from the invariants of AdmissionInvariant.
\<close>

section \<open>Load and limits across one call\<close>

definition client_cap :: "adm \<Rightarrow> int" where
  "client_cap st = min (clientStreams (policy st)) (max 1 (currentLimit st div 2))"

definition within_limits :: "adm \<Rightarrow> adm \<Rightarrow> bool" where
  "within_limits st st' \<longleftrightarrow>
     streams st' \<le> max (streams st) (currentLimit st')
     \<and> handlers st' \<le> max (handlers st) (maxHandlers (policy st'))
     \<and> (\<forall>k. c_streams (client_load st' k) \<le> max (c_streams (client_load st k)) (client_cap st')
          \<and> c_handlers (client_load st' k) \<le> max (c_handlers (client_load st k)) (clientHandlers (policy st')))"

definition no_more_load :: "adm \<Rightarrow> adm \<Rightarrow> bool" where
  "no_more_load st st' \<longleftrightarrow> streams st' \<le> streams st \<and> handlers st' \<le> handlers st
     \<and> (\<forall>k. c_streams (client_load st' k) \<le> c_streams (client_load st k)
          \<and> c_handlers (client_load st' k) \<le> c_handlers (client_load st k))"

lemma no_more_load_within: "no_more_load st st' \<Longrightarrow> within_limits st st'"
  unfolding no_more_load_def within_limits_def by (meson max.coboundedI1)

lemma no_more_load_refl [simp]: "no_more_load st st"
  by (simp add: no_more_load_def)

lemma no_more_load_same:
  "permits st' = permits st \<Longrightarrow> streams st' = streams st \<Longrightarrow> handlers st' = handlers st \<Longrightarrow> no_more_load st st'"
  by (simp add: no_more_load_def client_load_def)

lemma currentLimit_cong:
  "policy st' = policy st \<Longrightarrow> effective st' = effective st \<Longrightarrow> currentLimit st' = currentLimit st"
  by (simp add: currentLimit_def cong: option.case_cong)

lemma client_cap_cong:
  "policy st' = policy st \<Longrightarrow> effective st' = effective st \<Longrightarrow> client_cap st' = client_cap st"
  using currentLimit_cong [of st' st] by (simp add: client_cap_def)

lemma within_limits_cong:
  assumes "policy s' = policy s" "effective s' = effective s" "permits s' = permits s"
    "streams s' = streams s" "handlers s' = handlers s"
  shows "within_limits st s' = within_limits st s"
  using assms currentLimit_cong [of s' s] client_cap_cong [of s' s]
  by (simp add: within_limits_def client_load_def)

lemma fits_load:
  assumes "adm_inv st"
  shows "fits st k \<longleftrightarrow> handlers st + 1 \<le> maxHandlers (policy st) \<and> streams st + 1 \<le> currentLimit st
     \<and> c_handlers (client_load st k) + 1 \<le> clientHandlers (policy st) \<and> c_streams (client_load st k) + 1 \<le> client_cap st"
  using client_of_load [of st k] assms by (auto simp: fits_def Let_def adm_inv_def client_cap_def)

text \<open>A grant to a client that fits stays within the limits.\<close>

lemma within_grant:
  assumes "adm_inv s" "within_limits st s" "fits s (w_client w)" "w_id w \<notin> fst ` set (permits s)"
    and "permits s' = permits (grant w s)" "handlers s' = handlers s + 1" "streams s' = streams s + 1"
    and "policy s' = policy s" "effective s' = effective s"
  shows "within_limits st s'"
proof -
  have p: "permits_inv s" using assms(1) by (simp add: adm_inv_def)
  have ld: "c_streams (client_load s' k) = c_streams (client_load s k) + of_bool (k = w_client w)"
    "c_handlers (client_load s' k) = c_handlers (client_load s k) + of_bool (k = w_client w)" for k
    using load_grant [OF p assms(4), of k] assms(5) by (auto simp: client_load_def Let_def split: if_splits)
  note f = fits_load [OF assms(1), of "w_client w"]
  have c: "currentLimit s' = currentLimit s" "client_cap s' = client_cap s"
    using assms(8,9) by (rule currentLimit_cong, rule client_cap_cong)
  have b: "streams s + 1 \<le> currentLimit s" "handlers s + 1 \<le> maxHandlers (policy s)"
    "c_handlers (client_load s (w_client w)) + 1 \<le> clientHandlers (policy s)"
    "c_streams (client_load s (w_client w)) + 1 \<le> client_cap s"
    using f assms(3) by simp_all
  have "c_streams (client_load s' k) \<le> max (c_streams (client_load st k)) (client_cap s')
      \<and> c_handlers (client_load s' k) \<le> max (c_handlers (client_load st k)) (clientHandlers (policy s'))" for k
    using assms(2) b unfolding within_limits_def ld c assms(8)
    by (cases "k = w_client w") (simp_all add: le_max_iff_disj)
  then show ?thesis
    using b assms(6,7,8) by (simp add: within_limits_def c le_max_iff_disj)
qed

lemma drain_within:
  assumes "adm_inv s" "within_limits st s"
  shows "within_limits st (drain now s) \<and> policy (drain now s) = policy s \<and> effective (drain now s) = effective s"
proof -
  have "adm_inv s \<and> within_limits st s \<and> policy s = policy s \<and> effective s = effective s" using assms by simp
  then have "adm_inv (drain now s) \<and> within_limits st (drain now s)
      \<and> policy (drain now s) = policy s \<and> effective (drain now s) = effective s"
  proof (induction rule: drain_induct [where P = "\<lambda>u. adm_inv u \<and> within_limits st u \<and> policy u = policy s \<and> effective u = effective s"])
    case (step now u w)
    then have w: "w \<in> set (queue u)" "fits u (w_client w)" by (auto dest: next_waiter_in_queue)
    have f: "w_id w \<notin> fst ` set (permits u)"
      using step w by (intro waiter_not_permitted) (auto simp: adm_inv_def)
    have r: "within_limits st (settle_refused now w why u)" for why
      using step within_limits_cong [of "settle_refused now w why u" u st]
      by (simp add: settle_refused_def frame_simps)
    have g: "within_limits st (settle_granted now w u)"
      by (rule within_grant [of u st w]) (use step w f in \<open>simp_all add: settle_granted_def frame_simps\<close>)
    have "policy (drain_one now w u) = policy u" "effective (drain_one now w u) = effective u"
      by (simp_all add: drain_one_def settle_refused_def settle_granted_def frame_simps)
    then show ?case using step w r g drain_one_inv [of u w now] by (simp add: drain_one_def)
  qed
  then show ?thesis by simp
qed

lemma within_drain: "adm_inv s \<Longrightarrow> within_limits st s \<Longrightarrow> within_limits st (drain now s)"
  using drain_within by blast

lemma within_if: "(c \<Longrightarrow> within_limits st a) \<Longrightarrow> (\<not> c \<Longrightarrow> within_limits st b) \<Longrightarrow> within_limits st (if c then a else b)"
  by simp

lemma no_more_load_permit:
  assumes "distinct (om_keys (permits st))" "om_get (permits st) i = Some g"
    and "g_client g' = g_client g" "g_handler g' \<longrightarrow> g_handler g" "g_stream g' \<longrightarrow> g_stream g"
    and "permits st' = om_set (permits st) i g'" "streams st' \<le> streams st" "handlers st' \<le> handlers st"
  shows "no_more_load st st'"
  using assms by (auto simp: no_more_load_def client_load_def om_sum_set)

lemma within_releaseHandler:
  assumes "adm_inv st"
  shows "within_limits st (fst (releaseHandler now i st))"
proof (cases "\<exists>g. om_get (permits st) i = Some g \<and> g_handler g")
  case True
  then obtain g where g: "om_get (permits st) i = Some g" "g_handler g" by blast
  have d: "distinct (om_keys (permits st))" "g_stream g"
    using assms g by (auto simp: adm_inv_def permits_inv_def)
  have "no_more_load st (handler_given_back i g st)"
    by (rule no_more_load_permit [OF d(1) g(1)]) (simp_all add: handler_given_back_def frame_simps)
  with g d assms show ?thesis
    by (simp add: releaseHandler_def handler_given_back_def [symmetric] within_drain
        handler_given_back_inv no_more_load_within)
qed (auto simp: releaseHandler_def no_more_load_within split: option.split)

lemma within_release:
  assumes "adm_inv st"
  shows "within_limits st (fst (release now i st))"
proof (cases "\<exists>g. om_get (permits st) i = Some g \<and> g_stream g")
  case True
  then obtain g where g: "om_get (permits st) i = Some g" "g_stream g" by blast
  have d: "distinct (om_keys (permits st))"
    using assms by (auto simp: adm_inv_def permits_inv_def)
  have "no_more_load st (handler_given_back i (g\<lparr> g_stream := False \<rparr>) (stream_given_back i g st))"
    by (rule no_more_load_permit [OF d(1) g(1), where g' = "g\<lparr> g_stream := False, g_handler := False \<rparr>"])
      (simp_all add: handler_given_back_def stream_given_back_def frame_simps)
  moreover have "no_more_load st (clean (g_client g) (stream_given_back i g st))"
    by (rule no_more_load_permit [OF d(1) g(1), where g' = "g\<lparr> g_stream := False \<rparr>"])
      (simp_all add: stream_given_back_def frame_simps)
  ultimately show ?thesis
    using g assms by (simp add: release_eq within_drain both_given_back_inv stream_given_back_inv no_more_load_within)
qed (auto simp: release_def no_more_load_within split: option.split)

lemma within_waiter_event:
  assumes "adm_inv s" "within_limits st s"
  shows "within_limits st (waiter_event now why i s)"
proof (cases "find (\<lambda>w. w_id w = i) (queue s)")
  case (Some w)
  have "within_limits st (settle_refused now w why s)"
    using assms within_limits_cong [of "settle_refused now w why s" s st]
    by (simp add: settle_refused_def frame_simps)
  moreover have "adm_inv (settle_refused now w why s)"
    using assms(1) Some by (auto dest!: find_Some_in intro: settle_refused_inv)
  ultimately show ?thesis using Some by (simp add: waiter_event_def within_drain)
qed (simp add: waiter_event_def assms)

lemma within_waiter_events:
  "adm_inv s \<Longrightarrow> within_limits st s \<Longrightarrow> within_limits st (waiter_events now why is s)"
  by (induction "is" arbitrary: s) (auto intro: within_waiter_event waiter_event_inv)

lemma within_acquire:
  assumes "adm_inv st"
  shows "within_limits st (acquire now client sig deadline st)"
proof -
  define st1 where "st1 = st\<lparr> nextId := nextId st + 1 \<rparr>"
  have early: "within_limits st (resolve i oc st1)" for i oc
    by (intro no_more_load_within no_more_load_same) (simp_all add: st1_def frame_simps)
  have refuse: "within_limits st (resolve i oc (clean client ((stateFor client st1)\<lparr> n_refused := m \<rparr>)))" for i oc m
    by (intro no_more_load_within no_more_load_same) (simp_all add: st1_def frame_simps)
  have grant: "within_limits st (resolve i oc (grant w st1))"
    if "queue st1 = [] \<and> fits st1 client" "w_id w = nextId st" "w_client w = client" for i oc w
  proof (rule within_grant [OF assms no_more_load_within [OF no_more_load_refl]])
    have "fits st1 client = fits st client"
      by (simp add: fits_def st1_def client_of_def currentLimit_cong [of "st\<lparr>nextId := Suc (nextId st)\<rparr>" st] Let_def)
    then show "fits st (w_client w)" using that by simp
    show "w_id w \<notin> fst ` set (permits st)" using that assms by (simp add: next_id_fresh adm_inv_def)
  qed (simp_all add: frame_simps st1_def grant_def)
  have wait: "within_limits st (drain now (upd_client client (\<lambda>s. s\<lparr> c_queued := c_queued s + 1 \<rparr>)
      ((stateFor client st1)\<lparr> queue := queue (stateFor client st1) @ [w] \<rparr>)))"
    if "w_id w = nextId st" "w_client w = client" for w
  proof (rule within_drain)
    show "adm_inv (upd_client client (\<lambda>s. s\<lparr> c_queued := c_queued s + 1 \<rparr>)
      ((stateFor client st1)\<lparr> queue := queue (stateFor client st1) @ [w] \<rparr>))"
      using acquire_queued_inv [OF assms that] by (simp add: st1_def)
  qed (intro no_more_load_within no_more_load_same; simp add: st1_def frame_simps)
  show ?thesis
    unfolding acquire_def Let_def st1_def [symmetric]
    by (intro within_if early refuse grant wait) simp_all
qed

lemma within_observe:
  assumes "adm_inv st"
  shows "within_limits st (observe now sample st)"
proof -
  have l: "minStreams (policy st) \<le> effective st" "effective st \<le> maxStreams (policy st)"
    using assms by (auto simp: adm_inv_def limits_inv_def)
  show ?thesis
    unfolding observe_def adapt_def Let_def
    by (intro within_if within_drain no_more_load_within no_more_load_same adm_inv_other_fields [OF assms])
      (use l in simp_all)
qed

lemma within_configure:
  assumes "adm_inv st"
  shows "within_limits st (configure now input st)"
proof (cases "validateAdmissionPolicy input")
  case (Inr p)
  have wf: "policy_wf p" using Inr by (rule accepted_policy_wf)
  let ?s = "\<lambda>d. st\<lparr> policy := p, samples := 0, smoothed := None, healthy := 0,
          effective := max (minStreams p) (min (maxStreams p) (effective st)), decision := d \<rparr>"
  have "adm_inv (?s d)" for d
    using assms wf
    by (simp add: adm_inv_def inv_parts held_handlers_def held_streams_def requests_def client_load_def policy_wf_order)
  moreover have "within_limits st (?s d)" for d
    by (intro no_more_load_within no_more_load_same) simp_all
  ultimately show ?thesis using Inr by (simp add: configure_def within_drain no_more_load_within)
qed (simp add: configure_def no_more_load_within)

lemma within_provider_calls:
  "within_limits st (fst (reserveProvider now p limit st))" "within_limits st (fst (release_provider i st))"
  "within_limits st (providerThrottle now k st)" "within_limits st (recordQuota now c snap paused st)"
  by (intro no_more_load_within no_more_load_same;
      simp add: reserveProvider_def release_provider_def providerThrottle_def recordQuota_def
        sweep_providers_def Let_def split: option.splits)+

lemma step_within: "adm_inv st \<Longrightarrow> within_limits st (adm_step st e)"
proof (induction st e rule: adm_step.induct)
  case (4 st now sig)
  have "adm_inv (st\<lparr> abortedSignals := sig # abortedSignals st \<rparr>)"
    by (rule adm_inv_other_fields [OF 4]) (use 4 in \<open>simp_all add: adm_inv_def limits_inv_def\<close>)
  moreover have "within_limits st (st\<lparr> abortedSignals := sig # abortedSignals st \<rparr>)"
    by (intro no_more_load_within no_more_load_same) simp_all
  ultimately show ?case by (simp add: abort_signal_def within_waiter_events no_more_load_within)
qed (simp_all add: within_acquire within_releaseHandler within_release within_observe within_configure
    within_provider_calls within_waiter_event no_more_load_within)

section \<open>A permit given back stays given back\<close>

definition spent :: "nat \<Rightarrow> adm \<Rightarrow> bool" where
  "spent i st \<longleftrightarrow> (case om_get (permits st) i of None \<Rightarrow> False | Some g \<Rightarrow> \<not> g_stream g)"

lemma spent_cong: "om_get (permits st') i = om_get (permits st) i \<Longrightarrow> spent i st' = spent i st"
  by (simp add: spent_def)

lemma spent_permitted: "spent i st \<Longrightarrow> i \<in> fst ` set (permits st)"
  by (auto simp: spent_def om_get_None_iff split: option.splits)
    (metis om_get_None_iff option.distinct(1))

lemma spent_drain_one:
  assumes "adm_inv st" "w \<in> set (queue st)" "spent i st"
  shows "spent i (drain_one now w st)"
proof -
  have "w_id w \<noteq> i"
    using waiter_not_permitted [OF _ assms(2)] assms(1) spent_permitted [OF assms(3)] by (auto simp: adm_inv_def)
  then show ?thesis
    using assms(3) by (auto simp: drain_one_def settle_refused_def settle_granted_def frame_simps spent_def grant_def)
qed

lemma spent_drain: "adm_inv st \<Longrightarrow> spent i st \<Longrightarrow> spent i (drain now st)"
proof -
  assume "adm_inv st" "spent i st"
  then have "adm_inv st \<and> spent i st" ..
  then have "adm_inv (drain now st) \<and> spent i (drain now st)"
    by (induction rule: drain_induct) (auto dest: next_waiter_in_queue intro: drain_one_inv spent_drain_one)
  then show ?thesis ..
qed

lemma spent_if: "(c \<Longrightarrow> spent i a) \<Longrightarrow> (\<not> c \<Longrightarrow> spent i b) \<Longrightarrow> spent i (if c then a else b)"
  by simp

lemma spent_acquire:
  assumes "adm_inv st" "spent i st"
  shows "spent i (acquire now client sig deadline st)"
proof -
  define st1 where "st1 = st\<lparr> nextId := nextId st + 1 \<rparr>"
  have ne: "i \<noteq> nextId st"
    using spent_permitted [OF assms(2)] assms(1) next_id_fresh(1) [of st] by (metis adm_inv_def)
  have early: "spent i (resolve j oc st1)" for j oc
    using assms(2) by (simp add: spent_def st1_def frame_simps)
  have refuse: "spent i (resolve j oc (clean client ((stateFor client st1)\<lparr> n_refused := m \<rparr>)))" for j oc m
    using assms(2) by (simp add: spent_def st1_def frame_simps)
  have grant: "spent i (resolve j oc (grant w st1))" if "w_id w = nextId st" for j oc w
    using assms(2) ne that by (simp add: spent_def st1_def frame_simps grant_def)
  have wait: "spent i (drain now (upd_client client (\<lambda>s. s\<lparr> c_queued := c_queued s + 1 \<rparr>)
      ((stateFor client st1)\<lparr> queue := queue (stateFor client st1) @ [w] \<rparr>)))"
    if "w_id w = nextId st" "w_client w = client" for w
  proof (rule spent_drain)
    show "adm_inv (upd_client client (\<lambda>s. s\<lparr> c_queued := c_queued s + 1 \<rparr>)
      ((stateFor client st1)\<lparr> queue := queue (stateFor client st1) @ [w] \<rparr>))"
      using acquire_queued_inv [OF assms(1) that] by (simp add: st1_def)
  qed (use assms(2) in \<open>simp add: spent_def st1_def frame_simps\<close>)
  show ?thesis
    unfolding acquire_def Let_def st1_def [symmetric]
    by (intro spent_if early refuse grant wait) simp_all
qed

lemma spent_releaseHandler:
  assumes "adm_inv st" "spent i st"
  shows "spent i (fst (releaseHandler now j st))"
proof (cases "\<exists>g. om_get (permits st) j = Some g \<and> g_handler g")
  case True
  then obtain g where g: "om_get (permits st) j = Some g" "g_handler g" by blast
  have s: "g_stream g" using assms(1) g by (auto simp: adm_inv_def permits_inv_def)
  then have "j \<noteq> i" using assms(2) g by (auto simp: spent_def)
  then have "spent i (handler_given_back j g st)"
    using assms(2) by (simp add: spent_def handler_given_back_def frame_simps)
  then show ?thesis
    using g s assms(1)
    by (simp add: releaseHandler_def handler_given_back_def [symmetric] spent_drain handler_given_back_inv)
qed (use assms in \<open>auto simp: releaseHandler_def split: option.split\<close>)

lemma spent_release:
  assumes "adm_inv st" "spent i st \<or> i = j \<and> om_get (permits st) i \<noteq> None"
  shows "spent i (fst (release now j st))"
proof (cases "\<exists>g. om_get (permits st) j = Some g \<and> g_stream g")
  case True
  then obtain g where g: "om_get (permits st) j = Some g" "g_stream g" by blast
  have "spent i (handler_given_back j (g\<lparr> g_stream := False \<rparr>) (stream_given_back j g st))"
    "spent i (clean (g_client g) (stream_given_back j g st))"
    using assms(2) by (auto simp: spent_def handler_given_back_def stream_given_back_def frame_simps)
  then show ?thesis
    using g assms(1) by (simp add: release_eq spent_drain both_given_back_inv stream_given_back_inv)
qed (use assms in \<open>auto simp: release_def spent_def split: option.split option.splits\<close>)

lemma spent_waiter_event:
  assumes "adm_inv st" "spent i st"
  shows "spent i (waiter_event now why j st)"
proof (cases "find (\<lambda>w. w_id w = j) (queue st)")
  case (Some w)
  then have "w \<in> set (queue st)" by (auto dest: find_Some_in)
  then have "adm_inv (settle_refused now w why st)" using assms(1) by (intro settle_refused_inv)
  moreover have "spent i (settle_refused now w why st)"
    using assms(2) by (simp add: spent_def settle_refused_def frame_simps)
  ultimately show ?thesis using Some by (simp add: waiter_event_def spent_drain)
qed (simp add: waiter_event_def assms)

lemma spent_waiter_events: "adm_inv st \<Longrightarrow> spent i st \<Longrightarrow> spent i (waiter_events now why is st)"
  by (induction "is" arbitrary: st) (auto intro: spent_waiter_event waiter_event_inv)

lemma spent_same_permits: "spent i st \<Longrightarrow> permits st' = permits st \<Longrightarrow> spent i st'"
  by (simp add: spent_def)

lemma spent_abort:
  assumes "adm_inv st" "spent i st"
  shows "spent i (abort_signal now sig st)"
proof -
  have "adm_inv (st\<lparr> abortedSignals := sig # abortedSignals st \<rparr>)"
    by (rule adm_inv_other_fields [OF assms(1)]) (use assms in \<open>simp_all add: adm_inv_def limits_inv_def\<close>)
  then show ?thesis
    using assms spent_same_permits [OF assms(2)] by (simp add: abort_signal_def spent_waiter_events)
qed

lemma spent_observe:
  assumes "adm_inv st" "spent i st"
  shows "spent i (observe now sample st)"
proof -
  have l: "minStreams (policy st) \<le> effective st" "effective st \<le> maxStreams (policy st)"
    using assms by (auto simp: adm_inv_def limits_inv_def)
  show ?thesis
    unfolding observe_def adapt_def Let_def
    by (intro spent_if spent_drain spent_same_permits [OF assms(2)] adm_inv_other_fields [OF assms(1)])
      (use l in simp_all)
qed

lemma spent_configure:
  assumes "adm_inv st" "spent i st"
  shows "spent i (configure now input st)"
proof (cases "validateAdmissionPolicy input")
  case (Inr p)
  have wf: "policy_wf p" using Inr by (rule accepted_policy_wf)
  let ?s = "\<lambda>d. st\<lparr> policy := p, samples := 0, smoothed := None, healthy := 0,
          effective := max (minStreams p) (min (maxStreams p) (effective st)), decision := d \<rparr>"
  have "adm_inv (?s d)" for d
    using assms(1) wf
    by (simp add: adm_inv_def inv_parts held_handlers_def held_streams_def requests_def client_load_def policy_wf_order)
  moreover have "spent i (?s d)" for d using assms(2) by (simp add: spent_def)
  ultimately show ?thesis using Inr assms(2) by (simp add: configure_def spent_drain)
qed (simp add: configure_def assms)

lemma spent_step: "adm_inv st \<and> spent i st \<Longrightarrow> adm_inv (adm_step st e) \<and> spent i (adm_step st e)"
proof (intro conjI)
  assume "adm_inv st \<and> spent i st"
  then show "spent i (adm_step st e)"
  proof (induction st e rule: adm_step.induct)
  qed (auto simp: spent_acquire spent_releaseHandler spent_release spent_abort spent_waiter_event spent_observe
      spent_configure reserveProvider_def release_provider_def providerThrottle_def recordQuota_def
      sweep_providers_def Let_def elim!: spent_same_permits split: option.split)
qed (simp add: adm_step_inv)

interpretation spent_gate: machine adm_step "\<lambda>st. adm_inv st \<and> spent i st" for i
  by unfold_locales (rule spent_step)

lemma release_spent: "spent i st \<Longrightarrow> release now i st = (st, False)"
  by (auto simp: spent_def release_def split: option.splits)

section \<open>The order of service\<close>

lemma next_waiter_first:
  assumes "next_waiter st = Some w"
  shows "\<exists>us vs. queue st = us @ w # vs \<and> (\<forall>u \<in> set us. w_client u \<noteq> w_client w)"
proof -
  have "\<exists>P. find P (queue st) = Some w \<and> (\<forall>u. w_client u = w_client w \<longrightarrow> P u)"
  proof (cases "find (\<lambda>w. Some (w_client w) \<noteq> lastClient st \<and> fits st (w_client w)) (queue st)")
    case None
    with assms have f: "find (\<lambda>w. fits st (w_client w)) (queue st) = Some w" by (simp add: next_waiter_def)
    with find_Some_in [OF f] show ?thesis by (intro exI [of _ "\<lambda>w. fits st (w_client w)"]) simp
  next
    case (Some v)
    with assms find_Some_in [OF Some] show ?thesis
      by (intro exI [of _ "\<lambda>w. Some (w_client w) \<noteq> lastClient st \<and> fits st (w_client w)"])
        (simp add: next_waiter_def)
  qed
  then obtain P where P: "find P (queue st) = Some w" "\<And>u. w_client u = w_client w \<Longrightarrow> P u" by blast
  from P(1) obtain us vs where q: "queue st = us @ w # vs" "\<And>u. u \<in> set us \<Longrightarrow> \<not> P u"
    by (auto simp: find_Some_iff) (metis id_take_nth_drop in_set_conv_nth length_take min_less_iff_conj nth_take)
  with P(2) show ?thesis by blast
qed

definition of_client :: "string \<Rightarrow> waiter list \<Rightarrow> waiter list" where
  "of_client c q = filter (\<lambda>w. w_client w = c) q"

lemma drain_one_fifo:
  assumes "next_waiter st = Some w"
  shows "\<exists>n. of_client c (queue (drain_one now w st)) = drop n (of_client c (queue st))"
proof -
  obtain us vs where q: "queue st = us @ w # vs" "\<forall>u \<in> set us. w_client u \<noteq> w_client w"
    using next_waiter_first [OF assms] by blast
  then have "w \<notin> set us" by auto
  then have r: "queue (drain_one now w st) = us @ vs" by (simp add: q(1) remove1_append)
  have e: "filter (\<lambda>u. w_client u = w_client w) us = []" using q(2) by (simp add: filter_empty_conv)
  show ?thesis
  proof (cases "w_client w = c")
    case True
    with e show ?thesis unfolding of_client_def r q(1) by (intro exI [of _ 1]) simp
  next
    case False
    then show ?thesis unfolding of_client_def r q(1) by (intro exI [of _ 0]) simp
  qed
qed

text \<open>each client is served in the order its requests came: what a drain leaves of a client's
  waiters is a suffix of what was there, whatever mix of grants, timeouts and aborts it made.\<close>

theorem drain_serves_client_in_order:
  "\<exists>n. of_client c (queue (drain now st)) = drop n (of_client c (queue st))"
proof (rule drain_induct [where P = "\<lambda>u. \<exists>n. of_client c (queue u) = drop n (of_client c (queue st))"])
  show "\<exists>n. of_client c (queue st) = drop n (of_client c (queue st))" by (rule exI [of _ 0]) simp
next
  fix now u w
  assume "\<exists>n. of_client c (queue u) = drop n (of_client c (queue st))" and w: "next_waiter u = Some w"
  then obtain n where n: "of_client c (queue u) = drop n (of_client c (queue st))" by blast
  obtain m where m: "of_client c (queue (drain_one now w u)) = drop m (of_client c (queue u))"
    using drain_one_fifo [OF w] by blast
  show "\<exists>n. of_client c (queue (drain_one now w u)) = drop n (of_client c (queue st))"
    using n m by (intro exI [of _ "m + n"]) simp
qed

section \<open>Properties over every history\<close>

text \<open>A small gate and a history for the witnesses: client a holds the one stream, a second request
  of a and one of b wait, the release serves b first, and the waiter of a is aborted.\<close>

definition sample_policy :: jv where
  "sample_policy = Obj [(''minStreams'', JInt 1), (''maxStreams'', JInt 2), (''maxHandlers'', JInt 2)]"

definition sample_gate :: adm where
  "sample_gate = projr (createResourceAdmission sample_policy)"

definition sample_history :: "(int \<times> adm_event) list" where
  "sample_history = [(0, Acquire ''a'' None None), (1, Acquire ''a'' (Some 7) None),
     (2, Acquire ''b'' None (Some 900)), (3, Release 0), (4, Abort 7), (5, ReleaseHandler 2)]"

lemma sample_gate_created: "createResourceAdmission sample_policy = Inr sample_gate"
proof -
  have "\<not> isl (createResourceAdmission sample_policy)" by code_simp
  then show ?thesis by (simp add: sample_gate_def)
qed

text \<open>C8: after any history of calls, timers, aborts, samples and policy changes, the two counters the
  gate decides by are the numbers of permits really held, the entry of every client is its real
  load and exists only while the client has one, and the books balance: every stream ever
  admitted was released or is running.\<close>

theorem admission_counters_exact:
  assumes "createResourceAdmission initial = Inr st0" and "st = foldl adm_step st0 es"
  shows "handlers st = held_handlers st \<and> streams st = held_streams st
    \<and> (\<forall>k. om_get (clients st) k = entry_for (client_load st k))
    \<and> n_admitted st = n_released st + streams st"
  using gate.run_inv [OF created_inv [OF assms(1)], of es] assms(2)
  by (simp add: adm_inv_def permits_inv_def clients_inv_def books_inv_def)

theorem admission_counters_exact_witness:
  "let st = foldl adm_step sample_gate sample_history
   in streams st = 1 \<and> streams st = held_streams st \<and> handlers st = held_handlers st \<and> n_admitted st = 2"
proof -
  have "let st = foldl adm_step sample_gate sample_history in streams st = 1 \<and> n_admitted st = 2"
    by code_simp
  then show ?thesis
    using admission_counters_exact [OF sample_gate_created refl, of sample_history] by (simp add: Let_def)
qed

text \<open>C6: after any history, no waiter in the queue fits: capacity is never left idle while a request
  that could use it waits, and a saturated client does not hold up another.\<close>

theorem no_fitting_request_waits:
  assumes "createResourceAdmission initial = Inr st0" and "st = foldl adm_step st0 es"
    and "w \<in> set (queue st)"
  shows "\<not> fits st (w_client w)"
  using busy_gate.run_inv [of st0 es] created_inv [OF assms(1)] created_quiet [OF assms(1)] assms(2,3)
  by (simp add: quiet_def)

theorem no_fitting_request_waits_witness:
  "\<exists>w. queue (foldl adm_step sample_gate (take 3 sample_history)) = w # [last (queue (foldl adm_step sample_gate (take 3 sample_history)))]
     \<and> \<not> fits (foldl adm_step sample_gate (take 3 sample_history)) (w_client w)"
proof -
  let ?st = "foldl adm_step sample_gate (take 3 sample_history)"
  have "length (queue ?st) = 2" by code_simp
  then obtain w v where q: "queue ?st = [w, v]" by (metis (no_types, lifting) length_0_conv length_Suc_conv numeral_2_eq_2)
  then have "\<not> fits ?st (w_client w)"
    by (intro no_fitting_request_waits [OF sample_gate_created refl]) simp
  with q show ?thesis by simp
qed

text \<open>C10: no call takes the load over a limit that is in force after it, for the process and for each
  client, in streams and in handlers; a load a narrower policy finds above its limits only shrinks.\<close>

theorem admission_within_limits:
  assumes "createResourceAdmission initial = Inr st0" and "st = foldl adm_step st0 es"
  shows "within_limits st (adm_step st e)"
  using gate.run_inv [OF created_inv [OF assms(1)], of es] assms(2) by (simp add: step_within)

theorem admission_within_limits_witness:
  "let st = foldl adm_step sample_gate (take 3 sample_history)
   in within_limits st (adm_step st (3, Release 0)) \<and> streams (adm_step st (3, Release 0)) = 1"
proof -
  have "streams (adm_step (foldl adm_step sample_gate (take 3 sample_history)) (3, Release 0)) = 1" by code_simp
  then show ?thesis
    using admission_within_limits [OF sample_gate_created refl, of "take 3 sample_history" "(3, Release 0)"]
    by (simp add: Let_def)
qed

text \<open>C27: every request the gate has accepted to consider is either still queued or has settled, never
  both, and no promise settles twice.\<close>

theorem request_settles_once:
  assumes "createResourceAdmission initial = Inr st0" and "st = foldl adm_step st0 es"
  shows "distinct (map fst (settled st)) \<and> (\<forall>i. i < nextId st \<longleftrightarrow>
     (i \<in> w_id ` set (queue st)) \<noteq> (i \<in> fst ` set (settled st)))"
proof -
  have "requests_inv st"
    using gate.run_inv [OF created_inv [OF assms(1)], of es] assms(2) by (simp add: adm_inv_def)
  then have d: "distinct (map w_id (queue st) @ map fst (settled st))"
    and s: "w_id ` set (queue st) \<union> fst ` set (settled st) = {..<nextId st}"
    by (simp_all add: requests_inv_def requests_def)
  show ?thesis using d s by (auto simp: set_eq_iff disjoint_iff)
qed

theorem request_settles_once_witness:
  "let st = foldl adm_step sample_gate sample_history
   in settled st = [(0, Admitted 0), (2, Admitted 1), (1, Refused ''aborted'' (Some 3))] \<and> distinct (map fst (settled st))"
proof -
  have "settled (foldl adm_step sample_gate sample_history)
      = [(0, Admitted 0), (2, Admitted 1), (1, Refused ''aborted'' (Some 3))]" by code_simp
  then show ?thesis
    using request_settles_once [OF sample_gate_created refl, of sample_history] by (simp add: Let_def)
qed

text \<open>C40: releasing a permit is idempotent for good: once a permit's stream has been released, no
  later history gives it back a slot, and a further release changes nothing and reports false.\<close>

theorem release_is_idempotent:
  assumes "createResourceAdmission initial = Inr st0" and "st = foldl adm_step st0 es"
    and "om_get (permits st) i \<noteq> None"
    and "st' = foldl adm_step (fst (release now i st)) es'"
  shows "release later i st' = (st', False)"
proof -
  have i: "adm_inv st" using gate.run_inv [OF created_inv [OF assms(1)], of es] assms(2) by simp
  have "adm_inv (fst (release now i st)) \<and> spent i (fst (release now i st))"
    using i assms(3) by (auto intro: release_inv spent_release)
  then have "spent i st'" using spent_gate.run_inv assms(4) by blast
  then show ?thesis by (rule release_spent)
qed

theorem release_is_idempotent_witness:
  "let st = foldl adm_step sample_gate (take 3 sample_history);
       st' = foldl adm_step (fst (release 3 0 st)) [(4, Abort 7), (5, ReleaseHandler 2)]
   in release 9 0 st' = (st', False) \<and> streams st' = 1"
proof -
  let ?st = "foldl adm_step sample_gate (take 3 sample_history)"
  have p: "om_get (permits ?st) 0 \<noteq> None" by code_simp
  have "streams (foldl adm_step (fst (release 3 0 ?st)) [(4, Abort 7), (5, ReleaseHandler 2)]) = 1" by code_simp
  then show ?thesis
    using release_is_idempotent [OF sample_gate_created refl p refl,
        where later = 9 and now = 3 and es' = "[(4, Abort 7), (5, ReleaseHandler 2)]"]
    unfolding Let_def by blast
qed

end
