(* ===== verification/Slots.thy ===== *)
theory Slots
  imports Prelude
begin

text \<open>
  The contract every limiter of the gateway offers: a call takes a slot under a key or is refused,
  a slot is given back at most once, and giving back a slot frees that slot and no other. It is
  interpreted on the per-connection lease registry, on the provider permits of the admission gate,
  and on the registry that composes the two.
\<close>

datatype ('a, 'p) slot_call = Take 'a | Give 'p

locale slot_pool =
  fixes holds :: "'s \<Rightarrow> 'k \<Rightarrow> 'p set"
    and key :: "'a \<Rightarrow> 'k"
    and limit :: "'a \<Rightarrow> 's \<Rightarrow> nat option"
    and take_slot :: "'a \<Rightarrow> 's \<Rightarrow> 's \<times> 'p option"
    and give_back :: "'p \<Rightarrow> 's \<Rightarrow> 's \<times> bool"
    and ok :: "'s \<Rightarrow> bool"
  assumes take_ok: "ok s \<Longrightarrow> ok (fst (take_slot a s))"
    and give_ok: "ok s \<Longrightarrow> ok (fst (give_back p s))"
    and holds_finite: "ok s \<Longrightarrow> finite (holds s k)"
    and holds_disjoint: "ok s \<Longrightarrow> p \<in> holds s k \<Longrightarrow> p \<in> holds s k' \<Longrightarrow> k' = k"
    and take_fresh: "ok s \<Longrightarrow> snd (take_slot a s) = Some p \<Longrightarrow> p \<notin> holds s k"
    and take_holds: "ok s \<Longrightarrow> holds (fst (take_slot a s)) k = (case snd (take_slot a s) of None \<Rightarrow> holds s k
       | Some p \<Rightarrow> if k = key a then insert p (holds s k) else holds s k)"
    and take_below: "ok s \<Longrightarrow> snd (take_slot a s) = Some p \<Longrightarrow> limit a s = Some n \<Longrightarrow> card (holds s (key a)) < n"
    and give_live: "ok s \<Longrightarrow> snd (give_back p s) \<longleftrightarrow> (\<exists>k. p \<in> holds s k)"
    and give_holds: "ok s \<Longrightarrow> holds (fst (give_back p s)) k = holds s k - {p}"
begin

definition used :: "'s \<Rightarrow> 'k \<Rightarrow> nat" where
  "used s k = card (holds s k)"

lemma used_take: "ok s \<Longrightarrow> used (fst (take_slot a s)) k
    = used s k + (if snd (take_slot a s) \<noteq> None \<and> k = key a then 1 else 0)"
  using take_fresh [of s a _ k] holds_finite [of s k]
  by (auto simp: used_def take_holds split: option.split)

lemma take_within_limit:
  assumes "ok s" "snd (take_slot a s) = Some p" "limit a s = Some n"
  shows "used (fst (take_slot a s)) (key a) \<le> n"
  using used_take [OF assms(1), of a "key a"] take_below [OF assms] assms(2) by (simp add: used_def)

lemma used_give: "ok s \<Longrightarrow> used (fst (give_back p s)) k = used s k - (if p \<in> holds s k then 1 else 0)"
  using holds_finite [of s k] by (simp add: used_def give_holds)

lemma used_give_pos: "ok s \<Longrightarrow> p \<in> holds s k \<Longrightarrow> 0 < used s k"
  using holds_finite [of s k] by (auto simp: used_def card_gt_0_iff)

text \<open>A second release of the same slot is refused and frees nothing.\<close>

lemma give_twice:
  assumes "ok s"
  shows "\<not> snd (give_back p (fst (give_back p s)))"
    and "used (fst (give_back p (fst (give_back p s)))) k = used (fst (give_back p s)) k"
  using assms by (simp_all add: give_live give_ok give_holds used_def)

text \<open>Giving back one slot never touches another key's count.\<close>

lemma give_other_key:
  assumes "ok s" "p \<in> holds s k" "k' \<noteq> k"
  shows "used (fst (give_back p s)) k' = used s k'"
  using assms holds_disjoint [of s p k k'] by (auto simp: used_give)

fun perform :: "('a, 'p) slot_call \<Rightarrow> 's \<Rightarrow> 's" where
  "perform (Take a) s = fst (take_slot a s)"
| "perform (Give p) s = fst (give_back p s)"

text \<open>How a call changes the count under \<open>k\<close>: one admission, one release, or nothing.\<close>

fun gain :: "'k \<Rightarrow> ('a, 'p) slot_call \<Rightarrow> 's \<Rightarrow> int" where
  "gain k (Take a) s = (if snd (take_slot a s) \<noteq> None \<and> key a = k then 1 else 0)"
| "gain k (Give p) s = (if snd (give_back p s) \<and> p \<in> holds s k then - 1 else 0)"

fun balance :: "'k \<Rightarrow> ('a, 'p) slot_call list \<Rightarrow> 's \<Rightarrow> int" where
  "balance k [] s = 0"
| "balance k (c # cs) s = gain k c s + balance k cs (perform c s)"

lemma perform_ok: "ok s \<Longrightarrow> ok (perform c s)"
  by (cases c) (simp_all add: take_ok give_ok)

lemma perform_used: "ok s \<Longrightarrow> int (used (perform c s) k) = int (used s k) + gain k c s"
proof (cases c)
  case (Give p)
  assume "ok s"
  then show ?thesis using Give used_give_pos [of s p k] by (auto simp: used_give give_live)
qed (simp add: used_take)

lemma run_ok: "ok s \<Longrightarrow> ok (fold perform cs s)"
  by (induction cs arbitrary: s) (simp_all add: perform_ok)

text \<open>The count in use is the admissions less the releases, over every sequence of calls.\<close>

lemma used_balance: "ok s \<Longrightarrow> int (used (fold perform cs s) k) = int (used s k) + balance k cs s"
  by (induction cs arbitrary: s) (simp_all add: perform_ok perform_used)

lemma used_bound:
  assumes "ok s" and lim: "\<And>a s. key a = k \<Longrightarrow> limit a s = Some n" and "used s k \<le> n"
  shows "used (fold perform cs s) k \<le> n"
  using assms(1,3)
proof (induction cs arbitrary: s)
  case (Cons c cs)
  have "used (perform c s) k \<le> n"
  proof (cases c)
    case (Take a)
    then show ?thesis
      using Cons.prems take_within_limit [OF Cons.prems(1), of a _ n] lim [of a s]
      by (cases "snd (take_slot a s)") (auto simp: used_take)
  qed (use Cons.prems in \<open>simp add: used_give\<close>)
  then show ?case using Cons perform_ok by simp
qed simp

end

text \<open>
  When the pool also never issues the same slot twice, a slot that has been given back stays given
  back: no later sequence of calls lets its holder free a slot again.
\<close>

locale fresh_slot_pool = slot_pool holds key limit take_slot give_back ok
  for holds :: "'s \<Rightarrow> 'k \<Rightarrow> 'p set" and key :: "'a \<Rightarrow> 'k" and limit :: "'a \<Rightarrow> 's \<Rightarrow> nat option"
    and take_slot :: "'a \<Rightarrow> 's \<Rightarrow> 's \<times> 'p option" and give_back :: "'p \<Rightarrow> 's \<Rightarrow> 's \<times> bool"
    and ok :: "'s \<Rightarrow> bool" +
  fixes issued :: "'s \<Rightarrow> 'p set"
  assumes issued_take: "ok s \<Longrightarrow> p \<in> issued s \<Longrightarrow> p \<in> issued (fst (take_slot a s))"
    and issued_give: "ok s \<Longrightarrow> p \<in> issued s \<Longrightarrow> p \<in> issued (fst (give_back q s))"
    and take_new: "ok s \<Longrightarrow> snd (take_slot a s) = Some p \<Longrightarrow> p \<notin> issued s"
begin

lemma spent_stays:
  assumes "ok s" "p \<in> issued s" "\<And>k. p \<notin> holds s k"
  shows "p \<in> issued (perform c s)" "p \<notin> holds (perform c s) k"
proof -
  show "p \<in> issued (perform c s)" using assms(1,2) by (cases c) (simp_all add: issued_take issued_give)
  show "p \<notin> holds (perform c s) k"
    using assms take_new [OF assms(1), of _ p]
    by (cases c) (auto simp: take_holds give_holds split: option.split)
qed

lemma spent_stays_run:
  "ok s \<Longrightarrow> p \<in> issued s \<Longrightarrow> (\<And>k. p \<notin> holds s k) \<Longrightarrow> p \<notin> holds (fold perform cs s) k"
proof (induction cs arbitrary: s)
  case (Cons c cs)
  then have "p \<notin> holds (fold perform cs (perform c s)) k"
    by (intro Cons.IH perform_ok spent_stays) simp_all
  then show ?case by simp
qed simp

lemma give_once:
  assumes "ok s" "p \<in> issued s"
  shows "\<not> snd (give_back p (fold perform cs (fst (give_back p s))))"
proof -
  have "p \<notin> holds (fold perform cs (fst (give_back p s))) k" for k
    using assms by (intro spent_stays_run give_ok issued_give) (simp_all add: give_holds)
  then show ?thesis using assms by (simp add: give_live run_ok give_ok)
qed

end

end
