(* ===== verification/Leases.thy ===== *)
theory Leases
  imports Slots JsValue
begin

text \<open>
  The admission leases of src/shared/utils/accountLease.js: a registry of slots per connection.
  Lease objects have identity: \<open>l_ref\<close> is the address of the frozen object, fresh for each one the
  registry allocates, so that two leases with the same fields are still different objects.
\<close>

record lease =
  l_ref :: nat
  l_connectionId :: string
  l_seq :: nat
  l_ungated :: "(string \<times> int) option"

record refusal =
  rf_held :: int
  rf_cap :: int
  rf_retryAfterMs :: int
  rf_scope :: "string option"

record registry =
  held :: "(string, lease list) omap"
  refusals :: "(string, refusal) omap"
  reg_seq :: nat
  next_ref :: nat

definition REFUSAL_RETRY_MS :: int where
  "REFUSAL_RETRY_MS = 1000"

definition createLeaseRegistry :: registry where
  "createLeaseRegistry = \<lparr> held = [], refusals = [], reg_seq = 0, next_ref = 0 \<rparr>"

definition leases_on :: "registry \<Rightarrow> string \<Rightarrow> lease list" where
  "leases_on reg connectionId = (case om_get (held reg) connectionId of None \<Rightarrow> [] | Some ls \<Rightarrow> ls)"

definition countOf :: "registry \<Rightarrow> string \<Rightarrow> int" where
  "countOf reg connectionId = int (length (leases_on reg connectionId))"

text \<open>\<open>Number.isInteger(limit) && limit > 0\<close>\<close>

definition gated_limit :: "jv \<Rightarrow> int option" where
  "gated_limit limit = (case limit of Num (Fin r) \<Rightarrow> if of_int \<lfloor>r\<rfloor> = r \<and> 0 < r then Some \<lfloor>r\<rfloor> else None
     | _ \<Rightarrow> None)"

definition issue_lease :: "jv \<Rightarrow> string \<Rightarrow> registry \<Rightarrow> registry \<times> lease" where
  "issue_lease limit cid reg =
     (let lease = \<lparr> l_ref = next_ref reg, l_connectionId = cid, l_seq = reg_seq reg + 1,
            l_ungated = (if gated_limit limit \<noteq> None then None
              else Some (if seq limit (JInt 0) then ''capacity-unregistered'' else ''capacity-malformed'',
                         countOf reg cid + 1)) \<rparr>
      in (reg\<lparr> held := om_set (held reg) cid (leases_on reg cid @ [lease]),
               reg_seq := reg_seq reg + 1, next_ref := next_ref reg + 1 \<rparr>, lease))"

definition reserve :: "(string \<Rightarrow> jv) \<Rightarrow> jv \<Rightarrow> registry \<Rightarrow> registry \<times> lease option" where
  "reserve capacityOf connectionId reg = (case connectionId of
     Str cid \<Rightarrow>
       if cid = [] then (reg, None)
       else let limit = capacityOf cid in
         (case gated_limit limit of
            Some n \<Rightarrow> if n \<le> countOf reg cid
              then (reg\<lparr> refusals := om_set (refusals reg) cid
                      \<lparr> rf_held = countOf reg cid, rf_cap = n, rf_retryAfterMs = REFUSAL_RETRY_MS, rf_scope = None \<rparr> \<rparr>, None)
              else map_prod id Some (issue_lease limit cid reg)
          | None \<Rightarrow> map_prod id Some (issue_lease limit cid reg))
   | _ \<Rightarrow> (reg, None))"

definition lastRefusal :: "registry \<Rightarrow> string \<Rightarrow> refusal option" where
  "lastRefusal reg connectionId = om_get (refusals reg) connectionId"

text \<open>The argument is None when the caller passes no object.\<close>

definition release_lease :: "lease option \<Rightarrow> registry \<Rightarrow> registry \<times> bool" where
  "release_lease arg reg = (case arg of None \<Rightarrow> (reg, False)
     | Some lease \<Rightarrow>
       (case om_get (held reg) (l_connectionId lease) of None \<Rightarrow> (reg, False)
        | Some ls \<Rightarrow>
          let freed = lease \<in> set ls; ls' = remove1 lease ls
          in (if freed \<and> ls' = [] then reg\<lparr> held := om_del (held reg) (l_connectionId lease) \<rparr>
              else reg\<lparr> held := om_set (held reg) (l_connectionId lease) ls' \<rparr>, freed)))"

definition inFlight :: "registry \<Rightarrow> string option \<Rightarrow> int" where
  "inFlight reg connectionId = (case connectionId of
     None \<Rightarrow> sum_list (map (\<lambda>(_, ls). int (length ls)) (held reg))
   | Some cid \<Rightarrow> countOf reg cid)"

definition lease_snapshot :: "registry \<Rightarrow> (string \<times> int) list" where
  "lease_snapshot reg = map (\<lambda>(cid, ls). (cid, int (length ls))) (filter (\<lambda>(_, ls). 0 < length ls) (held reg))"

section \<open>Well-formed registries\<close>

definition entry_ok :: "nat \<Rightarrow> string \<Rightarrow> lease list \<Rightarrow> bool" where
  "entry_ok n cid ls \<longleftrightarrow> ls \<noteq> [] \<and> distinct ls \<and> (\<forall>l \<in> set ls. l_connectionId l = cid \<and> l_ref l < n)"

definition registry_ok :: "registry \<Rightarrow> bool" where
  "registry_ok reg \<longleftrightarrow> distinct (om_keys (held reg))
     \<and> (\<forall>cid ls. om_get (held reg) cid = Some ls \<longrightarrow> entry_ok (next_ref reg) cid ls)"

lemma created_registry_ok [simp]: "registry_ok createLeaseRegistry"
  by (simp add: registry_ok_def createLeaseRegistry_def)

lemma leases_on_ok:
  assumes "registry_ok reg" "l \<in> set (leases_on reg cid)"
  shows "l_connectionId l = cid" "l_ref l < next_ref reg"
  using assms by (cases "om_get (held reg) cid"; auto simp: leases_on_def registry_ok_def entry_ok_def)+

lemma distinct_leases_on: "registry_ok reg \<Longrightarrow> distinct (leases_on reg cid)"
  by (auto simp: leases_on_def registry_ok_def entry_ok_def split: option.split)

lemma new_lease_fresh:
  assumes "registry_ok reg"
  shows "snd (issue_lease limit cid reg) \<notin> set (leases_on reg k)"
  using leases_on_ok(2) [OF assms, of _ k] by (fastforce simp: issue_lease_def Let_def)

lemma entry_ok_mono: "entry_ok n cid ls \<Longrightarrow> n \<le> m \<Longrightarrow> entry_ok m cid ls"
  by (auto simp: entry_ok_def)

lemma issue_ok:
  assumes "registry_ok reg"
  shows "registry_ok (fst (issue_lease limit cid reg))"
proof -
  let ?l = "snd (issue_lease limit cid reg)"
  have "entry_ok (next_ref reg + 1) cid (leases_on reg cid @ [?l])"
    using leases_on_ok [OF assms] distinct_leases_on [OF assms, of cid] new_lease_fresh [OF assms, of limit cid cid]
    by (auto simp: entry_ok_def issue_lease_def Let_def less_Suc_eq)
  then show ?thesis
    using assms entry_ok_mono [of "next_ref reg" _ _ "next_ref reg + 1"]
    by (auto simp: registry_ok_def issue_lease_def Let_def)
qed

lemma reserve_cases:
  obtains (refused) reg' where "reserve capacityOf a reg = (reg', None)" "held reg' = held reg"
      "next_ref reg' = next_ref reg" "reg_seq reg' = reg_seq reg"
  | (admitted) cid where "a = Str cid" "cid \<noteq> []"
      "reserve capacityOf a reg = map_prod id Some (issue_lease (capacityOf cid) cid reg)"
      "\<And>n. gated_limit (capacityOf cid) = Some n \<Longrightarrow> countOf reg cid < n"
proof (cases "\<exists>cid. a = Str cid \<and> cid \<noteq> [] \<and> (\<forall>n. gated_limit (capacityOf cid) = Some n \<longrightarrow> countOf reg cid < n)")
  case True
  then show ?thesis
    by (auto simp: reserve_def Let_def intro!: admitted split: option.splits)
next
  case False
  then have "snd (reserve capacityOf a reg) = None \<and> held (fst (reserve capacityOf a reg)) = held reg
      \<and> next_ref (fst (reserve capacityOf a reg)) = next_ref reg
      \<and> reg_seq (fst (reserve capacityOf a reg)) = reg_seq reg"
    by (cases a) (auto simp: reserve_def Let_def not_less split: option.split)
  then show ?thesis by (intro refused [of "fst (reserve capacityOf a reg)"]) (auto simp: prod_eq_iff)
qed

lemma reserve_ok: "registry_ok reg \<Longrightarrow> registry_ok (fst (reserve capacityOf a reg))"
proof (cases rule: reserve_cases [of capacityOf a reg])
  case (admitted cid)
  assume "registry_ok reg"
  then show ?thesis using admitted by (simp add: issue_ok)
qed (simp add: registry_ok_def)

lemma release_ok:
  assumes "registry_ok reg"
  shows "registry_ok (fst (release_lease arg reg))"
proof (cases arg)
  case (Some lease)
  show ?thesis
  proof (cases "om_get (held reg) (l_connectionId lease)")
    case ls: (Some ls)
    then have "entry_ok (next_ref reg) (l_connectionId lease) ls" using assms by (simp add: registry_ok_def)
    then have "remove1 lease ls \<noteq> [] \<Longrightarrow> entry_ok (next_ref reg) (l_connectionId lease) (remove1 lease ls)"
      by (auto simp: entry_ok_def dest: notin_set_remove1)
    moreover have "lease \<notin> set ls \<Longrightarrow> remove1 lease ls \<noteq> []"
      using \<open>entry_ok _ _ ls\<close> by (simp add: remove1_idem entry_ok_def)
    ultimately show ?thesis
      using assms Some ls by (auto simp: release_lease_def Let_def registry_ok_def)
  qed (use Some assms in \<open>simp add: release_lease_def\<close>)
qed (simp add: release_lease_def assms)

lemma leases_on_issue:
  "leases_on (fst (issue_lease limit cid reg)) k
     = (if k = cid then leases_on reg cid @ [snd (issue_lease limit cid reg)] else leases_on reg k)"
  by (simp add: leases_on_def issue_lease_def Let_def)

lemma leases_on_release:
  assumes "registry_ok reg"
  shows "leases_on (fst (release_lease (Some l) reg)) k = remove1 l (leases_on reg k)"
proof -
  have "l_connectionId l \<noteq> k \<Longrightarrow> l \<notin> set (leases_on reg k)"
    using leases_on_ok(1) [OF assms] by blast
  then show ?thesis
    by (auto simp: leases_on_def release_lease_def Let_def remove1_idem split: option.splits)
qed

lemma freed_iff:
  assumes "registry_ok reg"
  shows "snd (release_lease (Some l) reg) \<longleftrightarrow> (\<exists>k. l \<in> set (leases_on reg k))"
proof -
  have "snd (release_lease (Some l) reg) \<longleftrightarrow> l \<in> set (leases_on reg (l_connectionId l))"
    by (auto simp: leases_on_def release_lease_def Let_def split: option.split)
  then show ?thesis using leases_on_ok(1) [OF assms] by blast
qed

text \<open>The registry keeps the contract of a slot pool, for any capacity function.\<close>

definition lease_key :: "jv \<Rightarrow> string" where
  "lease_key a = (case a of Str cid \<Rightarrow> cid | _ \<Rightarrow> [])"

definition lease_cap :: "(string \<Rightarrow> jv) \<Rightarrow> jv \<Rightarrow> nat option" where
  "lease_cap capacityOf a = map_option nat (gated_limit (capacityOf (lease_key a)))"

lemma card_leases: "registry_ok reg \<Longrightarrow> int (card (set (leases_on reg k))) = countOf reg k"
  by (simp add: countOf_def distinct_card distinct_leases_on)

interpretation accounts: slot_pool "\<lambda>reg k. set (leases_on reg k)" lease_key
    "\<lambda>a reg. lease_cap capacityOf a" "reserve capacityOf" "\<lambda>l. release_lease (Some l)" registry_ok
  for capacityOf
proof unfold_locales
  fix reg a p n k k'
  assume ok: "registry_ok reg"
  then show "registry_ok (fst (reserve capacityOf a reg))" by (rule reserve_ok)
  show "registry_ok (fst (release_lease (Some p) reg))" using ok by (rule release_ok)
  show "finite (set (leases_on reg k))" by simp
  show "p \<in> set (leases_on reg k) \<Longrightarrow> p \<in> set (leases_on reg k') \<Longrightarrow> k' = k"
    using leases_on_ok(1) [OF ok] by metis
  show "snd (reserve capacityOf a reg) = Some p \<Longrightarrow> p \<notin> set (leases_on reg k)"
    using new_lease_fresh [OF ok] by (cases rule: reserve_cases [of capacityOf a reg]) auto
  show "set (leases_on (fst (reserve capacityOf a reg)) k) = (case snd (reserve capacityOf a reg) of
      None \<Rightarrow> set (leases_on reg k)
    | Some p \<Rightarrow> if k = lease_key a then insert p (set (leases_on reg k)) else set (leases_on reg k))"
  proof (cases rule: reserve_cases [of capacityOf a reg])
    case (admitted cid)
    then show ?thesis by (simp add: leases_on_issue lease_key_def)
  qed (simp add: leases_on_def)
  show "snd (reserve capacityOf a reg) = Some p \<Longrightarrow> lease_cap capacityOf a = Some n \<Longrightarrow>
      card (set (leases_on reg (lease_key a))) < n"
    using card_leases [OF ok]
    by (cases rule: reserve_cases [of capacityOf a reg])
      (auto simp: lease_key_def lease_cap_def countOf_def zless_nat_eq_int_zless
        distinct_card distinct_leases_on [OF ok])
  show "snd (release_lease (Some p) reg) \<longleftrightarrow> (\<exists>k. p \<in> set (leases_on reg k))" by (rule freed_iff [OF ok])
  show "set (leases_on (fst (release_lease (Some p) reg)) k) = set (leases_on reg k) - {p}"
    using distinct_leases_on [OF ok] by (simp add: leases_on_release [OF ok])
qed

lemma next_ref_grows:
  "next_ref reg \<le> next_ref (fst (reserve capacityOf a reg))"
  "next_ref (fst (release_lease arg reg)) = next_ref reg"
proof -
  show "next_ref reg \<le> next_ref (fst (reserve capacityOf a reg))"
    by (cases rule: reserve_cases [of capacityOf a reg]) (simp_all add: issue_lease_def Let_def)
  show "next_ref (fst (release_lease arg reg)) = next_ref reg"
    by (auto simp: release_lease_def Let_def split: option.split)
qed

interpretation fresh_accounts: fresh_slot_pool "\<lambda>reg k. set (leases_on reg k)" lease_key
    "\<lambda>a reg. lease_cap capacityOf a" "reserve capacityOf" "\<lambda>l. release_lease (Some l)" registry_ok
    "\<lambda>reg. {l. l_ref l < next_ref reg}"
  for capacityOf
proof unfold_locales
  fix reg :: registry and p q :: lease and a
  assume ok: "registry_ok reg"
  show "p \<in> {l. l_ref l < next_ref reg} \<Longrightarrow> p \<in> {l. l_ref l < next_ref (fst (reserve capacityOf a reg))}"
    using next_ref_grows(1) [of reg capacityOf a] by simp
  show "p \<in> {l. l_ref l < next_ref reg} \<Longrightarrow> p \<in> {l. l_ref l < next_ref (fst (release_lease (Some q) reg))}"
    by (simp add: next_ref_grows)
  show "snd (reserve capacityOf a reg) = Some p \<Longrightarrow> p \<notin> {l. l_ref l < next_ref reg}"
    by (cases rule: reserve_cases [of capacityOf a reg]) (auto simp: issue_lease_def Let_def)
qed

section \<open>Histories of reservations and releases\<close>

text \<open>The registry after a sequence of \<open>reserve\<close> and \<open>release\<close> calls.\<close>

definition lease_run :: "(string \<Rightarrow> jv) \<Rightarrow> (jv, lease) slot_call list \<Rightarrow> registry \<Rightarrow> registry" where
  "lease_run capacityOf = fold (accounts.perform capacityOf)"

lemma lease_run_ok: "registry_ok reg \<Longrightarrow> registry_ok (lease_run capacityOf cs reg)"
  unfolding lease_run_def by (rule accounts.run_ok)

lemma used_count: "registry_ok reg \<Longrightarrow> int (accounts.used reg k) = countOf reg k"
  unfolding accounts.used_def by (rule card_leases)

lemma countOf_created [simp]: "countOf createLeaseRegistry k = 0"
  by (simp add: countOf_def leases_on_def createLeaseRegistry_def)

text \<open>C14: capacity is never over-admitted: whatever requests race for a connection and whatever is
  released in between, the leases open on it never exceed its configured positive limit.\<close>

theorem leases_within_capacity:
  assumes "gated_limit (capacityOf cid) = Some n"
  shows "countOf (lease_run capacityOf calls createLeaseRegistry) cid \<le> n"
proof -
  have n: "0 \<le> n" using assms by (auto simp: gated_limit_def split: jv.splits jsnum.splits if_splits)
  have "accounts.used (lease_run capacityOf calls createLeaseRegistry) cid \<le> nat n"
    unfolding lease_run_def
  proof (rule accounts.used_bound)
    show "accounts.used createLeaseRegistry cid \<le> nat n"
      using used_count [of createLeaseRegistry cid] by simp
  qed (auto simp: lease_cap_def assms)
  then show ?thesis
    using used_count [OF lease_run_ok, of createLeaseRegistry capacityOf calls cid] n by simp
qed

theorem leases_within_capacity_witness:
  "countOf (lease_run (\<lambda>_. JInt 2) [Take (Str ''a''), Take (Str ''a''), Take (Str ''a'')] createLeaseRegistry) ''a'' = 2
   \<and> countOf (lease_run (\<lambda>_. JInt 2) [Take (Str ''a''), Take (Str ''a''), Take (Str ''a'')] createLeaseRegistry) ''a'' \<le> 2"
proof -
  have "gated_limit (JInt 2) = Some 2" by code_simp
  then have "countOf (lease_run (\<lambda>_. JInt 2) [Take (Str ''a''), Take (Str ''a''), Take (Str ''a'')] createLeaseRegistry) ''a'' \<le> 2"
    by (rule leases_within_capacity)
  moreover have "countOf (lease_run (\<lambda>_. JInt 2) [Take (Str ''a''), Take (Str ''a''), Take (Str ''a'')] createLeaseRegistry) ''a'' = 2"
    unfolding lease_run_def by (simp add: reserve_def issue_lease_def gated_limit_def Let_def createLeaseRegistry_def countOf_def leases_on_def)
  ultimately show ?thesis by blast
qed

lemma om_get_map_values: "om_get (map (\<lambda>(k, v). (k, f v)) m) k = map_option f (om_get m k)"
  by (induction m) auto

text \<open>the count is exact: the leases open on a connection are its admissions less its effective
  releases, the total is the sum over the connections, and the snapshot lists exactly the
  connections that hold one (so an empty snapshot means that nothing leaked).\<close>

theorem lease_counts_exact:
  "let reg = lease_run capacityOf calls createLeaseRegistry
   in countOf reg cid = accounts.balance capacityOf cid calls createLeaseRegistry
    \<and> inFlight reg None = sum_list (map snd (lease_snapshot reg))
    \<and> om_get (lease_snapshot reg) cid = (if countOf reg cid = 0 then None else Some (countOf reg cid))"
proof -
  define reg where "reg = lease_run capacityOf calls createLeaseRegistry"
  have ok: "registry_ok reg" unfolding reg_def by (simp add: lease_run_ok)
  have c: "countOf reg cid = accounts.balance capacityOf cid calls createLeaseRegistry"
    using accounts.used_balance [of createLeaseRegistry capacityOf calls cid] used_count [OF ok, of cid]
      used_count [of createLeaseRegistry cid]
    by (simp add: reg_def lease_run_def)
  have "\<forall>p \<in> set (held reg). snd p \<noteq> []"
    using ok om_get_eq_Some_iff [of "held reg"] by (force simp: registry_ok_def entry_ok_def)
  then have f: "filter (\<lambda>(_, ls). 0 < length ls) (held reg) = held reg"
    by (auto simp: filter_id_conv)
  have t: "inFlight reg None = sum_list (map snd (lease_snapshot reg))"
    unfolding inFlight_def lease_snapshot_def f by (simp add: comp_def case_prod_unfold)
  have "om_get (lease_snapshot reg) cid = (if countOf reg cid = 0 then None else Some (countOf reg cid))"
    using ok unfolding lease_snapshot_def f om_get_map_values
    by (auto simp: countOf_def leases_on_def registry_ok_def entry_ok_def split: option.split)
  with c t show ?thesis by (simp add: reg_def Let_def)
qed

text \<open>C33: a release is effective once: after a lease has been released, no later history makes a second
  release of it free a slot, so an abort handler and a finally block cannot free another
  request's slot.\<close>

theorem lease_released_once:
  assumes "reg = lease_run capacityOf calls createLeaseRegistry"
    and "snd (reserve capacityOf a reg) = Some lease"
    and "reg' = lease_run capacityOf later (fst (release_lease (Some lease) (lease_run capacityOf between (fst (reserve capacityOf a reg)))))"
  shows "\<not> snd (release_lease (Some lease) reg') \<and> leases_on (fst (release_lease (Some lease) reg')) k = leases_on reg' k"
proof -
  let ?r = "lease_run capacityOf between (fst (reserve capacityOf a reg))"
  have ok: "registry_ok ?r" using assms(1) by (simp add: lease_run_ok reserve_ok)
  have "l_ref lease < next_ref (fst (reserve capacityOf a reg))"
    using assms(2) by (cases rule: reserve_cases [of capacityOf a reg]) (auto simp: issue_lease_def Let_def)
  moreover have "next_ref r \<le> next_ref (lease_run capacityOf cs r)" for r cs
  proof (induction cs arbitrary: r)
    case (Cons c cs)
    have "next_ref r \<le> next_ref (accounts.perform capacityOf c r)"
      by (cases c) (simp_all add: next_ref_grows)
    also have "\<dots> \<le> next_ref (lease_run capacityOf cs (accounts.perform capacityOf c r))" by (rule Cons.IH)
    finally show ?case by (simp add: lease_run_def)
  qed (simp add: lease_run_def)
  ultimately have i: "lease \<in> {l. l_ref l < next_ref ?r}" by (simp add: less_le_trans)
  have n: "\<not> snd (release_lease (Some lease) reg')"
    using fresh_accounts.give_once [OF ok i] assms(3) by (simp add: lease_run_def)
  have "registry_ok reg'" using ok assms(3) by (simp add: lease_run_ok release_ok)
  with n show ?thesis by (auto simp: freed_iff leases_on_release remove1_idem)
qed

theorem lease_released_once_witness:
  "let reg = fst (reserve (\<lambda>_. JInt 1) (Str ''a'') createLeaseRegistry);
       lease = \<lparr> l_ref = 0, l_connectionId = ''a'', l_seq = 1, l_ungated = None \<rparr>;
       reg' = lease_run (\<lambda>_. JInt 1) [Take (Str ''a'')] (fst (release_lease (Some lease) reg))
   in countOf reg' ''a'' = 1 \<and> \<not> snd (release_lease (Some lease) reg')"
proof -
  let ?lease = "\<lparr> l_ref = 0, l_connectionId = ''a'', l_seq = 1, l_ungated = None \<rparr>"
  let ?reg = "fst (reserve (\<lambda>_. JInt 1) (Str ''a'') createLeaseRegistry)"
  let ?reg' = "lease_run (\<lambda>_. JInt 1) [Take (Str ''a'')] (fst (release_lease (Some ?lease) ?reg))"
  note eval = reserve_def issue_lease_def gated_limit_def Let_def createLeaseRegistry_def countOf_def
    leases_on_def lease_run_def release_lease_def om_del_def
  have l: "snd (reserve (\<lambda>_. JInt 1) (Str ''a'') createLeaseRegistry) = Some ?lease" by (simp add: eval)
  have "countOf ?reg' ''a'' = 1" by (simp add: eval)
  moreover have "\<not> snd (release_lease (Some ?lease) ?reg')"
    using lease_released_once [of createLeaseRegistry "\<lambda>_. JInt 1" "[]", OF _ l, of ?reg' "[Take (Str ''a'')]" "[]"]
    by (simp add: lease_run_def)
  ultimately show ?thesis by (simp add: Let_def)
qed

end
