(* ===== verification/ProviderPermits.thy ===== *)
theory ProviderPermits
  imports AdmissionInvariant Slots
begin

text \<open>
  The provider permits of the admission gate (\<open>reserveProvider\<close>, \<open>providerThrottle\<close> and the release
  closure of src/sse/services/resourceAdmission.js): the active count is the number of permits out,
  a throttled provider keeps at least one slot, and the pool keeps the contract of a slot pool.
\<close>

definition on_key :: "string \<Rightarrow> (nat \<times> string) list \<Rightarrow> nat list" where
  "on_key k ps = map fst (filter (\<lambda>p. snd p = k) ps)"

definition provider_ok :: "string \<Rightarrow> adm \<Rightarrow> provider_state \<Rightarrow> bool" where
  "provider_ok k st s \<longleftrightarrow> pv_active s = int (length (on_key k (providerPermits st))) \<and> 1 \<le> pv_limit s
     \<and> (\<forall>e. pv_effective s = Some e \<longrightarrow> 1 \<le> e)"

definition providers_inv :: "adm \<Rightarrow> bool" where
  "providers_inv st \<longleftrightarrow> policy_wf (policy st) \<and> distinct (om_keys (providers st))
     \<and> distinct (om_keys (providerPermits st))
     \<and> (\<forall>i k. om_get (providerPermits st) i = Some k \<longrightarrow> i < nextPermit st \<and> om_get (providers st) k \<noteq> None)
     \<and> (\<forall>k s. om_get (providers st) k = Some s \<longrightarrow> provider_ok k st s)"

lemma on_key_set: "i \<in> set (on_key k ps) \<longleftrightarrow> (i, k) \<in> set ps"
  by (force simp: on_key_def)

lemma on_key_del:
  assumes "distinct (om_keys ps)"
  shows "int (length (on_key k (om_del ps i))) = int (length (on_key k ps)) - of_bool (om_get ps i = Some k)"
  using assms
proof (induction ps)
  case (Cons p ps)
  have "fst p = i \<Longrightarrow> om_get ps i = None \<and> om_del ps i = ps"
    using Cons.prems by (auto simp: om_get_None_iff om_del_absent)
  with Cons show ?case by (cases p) (auto simp: on_key_def om_del_def)
qed (simp add: on_key_def)

lemma provider_limit_pos: "policy_wf p \<Longrightarrow> 1 \<le> provider_limit p configured"
  by (auto simp: provider_limit_def policy_wf_def split: jv.splits jsnum.splits)

text \<open>The cap a reservation is checked against.\<close>

lemma refreshed_provider_props:
  assumes "policy_wf p" "\<forall>e. pv_effective s = Some e \<longrightarrow> 1 \<le> e"
  obtains e where "pv_effective (refreshed_provider now p configured s) = Some e" "1 \<le> e"
    "e \<le> provider_limit p configured" "pv_active (refreshed_provider now p configured s) = pv_active s"
    "pv_limit (refreshed_provider now p configured s) = provider_limit p configured"
proof -
  let ?l = "provider_limit p configured"
  let ?e = "min (case pv_effective s of None \<Rightarrow> ?l | Some e \<Rightarrow> e) ?l"
  have e: "1 \<le> ?e" "?e \<le> ?l"
    using provider_limit_pos [OF assms(1), of configured] assms(2) by (auto split: option.split)
  show ?thesis
  proof (cases "pv_throttledUntil s \<le> now \<and> ?e < ?l")
    case True
    with e show ?thesis by (intro that [of "?e + 1"]) (simp_all add: refreshed_provider_def Let_def)
  next
    case False
    with e show ?thesis by (intro that [of ?e]) (auto simp: refreshed_provider_def Let_def)
  qed
qed

lemma permit_provider:
  assumes "providers_inv st" "om_get (providerPermits st) i = Some k"
  shows "i < nextPermit st" "\<exists>s. om_get (providers st) k = Some s \<and> provider_ok k st s"
proof -
  have "i < nextPermit st \<and> om_get (providers st) k \<noteq> None"
    using assms unfolding providers_inv_def by blast
  then show "i < nextPermit st" "\<exists>s. om_get (providers st) k = Some s \<and> provider_ok k st s"
    using assms(1) unfolding providers_inv_def by auto
qed

lemma sweep_get:
  assumes "distinct (om_keys (providers st))"
  shows "om_get (providers (sweep_providers now st)) k = (case om_get (providers st) k of None \<Rightarrow> None
     | Some s \<Rightarrow> if pv_active s = 0 \<and> 300000 < now - pv_lastSeen s then None else Some s)"
  using om_get_filter [OF assms] by (simp add: sweep_providers_def split: option.split)

lemma sweep_inv:
  assumes "providers_inv st"
  shows "providers_inv (sweep_providers now st)"
proof -
  have d: "distinct (om_keys (providers st))" "distinct (om_keys (providerPermits st))"
    using assms by (simp_all add: providers_inv_def)
  have k: "om_get (providers (sweep_providers now st)) k \<noteq> None" if i: "om_get (providerPermits st) i = Some k" for i k
  proof -
    obtain s where s: "om_get (providers st) k = Some s" "provider_ok k st s"
      using permit_provider(2) [OF assms i] by blast
    have "i \<in> set (on_key k (providerPermits st))" using om_get_Some_set [OF i] by (simp add: on_key_set)
    then have "pv_active s \<noteq> 0" using s(2) by (auto simp: provider_ok_def)
    then show ?thesis using s(1) by (simp add: sweep_get [OF d(1)])
  qed
  have "distinct (om_keys (providers (sweep_providers now st)))"
    using d(1) by (auto simp: sweep_providers_def)
  moreover have "provider_ok k (sweep_providers now st) s" if "om_get (providers (sweep_providers now st)) k = Some s" for k s
  proof -
    have "om_get (providers st) k = Some s"
      using that by (auto simp: sweep_get [OF d(1)] split: option.splits if_splits)
    then show ?thesis using assms by (auto simp: providers_inv_def provider_ok_def sweep_providers_def)
  qed
  moreover have "policy_wf (policy st)" "\<And>i k. om_get (providerPermits st) i = Some k \<Longrightarrow> i < nextPermit st"
    using assms by (auto simp: providers_inv_def)
  ultimately show ?thesis
    using k d(2) unfolding providers_inv_def by (simp add: sweep_providers_def)
qed

text \<open>What a reservation does, in one case split.\<close>

lemma reserveProvider_cases:
  assumes "providers_inv st"
  obtains (full) st1 where "reserveProvider now provider configured st = (st1, None)"
      "providerPermits st1 = providerPermits st" "nextPermit st1 = nextPermit st" "providers_inv st1"
      "policy st1 = policy st" "0 < length (on_key (provider_key provider) (providerPermits st))"
  | (admitted) st1 where "reserveProvider now provider configured st = (st1, Some (nextPermit st))"
      "providerPermits st1 = providerPermits st @ [(nextPermit st, provider_key provider)]"
      "nextPermit st1 = nextPermit st + 1" "providers_inv st1" "policy st1 = policy st"
      "int (length (on_key (provider_key provider) (providerPermits st))) < provider_limit (policy st) configured"
proof -
  define st0 where "st0 = sweep_providers now st"
  define key where "key = provider_key provider"
  define s0 where "s0 = (case om_get (providers st0) key of Some s \<Rightarrow> s
     | None \<Rightarrow> \<lparr> pv_active = 0, pv_throttledUntil = 0, pv_effective = None,
                pv_limit = providerStreams (policy st0), pv_reason = ''operator-provider-limit'', pv_lastSeen = now \<rparr>)"
  have inv0: "providers_inv st0" unfolding st0_def by (rule sweep_inv [OF assms])
  have same: "providerPermits st0 = providerPermits st" "nextPermit st0 = nextPermit st" "policy st0 = policy st"
    by (simp_all add: st0_def sweep_providers_def)
  have wf: "policy_wf (policy st)" using assms by (simp add: providers_inv_def)
  have s0: "pv_active s0 = int (length (on_key key (providerPermits st)))" "\<forall>e. pv_effective s0 = Some e \<longrightarrow> 1 \<le> e"
  proof -
    have "on_key key (providerPermits st) = []" if "om_get (providers st0) key = None"
    proof -
      have "om_get (providerPermits st0) i \<noteq> Some key" for i
        using permit_provider(2) [OF inv0] that by force
      then have "i \<notin> set (on_key key (providerPermits st))" for i
        using inv0 om_get_eq_Some_iff [of "providerPermits st0" i key] same by (auto simp: on_key_set providers_inv_def)
      then show ?thesis by (metis ex_in_conv set_empty)
    qed
    then show "pv_active s0 = int (length (on_key key (providerPermits st)))" "\<forall>e. pv_effective s0 = Some e \<longrightarrow> 1 \<le> e"
      using inv0 same by (auto simp: s0_def providers_inv_def provider_ok_def split: option.split)
  qed
  obtain e where e: "pv_effective (refreshed_provider now (policy st) configured s0) = Some e" "1 \<le> e"
    "e \<le> provider_limit (policy st) configured"
    "pv_active (refreshed_provider now (policy st) configured s0) = pv_active s0"
    "pv_limit (refreshed_provider now (policy st) configured s0) = provider_limit (policy st) configured"
    using refreshed_provider_props [OF wf s0(2)] by metis
  define s where "s = refreshed_provider now (policy st) configured s0"
  note e = e [folded s_def]
  define st1 where "st1 = st0\<lparr> providers := om_set (providers st0) key s \<rparr>"
  define st2 where "st2 = st1\<lparr> providers := om_set (providers st1) key (s\<lparr> pv_active := pv_active s + 1 \<rparr>),
      providerPermits := providerPermits st1 @ [(nextPermit st1, key)], nextPermit := nextPermit st1 + 1 \<rparr>"
  have r: "reserveProvider now provider configured st
      = (if e \<le> pv_active s then (st1, None) else (st2, Some (nextPermit st)))"
    using e(1) by (simp add: reserveProvider_def Let_def st0_def [symmetric] key_def [symmetric]
        s0_def [symmetric] s_def same st1_def st2_def)
  have lim: "1 \<le> provider_limit (policy st) configured" by (rule provider_limit_pos [OF wf])
  have d: "distinct (om_keys (providers st0))" "distinct (om_keys (providerPermits st0))"
    using inv0 by (simp_all add: providers_inv_def)
  have inv1: "providers_inv st1"
    using inv0 e s0(1) lim d same
    by (auto simp: providers_inv_def st1_def provider_ok_def intro: distinct_om_set)
  show ?thesis
  proof (cases "e \<le> pv_active s")
    case True
    then have "0 < length (on_key (provider_key provider) (providerPermits st))"
      using e(2,4) s0(1) by (cases "on_key (provider_key provider) (providerPermits st)") (auto simp: key_def)
    then show ?thesis using True r inv1 by (intro full [of st1]) (simp_all add: st1_def same)
  next
    case False
    have new: "om_get (providerPermits st0) (nextPermit st0) = None"
      using inv0 by (auto simp: providers_inv_def) (metis not_None_eq less_irrefl)
    have app: "om_get (ps @ [(n, k)]) i = (case om_get ps i of None \<Rightarrow> if i = n then Some k else None | Some v \<Rightarrow> Some v)"
      for ps :: "(nat \<times> string) list" and n k i
      by (induction ps) auto
    have inv2: "providers_inv st2"
      unfolding providers_inv_def
    proof (intro conjI allI impI)
      show "policy_wf (policy st2)" using wf same by (simp add: st2_def st1_def)
      show "distinct (om_keys (providers st2))" using d by (auto simp: st2_def st1_def)
      show "distinct (om_keys (providerPermits st2))"
        using d new by (simp add: st2_def st1_def om_get_None_iff)
      fix i k assume "om_get (providerPermits st2) i = Some k"
      then have ik: "om_get (providerPermits st0) i = Some k \<or> i = nextPermit st0 \<and> k = key"
        by (auto simp: st2_def st1_def app split: option.splits if_splits)
      then show "i < nextPermit st2" "om_get (providers st2) k \<noteq> None"
        using inv0 by (auto simp: st2_def st1_def providers_inv_def less_Suc_eq)
    next
      fix k s' assume "om_get (providers st2) k = Some s'"
      then have "k = key \<and> s' = s\<lparr> pv_active := pv_active s + 1 \<rparr> \<or> k \<noteq> key \<and> om_get (providers st0) k = Some s'"
        by (auto simp: st2_def st1_def split: if_splits)
      then show "provider_ok k st2 s'"
        using inv0 e s0(1) lim same
        by (auto simp: provider_ok_def providers_inv_def st2_def st1_def on_key_def)
    qed
    have "int (length (on_key (provider_key provider) (providerPermits st))) < provider_limit (policy st) configured"
      using False e s0(1) by (simp add: key_def)
    then show ?thesis
      using False r inv2 by (intro admitted [of st2]) (simp_all add: st2_def st1_def same key_def)
  qed
qed

lemma release_provider_inv:
  assumes "providers_inv st"
  shows "providers_inv (fst (release_provider i st))"
proof (cases "om_get (providerPermits st) i")
  case (Some key)
  have d: "distinct (om_keys (providerPermits st))" using assms by (simp add: providers_inv_def)
  let ?st = "fst (release_provider i st)"
  have p: "providerPermits ?st = om_del (providerPermits st) i"
    "providers ?st = om_adjust (providers st) key (\<lambda>s. s\<lparr> pv_active := pv_active s - 1 \<rparr>)"
    "policy ?st = policy st" "nextPermit ?st = nextPermit st"
    using Some by (simp_all add: release_provider_def)
  have "provider_ok k ?st s" if ps: "om_get (providers ?st) k = Some s" for k s
  proof (cases "k = key")
    case True
    then obtain s' where s': "om_get (providers st) key = Some s'" "s = s'\<lparr> pv_active := pv_active s' - 1 \<rparr>"
      using ps by (auto simp: p)
    then have "provider_ok key st s'" using assms by (simp add: providers_inv_def)
    then show ?thesis using s'(2) True Some by (simp add: provider_ok_def p on_key_del [OF d])
  next
    case False
    then have "provider_ok k st s" using ps assms by (simp add: p providers_inv_def)
    then show ?thesis using False Some by (simp add: provider_ok_def p on_key_del [OF d])
  qed
  moreover have "om_get (providers ?st) k \<noteq> None" if "om_get (providerPermits ?st) j = Some k" for j k
  proof -
    have "om_get (providerPermits st) j = Some k" using that by (simp add: p split: if_splits)
    then show ?thesis using permit_provider(2) [OF assms] by (force simp: p)
  qed
  moreover have "j < nextPermit ?st" if "om_get (providerPermits ?st) j = Some k" for j k
    using that permit_provider(1) [OF assms, of j k] by (simp add: p split: if_splits)
  moreover have "policy_wf (policy ?st)" "distinct (om_keys (providers ?st))"
    using assms by (auto simp: providers_inv_def p)
  moreover have "distinct (om_keys (providerPermits ?st))" using d by (simp add: p distinct_om_del)
  ultimately show ?thesis unfolding providers_inv_def by blast
qed (simp add: release_provider_def assms)

lemma release_provider_permits:
  "providerPermits (fst (release_provider i st)) = om_del (providerPermits st) i"
  "snd (release_provider i st) \<longleftrightarrow> om_get (providerPermits st) i \<noteq> None"
  by (auto simp: release_provider_def om_del_absent split: option.split)

definition permits_on :: "adm \<Rightarrow> string \<Rightarrow> nat set" where
  "permits_on st k = {i. (i, k) \<in> set (providerPermits st)}"

lemma permits_on_eq: "permits_on st k = set (on_key k (providerPermits st))"
  by (auto simp: permits_on_def on_key_set)

lemma card_permits_on:
  assumes "providers_inv st"
  shows "card (permits_on st k) = length (on_key k (providerPermits st))"
proof -
  have "distinct (on_key k (providerPermits st))"
    using assms by (simp add: providers_inv_def on_key_def distinct_map_filter)
  then show ?thesis unfolding permits_on_eq by (rule distinct_card)
qed

type_synonym provider_request = "int \<times> string option \<times> jv"

definition reserve_call :: "provider_request \<Rightarrow> adm \<Rightarrow> adm \<times> nat option" where
  "reserve_call a st = (case a of (now, provider, configured) \<Rightarrow> reserveProvider now provider configured st)"

interpretation provider_pool: fresh_slot_pool permits_on "\<lambda>(now, provider, configured). provider_key provider"
    "\<lambda>(now, provider, configured) st. Some (nat (provider_limit (policy st) configured))"
    reserve_call release_provider providers_inv "\<lambda>st. {i. i < nextPermit st}"
proof unfold_locales
  fix st k k' n p q and a :: provider_request
  assume ok: "providers_inv st"
  obtain now provider configured where a: "a = (now, provider, configured)" by (cases a) auto
  note cases = reserveProvider_cases [OF ok, of now provider configured]
  show "providers_inv (fst (reserve_call a st))" by (rule cases) (simp_all add: reserve_call_def a)
  show "providers_inv (fst (release_provider p st))" by (rule release_provider_inv [OF ok])
  show "finite (permits_on st k)" by (simp add: permits_on_eq)
  have d: "distinct (om_keys (providerPermits st))" using ok by (simp add: providers_inv_def)
  show "p \<in> permits_on st k \<Longrightarrow> p \<in> permits_on st k' \<Longrightarrow> k' = k"
    using d by (auto simp: permits_on_def om_get_eq_Some_iff [symmetric])
  have fresh: "p \<in> permits_on st k \<Longrightarrow> p < nextPermit st" for p k
    using ok d om_get_eq_Some_iff [OF d] by (auto simp: permits_on_def providers_inv_def)
  show "snd (reserve_call a st) = Some p \<Longrightarrow> p \<notin> permits_on st k"
    by (rule cases) (auto simp: reserve_call_def a dest: fresh)
  show "permits_on (fst (reserve_call a st)) k = (case snd (reserve_call a st) of None \<Rightarrow> permits_on st k
     | Some p \<Rightarrow> if k = (case a of (now, provider, configured) \<Rightarrow> provider_key provider)
         then insert p (permits_on st k) else permits_on st k)"
    by (rule cases) (auto simp: reserve_call_def a permits_on_def)
  show "snd (reserve_call a st) = Some p \<Longrightarrow>
      (case a of (now, provider, configured) \<Rightarrow> \<lambda>st. Some (nat (provider_limit (policy st) configured))) st = Some n \<Longrightarrow>
      card (permits_on st (case a of (now, provider, configured) \<Rightarrow> provider_key provider)) < n"
    by (rule cases) (auto simp: reserve_call_def a card_permits_on [OF ok])
  show "snd (release_provider p st) \<longleftrightarrow> (\<exists>k. p \<in> permits_on st k)"
    using om_get_eq_Some_iff [OF d] by (auto simp: release_provider_permits permits_on_def)
  show "permits_on (fst (release_provider p st)) k = permits_on st k - {p}"
    by (auto simp: release_provider_permits permits_on_def om_del_def)
  show "p \<in> {i. i < nextPermit st} \<Longrightarrow> p \<in> {i. i < nextPermit (fst (reserve_call a st))}"
    by (rule cases) (auto simp: reserve_call_def a)
  show "p \<in> {i. i < nextPermit st} \<Longrightarrow> p \<in> {i. i < nextPermit (fst (release_provider q st))}"
    by (simp add: release_provider_def split: option.split)
  show "snd (reserve_call a st) = Some p \<Longrightarrow> p \<notin> {i. i < nextPermit st}"
    by (rule cases) (auto simp: reserve_call_def a)
qed

section \<open>Every call of the gate keeps the provider books\<close>

definition same_providers :: "adm \<Rightarrow> adm \<Rightarrow> bool" where
  "same_providers st st' \<longleftrightarrow> providers st' = providers st \<and> providerPermits st' = providerPermits st
     \<and> nextPermit st' = nextPermit st \<and> (policy_wf (policy st) \<longrightarrow> policy_wf (policy st'))"

lemma same_providers_inv: "same_providers st st' \<Longrightarrow> providers_inv st \<Longrightarrow> providers_inv st'"
  by (auto simp: same_providers_def providers_inv_def provider_ok_def)

lemma same_providers_refl [simp]: "same_providers st st"
  by (simp add: same_providers_def)

lemma same_providers_trans: "same_providers a b \<Longrightarrow> same_providers b c \<Longrightarrow> same_providers a c"
  by (simp add: same_providers_def)

lemma same_providers_writes [simp]:
  "same_providers st (clean k s) = same_providers st s" "same_providers st (upd_client k f s) = same_providers st s"
  "same_providers st (stateFor k s) = same_providers st s" "same_providers st (resolve i r s) = same_providers st s"
  "same_providers st (grant w s) = same_providers st s" "same_providers st (leave_queue w s) = same_providers st s"
  "same_providers st (count_refusal why s) = same_providers st s"
  by (simp_all add: same_providers_def grant_def resolve_def leave_queue_def count_refusal_def
      upd_client_def stateFor_def clean_def)

lemma same_providers_fields [simp]:
  "same_providers st (permits_update f s) = same_providers st s"
  "same_providers st (handlers_update g s) = same_providers st s"
  "same_providers st (streams_update g s) = same_providers st s"
  "same_providers st (n_released_update g s) = same_providers st s"
  "same_providers st (n_refused_update g s) = same_providers st s"
  "same_providers st (nextId_update h s) = same_providers st s"
  "same_providers st (queue_update q s) = same_providers st s"
  "same_providers st (abortedSignals_update a s) = same_providers st s"
  "same_providers st (effective_update g s) = same_providers st s"
  "same_providers st (samples_update g s) = same_providers st s"
  "same_providers st (smoothed_update sm s) = same_providers st s"
  "same_providers st (healthy_update g s) = same_providers st s"
  "same_providers st (lastChange_update lc s) = same_providers st s"
  "same_providers st (decision_update d s) = same_providers st s"
  "same_providers st (lastSample_update ls s) = same_providers st s"
  by (simp_all add: same_providers_def)

lemma same_providers_drain: "same_providers st s \<Longrightarrow> same_providers st (drain now s)"
  by (induction rule: drain_induct) (auto simp: drain_one_def settle_refused_def settle_granted_def)

lemma same_providers_waiter_event: "same_providers st s \<Longrightarrow> same_providers st (waiter_event now why i s)"
  by (auto simp: waiter_event_def settle_refused_def intro!: same_providers_drain split: option.split)

lemma same_providers_waiter_events: "same_providers st s \<Longrightarrow> same_providers st (waiter_events now why is s)"
  by (induction "is" arbitrary: s) (auto intro: same_providers_waiter_event)

lemma same_providers_releaseHandler: "same_providers st s \<Longrightarrow> same_providers st (fst (releaseHandler now i s))"
  by (auto simp: releaseHandler_def intro!: same_providers_drain split: option.split)

lemma same_providers_release: "same_providers st (fst (release now i st))"
  by (auto simp: release_def Let_def intro!: same_providers_drain same_providers_releaseHandler split: option.split)

lemma same_providers_acquire: "same_providers st (acquire now client sig deadline st)"
  by (simp add: acquire_def Let_def same_providers_drain)

lemma same_providers_observe: "same_providers st (observe now sample st)"
  by (simp add: observe_def adapt_def Let_def same_providers_drain)

lemma same_providers_policy:
  "policy_wf p \<Longrightarrow> same_providers st s \<Longrightarrow> same_providers st (s\<lparr> policy := p \<rparr>)"
  by (simp add: same_providers_def)

lemma same_providers_configure: "same_providers st (configure now input st)"
  by (auto simp: configure_def accepted_policy_wf intro!: same_providers_drain same_providers_policy
      split: sum.split)

lemma providers_inv_throttle:
  assumes "providers_inv st"
  shows "providers_inv (providerThrottle now provider st)"
proof -
  have inv: "providers_inv (sweep_providers now st)" by (rule sweep_inv [OF assms])
  show ?thesis
  proof (cases "om_get (providers (sweep_providers now st)) provider")
    case (Some s)
    let ?st' = "providerThrottle now provider st"
    have e: "?st' = (sweep_providers now st)\<lparr> providers := om_set (providers (sweep_providers now st)) provider
        (throttled_provider now (policy (sweep_providers now st)) s) \<rparr>"
      using Some by (simp add: providerThrottle_def Let_def)
    have ok: "provider_ok k (sweep_providers now st) s' \<Longrightarrow> provider_ok k ?st' s'" for k s'
      by (simp add: provider_ok_def e)
    have t: "provider_ok k u s' \<Longrightarrow> provider_ok k u (throttled_provider now p s')" for k u s' p
      by (simp add: provider_ok_def throttled_provider_def)
    have "provider_ok k ?st' s'" if "om_get (providers ?st') k = Some s'" for k s'
      using that inv Some by (auto simp: e providers_inv_def split: if_splits intro!: ok [unfolded e] t)
    moreover have "om_get (providers ?st') k \<noteq> None" if "om_get (providers (sweep_providers now st)) k \<noteq> None" for k
      using that by (simp add: e)
    moreover have "distinct (om_keys (providers ?st'))"
      using inv by (auto simp: e providers_inv_def)
    ultimately show ?thesis
      using inv unfolding providers_inv_def by (simp add: e)
  qed (simp add: providerThrottle_def Let_def inv)
qed

lemma providers_inv_step: "providers_inv st \<Longrightarrow> providers_inv (adm_step st e)"
proof (induction st e rule: adm_step.induct)
  case (1 st now client sig deadline)
  then show ?case using same_providers_inv [OF same_providers_acquire] by simp
next
  case (2 st now i)
  then show ?case using same_providers_inv [OF same_providers_releaseHandler [OF same_providers_refl]] by simp
next
  case (3 st now i)
  then show ?case using same_providers_inv [OF same_providers_release] by simp
next
  case (4 st now sig)
  have "same_providers st (abort_signal now sig st)"
    by (simp add: abort_signal_def same_providers_waiter_events)
  then show ?case using same_providers_inv 4 by simp
next
  case (5 st now i)
  then show ?case using same_providers_inv [OF same_providers_waiter_event [OF same_providers_refl]] by simp
next
  case (6 st now sample)
  then show ?case using same_providers_inv [OF same_providers_observe] by simp
next
  case (7 st now input)
  then show ?case using same_providers_inv [OF same_providers_configure] by simp
next
  case (8 st now p limit)
  then show ?case using provider_pool.take_ok [of st "(now, p, limit)"] by (simp add: reserve_call_def)
next
  case (9 st now i)
  then show ?case by (simp add: release_provider_inv)
next
  case (10 st now p)
  then show ?case by (simp add: providers_inv_throttle)
next
  case (11 st now c snap paused)
  have "same_providers st (recordQuota now c snap paused st)"
    by (simp add: recordQuota_def same_providers_def split: option.split)
  then show ?case using same_providers_inv 11 by simp
qed

interpretation provider_books: machine adm_step providers_inv
  by unfold_locales (rule providers_inv_step)

lemma created_providers_inv: "createResourceAdmission initial = Inr st \<Longrightarrow> providers_inv st"
  by (auto simp: createResourceAdmission_def providers_inv_def dest: accepted_policy_wf split: sum.splits)

text \<open>after any history of the gate, the active count it keeps for a provider is the number of
  permits out on it; an admission keeps that number within the configured limit and the operator's
  provider limit; and however hard a provider has been throttled, an idle one always lets a
  request in.\<close>

theorem provider_permits_bounded:
  assumes "createResourceAdmission initial = Inr st0" and "st = foldl adm_step st0 es"
    and "reserveProvider now provider configured st = (st', permit)"
  shows "(\<forall>k s. om_get (providers st) k = Some s \<longrightarrow> pv_active s = int (card (permits_on st k)))
    \<and> (permit \<noteq> None \<longrightarrow> int (card (permits_on st' (provider_key provider))) \<le> provider_limit (policy st) configured)
    \<and> (permits_on st (provider_key provider) = {} \<longrightarrow> permit \<noteq> None)"
proof -
  have ok: "providers_inv st"
    using provider_books.run_inv [OF created_providers_inv [OF assms(1)], of es] assms(2) by simp
  have "pv_active s = int (card (permits_on st k))" if "om_get (providers st) k = Some s" for k s
    using ok that card_permits_on [OF ok, of k] by (simp add: providers_inv_def provider_ok_def)
  moreover have "int (card (permits_on st' (provider_key provider))) \<le> provider_limit (policy st) configured" if some: "permit \<noteq> None"
  proof -
    have "1 \<le> provider_limit (policy st) configured"
      using ok by (simp add: providers_inv_def provider_limit_pos)
    moreover obtain i where "permit = Some i" using some by blast
    ultimately show ?thesis
      using provider_pool.take_within_limit [OF ok, of "(now, provider, configured)" i
          "nat (provider_limit (policy st) configured)"] assms(3)
      by (simp add: provider_pool.used_def reserve_call_def)
  qed
  moreover have "permit \<noteq> None" if "permits_on st (provider_key provider) = {}"
    by (rule reserveProvider_cases [OF ok, of now provider configured])
      (use that assms(3) in \<open>auto simp: permits_on_eq\<close>)
  ultimately show ?thesis by blast
qed

theorem provider_permits_bounded_witness:
  "let st = foldl adm_step (projr (createResourceAdmission Undef))
         [(0, ReserveProvider (Some ''kiro'') (JInt 2)), (1, ReserveProvider (Some ''kiro'') (JInt 2)),
          (2, ProviderThrottle ''kiro''), (3, ReleaseProvider 0), (4, ReleaseProvider 1)]
   in snd (reserveProvider 5 (Some ''kiro'') (JInt 2) st) \<noteq> None"
proof -
  let ?es = "[(0, ReserveProvider (Some ''kiro'') (JInt 2)), (1, ReserveProvider (Some ''kiro'') (JInt 2)),
          (2, ProviderThrottle ''kiro''), (3, ReleaseProvider 0), (4, ReleaseProvider 1)]"
  have c: "createResourceAdmission Undef = Inr (projr (createResourceAdmission Undef))"
    by (simp add: createResourceAdmission_def default_policy_valid)
  have "providerPermits (foldl adm_step (projr (createResourceAdmission Undef)) ?es) = []" by code_simp
  then show ?thesis
    using provider_permits_bounded [OF c refl, where es = ?es and now = 5 and provider = "Some ''kiro''"
        and configured = "JInt 2"]
    by (simp add: permits_on_def prod_eq_iff Let_def)
qed

end
