(* ===== verification/LeaseRegistry.thy ===== *)
theory LeaseRegistry
  imports Leases ProviderPermits
begin

text \<open>
  The process-wide lease registry of src/sse/services/accountLeaseRegistry.js: the account leases
  of Leases composed with the provider permits of the admission gate. A lease object is an account
  lease or a provider-only lease; \<open>permitOf\<close> is the WeakMap from leases to their provider permits.
\<close>

datatype lease_object = AccountLease lease | ProviderLease nat string

record lease_module =
  gate :: adm
  accounts :: registry
  capacityByConnection :: "(string, jv) omap"
  providerByConnection :: "(string, string \<times> jv) omap"
  permitOf :: "(lease_object, nat) omap"
  providerRefusals :: "(string, refusal) omap"
  providerOnlyLeases :: "lease_object list"
  next_only :: nat

definition registry_capacityOf :: "lease_module \<Rightarrow> string \<Rightarrow> jv" where
  "registry_capacityOf m connectionId = (case om_get (capacityByConnection m) connectionId of
     None \<Rightarrow> JInt 0 | Some v \<Rightarrow> coalesce v (JInt 0))"

definition registerAccountCapacity :: "string \<Rightarrow> jv \<Rightarrow> string option \<Rightarrow> jv \<Rightarrow> lease_module \<Rightarrow> lease_module" where
  "registerAccountCapacity connectionId limit provider providerLimit m =
     (let m1 = (case provider of None \<Rightarrow> m | Some p \<Rightarrow> if p = [] then m
         else m\<lparr> providerByConnection := om_set (providerByConnection m) connectionId (p, providerLimit) \<rparr>)
      in m1\<lparr> capacityByConnection := om_set (capacityByConnection m1) connectionId limit \<rparr>)"

definition reserveProviderLease :: "int \<Rightarrow> string option \<Rightarrow> jv \<Rightarrow> lease_module \<Rightarrow> lease_module \<times> lease_object option" where
  "reserveProviderLease now provider limit m = (case reserveProvider now provider limit (gate m) of
     (g, None) \<Rightarrow> (m\<lparr> gate := g \<rparr>, None)
   | (g, Some permit) \<Rightarrow>
       let lease = ProviderLease (next_only m) (case provider of None \<Rightarrow> [] | Some p \<Rightarrow> p)
       in (m\<lparr> gate := g, providerOnlyLeases := lease # providerOnlyLeases m,
              permitOf := om_set (permitOf m) lease permit, next_only := next_only m + 1 \<rparr>, Some lease))"

text \<open>The provider's row of the snapshot taken after the refusal.\<close>

definition provider_refusal :: "adm \<Rightarrow> string \<Rightarrow> refusal" where
  "provider_refusal g provider = (case om_get (providers g) provider of
     None \<Rightarrow> \<lparr> rf_held = 0, rf_cap = 0, rf_retryAfterMs = 1000, rf_scope = Some ''provider'' \<rparr>
   | Some s \<Rightarrow> \<lparr> rf_held = pv_active s, rf_cap = (case pv_effective s of None \<Rightarrow> pv_limit s | Some e \<Rightarrow> e),
       rf_retryAfterMs = 1000, rf_scope = Some ''provider'' \<rparr>)"

text \<open>Map lookup and deletion under a connection id; a value that is no string is never a key.\<close>

definition conn_get :: "(string, 'v) omap \<Rightarrow> jv \<Rightarrow> 'v option" where
  "conn_get m connectionId = (case connectionId of Str cid \<Rightarrow> om_get m cid | _ \<Rightarrow> None)"

definition conn_del :: "(string, 'v) omap \<Rightarrow> jv \<Rightarrow> (string, 'v) omap" where
  "conn_del m connectionId = (case connectionId of Str cid \<Rightarrow> om_del m cid | _ \<Rightarrow> m)"

definition reserve_account :: "jv \<Rightarrow> nat option \<Rightarrow> lease_module \<Rightarrow> lease_module \<times> lease_object option" where
  "reserve_account connectionId permit m0 =
     (let m = m0\<lparr> providerRefusals := conn_del (providerRefusals m0) connectionId \<rparr> in
      case reserve (registry_capacityOf m) connectionId (accounts m) of
        (acc, None) \<Rightarrow> (m\<lparr> accounts := acc,
            gate := (case permit of None \<Rightarrow> gate m | Some i \<Rightarrow> fst (release_provider i (gate m))) \<rparr>, None)
      | (acc, Some lease) \<Rightarrow> (m\<lparr> accounts := acc,
            permitOf := (case permit of None \<Rightarrow> permitOf m
              | Some i \<Rightarrow> om_set (permitOf m) (AccountLease lease) i) \<rparr>, Some (AccountLease lease)))"

definition reserve_lease :: "int \<Rightarrow> jv \<Rightarrow> lease_module \<Rightarrow> lease_module \<times> lease_object option" where
  "reserve_lease now connectionId m =
     (case conn_get (providerByConnection m) connectionId of
        None \<Rightarrow> reserve_account connectionId None m
      | Some (provider, limit) \<Rightarrow>
          (case reserveProvider now (Some provider) limit (gate m) of
             (g, None) \<Rightarrow> (m\<lparr> gate := g, providerRefusals := om_set (providerRefusals m) (lease_key connectionId)
                 (provider_refusal g provider) \<rparr>, None)
           | (g, Some permit) \<Rightarrow> reserve_account connectionId (Some permit) (m\<lparr> gate := g \<rparr>)))"

definition lastLeaseRefusal :: "lease_module \<Rightarrow> string \<Rightarrow> refusal option" where
  "lastLeaseRefusal m connectionId = (case om_get (providerRefusals m) connectionId of
     Some r \<Rightarrow> Some r | None \<Rightarrow> lastRefusal (accounts m) connectionId)"

text \<open>\<open>providerPermits.get(lease)?.release(); providerPermits.delete(lease)\<close>\<close>

definition free_permit :: "lease_object \<Rightarrow> lease_module \<Rightarrow> lease_module" where
  "free_permit h m = m\<lparr> gate := (case om_get (permitOf m) h of None \<Rightarrow> gate m
       | Some i \<Rightarrow> fst (release_provider i (gate m))), permitOf := om_del (permitOf m) h \<rparr>"

definition releaseAccountLease :: "lease_object \<Rightarrow> lease_module \<Rightarrow> lease_module \<times> bool" where
  "releaseAccountLease h m =
     (if h \<in> set (providerOnlyLeases m)
      then (free_permit h (m\<lparr> providerOnlyLeases := removeAll h (providerOnlyLeases m) \<rparr>), True)
      else case h of
        ProviderLease _ _ \<Rightarrow> (m, False)
      | AccountLease lease \<Rightarrow> (case release_lease (Some lease) (accounts m) of
          (acc, freed) \<Rightarrow> if freed then (free_permit h (m\<lparr> accounts := acc \<rparr>), True)
            else (m\<lparr> accounts := acc \<rparr>, False)))"

definition initial_module :: "adm \<Rightarrow> lease_module" where
  "initial_module g = \<lparr> gate = g, accounts = createLeaseRegistry, capacityByConnection = [],
     providerByConnection = [], permitOf = [], providerRefusals = [], providerOnlyLeases = [], next_only = 0 \<rparr>"

section \<open>Leases and their provider permits\<close>

fun lease_live :: "lease_module \<Rightarrow> lease_object \<Rightarrow> bool" where
  "lease_live m (AccountLease l) = (l \<in> set (leases_on (accounts m) (l_connectionId l)))"
| "lease_live m (ProviderLease r p) = (ProviderLease r p \<in> set (providerOnlyLeases m))"

definition permit_ids :: "adm \<Rightarrow> nat set" where
  "permit_ids g = fst ` set (providerPermits g)"

text \<open>Every provider permit out belongs to exactly one open lease, and every recorded one is out.
  \<open>E\<close> holds the permit a call has just taken and not yet attached.\<close>

definition links_upto :: "nat set \<Rightarrow> lease_module \<Rightarrow> bool" where
  "links_upto E m \<longleftrightarrow> distinct (om_keys (permitOf m)) \<and> distinct (map snd (permitOf m))
     \<and> snd ` set (permitOf m) \<inter> E = {} \<and> snd ` set (permitOf m) \<union> E = permit_ids (gate m)
     \<and> (\<forall>h i. om_get (permitOf m) h = Some i \<longrightarrow> lease_live m h)
     \<and> (\<forall>h \<in> set (providerOnlyLeases m). \<exists>r p. h = ProviderLease r p \<and> r < next_only m)"

definition module_upto :: "nat set \<Rightarrow> lease_module \<Rightarrow> bool" where
  "module_upto E m \<longleftrightarrow> providers_inv (gate m) \<and> registry_ok (accounts m) \<and> links_upto E m"

abbreviation module_ok :: "lease_module \<Rightarrow> bool" where
  "module_ok m \<equiv> module_upto {} m"

lemma permit_ids_release [simp]: "permit_ids (fst (release_provider i g)) = permit_ids g - {i}"
  by (auto simp: permit_ids_def release_provider_permits)

lemma om_set_absent: "om_get m k = None \<Longrightarrow> om_set m k v = m @ [(k, v)]"
  by (induction m k v rule: om_set.induct) (auto split: if_splits)

lemma om_get_snoc:
  "om_get (m @ [(h, i)]) k = (case om_get m k of None \<Rightarrow> if k = h then Some i else None | Some v \<Rightarrow> Some v)"
  by (induction m) auto

lemma snd_om_del:
  assumes "distinct (om_keys m)" "distinct (map snd m)" "om_get m h = Some i"
  shows "snd ` set (om_del m h) = snd ` set m - {i}"
  using assms
proof (induction m)
  case (Cons p m)
  show ?case
  proof (cases "fst p = h")
    case True
    with Cons.prems have "om_del m h = m" "i = snd p"
      by (simp_all add: om_del_absent om_get_None_iff split: prod.splits) (cases p; simp)
    with True Cons.prems show ?thesis by (auto simp: om_del_def)
  next
    case False
    with Cons.prems have i: "om_get m h = Some i" by (cases p) simp
    then have "i \<in> snd ` set m" by (force dest: om_get_Some_set)
    with False Cons i show ?thesis by (auto simp: om_del_def)
  qed
qed simp

lemma attach_permit:
  assumes m: "module_upto {i} m" and new: "om_get (permitOf m) h = None" "lease_live m' h"
    and live: "\<And>h'. lease_live m h' \<Longrightarrow> lease_live m' h'"
    and m': "permitOf m' = om_set (permitOf m) h i" "gate m' = gate m" "registry_ok (accounts m')"
      "\<forall>h \<in> set (providerOnlyLeases m'). \<exists>r p. h = ProviderLease r p \<and> r < next_only m'"
  shows "module_ok m'"
  using assms unfolding module_upto_def links_upto_def
  by (auto simp: om_set_absent om_get_snoc om_get_None_iff image_Un split: option.splits if_splits)

lemma detach_permit:
  assumes m: "module_upto {} m" and live: "\<And>h'. lease_live m h' \<Longrightarrow> h' \<noteq> h \<Longrightarrow> lease_live m' h'"
    and m': "permitOf m' = permitOf m" "gate m' = gate m" "registry_ok (accounts m')"
      "\<forall>h \<in> set (providerOnlyLeases m'). \<exists>r p. h = ProviderLease r p \<and> r < next_only m'"
  shows "module_ok (free_permit h m')"
proof -
  have d: "distinct (om_keys (permitOf m))" "distinct (map snd (permitOf m))"
    using m by (simp_all add: module_upto_def links_upto_def)
  have p: "providers_inv (gate (free_permit h m'))"
    using m m'(2) by (simp add: free_permit_def module_upto_def release_provider_inv split: option.split)
  have "snd ` set (om_del (permitOf m) h) = permit_ids (gate (free_permit h m'))"
  proof (cases "om_get (permitOf m) h")
    case None
    then show ?thesis using m m'
      by (simp add: free_permit_def om_del_absent module_upto_def links_upto_def)
  next
    case (Some i)
    then have "snd ` set (om_del (permitOf m) h) = snd ` set (permitOf m) - {i}"
      by (rule snd_om_del [OF d])
    then show ?thesis using m m' Some
      by (simp add: free_permit_def module_upto_def links_upto_def)
  qed
  moreover have "distinct (map snd (om_del (permitOf m) h))" using d(2) by (simp add: om_del_def distinct_map_filter)
  moreover have "distinct (om_keys (om_del (permitOf m) h))" using d(1) by (rule distinct_om_del)
  moreover have "lease_live (free_permit h m') h'" if "om_get (om_del (permitOf m) h) h' = Some i" for h' i
  proof -
    have "lease_live m h'" "h' \<noteq> h" using that m by (auto simp: module_upto_def links_upto_def split: if_splits)
    then have "lease_live m' h'" by (rule live)
    then show ?thesis by (cases h') (simp_all add: free_permit_def)
  qed
  ultimately show ?thesis
    using p m' by (auto simp: module_upto_def links_upto_def free_permit_def)
qed

lemma lease_live_held:
  assumes "registry_ok (accounts m)"
  shows "lease_live m (AccountLease l) \<longleftrightarrow> (\<exists>k. l \<in> set (leases_on (accounts m) k))"
  using leases_on_ok(1) [OF assms] by auto

lemma reserve_account_result:
  "snd (reserve_account cid permit m) = map_option AccountLease (snd (reserve (registry_capacityOf m) cid (accounts m)))"
  "accounts (fst (reserve_account cid permit m)) = fst (reserve (registry_capacityOf m) cid (accounts m))"
  "providerOnlyLeases (fst (reserve_account cid permit m)) = providerOnlyLeases m"
  "next_only (fst (reserve_account cid permit m)) = next_only m"
proof -
  have c: "registry_capacityOf (m\<lparr>providerRefusals := r\<rparr>) = registry_capacityOf m" for r
    by (simp add: fun_eq_iff registry_capacityOf_def)
  show "snd (reserve_account cid permit m) = map_option AccountLease (snd (reserve (registry_capacityOf m) cid (accounts m)))"
    "accounts (fst (reserve_account cid permit m)) = fst (reserve (registry_capacityOf m) cid (accounts m))"
    "providerOnlyLeases (fst (reserve_account cid permit m)) = providerOnlyLeases m"
    "next_only (fst (reserve_account cid permit m)) = next_only m"
    by (simp_all add: reserve_account_def Let_def c split: prod.split option.split)
qed

lemma reserve_account_ok:
  assumes m: "module_upto (set_option permit) m"
  shows "module_ok (fst (reserve_account cid permit m))"
proof -
  let ?m' = "fst (reserve_account cid permit m)"
  have reg: "registry_ok (accounts m)" and pinv: "providers_inv (gate m)"
    using m by (simp_all add: module_upto_def)
  have c: "registry_capacityOf (m\<lparr>providerRefusals := r\<rparr>) = registry_capacityOf m" for r
    by (simp add: fun_eq_iff registry_capacityOf_def)
  have reg': "registry_ok (accounts ?m')" using reg by (simp add: reserve_account_result reserve_ok)
  have po: "\<forall>h \<in> set (providerOnlyLeases ?m'). \<exists>r p. h = ProviderLease r p \<and> r < next_only ?m'"
    using m by (simp add: reserve_account_result module_upto_def links_upto_def)
  have live: "lease_live ?m' h" if "lease_live m h" for h
  proof (cases h)
    case (AccountLease l)
    then show ?thesis using that accounts.take_holds [OF reg, of "registry_capacityOf m" cid "l_connectionId l"]
      by (auto simp: reserve_account_result split: option.splits if_splits)
  next
    case (ProviderLease r p)
    then show ?thesis using that by (simp add: reserve_account_result)
  qed
  show ?thesis
  proof (cases "snd (reserve (registry_capacityOf m) cid (accounts m))")
    case None
    then have e: "permitOf ?m' = permitOf m"
      "gate ?m' = (case permit of None \<Rightarrow> gate m | Some i \<Rightarrow> fst (release_provider i (gate m)))"
      by (auto simp: reserve_account_def Let_def c split: prod.splits option.splits)
    have "providers_inv (gate ?m')" using pinv by (simp add: e release_provider_inv split: option.split)
    moreover have "snd ` set (permitOf m) = permit_ids (gate ?m')"
      unfolding e using m by (cases permit) (auto simp: module_upto_def links_upto_def)
    ultimately show ?thesis
      using m reg' po live by (simp add: module_upto_def links_upto_def e)
  next
    case (Some l)
    have e: "gate ?m' = gate m" "permitOf ?m' = (case permit of None \<Rightarrow> permitOf m
              | Some i \<Rightarrow> om_set (permitOf m) (AccountLease l) i)"
      using Some by (auto simp: reserve_account_def Let_def c split: prod.splits option.splits)
    have dead: "\<not> lease_live m (AccountLease l)"
      using accounts.take_fresh [OF reg Some] by (auto simp: lease_live_held [OF reg])
    have new: "om_get (permitOf m) (AccountLease l) = None"
      using dead m by (cases "om_get (permitOf m) (AccountLease l)") (auto simp: module_upto_def links_upto_def)
    have l: "lease_live ?m' (AccountLease l)"
      using accounts.take_holds [OF reg, of "registry_capacityOf m" cid "lease_key cid"] Some reg'
      by (auto simp: lease_live_held reserve_account_result simp del: lease_live.simps)
    show ?thesis
    proof (cases permit)
      case None
      then show ?thesis using m live reg' po e by (simp add: module_upto_def links_upto_def)
    next
      case (Some i)
      show ?thesis
        by (rule attach_permit [of i m "AccountLease l"]) (use m new l live reg' po e Some in simp_all)
    qed
  qed
qed

lemma permit_ids_new:
  assumes "providers_inv g" "reserveProvider now p limit g = (g', r)"
  shows "providers_inv g'" "permit_ids g' = permit_ids g \<union> set_option r" "permit_ids g \<inter> set_option r = {}"
proof -
  have f: "nextPermit g \<notin> permit_ids g"
  proof
    assume "nextPermit g \<in> permit_ids g"
    then obtain k where "(nextPermit g, k) \<in> set (providerPermits g)" by (auto simp: permit_ids_def)
    then have "om_get (providerPermits g) (nextPermit g) = Some k"
      using assms(1) by (simp add: providers_inv_def om_get_eq_Some_iff)
    then show False using permit_provider(1) [OF assms(1)] by blast
  qed
  show "providers_inv g'" "permit_ids g' = permit_ids g \<union> set_option r" "permit_ids g \<inter> set_option r = {}"
    by (rule reserveProvider_cases [OF assms(1), of now p limit]; use f assms(2) in \<open>auto simp: permit_ids_def\<close>)+
qed

lemma gate_step:
  assumes "module_ok m" "reserveProvider now p limit (gate m) = (g', r)"
  shows "module_upto (set_option r) (m\<lparr> gate := g' \<rparr>)"
proof -
  have "lease_live (m\<lparr> gate := g' \<rparr>) h = lease_live m h" for h by (cases h) simp_all
  then show ?thesis
    using assms permit_ids_new [of "gate m" now p limit g' r]
    by (auto simp: module_upto_def links_upto_def)
qed

lemma reserve_lease_ok:
  assumes "module_ok m"
  shows "module_ok (fst (reserve_lease now cid m))"
proof (cases "conn_get (providerByConnection m) cid")
  case None
  then show ?thesis using reserve_account_ok [of None m cid] assms by (simp add: reserve_lease_def)
next
  case (Some pl)
  obtain provider limit where pl: "pl = (provider, limit)" by (cases pl)
  obtain g r where g: "reserveProvider now (Some provider) limit (gate m) = (g, r)" by fastforce
  note u = gate_step [OF assms g]
  have "lease_live (m\<lparr>gate := g, providerRefusals := x\<rparr>) h = lease_live (m\<lparr>gate := g\<rparr>) h" for h x by (cases h) simp_all
  then have "r = None \<Longrightarrow> module_ok (m\<lparr>gate := g, providerRefusals := x\<rparr>)" for x
    using u by (simp add: module_upto_def links_upto_def)
  then show ?thesis
    using Some pl g u reserve_account_ok [of r "m\<lparr>gate := g\<rparr>" cid]
    by (cases r) (simp_all add: reserve_lease_def)
qed

lemma reserveProviderLease_ok:
  assumes "module_ok m"
  shows "module_ok (fst (reserveProviderLease now p limit m))"
proof -
  obtain g r where g: "reserveProvider now p limit (gate m) = (g, r)" by fastforce
  note u = gate_step [OF assms g]
  show ?thesis
  proof (cases r)
    case None
    then show ?thesis using u g by (simp add: reserveProviderLease_def)
  next
    case (Some i)
    let ?h = "ProviderLease (next_only m) (case p of None \<Rightarrow> [] | Some p \<Rightarrow> p)"
    have fresh: "?h \<notin> set (providerOnlyLeases m)"
      using assms by (force simp: module_upto_def links_upto_def)
    then have "om_get (permitOf m) ?h = None"
      using assms by (cases "om_get (permitOf m) ?h") (auto simp: module_upto_def links_upto_def)
    moreover have "lease_live (fst (reserveProviderLease now p limit m)) h" if "lease_live (m\<lparr>gate := g\<rparr>) h" for h
      using that g Some by (cases h) (simp_all add: reserveProviderLease_def Let_def)
    moreover have "\<forall>h \<in> set (providerOnlyLeases (fst (reserveProviderLease now p limit m))).
        \<exists>r p'. h = ProviderLease r p' \<and> r < next_only (fst (reserveProviderLease now p limit m))"
      using assms g Some by (fastforce simp: reserveProviderLease_def Let_def module_upto_def links_upto_def)
    ultimately show ?thesis
      using u g Some assms
      by (intro attach_permit [of i "m\<lparr>gate := g\<rparr>" ?h])
        (simp_all add: reserveProviderLease_def Let_def module_upto_def)
  qed
qed

lemma free_permit_fields [simp]:
  "accounts (free_permit h m) = accounts m" "providerOnlyLeases (free_permit h m) = providerOnlyLeases m"
  "next_only (free_permit h m) = next_only m"
  by (simp_all add: free_permit_def)

lemma releaseAccountLease_ok:
  assumes m: "module_ok m"
  shows "module_ok (fst (releaseAccountLease h m))"
proof -
  have reg: "registry_ok (accounts m)"
    and po: "\<forall>h \<in> set (providerOnlyLeases m). \<exists>r p. h = ProviderLease r p \<and> r < next_only m"
    using m by (simp_all add: module_upto_def links_upto_def)
  consider (only) "h \<in> set (providerOnlyLeases m)"
    | (other) r p where "h \<notin> set (providerOnlyLeases m)" "h = ProviderLease r p"
    | (account) l where "h \<notin> set (providerOnlyLeases m)" "h = AccountLease l"
    by (cases h) auto
  then show ?thesis
  proof cases
    case only
    have "module_ok (free_permit h (m\<lparr> providerOnlyLeases := removeAll h (providerOnlyLeases m) \<rparr>))"
    proof (rule detach_permit [OF m])
      fix h' assume "lease_live m h'" "h' \<noteq> h"
      then show "lease_live (m\<lparr> providerOnlyLeases := removeAll h (providerOnlyLeases m) \<rparr>) h'"
        by (cases h') simp_all
    qed (use reg po in simp_all)
    then show ?thesis using only by (simp add: releaseAccountLease_def)
  next
    case other
    then show ?thesis using m by (simp add: releaseAccountLease_def)
  next
    case (account l)
    obtain acc freed where a: "release_lease (Some l) (accounts m) = (acc, freed)" by fastforce
    have acc: "registry_ok acc" using release_ok [OF reg, of "Some l"] a by simp
    have lv: "lease_live (m\<lparr> accounts := acc \<rparr>) h'" if "lease_live m h'" "h' \<noteq> AccountLease l" for h'
      using that leases_on_release [OF reg, of l] a by (cases h') auto
    have "module_ok (free_permit h (m\<lparr> accounts := acc \<rparr>))"
      by (rule detach_permit [OF m]) (use lv account acc po in simp_all)
    moreover have "module_ok (m\<lparr> accounts := acc \<rparr>)" if "\<not> freed"
    proof -
      have "lease_live (m\<lparr> accounts := acc \<rparr>) h'" if "lease_live m h'" for h'
      proof (cases "h' = AccountLease l")
        case True
        then show ?thesis using \<open>lease_live m h'\<close> freed_iff [OF reg, of l] a \<open>\<not> freed\<close> by auto
      qed (use that lv in blast)
      then show ?thesis using m acc by (simp add: module_upto_def links_upto_def)
    qed
    ultimately show ?thesis
      using account a by (simp add: releaseAccountLease_def)
  qed
qed

section \<open>The composed registry is a slot pool\<close>

text \<open>Slots are kept under the connection id, and under None for the provider-only leases.\<close>

type_synonym module_request = "(int \<times> jv) + (int \<times> string option \<times> jv)"

definition module_holds :: "lease_module \<Rightarrow> string option \<Rightarrow> lease_object set" where
  "module_holds m k = (case k of None \<Rightarrow> set (providerOnlyLeases m)
     | Some cid \<Rightarrow> AccountLease ` set (leases_on (accounts m) cid))"

definition module_key :: "module_request \<Rightarrow> string option" where
  "module_key a = (case a of Inl (now, cid) \<Rightarrow> Some (lease_key cid) | Inr _ \<Rightarrow> None)"

definition module_limit :: "module_request \<Rightarrow> lease_module \<Rightarrow> nat option" where
  "module_limit a m = (case a of Inl (now, cid) \<Rightarrow> lease_cap (registry_capacityOf m) cid | Inr _ \<Rightarrow> None)"

definition module_take :: "module_request \<Rightarrow> lease_module \<Rightarrow> lease_module \<times> lease_object option" where
  "module_take a m = (case a of Inl (now, cid) \<Rightarrow> reserve_lease now cid m
     | Inr (now, provider, limit) \<Rightarrow> reserveProviderLease now provider limit m)"

text \<open>A reservation that the provider does not refuse is the account registry's.\<close>

lemma reserve_lease_accounts:
  obtains (by_provider) "snd (reserve_lease now cid m) = None"
      "accounts (fst (reserve_lease now cid m)) = accounts m"
      "providerOnlyLeases (fst (reserve_lease now cid m)) = providerOnlyLeases m"
  | (by_account) "snd (reserve_lease now cid m)
        = map_option AccountLease (snd (reserve (registry_capacityOf m) cid (accounts m)))"
      "accounts (fst (reserve_lease now cid m)) = fst (reserve (registry_capacityOf m) cid (accounts m))"
      "providerOnlyLeases (fst (reserve_lease now cid m)) = providerOnlyLeases m"
proof -
  have c: "registry_capacityOf (m\<lparr>gate := g\<rparr>) = registry_capacityOf m" for g
    by (simp add: fun_eq_iff registry_capacityOf_def)
  show ?thesis
  proof (cases "conn_get (providerByConnection m) cid")
    case None
    then show ?thesis by (intro by_account) (simp_all add: reserve_lease_def reserve_account_result)
  next
    case (Some pl)
    obtain provider limit where pl: "pl = (provider, limit)" by (cases pl)
    obtain g r where g: "reserveProvider now (Some provider) limit (gate m) = (g, r)" by fastforce
    show ?thesis
    proof (cases r)
      case None
      then show ?thesis using Some pl g by (intro by_provider) (simp_all add: reserve_lease_def)
    next
      case (Some i)
      then show ?thesis using \<open>conn_get _ _ = Some pl\<close> pl g
        by (intro by_account) (simp_all add: reserve_lease_def reserve_account_result c)
    qed
  qed
qed

lemma module_holds_reserve_lease:
  assumes "registry_ok (accounts m)"
  shows "module_holds (fst (reserve_lease now cid m)) k = (case snd (reserve_lease now cid m) of
      None \<Rightarrow> module_holds m k
    | Some p \<Rightarrow> if k = Some (lease_key cid) then insert p (module_holds m k) else module_holds m k)"
proof (cases rule: reserve_lease_accounts [of now cid m])
  case by_provider
  then show ?thesis by (simp add: module_holds_def split: option.split)
next
  case by_account
  then show ?thesis
    by (cases k) (auto simp: module_holds_def accounts.take_holds [OF assms] split: option.split)
qed

lemma module_holds_release:
  assumes m: "module_ok m"
  shows "module_holds (fst (releaseAccountLease h m)) k = module_holds m k - {h}"
    and "snd (releaseAccountLease h m) \<longleftrightarrow> (\<exists>k. h \<in> module_holds m k)"
proof -
  have reg: "registry_ok (accounts m)"
    and po: "\<forall>h \<in> set (providerOnlyLeases m). \<exists>r p. h = ProviderLease r p \<and> r < next_only m"
    using m by (simp_all add: module_upto_def links_upto_def)
  have "module_holds (fst (releaseAccountLease h m)) k = module_holds m k - {h}
      \<and> (snd (releaseAccountLease h m) \<longleftrightarrow> (\<exists>k. h \<in> module_holds m k))"
  proof (cases h)
    case (AccountLease l)
    have no: "AccountLease l \<notin> set (providerOnlyLeases m)" using po by blast
    obtain acc freed where a: "release_lease (Some l) (accounts m) = (acc, freed)" by fastforce
    have h: "set (leases_on acc cid) = set (leases_on (accounts m) cid) - {l}" for cid
      using accounts.give_holds [OF reg, of l cid] a by simp
    have "freed \<longleftrightarrow> (\<exists>cid. l \<in> set (leases_on (accounts m) cid))"
      using freed_iff [OF reg, of l] a by simp
    then have "(\<exists>k. h \<in> module_holds m k) \<longleftrightarrow> freed"
      using no AccountLease by (auto simp: module_holds_def split: option.splits intro: exI [of _ "Some _"])
    then show ?thesis
      using AccountLease no a h by (auto simp: releaseAccountLease_def module_holds_def split: option.splits)
  next
    case (ProviderLease r p)
    have "(\<exists>k. h \<in> module_holds m k) \<longleftrightarrow> h \<in> set (providerOnlyLeases m)"
      using ProviderLease by (auto simp: module_holds_def split: option.splits intro: exI [of _ None])
    then show ?thesis
      using ProviderLease by (auto simp: releaseAccountLease_def module_holds_def split: option.splits)
  qed
  then show "module_holds (fst (releaseAccountLease h m)) k = module_holds m k - {h}"
    and "snd (releaseAccountLease h m) \<longleftrightarrow> (\<exists>k. h \<in> module_holds m k)" by blast+
qed

lemma reserveProviderLease_cases:
  assumes "module_ok m"
  shows "module_holds (fst (reserveProviderLease now p limit m)) k = (case snd (reserveProviderLease now p limit m) of
      None \<Rightarrow> module_holds m k | Some h \<Rightarrow> if k = None then insert h (module_holds m k) else module_holds m k)"
    and "snd (reserveProviderLease now p limit m) = Some h \<Longrightarrow> h \<notin> module_holds m k"
proof -
  have po: "\<forall>h \<in> set (providerOnlyLeases m). \<exists>r p. h = ProviderLease r p \<and> r < next_only m"
    using assms by (simp add: module_upto_def links_upto_def)
  show "module_holds (fst (reserveProviderLease now p limit m)) k = (case snd (reserveProviderLease now p limit m) of
      None \<Rightarrow> module_holds m k | Some h \<Rightarrow> if k = None then insert h (module_holds m k) else module_holds m k)"
    by (auto simp: reserveProviderLease_def Let_def module_holds_def split: prod.split option.split)
  show "snd (reserveProviderLease now p limit m) = Some h \<Longrightarrow> h \<notin> module_holds m k"
    using po by (auto simp: reserveProviderLease_def Let_def module_holds_def split: prod.splits option.splits)
qed

interpretation lease_module_pool: slot_pool module_holds module_key module_limit module_take
    releaseAccountLease "\<lambda>m. module_ok m"
proof unfold_locales
  fix m p n k k' and a :: module_request
  assume ok: "module_ok m"
  have reg: "registry_ok (accounts m)" using ok by (simp add: module_upto_def)
  show "module_ok (fst (module_take a m))"
    using ok by (auto simp: module_take_def reserve_lease_ok reserveProviderLease_ok split: sum.split)
  show "module_ok (fst (releaseAccountLease p m))" using ok by (rule releaseAccountLease_ok)
  show "finite (module_holds m k)" by (simp add: module_holds_def split: option.split)
  have po: "\<forall>h \<in> set (providerOnlyLeases m). \<exists>r p. h = ProviderLease r p \<and> r < next_only m"
    using ok by (simp add: module_upto_def links_upto_def)
  show "p \<in> module_holds m k \<Longrightarrow> p \<in> module_holds m k' \<Longrightarrow> k' = k"
    using po accounts.holds_disjoint [OF reg] by (fastforce simp: module_holds_def split: option.splits)
  show "snd (module_take a m) = Some p \<Longrightarrow> p \<notin> module_holds m k"
  proof (cases a)
    case (Inl b)
    assume t: "snd (module_take a m) = Some p"
    obtain now cid where b: "b = (now, cid)" by (cases b)
    show "p \<notin> module_holds m k"
    proof (cases rule: reserve_lease_accounts [of now cid m])
      case by_account
      then show ?thesis
        using t Inl b po accounts.take_fresh [OF reg, of _ cid]
        by (auto simp: module_take_def module_holds_def split: option.splits)
    qed (use t Inl b in \<open>simp add: module_take_def\<close>)
  next
    case (Inr b)
    assume "snd (module_take a m) = Some p"
    then show "p \<notin> module_holds m k"
      using Inr reserveProviderLease_cases(2) [OF ok] by (auto simp: module_take_def split: prod.splits)
  qed
  show "module_holds (fst (module_take a m)) k = (case snd (module_take a m) of None \<Rightarrow> module_holds m k
     | Some p \<Rightarrow> if k = module_key a then insert p (module_holds m k) else module_holds m k)"
    by (cases a) (auto simp: module_take_def module_key_def module_holds_reserve_lease [OF reg]
        reserveProviderLease_cases(1) [OF ok] split: prod.split cong: option.case_cong)
  show "snd (module_take a m) = Some p \<Longrightarrow> module_limit a m = Some n \<Longrightarrow> card (module_holds m (module_key a)) < n"
  proof (cases a)
    case (Inl b)
    assume t: "snd (module_take a m) = Some p" "module_limit a m = Some n"
    obtain now cid where b: "b = (now, cid)" by (cases b)
    have c: "card (AccountLease ` set ls) = card (set ls)" for ls
      by (rule card_image) (simp add: inj_on_def)
    show "card (module_holds m (module_key a)) < n"
    proof (cases rule: reserve_lease_accounts [of now cid m])
      case by_account
      then show ?thesis
        using t Inl b accounts.take_below [OF reg, of _ cid]
        by (auto simp: module_take_def module_holds_def module_key_def module_limit_def c)
    qed (use t Inl b in \<open>simp add: module_take_def\<close>)
  qed (simp add: module_limit_def)
  show "snd (releaseAccountLease p m) \<longleftrightarrow> (\<exists>k. p \<in> module_holds m k)" by (rule module_holds_release(2) [OF ok])
  show "module_holds (fst (releaseAccountLease p m)) k = module_holds m k - {p}"
    by (rule module_holds_release(1) [OF ok])
qed

section \<open>Histories of the registry\<close>

datatype module_event =
    Register string jv "string option" jv
  | ReserveLease int jv
  | ReserveOnly int "string option" jv
  | ReleaseLease lease_object

fun module_step :: "lease_module \<Rightarrow> module_event \<Rightarrow> lease_module" where
  "module_step m (Register cid limit provider providerLimit) = registerAccountCapacity cid limit provider providerLimit m"
| "module_step m (ReserveLease now cid) = fst (reserve_lease now cid m)"
| "module_step m (ReserveOnly now provider limit) = fst (reserveProviderLease now provider limit m)"
| "module_step m (ReleaseLease h) = fst (releaseAccountLease h m)"

lemma register_ok: "module_ok m \<Longrightarrow> module_ok (registerAccountCapacity cid limit provider providerLimit m)"
proof -
  let ?m = "registerAccountCapacity cid limit provider providerLimit m"
  assume m: "module_ok m"
  have f: "gate ?m = gate m" "accounts ?m = accounts m" "permitOf ?m = permitOf m"
    "providerOnlyLeases ?m = providerOnlyLeases m" "next_only ?m = next_only m"
    by (simp_all add: registerAccountCapacity_def Let_def split: option.split)
  have "lease_live ?m h = lease_live m h" for h by (cases h) (simp_all add: f)
  then show "module_ok ?m" using m by (simp add: module_upto_def links_upto_def f)
qed

lemma module_step_ok: "module_ok m \<Longrightarrow> module_ok (module_step m e)"
  by (cases e) (simp_all add: register_ok reserve_lease_ok reserveProviderLease_ok releaseAccountLease_ok)

interpretation lease_registry: machine module_step "\<lambda>m. module_ok m"
  by unfold_locales (rule module_step_ok)

lemma initial_module_ok: "createResourceAdmission initial = Inr g \<Longrightarrow> module_ok (initial_module g)"
  using created_providers_inv [of initial g]
  by (auto simp: module_upto_def links_upto_def initial_module_def permit_ids_def createResourceAdmission_def
      split: sum.splits)

text \<open>C19: provider permits never leak. After any history of registrations, reservations and releases,
  the provider permits out are exactly those attached to open leases, one each; so when every
  lease has been released no provider slot is held, whatever refusals and rollbacks happened.\<close>

theorem provider_permits_follow_leases:
  assumes "createResourceAdmission initial = Inr g" and "m = foldl module_step (initial_module g) es"
  shows "snd ` set (permitOf m) = permit_ids (gate m) \<and> distinct (map snd (permitOf m))
    \<and> (\<forall>h i. om_get (permitOf m) h = Some i \<longrightarrow> lease_live m h)
    \<and> ((\<forall>h. \<not> lease_live m h) \<longrightarrow> permit_ids (gate m) = {})"
proof -
  have m: "module_ok m"
    using lease_registry.run_inv [OF initial_module_ok [OF assms(1)], of es] assms(2) by simp
  then have l: "distinct (map snd (permitOf m))" "snd ` set (permitOf m) = permit_ids (gate m)"
    "\<forall>h i. om_get (permitOf m) h = Some i \<longrightarrow> lease_live m h"
    by (simp_all add: module_upto_def links_upto_def)
  have "permit_ids (gate m) = {}" if "\<forall>h. \<not> lease_live m h"
  proof -
    have "om_get (permitOf m) h = None" for h using l(3) that by (metis not_None_eq)
    then have "fst ` set (permitOf m) = {}" by (metis all_not_in_conv om_get_None_iff)
    then have "permitOf m = []" by simp
    then show ?thesis using l(2) by simp
  qed
  then show ?thesis using l by blast
qed

definition sample_module :: lease_module where
  "sample_module = initial_module (projr (createResourceAdmission Undef))"

definition sample_lease_events :: "module_event list" where
  "sample_lease_events = [Register ''a'' (JInt 1) (Some ''kiro'') (JInt 2), ReserveLease 0 (Str ''a''),
     ReserveLease 1 (Str ''a''), ReserveOnly 2 (Some ''kiro'') (JInt 2),
     ReleaseLease (ProviderLease 0 ''kiro'')]"

theorem provider_permits_follow_leases_witness:
  "let m = foldl module_step sample_module sample_lease_events
   in snd ` set (permitOf m) = permit_ids (gate m) \<and> length (permitOf m) = 1"
proof -
  have c: "createResourceAdmission Undef = Inr (projr (createResourceAdmission Undef))"
    by (simp add: createResourceAdmission_def default_policy_valid)
  have "length (permitOf (foldl module_step sample_module sample_lease_events)) = 1" by code_simp
  then show ?thesis
    using provider_permits_follow_leases [OF c refl, of sample_lease_events]
    by (simp add: sample_module_def Let_def)
qed

lemma reserve_lease_refused:
  assumes "snd (reserve_lease now cid m) = None"
  shows "permitOf (fst (reserve_lease now cid m)) = permitOf m"
proof -
  have r: "permitOf (fst (reserve_account cid permit m')) = permitOf m'"
    if "snd (reserve_account cid permit m') = None" for permit m'
    using that by (auto simp: reserve_account_def Let_def split: prod.splits option.splits)
  show ?thesis
    using assms r
    by (auto simp: reserve_lease_def split: option.splits prod.splits)
qed

lemma lease_live_holds:
  assumes "module_ok m"
  shows "lease_live m h \<longleftrightarrow> (\<exists>k. h \<in> module_holds m k)"
proof -
  have reg: "registry_ok (accounts m)"
    and po: "\<forall>h \<in> set (providerOnlyLeases m). \<exists>r p. h = ProviderLease r p \<and> r < next_only m"
    using assms by (simp_all add: module_upto_def links_upto_def)
  have "lease_live m h \<longleftrightarrow> h \<in> module_holds m None \<or> (\<exists>cid. h \<in> module_holds m (Some cid))"
  proof (cases h)
    case (AccountLease l)
    have "AccountLease l \<notin> set (providerOnlyLeases m)" using po by blast
    then show ?thesis
      unfolding AccountLease lease_live_held [OF reg] by (simp add: module_holds_def image_iff)
  next
    case (ProviderLease r p)
    then show ?thesis by (simp add: module_holds_def image_iff)
  qed
  then show ?thesis by (metis not_None_eq)
qed



end
