(* ===== verification/Capacity.thy ===== *)
theory Capacity
  imports JsValue
begin

text \<open>
  Per-account capacity, src/shared/utils/accountCapacity.js: what one connection may carry, the
  optional provider ceiling around it, and the limit that results.
\<close>

definition DEFAULT_ACCOUNT_CAPACITY :: int where
  "DEFAULT_ACCOUNT_CAPACITY = 80"

definition UNGATED :: int where
  "UNGATED = 0"

definition positiveIntOrNull :: "jv \<Rightarrow> int option" where
  "positiveIntOrNull value = (case value of
     Num (Fin r) \<Rightarrow> if of_int \<lfloor>r\<rfloor> \<noteq> r \<or> r \<le> 0 then None else Some \<lfloor>r\<rfloor> | _ \<Rightarrow> None)"

text \<open>The second argument is the destructured \<open>defaultCapacity\<close>; absent, it is the constant.\<close>

definition resolveAccountCapacity :: "jv \<Rightarrow> jv \<Rightarrow> int" where
  "resolveAccountCapacity connection defaultCapacity0 =
     (let defaultCapacity = (if defaultCapacity0 = Undef then JInt DEFAULT_ACCOUNT_CAPACITY else defaultCapacity0);
          configured = get connection ''maxConcurrent''
      in if seq configured (JInt 0) then UNGATED
         else case positiveIntOrNull configured of Some own \<Rightarrow> own
           | None \<Rightarrow> (case positiveIntOrNull defaultCapacity of Some d \<Rightarrow> d | None \<Rightarrow> DEFAULT_ACCOUNT_CAPACITY))"

definition resolveProviderCeiling :: "jv \<Rightarrow> jv \<Rightarrow> int option" where
  "resolveProviderCeiling settings provider =
     positiveIntOrNull (get (get (get settings ''providerStrategies'') (jstr provider)) ''maxConcurrent'')"

record effective_capacity =
  ec_limit :: int
  ec_gated :: bool
  ec_source :: string

definition effectiveCapacity :: "jv \<Rightarrow> jv \<Rightarrow> jv \<Rightarrow> jv \<Rightarrow> effective_capacity" where
  "effectiveCapacity connection settings provider defaultCapacity =
     (let account = resolveAccountCapacity connection defaultCapacity;
          ceiling = resolveProviderCeiling settings
            (coalesce provider (coalesce (get connection ''provider'') Null))
      in if account = UNGATED
         then (case ceiling of
             None \<Rightarrow> \<lparr> ec_limit = UNGATED, ec_gated = False, ec_source = ''account-ungated'' \<rparr>
           | Some c \<Rightarrow> \<lparr> ec_limit = c, ec_gated = True, ec_source = ''provider-ceiling'' \<rparr>)
         else case ceiling of
             None \<Rightarrow> \<lparr> ec_limit = account, ec_gated = True, ec_source = ''account'' \<rparr>
           | Some c \<Rightarrow> if c < account
               then \<lparr> ec_limit = c, ec_gated = True, ec_source = ''provider-ceiling'' \<rparr>
               else \<lparr> ec_limit = account, ec_gated = True, ec_source = ''account'' \<rparr>)"

lemma positiveIntOrNull_pos: "positiveIntOrNull v = Some n \<Longrightarrow> 0 < n \<and> v = JInt n"
  by (auto simp: positiveIntOrNull_def split: jv.splits jsnum.splits if_splits)

lemma positiveIntOrNull_int [simp]: "positiveIntOrNull (JInt n) = (if 0 < n then Some n else None)"
  by (simp add: positiveIntOrNull_def)

lemma resolveAccountCapacity_range: "0 \<le> resolveAccountCapacity connection d"
  by (auto simp: resolveAccountCapacity_def Let_def UNGATED_def DEFAULT_ACCOUNT_CAPACITY_def
      dest: positiveIntOrNull_pos split: option.split)

lemma resolveAccountCapacity_ungated:
  "resolveAccountCapacity connection d = UNGATED \<longleftrightarrow> seq (get connection ''maxConcurrent'') (JInt 0)"
  by (auto simp: resolveAccountCapacity_def Let_def UNGATED_def DEFAULT_ACCOUNT_CAPACITY_def
      dest: positiveIntOrNull_pos split: option.split)

text \<open>the limit that governs a connection. It is skipped exactly when the account is set to 0 and
  no provider ceiling is configured; a gate in force lets at least one request in; it never
  exceeds either configured bound; and it reaches one of the two.\<close>

theorem effectiveCapacity_bounds:
  "let e = effectiveCapacity connection settings provider d;
       a = resolveAccountCapacity connection d;
       c = resolveProviderCeiling settings (coalesce provider (coalesce (get connection ''provider'') Null))
   in (ec_gated e \<longleftrightarrow> \<not> (seq (get connection ''maxConcurrent'') (JInt 0) \<and> c = None))
     \<and> (ec_gated e \<longrightarrow> 1 \<le> ec_limit e)
     \<and> (a \<noteq> UNGATED \<longrightarrow> ec_limit e \<le> a) \<and> (\<forall>n. c = Some n \<longrightarrow> ec_limit e \<le> n)
     \<and> (ec_source e = ''account'' \<longrightarrow> ec_limit e = a) \<and> (ec_source e = ''provider-ceiling'' \<longrightarrow> Some (ec_limit e) = c)"
  using resolveAccountCapacity_range [of connection d] resolveAccountCapacity_ungated [of connection d]
  by (auto simp: effectiveCapacity_def Let_def UNGATED_def resolveProviderCeiling_def
      dest: positiveIntOrNull_pos split: option.split)

theorem effectiveCapacity_bounds_witness:
  "let e = effectiveCapacity (Obj [(''maxConcurrent'', JInt 0), (''provider'', Str ''kiro'')])
       (Obj [(''providerStrategies'', Obj [(''kiro'', Obj [(''maxConcurrent'', JInt 6)])])]) Undef Undef
   in ec_gated e \<and> 1 \<le> ec_limit e \<and> ec_limit e = 6"
proof -
  have "ec_gated (effectiveCapacity (Obj [(''maxConcurrent'', JInt 0), (''provider'', Str ''kiro'')])
       (Obj [(''providerStrategies'', Obj [(''kiro'', Obj [(''maxConcurrent'', JInt 6)])])]) Undef Undef)
     \<and> ec_limit (effectiveCapacity (Obj [(''maxConcurrent'', JInt 0), (''provider'', Str ''kiro'')])
       (Obj [(''providerStrategies'', Obj [(''kiro'', Obj [(''maxConcurrent'', JInt 6)])])]) Undef Undef) = 6"
    by code_simp
  then show ?thesis
    using effectiveCapacity_bounds [of "Obj [(''maxConcurrent'', JInt 0), (''provider'', Str ''kiro'')]"
      "Obj [(''providerStrategies'', Obj [(''kiro'', Obj [(''maxConcurrent'', JInt 6)])])]" Undef Undef]
    unfolding Let_def by blast
qed

end
