(* ===== verification/LoginLimiter.thy ===== *)
theory LoginLimiter
  imports JsValue
begin

text \<open>
  The progressive lockout of dashboard logins, src/lib/auth/loginLimiter.js with the header check
  of src/lib/auth/trustedPeer.js. The map \<open>attempts\<close> is the state; every operation takes one
  reading of the clock, in milliseconds.
\<close>

definition MAX_FAILS_BEFORE_LOCK :: int where
  "MAX_FAILS_BEFORE_LOCK = 5"

definition LOCK_STEPS_MS :: "int list" where
  "LOCK_STEPS_MS = [30000, 120000, 600000, 1800000]"

definition FAIL_WINDOW_MS :: int where
  "FAIL_WINDOW_MS = 60 * 60 * 1000"

record attempt =
  fails :: int
  lockUntil :: int
  lockLevel :: nat
  lastFailAt :: int

type_synonym attempts = "(string, attempt) omap"

definition getEntry :: "int \<Rightarrow> string \<Rightarrow> attempts \<Rightarrow> attempts \<times> attempt option" where
  "getEntry now ip tbl = (case om_get tbl ip of None \<Rightarrow> (tbl, None)
     | Some e \<Rightarrow> if lastFailAt e \<noteq> 0 \<and> FAIL_WINDOW_MS < now - lastFailAt e
           \<and> (lockUntil e = 0 \<or> lockUntil e \<le> now)
         then (om_del tbl ip, None) else (tbl, Some e))"

text \<open>The answer is the number of seconds to wait, or None when the address is not locked.\<close>

definition checkLock :: "int \<Rightarrow> string \<Rightarrow> attempts \<Rightarrow> attempts \<times> int option" where
  "checkLock now ip tbl = (case getEntry now ip tbl of (tbl', None) \<Rightarrow> (tbl', None)
     | (tbl', Some e) \<Rightarrow> if lockUntil e = 0 \<or> lockUntil e - now \<le> 0 then (tbl', None)
         else (tbl', Some \<lceil>of_int (lockUntil e - now) / (1000 :: rat)\<rceil>))"

definition lock_step :: "nat \<Rightarrow> int" where
  "lock_step level = LOCK_STEPS_MS ! min level (length LOCK_STEPS_MS - 1)"

text \<open>What a failed attempt writes, from the entry it found.\<close>

definition after_fail :: "int \<Rightarrow> attempt \<Rightarrow> attempt" where
  "after_fail now e0 = (let e1 = e0\<lparr> fails := fails e0 + 1, lastFailAt := now \<rparr> in
     if MAX_FAILS_BEFORE_LOCK \<le> fails e1
     then e1\<lparr> lockUntil := now + lock_step (lockLevel e1), lockLevel := lockLevel e1 + 1, fails := 0 \<rparr>
     else e1)"

definition no_attempt :: attempt where
  "no_attempt = \<lparr> fails = 0, lockUntil = 0, lockLevel = 0, lastFailAt = 0 \<rparr>"

definition recordFail :: "int \<Rightarrow> string \<Rightarrow> attempts \<Rightarrow> attempts \<times> int" where
  "recordFail now ip tbl = (let (tbl1, found) = getEntry now ip tbl;
      e = after_fail now (case found of Some e \<Rightarrow> e | None \<Rightarrow> no_attempt)
    in (om_set tbl1 ip e, max 0 (MAX_FAILS_BEFORE_LOCK - fails e)))"

definition recordSuccess :: "string \<Rightarrow> attempts \<Rightarrow> attempts" where
  "recordSuccess ip tbl = om_del tbl ip"

text \<open>Headers are a lookup by lower-case name; the environment is the two variables read.\<close>

definition hasTrustedPeerHeaders :: "string option \<Rightarrow> (string \<Rightarrow> string option) \<Rightarrow> bool" where
  "hasTrustedPeerHeaders token headers = (case token of None \<Rightarrow> False
     | Some t \<Rightarrow> t \<noteq> [] \<and> headers ''x-tp-peer-token'' = Some t)"

definition until_comma :: "string \<Rightarrow> string" where
  "until_comma s = takeWhile (\<lambda>c. c \<noteq> CHR '','') s"

definition getClientIp :: "string option \<Rightarrow> string option \<Rightarrow> (string \<Rightarrow> string option) \<Rightarrow> string" where
  "getClientIp token trustProxy headers =
     (case (if hasTrustedPeerHeaders token headers then headers ''x-tp-real-ip'' else None) of
        Some (c # cs) \<Rightarrow> c # cs
      | _ \<Rightarrow> (case (if trustProxy = Some ''true'' then headers ''x-forwarded-for'' else None) of
           Some (c # cs) \<Rightarrow> trim (until_comma (c # cs))
         | _ \<Rightarrow> ''unknown''))"

section \<open>Histories\<close>

datatype login_event = CheckLock string | RecordFail string | RecordSuccess string

text \<open>The clock never goes back: an event says how many milliseconds have passed since the last one.\<close>

fun login_step :: "attempts \<times> int \<Rightarrow> nat \<times> login_event \<Rightarrow> attempts \<times> int" where
  "login_step (tbl, t) (d, CheckLock ip) = (fst (checkLock (t + int d) ip tbl), t + int d)"
| "login_step (tbl, t) (d, RecordFail ip) = (fst (recordFail (t + int d) ip tbl), t + int d)"
| "login_step (tbl, t) (d, RecordSuccess ip) = (recordSuccess ip tbl, t + int d)"

definition attempt_ok :: "int \<Rightarrow> attempt \<Rightarrow> bool" where
  "attempt_ok t e \<longleftrightarrow> 0 \<le> fails e \<and> fails e < MAX_FAILS_BEFORE_LOCK \<and> 0 < lastFailAt e \<and> lastFailAt e \<le> t
     \<and> (lockLevel e = 0 \<longrightarrow> lockUntil e = 0)
     \<and> lockUntil e \<le> lastFailAt e + lock_step (lockLevel e - 1)"

fun login_inv :: "attempts \<times> int \<Rightarrow> bool" where
  "login_inv (tbl, t) = (0 < t \<and> distinct (om_keys tbl) \<and> (\<forall>ip e. om_get tbl ip = Some e \<longrightarrow> attempt_ok t e))"

lemma lock_step_eq:
  "lock_step n = (if n = 0 then 30000 else if n = 1 then 120000 else if n = 2 then 600000 else 1800000)"
proof -
  consider "n = 0" | "n = 1" | "n = 2" | "3 \<le> n" by linarith
  then show ?thesis by cases (simp_all add: lock_step_def LOCK_STEPS_MS_def)
qed

lemma lock_step_pos: "0 < lock_step n"
  by (simp add: lock_step_eq)

lemma lock_step_mono: "m \<le> n \<Longrightarrow> lock_step m \<le> lock_step n"
  by (auto simp: lock_step_eq)

lemma attempt_ok_mono: "attempt_ok t e \<Longrightarrow> t \<le> t' \<Longrightarrow> attempt_ok t' e"
  by (simp add: attempt_ok_def)

lemma attempt_ok_later: "attempt_ok t e \<Longrightarrow> attempt_ok (t + int d) e"
  by (simp add: attempt_ok_def)

lemma getEntry_cases:
  obtains (gone) "getEntry now ip tbl = (om_del tbl ip, None)" "\<And>e. om_get tbl ip = Some e \<Longrightarrow> lockUntil e = 0 \<or> lockUntil e \<le> now"
  | (kept) e where "getEntry now ip tbl = (tbl, Some e)" "om_get tbl ip = Some e"
proof (cases "om_get tbl ip")
  case None
  then show ?thesis by (intro gone) (simp_all add: getEntry_def om_del_absent)
next
  case (Some e)
  show ?thesis
  proof (cases "lastFailAt e \<noteq> 0 \<and> FAIL_WINDOW_MS < now - lastFailAt e \<and> (lockUntil e = 0 \<or> lockUntil e \<le> now)")
    case True
    then show ?thesis using Some by (intro gone) (auto simp: getEntry_def)
  next
    case False
    then show ?thesis using Some by (intro kept [of e]) (simp_all only: getEntry_def option.case if_False)
  qed
qed

lemma after_fail_ok:
  assumes "attempt_ok t e \<or> e = no_attempt" "t \<le> now" "0 < now"
  shows "attempt_ok now (after_fail now e)"
proof -
  have "0 < lock_step (lockLevel e)" "0 < lock_step (lockLevel e - 1)" by (rule lock_step_pos)+
  then show ?thesis
    using assms by (auto simp: after_fail_def Let_def attempt_ok_def no_attempt_def MAX_FAILS_BEFORE_LOCK_def)
qed

lemma recordFail_inv:
  assumes "login_inv (tbl, t)" "t \<le> now"
  shows "login_inv (fst (recordFail now ip tbl), now)"
proof (cases rule: getEntry_cases [of now ip tbl])
  case gone
  have "attempt_ok now (after_fail now no_attempt)"
    using assms by (intro after_fail_ok [of t]) simp_all
  then show ?thesis
    using assms gone by (auto simp: recordFail_def Let_def intro: attempt_ok_mono split: if_splits)
next
  case (kept e)
  then have "attempt_ok now (after_fail now e)"
    using assms by (intro after_fail_ok [of t]) auto
  then show ?thesis
    using assms kept by (auto simp: recordFail_def Let_def intro: attempt_ok_mono split: if_splits)
qed

lemma login_step_inv: "login_inv s \<Longrightarrow> login_inv (login_step s e)"
proof (induction s e rule: login_step.induct)
  case (1 tbl t d ip)
  have "fst (checkLock (t + int d) ip tbl) = om_del tbl ip \<or> fst (checkLock (t + int d) ip tbl) = tbl"
    by (rule getEntry_cases [of "t + int d" ip tbl]) (simp_all add: checkLock_def)
  then show ?case
  proof
    assume "fst (checkLock (t + int d) ip tbl) = om_del tbl ip"
    with 1 show ?case by (auto intro: distinct_om_del attempt_ok_later)
  next
    assume "fst (checkLock (t + int d) ip tbl) = tbl"
    with 1 show ?case by (auto intro: attempt_ok_later)
  qed
next
  case (2 tbl t d ip)
  then show ?case using recordFail_inv [of tbl t "t + int d" ip] by simp
next
  case (3 tbl t d ip)
  then show ?case by (auto simp: recordSuccess_def intro: distinct_om_del attempt_ok_later)
qed

interpretation limiter: machine login_step login_inv
  by unfold_locales (rule login_step_inv)

definition locked_until :: "attempts \<Rightarrow> string \<Rightarrow> int" where
  "locked_until tbl ip = (case om_get tbl ip of None \<Rightarrow> 0 | Some e \<Rightarrow> lockUntil e)"

lemma checkLock_iff:
  assumes "0 < now"
  shows "snd (checkLock now ip tbl) \<noteq> None \<longleftrightarrow> now < locked_until tbl ip"
proof (cases rule: getEntry_cases [of now ip tbl])
  case gone
  have "\<not> now < locked_until tbl ip"
  proof (cases "om_get tbl ip")
    case None
    then show ?thesis using assms by (simp add: locked_until_def)
  next
    case (Some e)
    then show ?thesis using gone(2) [OF Some] assms by (auto simp: locked_until_def)
  qed
  then show ?thesis using gone(1) by (simp add: checkLock_def)
next
  case (kept e)
  then show ?thesis using assms by (auto simp: checkLock_def locked_until_def)
qed

lemma locked_until_del: "locked_until (om_del tbl ip) ip' = (if ip' = ip then 0 else locked_until tbl ip')"
  by (simp add: locked_until_def)

lemma locked_until_other:
  "ip' \<noteq> ip \<Longrightarrow> locked_until (fst (recordFail now ip tbl)) ip' = locked_until tbl ip'"
  "ip' \<noteq> ip \<Longrightarrow> locked_until (fst (checkLock now ip tbl)) ip' = locked_until tbl ip'"
  by (cases rule: getEntry_cases [of now ip tbl];
      simp add: recordFail_def checkLock_def locked_until_def Let_def)+

text \<open>While an address is locked, no event but its own success shortens the lock.\<close>

lemma lock_kept:
  assumes "login_inv (tbl, t)" "login_step (tbl, t) ev = (tbl', t')" "t' < locked_until tbl ip"
    and "snd ev \<noteq> RecordSuccess ip"
  shows "locked_until tbl ip \<le> locked_until tbl' ip"
proof -
  obtain d e where ev: "ev = (d, e)" by (cases ev)
  obtain a where a: "om_get tbl ip = Some a" "0 < lockUntil a" "t' < lockUntil a"
    using assms(1,2,3) ev by (cases "om_get tbl ip"; cases e) (auto simp: locked_until_def)
  have ok: "attempt_ok t a" using assms(1) a by simp
  have g: "getEntry t' ip tbl = (tbl, Some a)"
    using a by (cases rule: getEntry_cases [of t' ip tbl]) auto
  show ?thesis
  proof (cases "e = RecordFail ip \<or> e = CheckLock ip")
    case True
    moreover have "lockUntil a \<le> lockUntil (after_fail t' a)"
    proof -
      have "t \<le> t'" using assms(2) ev by (cases e) auto
      moreover have "lockUntil a \<le> t + lock_step (lockLevel a - 1)"
        using ok by (simp add: attempt_ok_def)
      moreover have "lock_step (lockLevel a - 1) \<le> lock_step (lockLevel a)" by (rule lock_step_mono) simp
      ultimately show ?thesis by (simp add: after_fail_def Let_def)
    qed
    ultimately show ?thesis
      using assms(2) ev g a by (auto simp: recordFail_def checkLock_def locked_until_def Let_def split: if_splits)
  next
    case False
    then show ?thesis
      using assms(2,4) ev by (cases e) (auto simp: locked_until_other recordSuccess_def locked_until_del)
  qed
qed

text \<open>a lock is durable. Whatever requests arrive meanwhile, from this address or from others, an
  address that is locked until an instant stays locked until that instant unless it logs in
  successfully.\<close>

theorem lock_is_durable:
  assumes "login_inv (tbl, t)" and "foldl login_step (tbl, t) events = (tbl', t')"
    and "t' < locked_until tbl ip" and "\<forall>ev \<in> set events. snd ev \<noteq> RecordSuccess ip"
  shows "snd (checkLock t' ip tbl') \<noteq> None"
proof -
  have "locked_until tbl ip \<le> locked_until tbl' ip \<and> t \<le> t'"
    using assms
  proof (induction events arbitrary: tbl t)
    case (Cons ev events)
    obtain tbl1 t1 where s: "login_step (tbl, t) ev = (tbl1, t1)" by fastforce
    have i: "login_inv (tbl1, t1)" using limiter.step_inv [OF Cons.prems(1), of ev] s by simp
    have tt: "t \<le> t1" using s by (cases ev; cases "snd ev") auto
    have mono: "t1 \<le> t'"
    proof -
      have "b \<le> snd (foldl login_step (a, b) es)" for a b es
      proof (induction es arbitrary: a b)
        case (Cons e es)
        obtain a1 b1 where "login_step (a, b) e = (a1, b1)" "b \<le> b1" by (cases e; cases "snd e") auto
        with Cons [of b1 a1] show ?case by simp
      qed simp
      from this [of t1 tbl1 events] Cons.prems(2) s show ?thesis by simp
    qed
    have "locked_until tbl ip \<le> locked_until tbl1 ip"
      using lock_kept [OF Cons.prems(1) s] Cons.prems(3,4) mono by simp
    moreover have "locked_until tbl1 ip \<le> locked_until tbl' ip \<and> t1 \<le> t'"
      using Cons.IH [OF i] Cons.prems s calculation by simp
    ultimately show ?case using tt by linarith
  qed simp
  moreover have "0 < t" using assms(1) by simp
  ultimately show ?thesis using assms(3) checkLock_iff [of t' ip tbl'] by simp
qed

definition failing :: "nat \<Rightarrow> (nat \<times> login_event) list" where
  "failing n = replicate n (1000, RecordFail ''1.2.3.4'')"

theorem lock_is_durable_witness:
  "let (tbl, t) = foldl login_step ([], 1) (failing 5);
       (tbl', t') = foldl login_step (tbl, t) [(10000, CheckLock ''1.2.3.4''), (1, RecordSuccess ''9.9.9.9'')]
   in t' < locked_until tbl ''1.2.3.4'' \<and> snd (checkLock t' ''1.2.3.4'' tbl') \<noteq> None"
proof -
  obtain tbl t where s: "foldl login_step ([], 1) (failing 5) = (tbl, t)" by fastforce
  obtain tbl' t' where s': "foldl login_step (tbl, t) [(10000, CheckLock ''1.2.3.4''), (1, RecordSuccess ''9.9.9.9'')] = (tbl', t')"
    by fastforce
  have "login_inv (tbl, t)" using limiter.run_inv [of "([], 1)" "failing 5"] s by simp
  moreover have "let (tbl, t) = foldl login_step ([], 1) (failing 5);
       (tbl', t') = foldl login_step (tbl, t) [(10000, CheckLock ''1.2.3.4''), (1, RecordSuccess ''9.9.9.9'')]
   in t' < locked_until tbl ''1.2.3.4''" by code_simp
  ultimately show ?thesis
    using lock_is_durable [OF _ s', of "''1.2.3.4''"] s s' by simp
qed

text \<open>five failures in a row lock the address, at once and for longer each time: 30 s, 2 min, 10 min,
  then 30 min.\<close>

theorem failures_lock_out:
  assumes "login_inv (tbl, t)" and "om_get tbl ip = Some e" and "fails e = MAX_FAILS_BEFORE_LOCK - 1"
    and "t + int d - lastFailAt e \<le> FAIL_WINDOW_MS"
    and "0 \<le> left" "left < lock_step (lockLevel e)"
  shows "snd (checkLock (t + int d + left) ip (fst (recordFail (t + int d) ip tbl))) \<noteq> None
    \<and> snd (recordFail (t + int d) ip tbl) = MAX_FAILS_BEFORE_LOCK
    \<and> lock_step (lockLevel e) \<le> lock_step (lockLevel e + 1)"
proof -
  have g: "getEntry (t + int d) ip tbl = (tbl, Some e)"
    using assms(2,4) by (auto simp: getEntry_def)
  have f: "fst (recordFail (t + int d) ip tbl) = om_set tbl ip (after_fail (t + int d) e)"
    "snd (recordFail (t + int d) ip tbl) = MAX_FAILS_BEFORE_LOCK"
    "lockUntil (after_fail (t + int d) e) = t + int d + lock_step (lockLevel e)"
    using assms(3) g by (simp_all add: recordFail_def after_fail_def Let_def MAX_FAILS_BEFORE_LOCK_def)
  have "snd (checkLock (t + int d + left) ip (fst (recordFail (t + int d) ip tbl))) \<noteq> None"
    using assms(1,5,6) by (subst checkLock_iff) (simp_all add: f locked_until_def)
  then show ?thesis using f lock_step_mono [of "lockLevel e" "lockLevel e + 1"] by simp
qed

theorem failures_lock_out_witness:
  "let (tbl, t) = foldl login_step ([], 1) (failing 4)
   in snd (checkLock (t + 1000 + 29999) ''1.2.3.4'' (fst (recordFail (t + 1000) ''1.2.3.4'' tbl))) \<noteq> None"
proof -
  obtain tbl t where s: "foldl login_step ([], 1) (failing 4) = (tbl, t)" by fastforce
  have i: "login_inv (tbl, t)" using limiter.run_inv [of "([], 1)" "failing 4"] s by simp
  have "let (tbl, t) = foldl login_step ([], 1) (failing 4)
    in om_get tbl ''1.2.3.4'' = Some \<lparr> fails = 4, lockUntil = 0, lockLevel = 0, lastFailAt = 4001 \<rparr> \<and> t = 4001"
    by code_simp
  then show ?thesis
    using failures_lock_out [OF i, of "''1.2.3.4''" "\<lparr> fails = 4, lockUntil = 0, lockLevel = 0, lastFailAt = 4001 \<rparr>" 1000 29999] s
    by (simp add: MAX_FAILS_BEFORE_LOCK_def FAIL_WINDOW_MS_def lock_step_eq)
qed

end
