(* ===== verification/JsRegex.thy ===== *)
theory JsRegex
  imports JsValue
begin

text \<open>
  The regular expressions the code uses, with the backtracking meaning of the language: a match
  is searched from left to right, alternatives in the order written, repetitions greedily, and a
  repetition never takes an empty round. Word boundaries, one-character lookaround and capture
  groups are included. Classes are predicates on characters; a case-insensitive class is written out.
\<close>

datatype rx =
    Eps
  | Cls "char \<Rightarrow> bool"
  | Seq rx rx
  | Alt rx rx
  | Star rx
  | Grp nat rx
  | WordB
  | NotBehind "char \<Rightarrow> bool"
  | NotAhead "char \<Rightarrow> bool"

text \<open>A position: the character before it, the rest of the subject, the groups captured so far.\<close>

record rx_pos =
  px_prev :: "char option"
  px_rest :: string
  px_caps :: "(nat \<times> string) list"

definition is_word :: "char option \<Rightarrow> bool" where
  "is_word c = (case c of None \<Rightarrow> False | Some c \<Rightarrow> let n = of_char c :: nat in
     (48 \<le> n \<and> n \<le> 57) \<or> (65 \<le> n \<and> n \<le> 90) \<or> (97 \<le> n \<and> n \<le> 122) \<or> n = 95)"

lemma is_word_code [code]: "is_word c = (case c of None \<Rightarrow> False | Some c \<Rightarrow> let n = of_char c :: int in
     (48 \<le> n \<and> n \<le> 57) \<or> (65 \<le> n \<and> n \<le> 90) \<or> (97 \<le> n \<and> n \<le> 122) \<or> n = 95)"
  by (simp add: is_word_def Let_def of_char_int cong: option.case_cong)

definition next_char :: "rx_pos \<Rightarrow> char option" where
  "next_char p = (case px_rest p of [] \<Rightarrow> None | c # _ \<Rightarrow> Some c)"

definition step_char :: "rx_pos \<Rightarrow> rx_pos" where
  "step_char p = (case px_rest p of [] \<Rightarrow> p | c # cs \<Rightarrow> p\<lparr> px_prev := Some c, px_rest := cs \<rparr>)"

definition consumed :: "rx_pos \<Rightarrow> rx_pos \<Rightarrow> string" where
  "consumed p q = take (length (px_rest p) - length (px_rest q)) (px_rest p)"

text \<open>The rounds of a repetition; the bound is the length of what is left.\<close>

fun star_rounds :: "nat \<Rightarrow> (rx_pos \<Rightarrow> rx_pos list) \<Rightarrow> rx_pos \<Rightarrow> rx_pos list" where
  "star_rounds 0 f p = [p]"
| "star_rounds (Suc n) f p =
     concat (map (star_rounds n f) (filter (\<lambda>q. length (px_rest q) < length (px_rest p)) (f p))) @ [p]"

text \<open>All ways to match from a position, the preferred one first.\<close>

primrec rx_match :: "rx \<Rightarrow> rx_pos \<Rightarrow> rx_pos list" where
  "rx_match Eps p = [p]"
| "rx_match (Cls P) p = (case next_char p of None \<Rightarrow> [] | Some c \<Rightarrow> if P c then [step_char p] else [])"
| "rx_match (Seq r s) p = concat (map (rx_match s) (rx_match r p))"
| "rx_match (Alt r s) p = rx_match r p @ rx_match s p"
| "rx_match (Star r) p = star_rounds (length (px_rest p)) (rx_match r) p"
| "rx_match (Grp i r) p = map (\<lambda>q. q\<lparr> px_caps := (i, consumed p q) # px_caps q \<rparr>) (rx_match r p)"
| "rx_match WordB p = (if is_word (px_prev p) \<noteq> is_word (next_char p) then [p] else [])"
| "rx_match (NotBehind P) p = (case px_prev p of None \<Rightarrow> [p] | Some c \<Rightarrow> if P c then [] else [p])"
| "rx_match (NotAhead P) p = (case next_char p of None \<Rightarrow> [p] | Some c \<Rightarrow> if P c then [] else [p])"

definition match_here :: "rx \<Rightarrow> rx_pos \<Rightarrow> rx_pos option" where
  "match_here r p = (case rx_match r p of [] \<Rightarrow> None | q # _ \<Rightarrow> Some q)"

text \<open>\<open>r.exec(s)\<close>: the text matched and its groups.\<close>

fun search_from :: "rx \<Rightarrow> char option \<Rightarrow> string \<Rightarrow> (string \<times> (nat \<times> string) list) option" where
  "search_from r prev [] = (let p = \<lparr> px_prev = prev, px_rest = [], px_caps = [] \<rparr> in
     case match_here r p of None \<Rightarrow> None | Some q \<Rightarrow> Some (consumed p q, px_caps q))"
| "search_from r prev (c # cs) = (let p = \<lparr> px_prev = prev, px_rest = c # cs, px_caps = [] \<rparr> in
     case match_here r p of None \<Rightarrow> search_from r (Some c) cs | Some q \<Rightarrow> Some (consumed p q, px_caps q))"

definition rx_exec :: "rx \<Rightarrow> string \<Rightarrow> (string \<times> (nat \<times> string) list) option" where
  "rx_exec r s = search_from r None s"

definition rx_test :: "rx \<Rightarrow> string \<Rightarrow> bool" where
  "rx_test r s = (rx_exec r s \<noteq> None)"

definition group :: "nat \<Rightarrow> (nat \<times> string) list \<Rightarrow> string" where
  "group i caps = (case om_get caps i of None \<Rightarrow> [] | Some s \<Rightarrow> s)"

text \<open>\<open>s.replace(r, u)\<close> and, for expressions that match no empty text, \<open>s.replace(r, u)\<close> with flag g;
  \<open>skip\<close> counts the characters still inside the last match.\<close>

fun replace_all_from :: "rx \<Rightarrow> string \<Rightarrow> nat \<Rightarrow> char option \<Rightarrow> string \<Rightarrow> string" where
  "replace_all_from r u skip prev [] = []"
| "replace_all_from r u (Suc n) prev (c # cs) = replace_all_from r u n (Some c) cs"
| "replace_all_from r u 0 prev (c # cs) =
     (let p = \<lparr> px_prev = prev, px_rest = c # cs, px_caps = [] \<rparr> in
      case match_here r p of None \<Rightarrow> c # replace_all_from r u 0 (Some c) cs
      | Some q \<Rightarrow> u @ replace_all_from r u (length (consumed p q) - 1) (Some c) cs)"

definition rx_replace_all :: "rx \<Rightarrow> string \<Rightarrow> string \<Rightarrow> string" where
  "rx_replace_all r s u = replace_all_from r u 0 None s"

text \<open>\<open>s.replace(t, "")\<close> for a string \<open>t\<close>: the first occurrence goes.\<close>

fun remove_first :: "string \<Rightarrow> string \<Rightarrow> string" where
  "remove_first [] t = []"
| "remove_first (c # cs) t = (if starts_with (c # cs) t then drop (length t) (c # cs) else c # remove_first cs t)"

text \<open>The first match of \<open>r\<close> replaced by nothing.\<close>

definition rx_remove_first :: "rx \<Rightarrow> string \<Rightarrow> string" where
  "rx_remove_first r s = (case rx_exec r s of None \<Rightarrow> s | Some _ \<Rightarrow>
     (let f = (\<lambda>i. match_here r \<lparr> px_prev = (if i = 0 then None else Some (s ! (i - 1))), px_rest = drop i s, px_caps = [] \<rparr>);
          i = hd (filter (\<lambda>i. f i \<noteq> None) [0..<Suc (length s)])
      in take i s @ (case f i of None \<Rightarrow> drop i s | Some q \<Rightarrow> px_rest q)))"

section \<open>Building blocks\<close>

definition Plus :: "rx \<Rightarrow> rx" where
  "Plus r = Seq r (Star r)"

definition OptRx :: "rx \<Rightarrow> rx" where
  "OptRx r = Alt r Eps"

text \<open>A literal under the flag i, and a choice of literals in order.\<close>

fun lit_ci :: "string \<Rightarrow> rx" where
  "lit_ci [] = Eps"
| "lit_ci [c] = Cls (\<lambda>d. lower_char d = lower_char c)"
| "lit_ci (c # cs) = Seq (Cls (\<lambda>d. lower_char d = lower_char c)) (lit_ci cs)"

lemma lit_ci_code [code]:
  "lit_ci [] = Eps"
  "lit_ci (c # cs) = (let l = lower_char c; r = Cls (\<lambda>d. lower_char d = l) in if cs = [] then r else Seq r (lit_ci cs))"
  by (cases cs; simp add: Let_def)+

fun any_of :: "rx list \<Rightarrow> rx" where
  "any_of [] = Cls (\<lambda>_. False)"
| "any_of [r] = r"
| "any_of (r # rs) = Alt r (any_of rs)"

fun seq_of :: "rx list \<Rightarrow> rx" where
  "seq_of [] = Eps"
| "seq_of [r] = r"
| "seq_of (r # rs) = Seq r (seq_of rs)"

definition is_alnum_ci :: "char \<Rightarrow> bool" where
  "is_alnum_ci c = (let n = of_char c :: nat in
     (48 \<le> n \<and> n \<le> 57) \<or> (65 \<le> n \<and> n \<le> 90) \<or> (97 \<le> n \<and> n \<le> 122))"

lemma is_alnum_ci_code [code]: "is_alnum_ci c = (let n = of_char c :: int in
     (48 \<le> n \<and> n \<le> 57) \<or> (65 \<le> n \<and> n \<le> 90) \<or> (97 \<le> n \<and> n \<le> 122))"
  by (simp add: is_alnum_ci_def Let_def of_char_int)

definition is_alpha_ci :: "char \<Rightarrow> bool" where
  "is_alpha_ci c = (let n = of_char c :: nat in (65 \<le> n \<and> n \<le> 90) \<or> (97 \<le> n \<and> n \<le> 122))"

lemma is_alpha_ci_code [code]:
  "is_alpha_ci c = (let n = of_char c :: int in (65 \<le> n \<and> n \<le> 90) \<or> (97 \<le> n \<and> n \<le> 122))"
  by (simp add: is_alpha_ci_def Let_def of_char_int)

text \<open>\<open>[-_ ]?\<close>\<close>

definition sep_opt :: rx where
  "sep_opt = OptRx (Cls (\<lambda>c. c \<in> {CHR ''-'', CHR ''_'', CHR '' ''}))"

text \<open>\<open>(?:\\.\\d+)?\<close> after \<open>\\d+\<close>, and \<open>\\s*\<close>\<close>

definition decimal_rx :: rx where
  "decimal_rx = Seq (Plus (Cls is_digit)) (OptRx (Seq (Cls (\<lambda>c. c = CHR ''.'')) (Plus (Cls is_digit))))"

definition spaces_rx :: rx where
  "spaces_rx = Star (Cls is_ws)"

section \<open>A match is a part of the subject\<close>

lemma star_rounds_suffix:
  assumes "\<And>p q. q \<in> set (f p) \<Longrightarrow> \<exists>u. px_rest p = u @ px_rest q"
  shows "q \<in> set (star_rounds n f p) \<Longrightarrow> \<exists>u. px_rest p = u @ px_rest q"
proof (induction n arbitrary: p)
  case (Suc n)
  show ?case
  proof (cases "q = p")
    case False
    then obtain r where r: "r \<in> set (f p)" "q \<in> set (star_rounds n f r)" using Suc.prems by auto
    obtain u v where "px_rest p = u @ px_rest r" "px_rest r = v @ px_rest q"
      using assms [OF r(1)] Suc.IH [OF r(2)] by blast
    then show ?thesis by simp
  qed simp
qed simp

lemma rx_match_suffix: "q \<in> set (rx_match r p) \<Longrightarrow> \<exists>u. px_rest p = u @ px_rest q"
proof (induction r arbitrary: p q)
  case (Seq r s)
  then obtain m where "m \<in> set (rx_match r p)" "q \<in> set (rx_match s m)" by auto
  with Seq.IH [of m p] Seq.IH(2) [of q m] show ?case by (metis append.assoc)
next
  case (Alt r s)
  then show ?case by auto
next
  case (Star r)
  then show ?case using star_rounds_suffix [of "rx_match r"] by simp
next
  case (Grp i r)
  then show ?case by auto
qed (auto simp: next_char_def step_char_def split: list.splits option.splits if_splits)

lemma match_here_suffix: "match_here r p = Some q \<Longrightarrow> \<exists>u. px_rest p = u @ px_rest q"
  using rx_match_suffix [of q r p] by (auto simp: match_here_def split: list.splits)

lemma consumed_append: "px_rest p = u @ px_rest q \<Longrightarrow> consumed p q = u"
  by (simp add: consumed_def)

lemma search_from_infix: "search_from r prev s = Some (m, caps) \<Longrightarrow> \<exists>u v. s = u @ m @ v"
proof (induction r prev s rule: search_from.induct)
  case (1 r prev)
  then show ?case by (auto simp: Let_def consumed_def split: option.splits)
next
  case (2 r prev c cs)
  let ?p = "\<lparr> px_prev = prev, px_rest = c # cs, px_caps = [] \<rparr>"
  show ?case
  proof (cases "match_here r ?p")
    case None
    then obtain u v where "cs = u @ m @ v" using 2 by (auto simp: Let_def)
    then show ?thesis by (intro exI [of _ "c # u"] exI [of _ v]) simp
  next
    case (Some q)
    then obtain u where u: "c # cs = u @ px_rest q" using match_here_suffix [OF Some] by auto
    then have "consumed ?p q = u" by (intro consumed_append) simp
    then have "m = u" using 2(2) Some by (simp add: Let_def)
    with u show ?thesis by (intro exI [of _ "[]"] exI [of _ "px_rest q"]) simp
  qed
qed

lemma rx_exec_infix: "rx_exec r s = Some (m, caps) \<Longrightarrow> \<exists>u v. s = u @ m @ v"
  unfolding rx_exec_def by (rule search_from_infix)

end
