(* ===== verification/QuotaWindows.thy ===== *)
theory QuotaWindows
  imports JsRegex JsDate
begin

text \<open>
  Quota windows, the first half of src/shared/utils/quotaRanking.js, with
  src/shared/utils/accountModelEligibility.js: how the name of a window is classified and given a
  horizon, how the rows of an account are normalized, and how they are resolved against the
  injected clock. Times are exact rationals of milliseconds. The order of two windows with the
  same horizon is the host's \<open>localeCompare\<close>, a parameter \<open>collate\<close> of the definitions that sort.
  A lookup on an object literal sees the members the literal writes.
\<close>

section \<open>Vocabulary\<close>

fun lookup :: "(string \<times> 'a) list \<Rightarrow> string \<Rightarrow> 'a option" where
  "lookup m k = om_get m k"

definition UNIT_MS :: "(string \<times> rat) list" where
  "UNIT_MS = [(''m'', 60000), (''min'', 60000), (''h'', 3600000), (''d'', 86400000), (''w'', 604800000),
     (''mo'', 2592000000), (''month'', 2592000000), (''y'', 31536000000), (''year'', 31536000000)]"

definition BARE_NAME_MS :: "(string \<times> rat) list" where
  "BARE_NAME_MS = [(''hourly'', 3600000), (''daily'', 86400000), (''weekly'', 604800000),
     (''monthly'', 2592000000), (''annual'', 31536000000), (''yearly'', 31536000000)]"

definition SCOPED_MARKERS :: rx where
  "SCOPED_MARKERS = seq_of [WordB,
     Grp 1 (any_of [seq_of [lit_ci ''per'', sep_opt, lit_ci ''model''], seq_of [lit_ci ''per'', sep_opt, lit_ci ''feature''],
       lit_ci ''model'', lit_ci ''feature'', lit_ci ''tool'', lit_ci ''agent'']), WordB]"

definition period_names :: rx where
  "period_names = any_of [lit_ci ''session'', seq_of [lit_ci ''rate'', sep_opt, lit_ci ''limit''], lit_ci ''hourly'',
     lit_ci ''daily'', lit_ci ''weekly'', lit_ci ''monthly'', lit_ci ''annual'', lit_ci ''yearly'']"

definition GENERAL_NAMES :: rx where
  "GENERAL_NAMES = seq_of [NotBehind is_alnum_ci, Grp 1 period_names, NotAhead is_alnum_ci]"

definition duration_rx :: "rx \<Rightarrow> rx \<Rightarrow> rx" where
  "duration_rx number unit = seq_of [Cls (\<lambda>c. c = CHR ''(''), spaces_rx, number, spaces_rx, unit, spaces_rx,
     Cls (\<lambda>c. c = CHR '')'')]"

definition PARENTHETICAL_DURATION :: rx where
  "PARENTHETICAL_DURATION = duration_rx decimal_rx (Plus (Cls is_alpha_ci))"

definition isQualifiedPeriod :: "string \<Rightarrow> bool" where
  "isQualifiedPeriod name = (let bare = rx_remove_first PARENTHETICAL_DURATION name in
     case rx_exec GENERAL_NAMES bare of None \<Rightarrow> False
     | Some (period, _) \<Rightarrow> filter is_alnum_ci (remove_first bare period) \<noteq> [])"

definition MIN_REAL_HORIZON_MS :: rat where
  "MIN_REAL_HORIZON_MS = 60000"

definition scope_name :: "jv \<Rightarrow> string" where
  "scope_name scope = jstr (coalesce scope (Str []))"

definition bare_horizon :: "string \<Rightarrow> jsnum" where
  "bare_horizon name = (case rx_exec GENERAL_NAMES name of None \<Rightarrow> Fin 1
     | Some (_, caps) \<Rightarrow>
         (case lookup BARE_NAME_MS (filter (\<lambda>c. c \<notin> {CHR ''-'', CHR ''_'', CHR '' ''}) (to_lower (group 1 caps))) of
            Some ms \<Rightarrow> Fin ms | None \<Rightarrow> Fin 1))"

definition windowHorizonMs :: "jv \<Rightarrow> jsnum" where
  "windowHorizonMs scope =
     (let name = scope_name scope in
      case rx_exec (duration_rx (Grp 1 decimal_rx) (Grp 2 (Plus (Cls is_alpha_ci)))) name of
        Some (_, caps) \<Rightarrow> (case lookup UNIT_MS (to_lower (group 2 caps)) of
            Some unit \<Rightarrow> num_mul (string_to_number (group 1 caps)) (Fin unit)
          | None \<Rightarrow> bare_horizon name)
      | None \<Rightarrow> bare_horizon name)"

datatype window_kind = General | Scoped

definition classifyWindow :: "jv \<Rightarrow> window_kind option" where
  "classifyWindow scope =
     (let name = trim (scope_name scope) in
      if name = [] then None
      else if rx_test SCOPED_MARKERS name \<and> \<not> rx_test GENERAL_NAMES name then Some Scoped
      else if isQualifiedPeriod name then Some Scoped
      else if rx_test GENERAL_NAMES name then Some General
      else if rx_test PARENTHETICAL_DURATION name then Some General
      else None)"

section \<open>Model eligibility\<close>

definition accountSupportsModel :: "jv \<Rightarrow> jv \<Rightarrow> bool" where
  "accountSupportsModel account model =
     (let enabled = get (get account ''providerSpecificData'') ''enabledModels'' in
      if \<not> truthy model \<or> \<not> is_array enabled \<or> arr_items enabled = [] then True
      else model \<in> set (arr_items enabled)
        \<or> Str (jstr (get account ''provider'') @ ''/'' @ jstr model) \<in> set (arr_items enabled))"

definition non_alnum_run :: rx where
  "non_alnum_run = Plus (Cls (\<lambda>c. \<not> is_alnum_ci c))"

definition window_words :: rx where
  "window_words = seq_of [WordB,
     any_of [seq_of [lit_ci ''per'', sep_opt, lit_ci ''model''], lit_ci ''model'', period_names], WordB]"

definition scope_qualifier :: "jv \<Rightarrow> string" where
  "scope_qualifier scope =
     (let s1 = rx_replace_all (seq_of [Cls (\<lambda>c. c = CHR ''(''), Star (Cls (\<lambda>c. c \<noteq> CHR '')'')), Cls (\<lambda>c. c = CHR '')'')])
            (scope_name scope) [];
          s2 = rx_replace_all non_alnum_run s1 '' '';
          s3 = rx_replace_all window_words s2 '' ''
      in to_lower (trim (rx_replace_all non_alnum_run s3 '' '')))"

definition scopeAppliesToModel :: "jv \<Rightarrow> jv \<Rightarrow> bool" where
  "scopeAppliesToModel scope model = (case model of
     Str (c # cs) \<Rightarrow> (let qualifier = scope_qualifier scope;
         normalized = '' '' @ rx_replace_all non_alnum_run (to_lower (c # cs)) '' '' @ '' ''
       in qualifier \<noteq> [] \<and> str_includes normalized ('' '' @ qualifier @ '' ''))
   | _ \<Rightarrow> False)"

section \<open>Readings\<close>

definition parseResetAt :: "jv \<Rightarrow> int option" where
  "parseResetAt value = (case value of Str s \<Rightarrow> if trim s = [] then None else date_parse s | _ \<Rightarrow> None)"

definition blank_value :: "jv \<Rightarrow> bool" where
  "blank_value v \<longleftrightarrow> is_nullish v \<or> is_bool v \<or> trim (jstr v) = []"

definition finiteNonNegative :: "jv \<Rightarrow> rat option" where
  "finiteNonNegative v = (if blank_value v then None
     else case to_number v of Fin r \<Rightarrow> if 0 \<le> r then Some r else None | _ \<Rightarrow> None)"

definition effectiveResetAt :: "jsnum \<Rightarrow> jsnum \<Rightarrow> jsnum \<Rightarrow> rat option" where
  "effectiveResetAt resetAt horizonMs nowMs = (case (resetAt, nowMs) of
     (Fin r, Fin n) \<Rightarrow>
       if n < r then Some r
       else (case horizonMs of Fin h \<Rightarrow>
           if h < MIN_REAL_HORIZON_MS then None else Some (r + of_int (\<lfloor>(n - r) / h\<rfloor> + 1) * h)
         | _ \<Rightarrow> None)
   | _ \<Rightarrow> None)"

record window =
  w_scope :: string
  w_horizonMs :: jsnum
  w_remaining :: rat
  w_limit :: rat
  w_resetAt :: int
  w_observedAt :: "int option"
  w_confidence :: string
  w_scoped :: bool

record structural =
  st_ok :: bool
  st_windows :: "window list"
  st_reason :: "string option"
  st_unreadable :: nat
  st_reasons :: "string list"
  st_blocked :: bool

text \<open>What one row contributes: nothing, a reading that cannot be used with its reasons, a window
  that states a ceiling of zero, or a window.\<close>

datatype row_result = Skipped | Unreadable "string list" | ZeroCeiling string | Reading window

definition declared_zero :: "jv \<Rightarrow> bool" where
  "declared_zero limit = (\<not> blank_value limit
     \<and> (case to_number limit of Fin r \<Rightarrow> r \<le> 0 | _ \<Rightarrow> False))"

definition read_window :: "jv \<Rightarrow> jv \<Rightarrow> row_result" where
  "read_window model w =
     (if \<not> is_object w then Unreadable [''malformed-window'']
      else let scope = get w ''scope'' in
        (case classifyWindow scope of
           None \<Rightarrow> Unreadable [''unclassifiable-scope:'' @ jstr scope]
         | Some kind \<Rightarrow>
             if kind = Scoped \<and> \<not> scopeAppliesToModel scope model then Skipped
             else let remaining = finiteNonNegative (get w ''remaining''); limit = finiteNonNegative (get w ''limit'');
                    resetAt = parseResetAt (get w ''resetAt'') in
               if declared_zero (get w ''limit'') then ZeroCeiling (''bad-limit:'' @ jstr scope)
               else (case (remaining, limit, resetAt) of
                   (Some left, Some lmt, Some reset) \<Rightarrow>
                     if lmt \<le> 0 then Unreadable [''bad-limit:'' @ jstr scope]
                     else Reading \<lparr> w_scope = jstr scope, w_horizonMs = windowHorizonMs scope, w_remaining = left,
                            w_limit = lmt, w_resetAt = reset, w_observedAt = parseResetAt (get w ''observedAt''),
                            w_confidence = (case get w ''confidence'' of Str s \<Rightarrow> s | _ \<Rightarrow> ''unknown''),
                            w_scoped = (kind = Scoped) \<rparr>
                 | _ \<Rightarrow> Unreadable
                     ((if remaining = None then [''bad-remaining:'' @ jstr scope] else [])
                      @ (if limit = None \<or> the limit \<le> 0 then [''bad-limit:'' @ jstr scope] else [])
                      @ (if resetAt = None then [''bad-resetAt:'' @ jstr scope] else [])))))"

text \<open>The loop over the rows: the general windows, the number of unreadable rows, the reasons, and
  whether a ceiling of zero was stated.\<close>

fun read_windows :: "jv \<Rightarrow> jv list \<Rightarrow> window list \<times> nat \<times> string list \<times> bool" where
  "read_windows model [] = ([], 0, [], False)"
| "read_windows model (w # ws) = (let (general, unreadable, reasons, blocked) = read_windows model ws in
     case read_window model w of
       Skipped \<Rightarrow> (general, unreadable, reasons, blocked)
     | Unreadable why \<Rightarrow> (general, unreadable + 1, why @ reasons, blocked)
     | ZeroCeiling why \<Rightarrow> (general, unreadable, why # reasons, True)
     | Reading r \<Rightarrow> (r # general, unreadable, reasons, blocked))"

text \<open>\<open>b.horizonMs - a.horizonMs || a.scope.localeCompare(b.scope)\<close>\<close>

definition longer_first :: "(string \<Rightarrow> string \<Rightarrow> bool) \<Rightarrow> window \<Rightarrow> window \<Rightarrow> bool" where
  "longer_first collate a b \<longleftrightarrow> w_horizonMs b < w_horizonMs a
     \<or> w_horizonMs a = w_horizonMs b \<and> collate (w_scope a) (w_scope b)"

definition normalizeAccountWindows :: "(string \<Rightarrow> string \<Rightarrow> bool) \<Rightarrow> jv \<Rightarrow> jv \<Rightarrow> structural" where
  "normalizeAccountWindows collate windows model =
     (if \<not> is_array windows \<or> arr_items windows = []
      then \<lparr> st_ok = False, st_windows = [], st_reason = Some ''no-windows'', st_unreadable = 0,
             st_reasons = [], st_blocked = False \<rparr>
      else let (general, unreadable, reasons, blocked) = read_windows model (arr_items windows) in
        if general = []
        then \<lparr> st_ok = False, st_windows = [],
               st_reason = Some (case reasons of [] \<Rightarrow> ''no-general-windows'' | r # _ \<Rightarrow> r),
               st_unreadable = unreadable, st_reasons = reasons, st_blocked = blocked \<rparr>
        else \<lparr> st_ok = True, st_windows = js_sort (longer_first collate) general, st_reason = None,
               st_unreadable = unreadable, st_reasons = reasons, st_blocked = blocked \<rparr>)"

record orderable = window +
  o_effectiveResetAt :: rat
  o_effectiveRemaining :: rat
  o_replenished :: bool

definition resolve_window :: "rat \<Rightarrow> window \<Rightarrow> orderable option" where
  "resolve_window nowMs w =
     (case effectiveResetAt (Fin (of_int (w_resetAt w))) (w_horizonMs w) (Fin nowMs) of None \<Rightarrow> None
      | Some e \<Rightarrow> let replenished = of_int (w_resetAt w) \<le> nowMs in
          Some (window.extend w \<lparr> o_effectiveResetAt = e,
             o_effectiveRemaining = (if replenished then w_limit w else w_remaining w), o_replenished = replenished \<rparr>))"

definition longer_first_o :: "(string \<Rightarrow> string \<Rightarrow> bool) \<Rightarrow> orderable \<Rightarrow> orderable \<Rightarrow> bool" where
  "longer_first_o collate a b \<longleftrightarrow> w_horizonMs b < w_horizonMs a
     \<or> w_horizonMs a = w_horizonMs b \<and> collate (w_scope a) (w_scope b)"

fun resolve_all :: "rat \<Rightarrow> window list \<Rightarrow> orderable list \<times> nat" where
  "resolve_all nowMs [] = ([], 0)"
| "resolve_all nowMs (w # ws) = (let (os, n) = resolve_all nowMs ws in
     case resolve_window nowMs w of None \<Rightarrow> (os, n + 1) | Some r \<Rightarrow> (r # os, n))"

text \<open>The orderable windows, the count of unreadable ones, and whether every known window has room.\<close>

definition resolveWindows :: "(string \<Rightarrow> string \<Rightarrow> bool) \<Rightarrow> structural \<Rightarrow> rat \<Rightarrow> orderable list \<times> nat \<times> bool" where
  "resolveWindows collate st nowMs =
     (let (os, n) = resolve_all nowMs (if st_ok st then st_windows st else [])
      in (js_sort (longer_first_o collate) os, st_unreadable st + n,
          \<not> st_blocked st \<and> (\<forall>w \<in> set os. 0 < o_effectiveRemaining w)))"

end
