(* ===== verification/QuotaRanking.thy ===== *)
theory QuotaRanking
  imports QuotaWindows
begin

text \<open>
  Compound quota ranking, the second half of src/shared/utils/quotaRanking.js: the bands, the
  headroom floor, the load of an account, the comparison of deadlines by horizon, and
  \<open>rankAccounts\<close> with its decision trace.

  A comparator returns a rational whose sign is the sign of the number the code returns; a
  difference of two infinite priorities is NaN there, which the code's \<open>||\<close> treats as zero.
  \<open>rankAccounts\<close> throws in two ways, both values of \<open>rank_error\<close>: a TypeError for a clock that is no
  finite number, and the RangeError of \<open>toISOString\<close> on a reset beyond the range of dates.
\<close>

definition CONFIDENCE_BAND :: "(string \<times> nat) list" where
  "CONFIDENCE_BAND = [(''fresh'', 0), (''stale'', 1), (''unknown'', 2)]"

definition BAND_NAME :: "string list" where
  "BAND_NAME = [''fresh'', ''stale'', ''unknown'']"

definition confidence_band :: "string \<Rightarrow> nat" where
  "confidence_band c = (case lookup CONFIDENCE_BAND c of None \<Rightarrow> 2 | Some b \<Rightarrow> b)"

definition bandOf :: "orderable list \<Rightarrow> nat" where
  "bandOf os = (if os = [] then 2 else foldl (\<lambda>worst w. max worst (confidence_band (w_confidence w))) 0 os)"

definition evidenceBandOf :: "orderable list \<Rightarrow> nat \<Rightarrow> nat" where
  "evidenceBandOf os unreadable = (if os = [] then 2 else if 0 < unreadable then 1 else 0)"

definition priorityOf :: "jv \<Rightarrow> jsnum" where
  "priorityOf account = (case to_number (get account ''priority'') of Fin p \<Rightarrow> Fin p | _ \<Rightarrow> PInf)"

definition HEADROOM_FLOOR_FRACTION :: rat where
  "HEADROOM_FLOOR_FRACTION = 5 / 100"

definition HEADROOM_FLOOR_MIN_UNITS :: rat where
  "HEADROOM_FLOOR_MIN_UNITS = 1"

definition headroomFloorOf :: "rat \<Rightarrow> rat" where
  "headroomFloorOf lmt = (if lmt \<le> 0 then HEADROOM_FLOOR_MIN_UNITS
     else max HEADROOM_FLOOR_MIN_UNITS (lmt * HEADROOM_FLOOR_FRACTION))"

definition hasHeadroom :: "orderable list \<Rightarrow> bool" where
  "hasHeadroom os = list_all (\<lambda>w. headroomFloorOf (w_limit w) \<le> o_effectiveRemaining w) os"

definition positive_count :: "jv \<Rightarrow> rat" where
  "positive_count v = (case to_number v of Fin r \<Rightarrow> if 0 < r then r else 0 | _ \<Rightarrow> 0)"

definition loadOf :: "jv \<Rightarrow> jv \<Rightarrow> rat" where
  "loadOf activeLoad i = (let entry = get activeLoad (jstr i) in
     if \<not> truthy activeLoad \<or> \<not> is_object entry then 0
     else positive_count (get entry ''pins'') + positive_count (get entry ''inFlight''))"

definition DEADLINE_BUCKETS_PER_HORIZON :: rat where
  "DEADLINE_BUCKETS_PER_HORIZON = 24"

definition deadlineBucket :: "jsnum \<Rightarrow> jsnum \<Rightarrow> jsnum" where
  "deadlineBucket resetAt horizonMs = (case resetAt of
     Fin r \<Rightarrow> (case horizonMs of
         Fin h \<Rightarrow> if h < MIN_REAL_HORIZON_MS then Fin r
           else Fin (of_int \<lfloor>r / (h / DEADLINE_BUCKETS_PER_HORIZON)\<rfloor>)
       | _ \<Rightarrow> Fin r)
   | _ \<Rightarrow> PInf)"

section \<open>Records\<close>

record rank_record =
  rk_id :: jv
  rk_account :: jv
  rk_index :: nat
  rk_priority :: jsnum
  rk_windows :: "orderable list"
  rk_valid :: bool
  rk_reason :: "string option"
  rk_unreadable :: nat
  rk_usable :: bool
  rk_hardBlocked :: bool
  rk_deadlines :: "(jsnum \<times> rat) list"
  rk_load :: rat
  rk_headroom :: bool
  rk_evidenceBand :: nat
  rk_band :: nat
  rk_bindingResetAt :: jsnum
  rk_soonestResetAt :: jsnum

fun deadlines_of :: "orderable list \<Rightarrow> (jsnum \<times> rat) list \<Rightarrow> (jsnum \<times> rat) list" where
  "deadlines_of [] m = m"
| "deadlines_of (w # ws) m = deadlines_of ws (om_set m (w_horizonMs w)
     (case om_get m (w_horizonMs w) of None \<Rightarrow> o_effectiveResetAt w | Some d \<Rightarrow> min d (o_effectiveResetAt w)))"

definition rank_record_of :: "(string \<Rightarrow> string \<Rightarrow> bool) \<Rightarrow> rat \<Rightarrow> jv \<Rightarrow> jv \<Rightarrow> nat \<Rightarrow> jv \<Rightarrow> rank_record" where
  "rank_record_of collate nowMs activeLoad model index account =
     (let st = normalizeAccountWindows collate (get account ''windows'') model;
          (os, unreadable, usable) = resolveWindows collate st nowMs;
          general = filter (\<lambda>w. \<not> w_scoped w) os;
          entitled = accountSupportsModel account model
      in \<lparr> rk_id = get account ''id'', rk_account = account, rk_index = index, rk_priority = priorityOf account,
           rk_windows = os, rk_valid = st_ok st,
           rk_reason = (if st_ok st then (if 0 < unreadable then Some (''partial-evidence:'' @ join_with '','' (st_reasons st)) else None)
             else st_reason st),
           rk_unreadable = unreadable, rk_usable = (usable \<and> entitled), rk_hardBlocked = (st_blocked st \<or> \<not> entitled),
           rk_deadlines = deadlines_of general [], rk_load = loadOf activeLoad (get account ''id''),
           rk_headroom = hasHeadroom os, rk_evidenceBand = evidenceBandOf general unreadable, rk_band = bandOf general,
           rk_bindingResetAt = (case os of [] \<Rightarrow> PInf | w # _ \<Rightarrow> Fin (o_effectiveResetAt w)),
           rk_soonestResetAt = (case os of [] \<Rightarrow> PInf | _ \<Rightarrow> Fin (Min (set (map o_effectiveResetAt os)))) \<rparr>)"

section \<open>Comparing\<close>

text \<open>\<open>a.deadlines.get(horizon) ?? Infinity\<close>, in the bucket of its horizon.\<close>

definition bucket_at :: "rank_record \<Rightarrow> jsnum \<Rightarrow> jsnum" where
  "bucket_at r horizon = deadlineBucket
     (case om_get (rk_deadlines r) horizon of None \<Rightarrow> PInf | Some d \<Rightarrow> Fin d) horizon"

fun compare_at :: "rank_record \<Rightarrow> rank_record \<Rightarrow> jsnum list \<Rightarrow> rat" where
  "compare_at a b [] = 0"
| "compare_at a b (h # hs) = (let left = bucket_at a h; right = bucket_at b h in
     if left \<noteq> right then (if left < right then -1 else 1) else compare_at a b hs)"

definition compareHorizons :: "rank_record \<Rightarrow> rank_record \<Rightarrow> rat" where
  "compareHorizons a b = compare_at a b
     (rev (sort (remdups (map fst (rk_deadlines a) @ map fst (rk_deadlines b)))))"

record rank_context =
  cx_spreadByLoad :: bool
  cx_previousPinId :: jv

definition cmp_num :: "jsnum \<Rightarrow> jsnum \<Rightarrow> rat" where
  "cmp_num x y = (if x < y then -1 else if y < x then 1 else 0)"

definition pin_rank :: "rank_context \<Rightarrow> rank_record \<Rightarrow> rat" where
  "pin_rank cx r = (if seq (rk_id r) (cx_previousPinId cx) then 0 else 1)"

text \<open>\<open>x || y\<close> on numbers\<close>

definition or_else :: "rat \<Rightarrow> rat \<Rightarrow> rat" where
  "or_else x y = (if x \<noteq> 0 then x else y)"

definition stickyThenDeclared :: "rank_context \<Rightarrow> rank_record \<Rightarrow> rank_record \<Rightarrow> rat" where
  "stickyThenDeclared cx a b = or_else (pin_rank cx a - pin_rank cx b)
     (or_else (cmp_num (rk_priority a) (rk_priority b)) (of_nat (rk_index a) - of_nat (rk_index b)))"

definition byLoad :: "rank_context \<Rightarrow> rank_record \<Rightarrow> rank_record \<Rightarrow> rat" where
  "byLoad cx a b = (if \<not> cx_spreadByLoad cx then 0 else rk_load a - rk_load b)"

definition byHeadroom :: "rank_context \<Rightarrow> rank_record \<Rightarrow> rank_record \<Rightarrow> rat" where
  "byHeadroom cx a b = (if cx_spreadByLoad cx \<and> rk_headroom a \<noteq> rk_headroom b
     then (if rk_headroom a then -1 else 1) else 0)"

definition fallback_compare :: "rank_context \<Rightarrow> rank_record \<Rightarrow> rank_record \<Rightarrow> rat" where
  "fallback_compare cx a b = or_else (byHeadroom cx a b) (or_else (byLoad cx a b) (stickyThenDeclared cx a b))"

definition rank_compare :: "rank_context \<Rightarrow> rank_record \<Rightarrow> rank_record \<Rightarrow> rat" where
  "rank_compare cx a b =
     (if rk_usable a \<noteq> rk_usable b then (if rk_usable a then -1 else 1)
      else if byHeadroom cx a b \<noteq> 0 then byHeadroom cx a b
      else if rk_evidenceBand a \<noteq> rk_evidenceBand b then of_nat (rk_evidenceBand a) - of_nat (rk_evidenceBand b)
      else if rk_band a \<noteq> rk_band b then of_nat (rk_band a) - of_nat (rk_band b)
      else if compareHorizons a b \<noteq> 0 then compareHorizons a b
      else if byLoad cx a b \<noteq> 0 then byLoad cx a b
      else stickyThenDeclared cx a b)"

abbreviation fallback_lt :: "rank_context \<Rightarrow> rank_record \<Rightarrow> rank_record \<Rightarrow> bool" where
  "fallback_lt cx a b \<equiv> fallback_compare cx a b < 0"

abbreviation rank_lt :: "rank_context \<Rightarrow> rank_record \<Rightarrow> rank_record \<Rightarrow> bool" where
  "rank_lt cx a b \<equiv> rank_compare cx a b < 0"

section \<open>The decision trace\<close>

datatype rank_error = ClockTypeError string | InvalidDate

record trace_entry =
  tr_cls :: string
  tr_verdict :: string
  tr_fields :: "(string \<times> jv) list"

definition js_round :: "rat \<Rightarrow> int" where
  "js_round x = \<lfloor>x + 1 / 2\<rfloor>"

definition ageToken :: "int option list \<Rightarrow> rat \<Rightarrow> string option" where
  "ageToken observedAts nowMs =
     (let known = map the (filter (\<lambda>x. x \<noteq> None) observedAts) in
      if known = [] then None
      else let mins = max 0 (js_round ((nowMs - of_int (Max (set known))) / 60000)) in
        if mins \<le> 0 then None
        else if mins < 60 then Some (int_str mins @ ''m'')
        else let hours = js_round (of_int mins / 60) in
          if hours < 48 then Some (int_str hours @ ''h'') else Some (int_str (js_round (of_int hours / 24)) @ ''d''))"

definition soonestResetOf :: "orderable list \<Rightarrow> rank_error + jv" where
  "soonestResetOf os = (if os = [] then Inr Null
     else case num_to_time (Fin (Min (set (map o_effectiveResetAt os)))) of
       None \<Rightarrow> Inl InvalidDate | Some t \<Rightarrow> Inr (Str (to_iso t)))"

definition minRemainingOf :: "orderable list \<Rightarrow> jv" where
  "minRemainingOf os = (if os = [] then Null else Num (Fin (Min (set (map o_effectiveRemaining os)))))"

definition id8 :: "jv \<Rightarrow> string" where
  "id8 v = take 8 (jstr (coalesce v (Str [])))"

definition altToken :: "rat \<Rightarrow> rank_record \<Rightarrow> string" where
  "altToken nowMs r = id8 (rk_id r) @ '':'' @ (if rk_band r < length BAND_NAME then BAND_NAME ! rk_band r else ''unknown'')
     @ (case ageToken (map w_observedAt (rk_windows r)) nowMs of None \<Rightarrow> [] | Some age \<Rightarrow> CHR '':'' # age)
     @ (if 0 < rk_load r then '':l'' @ rat_str (rk_load r) else [])"

definition decidedKey :: "rank_context \<Rightarrow> rank_record \<Rightarrow> rank_record \<Rightarrow> string" where
  "decidedKey cx a b =
     (if rk_usable a \<noteq> rk_usable b then ''eligibility''
      else if cx_spreadByLoad cx \<and> rk_headroom a \<noteq> rk_headroom b then ''headroom''
      else if rk_evidenceBand a \<noteq> rk_evidenceBand b \<or> rk_band a \<noteq> rk_band b then ''evidence-band''
      else if compareHorizons a b \<noteq> 0 then ''reset-horizon''
      else if cx_spreadByLoad cx \<and> rk_load a \<noteq> rk_load b then ''load-spread''
      else if seq (rk_id a) (cx_previousPinId cx) \<noteq> seq (rk_id b) (cx_previousPinId cx) then ''pinned-continuity''
      else if rk_priority a \<noteq> rk_priority b then ''configured-priority''
      else ''fallback-order'')"

definition other_than :: "rank_record \<Rightarrow> rank_record \<Rightarrow> bool" where
  "other_than winner r \<longleftrightarrow> \<not> seq (rk_id r) (rk_id winner)"

definition winTrace :: "rank_context \<Rightarrow> rat \<Rightarrow> rank_record \<Rightarrow> rank_record list \<Rightarrow> rank_error + trace_entry" where
  "winTrace cx nowMs winner all =
     (case soonestResetOf (rk_windows winner) of Inl e \<Rightarrow> Inl e
      | Inr reset \<Rightarrow> Inr \<lparr> tr_cls = ''SEL'', tr_verdict = ''win'', tr_fields =
          [(''conn'', Str (id8 (rk_id winner))),
           (''key'', Str (case find (\<lambda>r. rk_usable r \<and> other_than winner r) all of
               None \<Rightarrow> ''fallback-order'' | Some runnerUp \<Rightarrow> decidedKey cx winner runnerUp)),
           (''win'', Bool True),
           (''alt'', Arr (map (\<lambda>r. Str (altToken nowMs r)) (take 3 (filter (other_than winner) all))))]
          @ (if minRemainingOf (rk_windows winner) = Null then [] else [(''rem'', minRemainingOf (rk_windows winner))])
          @ (if truthy reset then [(''reset'', reset)] else []) \<rparr>)"

definition before_comma :: "string \<Rightarrow> string" where
  "before_comma s = takeWhile (\<lambda>c. c \<noteq> CHR '','') s"

definition evidenceTrace :: "rank_record list \<Rightarrow> trace_entry list" where
  "evidenceTrace all = (case find (\<lambda>r. \<not> rk_valid r \<or> 0 < rk_unreadable r) all of None \<Rightarrow> []
     | Some bad \<Rightarrow>
         let reason = (case rk_reason bad of None \<Rightarrow> [] | Some s \<Rightarrow> s);
             why = (if rk_valid bad
               then before_comma (if starts_with reason ''partial-evidence:'' then drop (length ''partial-evidence:'') reason else reason)
               else reason)
         in [\<lparr> tr_cls = ''RANK'', tr_verdict = ''invalid-record'', tr_fields = [(''conn'', Str (id8 (rk_id bad))), (''why'', Str why)] \<rparr>])"

definition depletedTrace :: "rat \<Rightarrow> rank_record list \<Rightarrow> jv \<Rightarrow> trace_entry" where
  "depletedTrace nowMs all reset = \<lparr> tr_cls = ''RANK'', tr_verdict = ''depleted'',
     tr_fields = [(''win'', Bool False), (''alt'', Arr (map (\<lambda>r. Str (altToken nowMs r)) all)), (''reset'', reset)] \<rparr>"

section \<open>Ranking\<close>

record ranking =
  rg_ranked :: "rank_record list"
  rg_eligible :: "rank_record list"
  rg_ineligible :: "rank_record list"
  rg_winner :: "rank_record option"
  rg_degraded :: bool
  rg_reason :: "string option"
  rg_trace :: "trace_entry list"

definition first_of :: "'a list \<Rightarrow> 'a option" where
  "first_of xs = (case xs of [] \<Rightarrow> None | x # _ \<Rightarrow> Some x)"

definition empty_ranking :: ranking where
  "empty_ranking = \<lparr> rg_ranked = [], rg_eligible = [], rg_ineligible = [], rg_winner = None, rg_degraded = False,
     rg_reason = Some ''empty-cohort'', rg_trace = [\<lparr> tr_cls = ''RANK'', tr_verdict = ''degraded'',
       tr_fields = [(''win'', Bool False), (''why'', Str ''empty-cohort'')] \<rparr>] \<rparr>"

definition spread_by_load :: "jv \<Rightarrow> jv \<Rightarrow> rank_record list \<Rightarrow> bool" where
  "spread_by_load activeLoad previousPinId records =
     (if is_nullish activeLoad then False
      else if previousPinId = Null then True
      else case find (\<lambda>r. seq (rk_id r) previousPinId) records of None \<Rightarrow> True | Some pinned \<Rightarrow> \<not> rk_usable pinned)"

definition rank_records :: "(string \<Rightarrow> string \<Rightarrow> bool) \<Rightarrow> rat \<Rightarrow> jv \<Rightarrow> jv \<Rightarrow> jv list \<Rightarrow> rank_record list" where
  "rank_records collate nowMs activeLoad model accounts =
     map (\<lambda>(i, a). rank_record_of collate nowMs activeLoad model i a) (zip [0..<length accounts] accounts)"

definition rank_order :: "rank_context \<Rightarrow> rank_record list \<Rightarrow> rank_record list" where
  "rank_order cx records = (if \<exists>r \<in> set records. rk_windows r \<noteq> []
     then js_sort (rank_lt cx) records else js_sort (fallback_lt cx) records)"

definition outcome_trace :: "rank_context \<Rightarrow> rat \<Rightarrow> bool \<Rightarrow> rank_record list \<Rightarrow> rank_error + trace_entry" where
  "outcome_trace cx nowMs anyEvidence ranked = (case filter rk_usable ranked of
     winner # _ \<Rightarrow> winTrace cx nowMs winner ranked
   | [] \<Rightarrow> if anyEvidence
       then (case soonestResetOf (concat (map rk_windows ranked)) of Inl e \<Rightarrow> Inl e
         | Inr reset \<Rightarrow> Inr (depletedTrace nowMs ranked reset))
       else Inr (depletedTrace nowMs ranked Null))"

definition rankAccounts :: "(string \<Rightarrow> string \<Rightarrow> bool) \<Rightarrow> jv \<Rightarrow> jv \<Rightarrow> jv \<Rightarrow> jv \<Rightarrow> jv \<Rightarrow> rank_error + ranking" where
  "rankAccounts collate accounts now previousPinId0 activeLoad model =
     (case to_number now of
        Fin nowMs \<Rightarrow>
          (let previousPinId = (if previousPinId0 = Undef then Null else previousPinId0);
               records = rank_records collate nowMs activeLoad model (if is_array accounts then arr_items accounts else []);
               cx = \<lparr> cx_spreadByLoad = spread_by_load activeLoad previousPinId records, cx_previousPinId = previousPinId \<rparr>
           in if records = [] then Inr empty_ranking
              else let anyEvidence = (\<exists>r \<in> set records. rk_windows r \<noteq> []);
                       ranked = rank_order cx records;
                       eligible = filter rk_usable ranked
                in case outcome_trace cx nowMs anyEvidence ranked of Inl e \<Rightarrow> Inl e
                   | Inr entry \<Rightarrow> Inr \<lparr> rg_ranked = ranked, rg_eligible = eligible,
                       rg_ineligible = filter (\<lambda>r. \<not> rk_usable r) ranked, rg_winner = first_of eligible,
                       rg_degraded = (\<not> anyEvidence),
                       rg_reason = (if \<not> anyEvidence then Some ''no-quota-evidence''
                         else if eligible = [] then Some ''all-depleted'' else None),
                       rg_trace = evidenceTrace ranked @ [entry] \<rparr>)
      | _ \<Rightarrow> Inl (ClockTypeError ''rankAccounts requires an injected numeric or Date now''))"

definition selectAccount :: "(string \<Rightarrow> string \<Rightarrow> bool) \<Rightarrow> jv \<Rightarrow> jv \<Rightarrow> jv \<Rightarrow> jv \<Rightarrow> jv \<Rightarrow> rank_error + jv" where
  "selectAccount collate accounts now previousPinId activeLoad model =
     (case rankAccounts collate accounts now previousPinId activeLoad model of Inl e \<Rightarrow> Inl e
      | Inr g \<Rightarrow> Inr (case rg_winner g of None \<Rightarrow> Null | Some w \<Rightarrow> coalesce (rk_id w) Null))"

end
