(* ===== verification/RankOrder.thy ===== *)
theory RankOrder
  imports QuotaRanking
begin

text \<open>
  The comparator of \<open>rankAccounts\<close> is a strict weak order, so the ranking it produces is
  well defined: sorted, stable, and headed by an account no other is strictly better than.
\<close>

section \<open>Lexicographic combination of strict weak orders\<close>

definition lex_then :: "('a \<Rightarrow> 'a \<Rightarrow> bool) \<Rightarrow> ('a \<Rightarrow> 'a \<Rightarrow> bool) \<Rightarrow> 'a \<Rightarrow> 'a \<Rightarrow> bool" where
  "lex_then lt1 lt2 a b \<longleftrightarrow> lt1 a b \<or> \<not> lt1 b a \<and> lt2 a b"

lemma strict_weak_order_measure:
  fixes f :: "'a \<Rightarrow> 'b::linorder"
  shows "strict_weak_order (\<lambda>a b. f a < f b)"
  by unfold_locales (auto simp: not_less)

lemma strict_weak_order_lex:
  assumes "strict_weak_order lt1" "strict_weak_order lt2"
  shows "strict_weak_order (lex_then lt1 lt2)"
proof -
  have a1: "\<And>x y. lt1 x y \<Longrightarrow> \<not> lt1 y x" and c1: "\<And>x y z. lt1 x z \<Longrightarrow> lt1 x y \<or> lt1 y z"
    and a2: "\<And>x y. lt2 x y \<Longrightarrow> \<not> lt2 y x" and c2: "\<And>x y z. lt2 x z \<Longrightarrow> lt2 x y \<or> lt2 y z"
    using assms by (auto simp: strict_weak_order_def)
  show ?thesis
  proof unfold_locales
    show "lex_then lt1 lt2 x y \<Longrightarrow> \<not> lex_then lt1 lt2 y x" for x y
      using a1 a2 unfolding lex_then_def by blast
    show "lex_then lt1 lt2 x y \<or> lex_then lt1 lt2 y z" if "lex_then lt1 lt2 x z" for x y z
      using that a1 c1 [of x z y] c1 [of x y z] c1 [of y z x] c1 [of z x y] c1 [of z y x] c1 [of y x z] c2 [of x z y]
      unfolding lex_then_def by blast
  qed
qed

section \<open>The deadline vectors\<close>

definition vec_lt :: "rank_record \<Rightarrow> rank_record \<Rightarrow> bool" where
  "vec_lt a b \<longleftrightarrow> (\<exists>h. bucket_at a h < bucket_at b h \<and> (\<forall>h'>h. bucket_at a h' = bucket_at b h'))"

lemma bucket_at_absent: "h \<notin> fst ` set (rk_deadlines r) \<Longrightarrow> bucket_at r h = PInf"
  by (simp add: bucket_at_def deadlineBucket_def om_get_None_iff [symmetric])

lemma bucket_at_differ:
  "bucket_at a h \<noteq> bucket_at b h \<Longrightarrow> h \<in> fst ` set (rk_deadlines a) \<union> fst ` set (rk_deadlines b)"
  (is "?d \<Longrightarrow> ?c")
proof (rule ccontr)
  assume d: ?d
  assume "\<not> ?c"
  then have "bucket_at a h = PInf" "bucket_at b h = PInf" by (simp_all add: bucket_at_absent)
  with d show False by simp
qed

lemma compare_at_range: "compare_at a b hs \<in> {-1, 0, 1}"
  by (induction hs) (auto simp: Let_def)

lemma compare_at_swap: "compare_at b a hs = - compare_at a b hs"
  by (induction hs) (auto simp: Let_def)

lemma compare_at_neg:
  assumes "sorted_wrt (>) hs" "\<And>h. bucket_at a h \<noteq> bucket_at b h \<Longrightarrow> h \<in> set hs"
  shows "compare_at a b hs < 0 \<longleftrightarrow> vec_lt a b"
proof -
  have "compare_at a b hs < 0 \<longleftrightarrow> (\<exists>h. bucket_at a h < bucket_at b h \<and> (\<forall>h'>h. bucket_at a h' = bucket_at b h'))"
    if "\<forall>h. bucket_at a h \<noteq> bucket_at b h \<longrightarrow> h \<in> set hs" "sorted_wrt (>) hs" for hs
    using that
  proof (induction hs)
    case Nil
    then show ?case by (auto simp: less_le)
  next
    case (Cons h hs)
    show ?case
    proof (cases "bucket_at a h = bucket_at b h")
      case True
      then have "\<forall>h. bucket_at a h \<noteq> bucket_at b h \<longrightarrow> h \<in> set hs" using Cons.prems(1) by auto
      then show ?thesis using Cons True by (simp add: Let_def)
    next
      case False
      have top: "bucket_at a h' = bucket_at b h'" if "h < h'" for h'
        using Cons.prems that by (metis less_asym set_ConsD sorted_wrt.simps(2) less_irrefl)
      show ?thesis
      proof (cases "bucket_at a h < bucket_at b h")
        case True
        then show ?thesis using top by (auto simp: Let_def)
      next
        case False
        then have "\<not> (bucket_at a k < bucket_at b k \<and> (\<forall>h'>k. bucket_at a h' = bucket_at b h'))" for k
          using top \<open>bucket_at a h \<noteq> bucket_at b h\<close> by (metis less_irrefl linorder_cases)
        then show ?thesis using False \<open>bucket_at a h \<noteq> bucket_at b h\<close> by (auto simp: Let_def)
      qed
    qed
  qed
  then show ?thesis using assms by (simp add: vec_lt_def)
qed

lemma horizons_sorted: "sorted_wrt (>) (rev (sort (remdups (xs :: jsnum list))))"
proof -
  have "sorted_wrt (<) (sort (remdups xs))" by (simp add: strict_sorted_iff)
  then show ?thesis by (simp add: sorted_wrt_rev)
qed

lemma compareHorizons_neg: "compareHorizons a b < 0 \<longleftrightarrow> vec_lt a b"
  unfolding compareHorizons_def
proof (rule compare_at_neg)
  show "sorted_wrt (>) (rev (sort (remdups (map fst (rk_deadlines a) @ map fst (rk_deadlines b)))))"
    by (rule horizons_sorted)
  show "h \<in> set (rev (sort (remdups (map fst (rk_deadlines a) @ map fst (rk_deadlines b)))))"
    if "bucket_at a h \<noteq> bucket_at b h" for h
    using bucket_at_differ [OF that] by simp
qed

lemma compareHorizons_swap: "compareHorizons b a = - compareHorizons a b"
proof -
  have e: "sort (remdups (map fst (rk_deadlines b) @ map fst (rk_deadlines a)))
      = sort (remdups (map fst (rk_deadlines a) @ map fst (rk_deadlines b)))"
    unfolding sorted_list_of_set_sort_remdups [symmetric] by (simp add: Un_commute)
  show ?thesis unfolding compareHorizons_def e by (rule compare_at_swap)
qed

lemma vec_lt_swo: "strict_weak_order vec_lt"
proof unfold_locales
  fix x y z
  show "vec_lt x y \<Longrightarrow> \<not> vec_lt y x"
    using compareHorizons_neg [of x y] compareHorizons_neg [of y x] compareHorizons_swap [of x y] by simp
  assume "vec_lt x z"
  then obtain h where h: "bucket_at x h < bucket_at z h" "\<forall>h'>h. bucket_at x h' = bucket_at z h'"
    by (auto simp: vec_lt_def)
  let ?D = "{k. h \<le> k \<and> (bucket_at x k \<noteq> bucket_at y k \<or> bucket_at y k \<noteq> bucket_at z k)}"
  have "?D \<subseteq> fst ` set (rk_deadlines x) \<union> fst ` set (rk_deadlines y) \<union> fst ` set (rk_deadlines z)"
    using bucket_at_differ by blast
  then have fin: "finite ?D" by (rule finite_subset) simp
  have "h \<in> ?D" using h(1) by auto
  then have ne: "?D \<noteq> {}" by blast
  define m where "m = Max ?D"
  have m: "m \<in> ?D" unfolding m_def using fin ne by (rule Max_in)
  have above: "bucket_at x k = bucket_at y k \<and> bucket_at y k = bucket_at z k" if "m < k" for k
  proof (rule ccontr)
    assume "\<not> ?thesis"
    then have "k \<in> ?D" using that m by auto
    then have "k \<le> m" unfolding m_def using fin by (simp add: Max_ge)
    with that show False by simp
  qed
  have xz: "bucket_at x m \<le> bucket_at z m" using h m by (cases "m = h") auto
  show "vec_lt x y \<or> vec_lt y z"
  proof (cases "bucket_at x m < bucket_at y m")
    case True
    then show ?thesis using above unfolding vec_lt_def by blast
  next
    case False
    then have "bucket_at y m < bucket_at z m" using m xz h by (cases "m = h") auto
    then show ?thesis using above unfolding vec_lt_def by blast
  qed
qed

section \<open>The two comparators\<close>

definition flag :: "bool \<Rightarrow> nat" where
  "flag b = (if b then 0 else 1)"

definition declared_lt :: "rank_context \<Rightarrow> rank_record \<Rightarrow> rank_record \<Rightarrow> bool" where
  "declared_lt cx = lex_then (\<lambda>a b. pin_rank cx a < pin_rank cx b)
     (lex_then (\<lambda>a b. rk_priority a < rk_priority b) (\<lambda>a b. rk_index a < rk_index b))"

definition headroom_key :: "rank_context \<Rightarrow> rank_record \<Rightarrow> nat" where
  "headroom_key cx r = (if cx_spreadByLoad cx then flag (rk_headroom r) else 0)"

definition load_key :: "rank_context \<Rightarrow> rank_record \<Rightarrow> rat" where
  "load_key cx r = (if cx_spreadByLoad cx then rk_load r else 0)"

definition ranking_lt :: "rank_context \<Rightarrow> rank_record \<Rightarrow> rank_record \<Rightarrow> bool" where
  "ranking_lt cx = lex_then (\<lambda>a b. flag (rk_usable a) < flag (rk_usable b))
     (lex_then (\<lambda>a b. headroom_key cx a < headroom_key cx b)
     (lex_then (\<lambda>a b. rk_evidenceBand a < rk_evidenceBand b)
     (lex_then (\<lambda>a b. rk_band a < rk_band b)
     (lex_then vec_lt
     (lex_then (\<lambda>a b. load_key cx a < load_key cx b) (declared_lt cx))))))"

lemma sticky_neg: "stickyThenDeclared cx a b < 0 \<longleftrightarrow> declared_lt cx a b"
  by (auto simp: stickyThenDeclared_def declared_lt_def lex_then_def or_else_def cmp_num_def)

lemma byHeadroom_key: "byHeadroom cx a b = of_nat (headroom_key cx a) - of_nat (headroom_key cx b)"
  by (auto simp: byHeadroom_def headroom_key_def flag_def)

lemma byLoad_key: "byLoad cx a b = load_key cx a - load_key cx b"
  by (simp add: byLoad_def load_key_def)

lemma compareHorizons_cases:
  "compareHorizons a b \<noteq> 0 \<longleftrightarrow> vec_lt a b \<or> vec_lt b a"
  using compareHorizons_neg [of a b] compareHorizons_neg [of b a] compareHorizons_swap [of a b] by auto

lemma rank_lt_eq: "rank_lt cx a b \<longleftrightarrow> ranking_lt cx a b"
  using strict_weak_order.lt_asym [OF vec_lt_swo]
  by (auto simp: rank_compare_def ranking_lt_def lex_then_def byHeadroom_key byLoad_key compareHorizons_cases
      compareHorizons_neg sticky_neg flag_def)

lemma fallback_lt_eq:
  "fallback_lt cx a b \<longleftrightarrow> lex_then (\<lambda>a b. headroom_key cx a < headroom_key cx b)
     (lex_then (\<lambda>a b. load_key cx a < load_key cx b) (declared_lt cx)) a b"
  by (auto simp: fallback_compare_def or_else_def byHeadroom_key byLoad_key lex_then_def sticky_neg)

lemma declared_swo: "strict_weak_order (declared_lt cx)"
  unfolding declared_lt_def by (intro strict_weak_order_lex strict_weak_order_measure)

interpretation rank: strict_weak_order "rank_lt cx" for cx
proof -
  have "strict_weak_order (ranking_lt cx)"
    unfolding ranking_lt_def
    by (intro strict_weak_order_lex strict_weak_order_measure vec_lt_swo declared_swo)
  then show "strict_weak_order (rank_lt cx)" by (simp add: rank_lt_eq)
qed

interpretation fallback: strict_weak_order "fallback_lt cx" for cx
proof -
  have "strict_weak_order (lex_then (\<lambda>a b. headroom_key cx a < headroom_key cx b)
     (lex_then (\<lambda>a b. load_key cx a < load_key cx b) (declared_lt cx)))"
    by (intro strict_weak_order_lex strict_weak_order_measure declared_swo)
  then show "strict_weak_order (fallback_lt cx)" by (simp add: fallback_lt_eq)
qed

end
