(* ===== verification/RankGuarantees.thy ===== *)
theory RankGuarantees
  imports RankOrder
begin

text \<open>
  What \<open>rankAccounts\<close> guarantees: every account stays in the ranking, an account is eligible exactly
  when no positive evidence speaks against it, the winner is a best eligible account, a projected
  reset is the next one, and a healthy pin is not moved by load.
\<close>

section \<open>Projecting a reset\<close>

text \<open>a recorded reset is projected to the next reset of its window: an instant after now, at most
  one horizon away when the record had elapsed, and a whole number of periods from the record.
  A record still ahead is kept, and without a real period nothing is invented.\<close>

theorem effectiveResetAt_is_next_reset:
  assumes "effectiveResetAt (Fin r) (Fin h) (Fin n) = Some e"
  shows "n < e \<and> (\<exists>k. 0 \<le> k \<and> e = r + of_int k * h) \<and> (n < r \<longrightarrow> e = r) \<and> (r \<le> n \<longrightarrow> e \<le> n + h)"
proof (cases "n < r")
  case True
  then have "e = r" using assms by (simp add: effectiveResetAt_def)
  with True show ?thesis by (intro conjI exI [of _ 0]) simp_all
next
  case False
  then have h: "60000 \<le> h" and e: "e = r + of_int (\<lfloor>(n - r) / h\<rfloor> + 1) * h"
    using assms by (auto simp: effectiveResetAt_def MIN_REAL_HORIZON_MS_def split: if_splits)
  have q: "0 \<le> (n - r) / h" using False h by simp
  have "of_int \<lfloor>(n - r) / h\<rfloor> * h \<le> (n - r) / h * h" "(n - r) / h * h < (of_int \<lfloor>(n - r) / h\<rfloor> + 1) * h"
    using floor_correct [of "(n - r) / h"] h by (simp_all only: mult_le_cancel_right mult_less_cancel_right) auto
  then have "of_int \<lfloor>(n - r) / h\<rfloor> * h \<le> n - r" "n - r < (of_int \<lfloor>(n - r) / h\<rfloor> + 1) * h"
    using h by simp_all
  then have "n < e" "e \<le> n + h" by (simp_all add: e algebra_simps)
  moreover have "\<exists>k. 0 \<le> k \<and> e = r + of_int k * h"
    using q by (intro exI [of _ "\<lfloor>(n - r) / h\<rfloor> + 1"]) (simp add: e)
  ultimately show ?thesis using False by simp
qed

theorem effectiveResetAt_is_next_reset_witness:
  "effectiveResetAt (Fin 1000) (Fin 18000000) (Fin 40000000) = Some 54001000 \<and> (40000000 :: rat) < 54001000"
proof -
  have e: "effectiveResetAt (Fin 1000) (Fin 18000000) (Fin 40000000) = Some 54001000" by code_simp
  with effectiveResetAt_is_next_reset [OF e] show ?thesis by blast
qed

text \<open>Deadlines in one bucket are closer than a 24th of their horizon; an earlier bucket is an earlier
  deadline.\<close>

lemma deadlineBucket_resolution:
  assumes h: "MIN_REAL_HORIZON_MS \<le> h"
  shows "deadlineBucket (Fin r) (Fin h) = deadlineBucket (Fin s) (Fin h) \<Longrightarrow> \<bar>r - s\<bar> < h / 24"
    and "deadlineBucket (Fin r) (Fin h) < deadlineBucket (Fin s) (Fin h) \<Longrightarrow> r < s"
proof -
  define w where "w = h / 24"
  have w: "0 < w" using h by (simp add: w_def MIN_REAL_HORIZON_MS_def)
  have b: "deadlineBucket (Fin x) (Fin h) = Fin (of_int \<lfloor>x / w\<rfloor>)" for x
    using h by (simp add: deadlineBucket_def DEADLINE_BUCKETS_PER_HORIZON_def w_def)
  have f: "of_int \<lfloor>x / w\<rfloor> * w \<le> x" "x < (of_int \<lfloor>x / w\<rfloor> + 1) * w" for x
    using w floor_correct [of "x / w"]
    by (simp_all add: pos_le_divide_eq [symmetric] pos_divide_less_eq [symmetric])
  show "\<bar>r - s\<bar> < h / 24" if "deadlineBucket (Fin r) (Fin h) = deadlineBucket (Fin s) (Fin h)"
    using that f [of r] f [of s] by (simp add: b algebra_simps flip: w_def)
  show "r < s" if "deadlineBucket (Fin r) (Fin h) < deadlineBucket (Fin s) (Fin h)"
  proof -
    have "\<lfloor>r / w\<rfloor> < \<lfloor>s / w\<rfloor>" using that by (simp add: b less_jsnum_def)
    then have "r / w < s / w" by (meson floor_less_cancel)
    then show ?thesis using w by (simp add: divide_less_cancel)
  qed
qed

section \<open>Eligibility\<close>

text \<open>What one row of evidence says against an account: a stated ceiling of zero, or a window that has
  not reset yet and has nothing left.\<close>

definition row_speaks_against :: "rat \<Rightarrow> jv \<Rightarrow> jv \<Rightarrow> bool" where
  "row_speaks_against nowMs model row = (case read_window model row of
     ZeroCeiling _ \<Rightarrow> True
   | Reading w \<Rightarrow> nowMs < of_int (w_resetAt w) \<and> w_remaining w = 0
   | _ \<Rightarrow> False)"

lemma finiteNonNegative_nonneg: "finiteNonNegative v = Some r \<Longrightarrow> 0 \<le> r"
  by (auto simp: finiteNonNegative_def split: if_splits jsnum.splits)

lemma read_window_reading:
  "read_window model row = Reading w \<Longrightarrow> 0 < w_limit w \<and> 0 \<le> w_remaining w"
  by (auto simp: read_window_def Let_def split: if_splits option.splits dest: finiteNonNegative_nonneg)

lemma read_windows_set:
  assumes "read_windows model ws = (general, unreadable, reasons, blocked)"
  shows "set general = {w. \<exists>row \<in> set ws. read_window model row = Reading w}"
    and "blocked \<longleftrightarrow> (\<exists>row \<in> set ws. \<exists>why. read_window model row = ZeroCeiling why)"
  using assms
proof (induction ws arbitrary: general unreadable reasons blocked)
  case (Cons row ws)
  obtain g u r b where i: "read_windows model ws = (g, u, r, b)" by (cases "read_windows model ws")
  {
    case 1
    then show ?case using Cons.IH(1) [OF i] i by (auto split: row_result.splits)
  next
    case 2
    then show ?case using Cons.IH(2) [OF i] i by (auto split: row_result.splits)
  }
qed auto

lemma resolve_all_set:
  "set (fst (resolve_all nowMs ws)) = {q. \<exists>w \<in> set ws. resolve_window nowMs w = Some q}"
  by (induction ws) (auto simp: Let_def case_prod_unfold split: option.splits)

lemma resolve_window_remaining:
  assumes "resolve_window nowMs w = Some q"
  shows "o_effectiveRemaining q = (if of_int (w_resetAt w) \<le> nowMs then w_limit w else w_remaining w)"
  using assms by (auto simp: resolve_window_def Let_def window.extend_def split: option.splits)

lemma resolve_window_future:
  "nowMs < of_int (w_resetAt w) \<Longrightarrow> resolve_window nowMs w \<noteq> None"
  by (simp add: resolve_window_def effectiveResetAt_def Let_def)

lemma usable_windows:
  "(\<forall>q \<in> set (fst (resolve_all nowMs ws)). 0 < o_effectiveRemaining q)
     \<longleftrightarrow> (\<forall>w \<in> set ws. nowMs < of_int (w_resetAt w) \<longrightarrow> 0 < w_remaining w)"
  if "\<forall>w \<in> set ws. 0 < w_limit w"
proof -
  have "(\<forall>q. resolve_window nowMs w = Some q \<longrightarrow> 0 < o_effectiveRemaining q)
      \<longleftrightarrow> (nowMs < of_int (w_resetAt w) \<longrightarrow> 0 < w_remaining w)" if "0 < w_limit w" for w
    using that resolve_window_remaining [of nowMs w] resolve_window_future [of nowMs w]
    by (cases "resolve_window nowMs w") (auto simp: not_less)
  then show ?thesis using that by (auto simp: resolve_all_set)
qed

lemma resolveWindows_usable:
  "snd (snd (resolveWindows collate (normalizeAccountWindows collate windows model) nowMs))
     \<longleftrightarrow> (\<forall>row \<in> set (arr_items windows). \<not> row_speaks_against nowMs model row)"
proof -
  obtain g u r b where rw: "read_windows model (arr_items windows) = (g, u, r, b)"
    by (cases "read_windows model (arr_items windows)")
  note s = read_windows_set [OF rw]
  have lim: "0 < w_limit w \<and> 0 \<le> w_remaining w" if "w \<in> set g" for w
    using that read_window_reading by (auto simp: s(1))
  have against: "(\<forall>row \<in> set (arr_items windows). \<not> row_speaks_against nowMs model row)
      \<longleftrightarrow> \<not> b \<and> (\<forall>w \<in> set g. nowMs < of_int (w_resetAt w) \<longrightarrow> 0 < w_remaining w)"
    using lim by (fastforce simp: s row_speaks_against_def less_le split: row_result.splits)
  show ?thesis
  proof (cases "\<not> is_array windows \<or> arr_items windows = []")
    case True
    then have "arr_items windows = []" by (cases windows) auto
    then show ?thesis using True by (simp add: normalizeAccountWindows_def resolveWindows_def)
  next
    case False
    have "set (js_sort (longer_first collate) g) = set g" by simp
    then show ?thesis
      using False usable_windows [of "js_sort (longer_first collate) g" nowMs] lim against
      by (auto simp: normalizeAccountWindows_def resolveWindows_def rw Let_def case_prod_unfold)
  qed
qed

lemma rank_record_usable:
  "rk_usable (rank_record_of collate nowMs activeLoad model i account) \<longleftrightarrow> accountSupportsModel account model
     \<and> (\<forall>row \<in> set (arr_items (get account ''windows'')). \<not> row_speaks_against nowMs model row)"
  using resolveWindows_usable [of collate "get account ''windows''" model nowMs]
  by (auto simp: rank_record_of_def Let_def case_prod_unfold)

lemma rank_record_fields [simp]:
  "rk_account (rank_record_of collate nowMs activeLoad model i account) = account"
  "rk_index (rank_record_of collate nowMs activeLoad model i account) = i"
  "rk_id (rank_record_of collate nowMs activeLoad model i account) = get account ''id''"
  by (simp_all add: rank_record_of_def Let_def case_prod_unfold)

lemma rank_records_accounts: "map rk_account (rank_records collate nowMs activeLoad model accounts) = accounts"
  by (simp add: rank_records_def comp_def case_prod_unfold)

lemma rank_records_elem:
  "r \<in> set (rank_records collate nowMs activeLoad model accounts)
     \<Longrightarrow> \<exists>i. r = rank_record_of collate nowMs activeLoad model i (rk_account r)"
  by (auto simp: rank_records_def)

lemma rank_order_mset [simp]: "mset (rank_order cx records) = mset records"
  by (simp add: rank_order_def)

lemma rank_order_set [simp]: "set (rank_order cx records) = set records"
  by (simp add: rank_order_def)

text \<open>The successful outcome of \<open>rankAccounts\<close>, taken apart.\<close>

definition rank_input :: "(string \<Rightarrow> string \<Rightarrow> bool) \<Rightarrow> jv \<Rightarrow> rat \<Rightarrow> jv \<Rightarrow> jv \<Rightarrow> rank_record list" where
  "rank_input collate accounts nowMs activeLoad model = rank_records collate nowMs activeLoad model
     (if is_array accounts then arr_items accounts else [])"

definition context_of :: "jv \<Rightarrow> jv \<Rightarrow> rank_record list \<Rightarrow> rank_context" where
  "context_of activeLoad previousPinId records = (let prev = (if previousPinId = Undef then Null else previousPinId) in
     \<lparr> cx_spreadByLoad = spread_by_load activeLoad prev records, cx_previousPinId = prev \<rparr>)"

lemma rankAccounts_Inr:
  assumes "rankAccounts collate accounts now previousPinId activeLoad model = Inr g"
  obtains nowMs where "to_number now = Fin nowMs"
    "rg_ranked g = rank_order (context_of activeLoad previousPinId (rank_input collate accounts nowMs activeLoad model))
       (rank_input collate accounts nowMs activeLoad model)"
    "rg_eligible g = filter rk_usable (rg_ranked g)" "rg_ineligible g = filter (\<lambda>r. \<not> rk_usable r) (rg_ranked g)"
    "rg_winner g = first_of (rg_eligible g)"
proof -
  obtain nowMs where n: "to_number now = Fin nowMs"
    using assms by (cases "to_number now") (auto simp: rankAccounts_def)
  show ?thesis
  proof (cases "rank_input collate accounts nowMs activeLoad model = []")
    case True
    then have "g = empty_ranking"
      using assms n by (simp add: rankAccounts_def rank_input_def Let_def)
    then show ?thesis using n True
      by (intro that [of nowMs]) (simp_all add: empty_ranking_def rank_order_def first_of_def)
  next
    case False
    then show ?thesis using assms n
      by (intro that [of nowMs])
        (auto simp: rankAccounts_def rank_input_def [symmetric] context_of_def Let_def split: sum.splits)
  qed
qed

text \<open>C16: no account is lost or invented by the ranking, and eligibility is exactly the absence of
  positive evidence: an account is offered if and only if its model selection allows the model and
  none of its rows states a ceiling of zero or an exhausted window that has not reset. Rows that
  cannot be read never take an account out of service.\<close>

theorem eligibility_is_exact:
  assumes "rankAccounts collate accounts now previousPinId activeLoad model = Inr g"
    and "to_number now = Fin nowMs"
  shows "mset (map rk_account (rg_ranked g)) = mset (arr_items accounts)
    \<and> (\<forall>r. r \<in> set (rg_eligible g) \<longleftrightarrow> r \<in> set (rg_ranked g) \<and> accountSupportsModel (rk_account r) model
       \<and> (\<forall>row \<in> set (arr_items (get (rk_account r) ''windows'')). \<not> row_speaks_against nowMs model row))
    \<and> (rg_winner g = None \<longleftrightarrow> rg_eligible g = [])"
proof -
  obtain n where n: "to_number now = Fin n"
    and rk: "rg_ranked g = rank_order (context_of activeLoad previousPinId (rank_input collate accounts n activeLoad model))
       (rank_input collate accounts n activeLoad model)"
    and el: "rg_eligible g = filter rk_usable (rg_ranked g)" "rg_winner g = first_of (rg_eligible g)"
    using rankAccounts_Inr [OF assms(1)] by metis
  have nn: "n = nowMs" using n assms(2) by simp
  have items: "(if is_array accounts then arr_items accounts else []) = arr_items accounts" by (cases accounts) auto
  have "mset (map rk_account (rg_ranked g)) = mset (map rk_account (rank_input collate accounts n activeLoad model))"
    unfolding rk mset_map by simp
  also have "\<dots> = mset (arr_items accounts)" by (simp add: rank_input_def items rank_records_accounts)
  finally have ms: "mset (map rk_account (rg_ranked g)) = mset (arr_items accounts)" .
  have u: "rk_usable r \<longleftrightarrow> accountSupportsModel (rk_account r) model
       \<and> (\<forall>row \<in> set (arr_items (get (rk_account r) ''windows'')). \<not> row_speaks_against nowMs model row)"
    if "r \<in> set (rg_ranked g)" for r
  proof -
    have "r \<in> set (rank_input collate accounts n activeLoad model)" using that by (simp add: rk)
    then obtain i where "r = rank_record_of collate n activeLoad model i (rk_account r)"
      unfolding rank_input_def using rank_records_elem by blast
    then show ?thesis using rank_record_usable [of collate n activeLoad model i "rk_account r"] nn by simp
  qed
  show ?thesis
    using ms u by (auto simp: el first_of_def split: list.split)
qed

text \<open>C21: the winner is a best eligible account. It is usable, and no eligible account is strictly
  better: first for the headroom of a fresh placement, then for how completely and how freshly its
  evidence could be read, then for the earliest deadline at the longest horizon on which the two
  differ, then for load, the pin, the configured priority and the place in the list.\<close>

theorem winner_is_best:
  assumes "rankAccounts collate accounts now previousPinId activeLoad model = Inr g"
    and "to_number now = Fin nowMs" and "\<not> rg_degraded g"
    and "rg_winner g = Some w" and "r \<in> set (rg_eligible g)"
    and "cx = context_of activeLoad previousPinId (rank_input collate accounts nowMs activeLoad model)"
  shows "rk_usable w \<and> \<not> lex_then (\<lambda>a b. headroom_key cx a < headroom_key cx b)
       (lex_then (\<lambda>a b. rk_evidenceBand a < rk_evidenceBand b)
       (lex_then (\<lambda>a b. rk_band a < rk_band b)
       (lex_then vec_lt
       (lex_then (\<lambda>a b. load_key cx a < load_key cx b) (declared_lt cx))))) r w"
proof -
  obtain n where n: "to_number now = Fin n"
    and rk: "rg_ranked g = rank_order (context_of activeLoad previousPinId (rank_input collate accounts n activeLoad model))
       (rank_input collate accounts n activeLoad model)"
    and el: "rg_eligible g = filter rk_usable (rg_ranked g)" "rg_winner g = first_of (rg_eligible g)"
    using rankAccounts_Inr [OF assms(1)] by metis
  define records where "records = rank_input collate accounts n activeLoad model"
  have cx: "cx = context_of activeLoad previousPinId records" using assms(2,6) n by (simp add: records_def)
  have ne: "records \<noteq> []" using assms(5) el(1) rk by (auto simp: records_def)
  have ev: "\<exists>r \<in> set records. rk_windows r \<noteq> []"
    using assms(1,3) n ne by (auto simp: rankAccounts_def rank_input_def [symmetric] records_def Let_def split: sum.splits)
  have rs: "rg_ranked g = js_sort (rank_lt cx) records"
    using rk ev by (simp add: rank_order_def cx records_def)
  obtain rest where e: "rg_eligible g = w # rest"
    using assms(4) el(2) by (auto simp: first_of_def split: list.splits)
  have "w \<in> set (rg_eligible g)" by (simp add: e)
  then have wu: "rk_usable w" "rk_usable r" using el(1) assms(5) by auto
  have "sorted_wrt (\<lambda>a b. \<not> rank_lt cx b a) (rg_eligible g)"
    unfolding el(1) rs by (intro sorted_wrt_filter rank.js_sort_sorted)
  then have "\<not> rank_lt cx r w"
    using e assms(5) rank.lt_irrefl by auto
  then have "\<not> ranking_lt cx r w" by (simp add: rank_lt_eq)
  then have "\<not> lex_then (\<lambda>a b. headroom_key cx a < headroom_key cx b)
       (lex_then (\<lambda>a b. rk_evidenceBand a < rk_evidenceBand b)
       (lex_then (\<lambda>a b. rk_band a < rk_band b)
       (lex_then vec_lt
       (lex_then (\<lambda>a b. load_key cx a < load_key cx b) (declared_lt cx))))) r w"
    using wu by (simp add: ranking_lt_def lex_then_def [of "\<lambda>a b. flag (rk_usable a) < flag (rk_usable b)"])
  with wu(1) show ?thesis by blast
qed

section \<open>A healthy pin is not moved by load\<close>

definition without_load :: "rank_record \<Rightarrow> rank_record" where
  "without_load r = r\<lparr> rk_load := 0 \<rparr>"

lemma rank_input_without_load:
  "map without_load (rank_input collate accounts n activeLoad model) = rank_input collate accounts n Null model"
proof -
  have "without_load (rank_record_of collate n activeLoad model i a) = rank_record_of collate n Null model i a" for i a
    by (simp add: without_load_def rank_record_of_def loadOf_def Let_def case_prod_unfold)
  then show ?thesis by (simp add: rank_input_def rank_records_def comp_def case_prod_unfold)
qed

lemma without_load_compare:
  assumes "\<not> cx_spreadByLoad cx"
  shows "rank_compare cx (without_load a) (without_load b) = rank_compare cx a b"
    and "fallback_compare cx (without_load a) (without_load b) = fallback_compare cx a b"
proof -
  have h: "compareHorizons (without_load a) (without_load b) = compareHorizons a b"
  proof -
    have "compare_at (without_load a) (without_load b) hs = compare_at a b hs" for hs
      by (induction hs) (simp_all add: Let_def bucket_at_def without_load_def)
    then show ?thesis by (simp add: compareHorizons_def) (simp add: without_load_def)
  qed
  show "rank_compare cx (without_load a) (without_load b) = rank_compare cx a b"
    unfolding rank_compare_def h using assms
    by (simp add: byHeadroom_def byLoad_def stickyThenDeclared_def pin_rank_def without_load_def)
  show "fallback_compare cx (without_load a) (without_load b) = fallback_compare cx a b"
    using assms by (simp add: fallback_compare_def byHeadroom_def byLoad_def stickyThenDeclared_def
        pin_rank_def without_load_def)
qed

lemma rank_order_without_load:
  assumes "\<not> cx_spreadByLoad cx"
  shows "rank_order cx (map without_load records) = map without_load (rank_order cx records)"
  using js_sort_map [of "rank_lt cx" without_load "rank_lt cx"] js_sort_map [of "fallback_lt cx" without_load "fallback_lt cx"]
  by (auto simp: rank_order_def without_load_compare [OF assms]) (auto simp: without_load_def)

text \<open>load spreads placements, it never moves a session. When the session's pin is an account that
  is still usable, the ranking is the one computed with no load at all, account by account.\<close>

theorem healthy_pin_ignores_load:
  assumes "rankAccounts collate accounts now pin activeLoad model = Inr g"
    and "rankAccounts collate accounts now pin Null model = Inr g0"
    and "to_number now = Fin nowMs" and "\<not> is_nullish pin"
    and "find (\<lambda>r. seq (rk_id r) pin) (rank_input collate accounts nowMs activeLoad model) = Some p" and "rk_usable p"
  shows "map rk_account (rg_ranked g) = map rk_account (rg_ranked g0)"
proof -
  let ?recs = "rank_input collate accounts nowMs activeLoad model"
  let ?cx = "\<lparr> cx_spreadByLoad = False, cx_previousPinId = pin \<rparr>"
  have pin: "pin \<noteq> Undef" "pin \<noteq> Null" using assms(4) by auto
  have c: "context_of activeLoad pin ?recs = ?cx" "context_of Null pin recs = ?cx" for recs
    using pin assms(5,6) by (simp_all add: context_of_def spread_by_load_def Let_def)
  have n: "nowMs' = nowMs" if "to_number now = Fin nowMs'" for nowMs' using that assms(3) by simp
  have g: "rg_ranked g = rank_order ?cx ?recs"
    using rankAccounts_Inr [OF assms(1)] n c(1) by metis
  have g0: "rg_ranked g0 = rank_order ?cx (rank_input collate accounts nowMs Null model)"
    using rankAccounts_Inr [OF assms(2)] n c(2) by metis
  have "rg_ranked g0 = map without_load (rg_ranked g)"
    unfolding g0 g rank_input_without_load [of collate accounts nowMs activeLoad model, symmetric]
    by (rule rank_order_without_load) simp
  then show ?thesis by (simp add: comp_def) (simp add: without_load_def)
qed

section \<open>A concrete pool\<close>

definition week_row :: "int \<Rightarrow> string \<Rightarrow> jv" where
  "week_row remaining resetAt = Obj [(''scope'', Str ''weekly''), (''remaining'', JInt remaining),
     (''limit'', JInt 100), (''resetAt'', Str resetAt), (''confidence'', Str ''fresh'')]"

definition pool_account :: "string \<Rightarrow> jv list \<Rightarrow> jv" where
  "pool_account name rows = Obj [(''id'', Str name), (''provider'', Str ''p''), (''priority'', JInt 1), (''windows'', Arr rows)]"

definition sample_pool :: jv where
  "sample_pool = Arr [pool_account ''late'' [week_row 90 ''1970-01-06T00:00:00.000Z''],
     pool_account ''spent'' [week_row 0 ''1970-01-03T00:00:00.000Z''],
     pool_account ''soon'' [week_row 40 ''1970-01-02T00:00:00.000Z'']]"

definition no_collate :: "string \<Rightarrow> string \<Rightarrow> bool" where
  "no_collate a b = False"

definition busy_late :: jv where
  "busy_late = Obj [(''late'', Obj [(''pins'', JInt 3)])]"

definition rank_sample :: "jv \<Rightarrow> jv \<Rightarrow> rank_error + ranking" where
  "rank_sample pin load = rankAccounts no_collate sample_pool (JInt 1000) pin load (Str ''m'')"

definition summary :: "rank_error + ranking \<Rightarrow> (jv list \<times> jv list \<times> bool) option" where
  "summary r = (case r of Inl e \<Rightarrow> None
     | Inr g \<Rightarrow> Some (map rk_id (rg_ranked g), map rk_id (rg_eligible g), rg_degraded g))"

lemma summaryE:
  assumes "summary r = Some (a, b, c)"
  obtains g where "r = Inr g" "map rk_id (rg_ranked g) = a" "map rk_id (rg_eligible g) = b" "rg_degraded g = c"
  using assms by (cases r) (simp_all add: summary_def)

lemma rank_sample_unpinned:
  "summary (rank_sample Null Null) = Some ([Str ''soon'', Str ''late'', Str ''spent''], [Str ''soon'', Str ''late''], False)"
  by code_simp

lemma rank_sample_busy:
  "summary (rank_sample (Str ''late'') busy_late) = Some ([Str ''soon'', Str ''late'', Str ''spent''], [Str ''soon'', Str ''late''], False)"
  by code_simp

lemma rank_sample_pinned:
  "summary (rank_sample (Str ''late'') Null) = Some ([Str ''soon'', Str ''late'', Str ''spent''], [Str ''soon'', Str ''late''], False)"
  by code_simp

lemma rank_sample_pin_healthy:
  "map_option rk_usable (find (\<lambda>r. seq (rk_id r) (Str ''late'')) (rank_input no_collate sample_pool 1000 busy_late (Str ''m''))) = Some True"
  by code_simp

theorem eligibility_is_exact_witness:
  "\<exists>g. rank_sample Null Null = Inr g \<and> map rk_id (rg_eligible g) = [Str ''soon'', Str ''late'']
     \<and> mset (map rk_account (rg_ranked g)) = mset (arr_items sample_pool) \<and> rg_winner g \<noteq> None"
proof -
  obtain g where g: "rank_sample Null Null = Inr g" "map rk_id (rg_eligible g) = [Str ''soon'', Str ''late'']"
    by (rule summaryE [OF rank_sample_unpinned]) (rule that)
  have "to_number (JInt 1000) = Fin 1000" by simp
  from eligibility_is_exact [OF g(1) [unfolded rank_sample_def] this] g show ?thesis by auto
qed

theorem winner_is_best_witness:
  "\<exists>g w r. rank_sample Null Null = Inr g \<and> rg_winner g = Some w \<and> r \<in> set (rg_eligible g)
     \<and> rk_id w = Str ''soon'' \<and> rk_id r = Str ''late'' \<and> rk_usable w"
proof -
  obtain g where g: "rank_sample Null Null = Inr g" "map rk_id (rg_eligible g) = [Str ''soon'', Str ''late'']" "\<not> rg_degraded g"
    by (rule summaryE [OF rank_sample_unpinned]) (rule that; simp)
  then obtain w r where wr: "rg_eligible g = [w, r]" "rk_id w = Str ''soon''" "rk_id r = Str ''late''" by auto
  have win: "rg_winner g = Some w"
    using g(1) wr(1) by (auto simp: rank_sample_def first_of_def elim!: rankAccounts_Inr)
  have n: "to_number (JInt 1000) = Fin 1000" by simp
  have "r \<in> set (rg_eligible g)" by (simp add: wr)
  with winner_is_best [OF g(1) [unfolded rank_sample_def] n g(3) win this refl] g win wr show ?thesis by blast
qed

theorem healthy_pin_ignores_load_witness:
  "\<exists>g g0. rank_sample (Str ''late'') busy_late = Inr g \<and> rank_sample (Str ''late'') Null = Inr g0
     \<and> map rk_account (rg_ranked g) = map rk_account (rg_ranked g0) \<and> length (rg_ranked g) = 3"
proof -
  obtain g where g: "rank_sample (Str ''late'') busy_late = Inr g" "map rk_id (rg_ranked g) = [Str ''soon'', Str ''late'', Str ''spent'']"
    by (rule summaryE [OF rank_sample_busy]) (rule that)
  obtain g0 where g0: "rank_sample (Str ''late'') Null = Inr g0"
    by (rule summaryE [OF rank_sample_pinned]) (rule that)
  obtain p where p: "find (\<lambda>r. seq (rk_id r) (Str ''late'')) (rank_input no_collate sample_pool 1000 busy_late (Str ''m'')) = Some p"
    "rk_usable p" using rank_sample_pin_healthy by auto
  have "length (rg_ranked g) = 3" using arg_cong [OF g(2), of length] by simp
  with healthy_pin_ignores_load [OF g(1) [unfolded rank_sample_def] g0 [unfolded rank_sample_def] _ _ p] g g0
  show ?thesis by simp
qed

section \<open>A reset beyond the range of dates\<close>

lemma num_to_time_beyond:
  assumes "of_int max_time + 1 \<le> r"
  shows "num_to_time (Fin r) = None"
proof -
  have "max_time + 1 \<le> \<lfloor>r\<rfloor>" using assms by (simp add: le_floor_iff)
  then show ?thesis using assms by (simp add: num_to_time_def time_clip_def)
qed

text \<open>The windows whose soonest reset the trace prints: those of the winner, or all of them when no
  account is usable.\<close>

definition traced_windows :: "rank_record list \<Rightarrow> orderable list" where
  "traced_windows ranked = (case filter rk_usable ranked of w # _ \<Rightarrow> rk_windows w | [] \<Rightarrow> concat (map rk_windows ranked))"

lemma soonestResetOf_Inl:
  "soonestResetOf os = Inl e \<longleftrightarrow> e = InvalidDate \<and> os \<noteq> [] \<and> num_to_time (Fin (Min (set (map o_effectiveResetAt os)))) = None"
  by (auto simp: soonestResetOf_def split: option.splits)

lemma outcome_trace_Inl:
  "outcome_trace cx n (\<exists>r \<in> set recs. rk_windows r \<noteq> []) (rank_order cx' recs) = Inl e
     \<longleftrightarrow> soonestResetOf (traced_windows (rank_order cx' recs)) = Inl e"
proof (cases "filter rk_usable (rank_order cx' recs)")
  case Nil
  have "concat (map rk_windows (rank_order cx' recs)) = [] \<longleftrightarrow> \<not> (\<exists>r \<in> set recs. rk_windows r \<noteq> [])" by simp
  then show ?thesis
    using Nil by (cases "\<exists>r \<in> set recs. rk_windows r \<noteq> []")
      (auto simp: outcome_trace_def traced_windows_def soonestResetOf_def split: option.splits sum.splits)
qed (auto simp: outcome_trace_def traced_windows_def winTrace_def split: sum.splits)

text \<open>the ranking fails in two ways and no other: on a clock that is no finite number, and, although
  it could rank, when the soonest reset it wants to print is beyond the range of dates. Empty input,
  unreadable rows and depleted pools are answers, not failures.\<close>

theorem ranking_failures:
  "rankAccounts collate accounts now pin activeLoad model = Inl e \<longleftrightarrow>
     (case to_number now of
        Fin n \<Rightarrow> e = InvalidDate \<and> (let recs = rank_input collate accounts n activeLoad model;
            shown = traced_windows (rank_order (context_of activeLoad pin recs) recs)
          in shown \<noteq> [] \<and> num_to_time (Fin (Min (set (map o_effectiveResetAt shown)))) = None)
      | _ \<Rightarrow> e = ClockTypeError ''rankAccounts requires an injected numeric or Date now'')"
proof (cases "to_number now")
  case (Fin n)
  let ?recs = "rank_input collate accounts n activeLoad model"
  let ?cx = "context_of activeLoad pin ?recs"
  have "rankAccounts collate accounts now pin activeLoad model = Inl e \<longleftrightarrow> ?recs \<noteq> []
     \<and> outcome_trace ?cx n (\<exists>r \<in> set ?recs. rk_windows r \<noteq> []) (rank_order ?cx ?recs) = Inl e"
    using Fin by (auto simp: rankAccounts_def rank_input_def [symmetric] context_of_def Let_def split: sum.splits)
  also have "\<dots> \<longleftrightarrow> soonestResetOf (traced_windows (rank_order ?cx ?recs)) = Inl e"
    unfolding outcome_trace_Inl
    by (auto simp: soonestResetOf_def traced_windows_def rank_order_def split: option.splits)
  finally show ?thesis using Fin by (auto simp: soonestResetOf_Inl Let_def)
qed (auto simp: rankAccounts_def)

lemma far_reset_fails:
  assumes "shown \<noteq> []" and "\<forall>w \<in> set shown. of_int max_time + 1 \<le> o_effectiveResetAt w"
  shows "soonestResetOf shown = Inl InvalidDate"
proof -
  have "of_int max_time + 1 \<le> Min (set (map o_effectiveResetAt shown))"
    using assms by (subst Min_ge_iff) auto
  then show ?thesis using assms(1) by (simp only: soonestResetOf_Inl num_to_time_beyond) simp
qed

end
