(* ===== verification/PriceTable.thy ===== *)
theory PriceTable
  imports JsValue
begin

text \<open>
  The price tables of open-sse/providers/pricing.js, entry for entry, in dollars per million
  tokens: the canonical prices per model, the overrides per provider and the pattern prices in
  the order they are tried. A rate that an entry does not state is \<open>None\<close>.
\<close>

record pricing =
  input_rate :: "rat option"
  output_rate :: "rat option"
  cached_rate :: "rat option"
  reasoning_rate :: "rat option"
  creation_rate :: "rat option"

definition price :: "rat option \<Rightarrow> rat option \<Rightarrow> rat option \<Rightarrow> rat option \<Rightarrow> rat option \<Rightarrow> pricing" where
  "price i out c r w = \<lparr> input_rate = i, output_rate = out, cached_rate = c, reasoning_rate = r, creation_rate = w \<rparr>"

text \<open>An object literal: a key written twice keeps its first place and its last value.\<close>

definition literal :: "(string \<times> 'a) list \<Rightarrow> (string \<times> 'a) list" where
  "literal kvs = foldl (\<lambda>m kv. om_set m (fst kv) (snd kv)) [] kvs"

section \<open>MODEL_PRICING\<close>

definition prices_claude :: "(string \<times> pricing) list" where
  "prices_claude = [
    (''claude-opus-4-6'', price (Some 5) (Some 25) (Some 0.5) (Some 25) (Some 6.25)),
    (''claude-opus-4-5-20251101'', price (Some 5) (Some 25) (Some 0.5) (Some 25) (Some 6.25)),
    (''claude-sonnet-4-6'', price (Some 3) (Some 15) (Some 0.3) (Some 15) (Some 3.75)),
    (''claude-sonnet-4-5-20250929'', price (Some 3) (Some 15) (Some 0.3) (Some 15) (Some 3.75)),
    (''claude-haiku-4-5-20251001'', price (Some 1) (Some 5) (Some 0.1) (Some 5) (Some 1.25)),
    (''claude-sonnet-4-20250514'', price (Some 3) (Some 15) (Some 1.5) (Some 15) (Some 3)),
    (''claude-opus-4-20250514'', price (Some 15) (Some 25) (Some 7.5) (Some 112.5) (Some 15)),
    (''claude-3-5-sonnet-20241022'', price (Some 3) (Some 15) (Some 1.5) (Some 15) (Some 3)),
    (''claude-haiku-4.5'', price (Some 0.5) (Some 2.5) (Some 0.05) (Some 3.75) (Some 0.5)),
    (''claude-opus-4.1'', price (Some 5) (Some 25) (Some 0.5) (Some 37.5) (Some 5)),
    (''claude-opus-4.5'', price (Some 5) (Some 25) (Some 0.5) (Some 37.5) (Some 5)),
    (''claude-opus-4.6'', price (Some 5) (Some 25) (Some 0.5) (Some 37.5) (Some 5)),
    (''claude-sonnet-4'', price (Some 3) (Some 15) (Some 0.3) (Some 22.5) (Some 3)),
    (''claude-sonnet-4.5'', price (Some 3) (Some 15) (Some 0.3) (Some 22.5) (Some 3)),
    (''claude-sonnet-4.6'', price (Some 3) (Some 15) (Some 0.3) (Some 22.5) (Some 3)),
    (''claude-opus-4-5-thinking'', price (Some 5) (Some 25) (Some 0.5) (Some 37.5) (Some 5)),
    (''claude-opus-4-6-thinking'', price (Some 5) (Some 25) (Some 0.5) (Some 37.5) (Some 5)),
    (''claude-fable-5'', price (Some 10) (Some 50) (Some 1) (Some 50) (Some 12.5)),
    (''claude-fable-5-1'', price (Some 10) (Some 50) (Some 1) (Some 50) (Some 12.5))]"

definition prices_gpt_1 :: "(string \<times> pricing) list" where
  "prices_gpt_1 = [
    (''gpt-3.5-turbo'', price (Some 0.5) (Some 1.5) (Some 0.25) (Some 1.5) (Some 0.5)),
    (''gpt-4'', price (Some 30) (Some 60) (Some 15) (Some 60) (Some 30)),
    (''gpt-4-turbo'', price (Some 10) (Some 30) (Some 5) (Some 30) (Some 10)),
    (''gpt-4o'', price (Some 2.5) (Some 10) (Some 1.25) (Some 10) (Some 2.5)),
    (''gpt-4o-2024-05-13'', price (Some 5) (Some 15) (Some 5) (Some 15) (Some 5)),
    (''gpt-4o-mini'', price (Some 0.15) (Some 0.6) (Some 0.075) (Some 0.6) (Some 0.15)),
    (''gpt-4.1'', price (Some 2) (Some 8) (Some 0.5) (Some 8) (Some 2)),
    (''gpt-4.1-mini'', price (Some 0.4) (Some 1.6) (Some 0.1) (Some 1.6) (Some 0.4)),
    (''gpt-4.1-nano'', price (Some 0.1) (Some 0.4) (Some 0.025) (Some 0.4) (Some 0.1)),
    (''gpt-5'', price (Some 1.25) (Some 10) (Some 0.125) (Some 10) (Some 1.25)),
    (''gpt-5-mini'', price (Some 0.25) (Some 2) (Some 0.025) (Some 2) (Some 0.25)),
    (''gpt-5-nano'', price (Some 0.05) (Some 0.4) (Some 0.005) (Some 0.4) (Some 0.05)),
    (''gpt-5-codex'', price (Some 1.25) (Some 10) (Some 0.125) (Some 10) (Some 1.25)),
    (''gpt-5-pro'', price (Some 15) (Some 120) (Some 15) (Some 120) (Some 15)),
    (''gpt-5.1'', price (Some 1.25) (Some 10) (Some 0.125) (Some 10) (Some 1.25)),
    (''gpt-5.1-codex'', price (Some 1.25) (Some 10) (Some 0.125) (Some 10) (Some 1.25)),
    (''gpt-5.1-codex-mini'', price (Some 1.5) (Some 6) (Some 0.75) (Some 6) (Some 1.5)),
    (''gpt-5.1-codex-mini-high'', price (Some 2) (Some 8) (Some 1) (Some 12) (Some 2)),
    (''gpt-5.1-codex-max'', price (Some 8) (Some 32) (Some 4) (Some 32) (Some 8)),
    (''gpt-5.2'', price (Some 1.75) (Some 14) (Some 0.175) (Some 14) (Some 1.75))]"

definition prices_gpt_2 :: "(string \<times> pricing) list" where
  "prices_gpt_2 = [
    (''gpt-5.2-codex'', price (Some 1.75) (Some 14) (Some 0.175) (Some 14) (Some 1.75)),
    (''gpt-5.2-pro'', price (Some 21) (Some 168) (Some 21) (Some 168) (Some 21)),
    (''gpt-5.3-codex'', price (Some 1.75) (Some 14) (Some 0.175) (Some 14) (Some 1.75)),
    (''gpt-5.3-codex-spark'', price (Some 3) (Some 12) (Some 0.3) (Some 12) (Some 3)),
    (''gpt-5.4'', price (Some 2.5) (Some 15) (Some 0.25) (Some 15) (Some 2.5)),
    (''gpt-5.4-mini'', price (Some 0.75) (Some 4.5) (Some 0.075) (Some 4.5) (Some 0.75)),
    (''gpt-5.4-nano'', price (Some 0.2) (Some 1.25) (Some 0.02) (Some 1.25) (Some 0.2)),
    (''gpt-5.4-pro'', price (Some 30) (Some 180) (Some 30) (Some 180) (Some 30)),
    (''gpt-5.5'', price (Some 5) (Some 30) (Some 0.5) (Some 30) (Some 5)),
    (''gpt-5.5-pro'', price (Some 30) (Some 180) (Some 30) (Some 180) (Some 30)),
    (''gpt-5.6'', price (Some 2.5) (Some 15) (Some 0.25) (Some 15) (Some 2.5)),
    (''gpt-5.6-luna'', price (Some 0.2) (Some 1.2) (Some 0.02) (Some 1.2) (Some 0.25)),
    (''gpt-5.6-terra'', price (Some 2) (Some 12) (Some 0.2) (Some 12) (Some 2.5)),
    (''gpt-5.6-sol'', price (Some 4) (Some 20) (Some 0.4) (Some 20) (Some 5)),
    (''gpt-5.6-cyber'', price (Some 12.5) (Some 75) (Some 1.25) (Some 75) (Some 15.625)),
    (''o1-pro'', price (Some 150) (Some 600) (Some 150) (Some 600) (Some 150)),
    (''o3'', price (Some 2) (Some 8) (Some 0.5) (Some 8) (Some 2)),
    (''o3-mini'', price (Some 1.1) (Some 4.4) (Some 0.55) (Some 4.4) (Some 1.1)),
    (''o3-pro'', price (Some 20) (Some 80) (Some 20) (Some 80) (Some 20)),
    (''o1'', price (Some 15) (Some 60) (Some 7.5) (Some 90) (Some 15)),
    (''o1-mini'', price (Some 3) (Some 12) (Some 1.5) (Some 18) (Some 3))]"

definition prices_gpt_3 :: "(string \<times> pricing) list" where
  "prices_gpt_3 = [
    (''o1'', price (Some 15) (Some 60) (Some 7.5) (Some 60) (Some 15))]"

definition prices_gemini_1 :: "(string \<times> pricing) list" where
  "prices_gemini_1 = [
    (''gemini-3.7-flash'', price (Some 1.5) (Some 7.5) (Some 0.15) (Some 11.25) (Some 1.875)),
    (''gemini-3.7-flash-high'', price (Some 1.5) (Some 7.5) (Some 0.15) (Some 11.25) (Some 1.875)),
    (''gemini-3.7-flash-medium'', price (Some 1.5) (Some 7.5) (Some 0.15) (Some 11.25) (Some 1.875)),
    (''gemini-3.7-flash-low'', price (Some 1.5) (Some 7.5) (Some 0.15) (Some 11.25) (Some 1.875)),
    (''gemini-3.6-flash'', price (Some 1.5) (Some 7.5) (Some 0.15) (Some 11.25) (Some 1.875)),
    (''gemini-3.6-flash-high'', price (Some 1.5) (Some 7.5) (Some 0.15) (Some 11.25) (Some 1.875)),
    (''gemini-3.6-flash-medium'', price (Some 1.5) (Some 7.5) (Some 0.15) (Some 11.25) (Some 1.875)),
    (''gemini-3.6-flash-low'', price (Some 1.5) (Some 7.5) (Some 0.15) (Some 11.25) (Some 1.875)),
    (''gemini-3.5-flash-lite'', price (Some 0.3) (Some 2.5) (Some 0.03) (Some 3.75) (Some 0.375)),
    (''gemini-3.5-flash-high'', price (Some 0.5) (Some 3) (Some 0.03) (Some 4.5) (Some 0.5)),
    (''gemini-3-flash-preview'', price (Some 0.5) (Some 3) (Some 0.03) (Some 4.5) (Some 0.5)),
    (''gemini-3-pro-preview'', price (Some 2) (Some 12) (Some 0.25) (Some 18) (Some 2)),
    (''gemini-3.1-pro-low'', price (Some 2) (Some 12) (Some 0.25) (Some 18) (Some 2)),
    (''gemini-3.1-pro-high'', price (Some 4) (Some 18) (Some 0.5) (Some 27) (Some 4)),
    (''gemini-pro-agent'', price (Some 4) (Some 18) (Some 0.5) (Some 27) (Some 4)),
    (''gemini-3-flash-agent'', price (Some 0.5) (Some 3) (Some 0.03) (Some 4.5) (Some 0.5)),
    (''gemini-3.5-flash-low'', price (Some 0.5) (Some 3) (Some 0.03) (Some 4.5) (Some 0.5)),
    (''gemini-3.5-flash-extra-low'', price (Some 0.5) (Some 3) (Some 0.03) (Some 4.5) (Some 0.5)),
    (''gemini-3-flash'', price (Some 0.5) (Some 3) (Some 0.03) (Some 4.5) (Some 0.5)),
    (''gemini-2.5-pro'', price (Some 2) (Some 12) (Some 0.25) (Some 18) (Some 2)),
    (''gemini-2.5-flash'', price (Some 0.3) (Some 2.5) (Some 0.03) (Some 3.75) (Some 0.3))]"

definition prices_gemini_2 :: "(string \<times> pricing) list" where
  "prices_gemini_2 = [
    (''gemini-2.5-flash-lite'', price (Some 0.15) (Some 1.25) (Some 0.015) (Some 1.875) (Some 0.15))]"

definition prices_qwen :: "(string \<times> pricing) list" where
  "prices_qwen = [
    (''qwen3-coder-plus'', price (Some 0.65) (Some 3.25) (Some 0.5) (Some 3.25) (Some 1)),
    (''qwen3-coder-flash'', price (Some 0.195) (Some 0.975) (Some 0.25) (Some 0.975) (Some 0.5)),
    (''qwen3-coder-next'', price (Some 0.12) (Some 0.8) (Some 0.06) (Some 0.8) (Some 0.5)),
    (''qwen3.8-max'', price (Some 2) (Some 6) (Some 0.25) (Some 6) (Some 2.5)),
    (''qwen3.8-27b'', price (Some 0.4) (Some 3) (Some 0.05) (Some 3) None),
    (''qwen3.8-2.4t-a95b'', price (Some 2) (Some 6) (Some 0.25) (Some 6) None),
    (''qwen3.7-max'', price (Some 1.475) (Some 4.425) (Some 0.25) (Some 4.425) None),
    (''qwen3.7-plus'', price (Some 0.32) (Some 1.28) (Some 0.08) (Some 1.28) None),
    (''qwen3.6-plus'', price (Some 0.325) (Some 1.95) None (Some 1.95) None),
    (''qwen3.6-flash'', price (Some 0.1875) (Some 1.125) (Some 0.01875) (Some 1.125) (Some 0.2344)),
    (''qwen3.6-35b-a3b'', price (Some 0.098) (Some 0.95) None (Some 0.95) None),
    (''qwen3.6-27b'', price (Some 0.289) (Some 2.4) None (Some 2.4) None),
    (''qwen3.6-max-preview'', price (Some 1.027) (Some 6.162) None (Some 6.162) None),
    (''qwen3.5-plus'', price (Some 0.3) (Some 1.8) None (Some 1.8) None),
    (''qwen3.5-flash'', price (Some 0.065) (Some 0.26) None (Some 0.26) None),
    (''qwen3.5-27b'', price (Some 0.195) (Some 1.56) None (Some 1.56) None),
    (''qwen3.5-35b-a3b'', price (Some 0.14) (Some 1) None (Some 1) None),
    (''qwen3.5-122b-a10b'', price (Some 0.26) (Some 2.08) None (Some 2.08) None),
    (''qwen3.5-397b-a17b'', price (Some 0.3025) (Some 1.925) None (Some 1.925) None)]"

definition prices_kimi :: "(string \<times> pricing) list" where
  "prices_kimi = [
    (''kimi-k3'', price (Some 3) (Some 15) (Some 0.3) (Some 15) (Some 3)),
    (''k3'', price (Some 3) (Some 15) (Some 0.3) (Some 15) (Some 3)),
    (''kimi-k2.7-code'', price (Some 0.95) (Some 4) (Some 0.19) (Some 4) (Some 0.95)),
    (''kimi-k2.7-code-highspeed'', price (Some 1.9) (Some 8) (Some 0.38) (Some 8) (Some 1.9)),
    (''kimi-for-coding'', price (Some 0.95) (Some 4) (Some 0.19) (Some 4) (Some 0.95)),
    (''kimi-for-coding-highspeed'', price (Some 1.9) (Some 8) (Some 0.38) (Some 8) (Some 1.9)),
    (''kimi-k2'', price (Some 1) (Some 4) (Some 0.5) (Some 6) (Some 1)),
    (''kimi-k2-thinking'', price (Some 1.5) (Some 6) (Some 0.75) (Some 9) (Some 1.5)),
    (''kimi-k2.5'', price (Some 1.2) (Some 4.8) (Some 0.6) (Some 7.2) (Some 1.2)),
    (''kimi-k2.5-thinking'', price (Some 1.8) (Some 7.2) (Some 0.9) (Some 10.8) (Some 1.8)),
    (''kimi-k2.6'', price (Some 1) (Some 4) (Some 0.5) (Some 6) (Some 1)),
    (''kimi-latest'', price (Some 1) (Some 4) (Some 0.5) (Some 6) (Some 1))]"

definition prices_deepseek :: "(string \<times> pricing) list" where
  "prices_deepseek = [
    (''deepseek-chat'', price (Some 0.14) (Some 0.28) (Some 0.0028) (Some 0.28) (Some 0.14)),
    (''deepseek-reasoner'', price (Some 0.14) (Some 0.28) (Some 0.0028) (Some 0.28) (Some 0.14)),
    (''deepseek-r1'', price (Some 0.14) (Some 0.28) (Some 0.0028) (Some 0.28) (Some 0.14)),
    (''deepseek-v3.2-chat'', price (Some 0.14) (Some 0.28) (Some 0.0028) (Some 0.28) (Some 0.14)),
    (''deepseek-v3.2-reasoner'', price (Some 0.14) (Some 0.28) (Some 0.0028) (Some 0.28) (Some 0.14)),
    (''deepseek-v4-flash'', price (Some 0.14) (Some 0.28) (Some 0.0028) (Some 0.28) (Some 0.14)),
    (''deepseek-v4-pro'', price (Some 0.435) (Some 0.87) (Some 0.003625) (Some 0.87) (Some 0.435))]"

definition prices_glm :: "(string \<times> pricing) list" where
  "prices_glm = [
    (''glm-4.6'', price (Some 0.5) (Some 2) (Some 0.25) (Some 3) (Some 0.5)),
    (''glm-4.6v'', price (Some 0.75) (Some 3) (Some 0.375) (Some 4.5) (Some 0.75)),
    (''glm-4.7'', price (Some 0.75) (Some 3) (Some 0.375) (Some 4.5) (Some 0.75)),
    (''glm-5'', price (Some 1) (Some 4) (Some 0.5) (Some 6) (Some 1))]"

definition prices_minimax :: "(string \<times> pricing) list" where
  "prices_minimax = [
    (''MiniMax-M3'', price (Some 0.3) (Some 1.2) (Some 0.06) (Some 1.8) (Some 0.3)),
    (''MiniMax-M2.1'', price (Some 0.5) (Some 2) (Some 0.25) (Some 3) (Some 0.5)),
    (''MiniMax-M2.5'', price (Some 0.5) (Some 2) (Some 0.25) (Some 3) (Some 0.5)),
    (''MiniMax-M2.7'', price (Some 0.5) (Some 2) (Some 0.25) (Some 3) (Some 0.5)),
    (''minimax-m2.1'', price (Some 0.5) (Some 2) (Some 0.25) (Some 3) (Some 0.5)),
    (''minimax-m2.5'', price (Some 0.6) (Some 2.4) (Some 0.3) (Some 3.6) (Some 0.6))]"

definition prices_grok :: "(string \<times> pricing) list" where
  "prices_grok = [
    (''grok-code-fast-1'', price (Some 0.5) (Some 2) (Some 0.25) (Some 3) (Some 0.5))]"

definition prices_router :: "(string \<times> pricing) list" where
  "prices_router = [
    (''auto'', price (Some 2) (Some 8) (Some 1) (Some 12) (Some 2))]"

definition prices_misc :: "(string \<times> pricing) list" where
  "prices_misc = [
    (''oswe-vscode-prime'', price (Some 1) (Some 4) (Some 0.5) (Some 6) (Some 1)),
    (''gpt-oss-120b-medium'', price (Some 0.5) (Some 2) (Some 0.25) (Some 3) (Some 0.5)),
    (''vision-model'', price (Some 1.5) (Some 6) (Some 0.75) (Some 9) (Some 1.5)),
    (''coder-model'', price (Some 1.5) (Some 6) (Some 0.75) (Some 9) (Some 1.5))]"

definition MODEL_PRICING :: "(string \<times> pricing) list" where
  "MODEL_PRICING = literal (prices_claude @ prices_gpt_1 @ prices_gpt_2 @ prices_gpt_3 @ prices_gemini_1 @ prices_gemini_2 @ prices_qwen @ prices_kimi @ prices_deepseek @ prices_glm @ prices_minimax @ prices_grok @ prices_router @ prices_misc)"

section \<open>PROVIDER_PRICING\<close>

definition prices_gh :: "(string \<times> pricing) list" where
  "prices_gh = [
    (''gpt-5.3-codex'', price (Some 1.75) (Some 14) (Some 0.175) (Some 14) (Some 1.75))]"

definition prices_tokenrouter_1 :: "(string \<times> pricing) list" where
  "prices_tokenrouter_1 = [
    (''MiniMax-M3'', price (Some 0.3) (Some 1.2) (Some 0.06) (Some 1.2) None),
    (''anthropic/claude-fable-5'', price (Some 10) (Some 50) (Some 1) (Some 50) (Some 12.5)),
    (''anthropic/claude-haiku-4.5'', price (Some 1) (Some 5) (Some 0.1) (Some 5) (Some 1.25)),
    (''anthropic/claude-opus-4.5'', price (Some 5) (Some 25) (Some 0.5) (Some 25) (Some 6.25)),
    (''anthropic/claude-opus-4.6'', price (Some 5) (Some 25) (Some 0.5) (Some 25) (Some 6.25)),
    (''anthropic/claude-opus-4.7'', price (Some 5) (Some 25) (Some 0.5) (Some 25) (Some 6.25)),
    (''anthropic/claude-opus-4.7-fast'', price (Some 30) (Some 150) (Some 3) (Some 150) None),
    (''anthropic/claude-opus-4.8'', price (Some 5) (Some 25) (Some 0.5) (Some 25) (Some 6.25)),
    (''anthropic/claude-opus-4.8-fast'', price (Some 10) (Some 50) (Some 1) (Some 50) (Some 12.5)),
    (''anthropic/claude-opus-5'', price (Some 5) (Some 25) (Some 0.5) (Some 25) (Some 6.25)),
    (''anthropic/claude-opus-5-fast'', price (Some 10) (Some 50) (Some 1) (Some 50) (Some 12.5)),
    (''anthropic/claude-sonnet-4'', price (Some 3) (Some 15) (Some 0.3) (Some 15) (Some 3.75)),
    (''anthropic/claude-sonnet-4.5'', price (Some 3) (Some 15) (Some 0.3) (Some 15) (Some 3.75)),
    (''anthropic/claude-sonnet-4.6'', price (Some 3) (Some 15) (Some 0.3) (Some 15) (Some 3.75)),
    (''anthropic/claude-sonnet-5'', price (Some 2) (Some 10) (Some 0.2) (Some 10) None),
    (''claude-opus-4-8-m-aws'', price (Some 5) (Some 25) (Some 0.5) (Some 25) (Some 6.25)),
    (''deepseek/deepseek-v3.2'', price (Some 0.26) (Some 0.38) (Some 0.13) (Some 0.38) None),
    (''deepseek/deepseek-v4-flash'', price (Some 0.14) (Some 0.28) (Some 0.0028) (Some 0.28) None),
    (''deepseek/deepseek-v4-flash-0731'', price (Some 0.14) (Some 0.28) (Some 0.0028) (Some 0.28) None),
    (''deepseek/deepseek-v4-pro'', price (Some 0.435) (Some 0.87) (Some 0.003625) (Some 0.87) None),
    (''ex/gpt-5.4'', price (Some 2.5) (Some 15) (Some 0.25) (Some 15) None),
    (''google/gemini-2.5-flash-image'', price (Some 0.3) (Some 2.5) None (Some 2.5) None),
    (''google/gemini-3-flash-preview'', price (Some 0.5) (Some 3) (Some 0.05) (Some 3) (Some 0.08333)),
    (''google/gemini-3-pro-image-preview'', price (Some 2) (Some 12) None (Some 12) None)]"

definition prices_tokenrouter_2 :: "(string \<times> pricing) list" where
  "prices_tokenrouter_2 = [
    (''google/gemini-3.1-flash-image-preview'', price (Some 0.5) (Some 3) None (Some 3) None),
    (''google/gemini-3.1-flash-lite-image'', price (Some 0.25) (Some 1.5) None (Some 1.5) None),
    (''google/gemini-3.1-pro-preview'', price (Some 2) (Some 12) (Some 0.2) (Some 12) (Some 0.375)),
    (''google/gemini-3.5-flash'', price (Some 1.5) (Some 9) (Some 0.15) (Some 9) (Some 0.08333)),
    (''google/gemini-3.5-flash-lite'', price (Some 0.3) (Some 2.5) (Some 0.03) (Some 2.5) (Some 0.08333)),
    (''google/gemini-3.6-flash'', price (Some 1.5) (Some 7.5) (Some 0.15) (Some 7.5) (Some 0.08333)),
    (''google/gemini-embedding-2'', price (Some 1) (Some 6) (Some 0.1) (Some 6) None),
    (''google/gemma-4-26b-a4b-it'', price (Some 0.06) (Some 0.33) None (Some 0.33) None),
    (''kling-3.0-turbo'', price (Some 2.1) (Some 2.1) None (Some 2.1) None),
    (''microsoft/mai-image-2.5'', price (Some 5) (Some 47) None (Some 47) None),
    (''minimax/minimax-m2-her'', price (Some 0.3) (Some 1.2) (Some 0.03) (Some 1.2) None),
    (''minimax/minimax-m2.1'', price (Some 0.3) (Some 1.2) (Some 0.03) (Some 1.2) None),
    (''minimax/minimax-m2.1-highspeed'', price (Some 0.6) (Some 2.4) (Some 0.06) (Some 2.4) None),
    (''minimax/minimax-m2.5'', price (Some 0.3) (Some 1.2) (Some 0.03) (Some 1.2) None),
    (''minimax/minimax-m2.7'', price (Some 0.3) (Some 1.2) (Some 0.06) (Some 1.2) None),
    (''minimax/minimax-m2.7-highspeed'', price (Some 0.6) (Some 2.4) (Some 0.06) (Some 2.4) None),
    (''miromind/mirothinker-1-7-deepresearch'', price (Some 4) (Some 25) None (Some 25) None),
    (''miromind/mirothinker-1-7-deepresearch-mini'', price (Some 1.25) (Some 10) None (Some 10) None),
    (''mistralai/devstral-2512'', price (Some 0.4) (Some 2) (Some 0.04) (Some 2) None),
    (''mistralai/mistral-medium-3-5'', price (Some 1.5) (Some 7.5) None (Some 7.5) None),
    (''mistralai/mistral-small-2603'', price (Some 0.15) (Some 0.6) (Some 0.015) (Some 0.6) None),
    (''mistralai/voxtral-small-24b-2507'', price (Some 0.1) (Some 0.3) (Some 0.01) (Some 0.3) None),
    (''moonshotai/kimi-k2.5'', price (Some 0.6) (Some 3) (Some 0.1) (Some 3) None),
    (''moonshotai/kimi-k2.6'', price (Some 0.95) (Some 4) (Some 0.16) (Some 4) None),
    (''moonshotai/kimi-k2.7-code'', price (Some 0.9286) (Some 3.8571) (Some 0.1857) (Some 3.8571) None),
    (''moonshotai/kimi-k3'', price (Some 3) (Some 15) (Some 0.3) (Some 15) None),
    (''nvidia/nemotron-3-super-120b-a12b'', price (Some 0.3) (Some 0.9) (Some 0.1) (Some 0.9) None),
    (''openai/gpt-4o-mini'', price (Some 0.15) (Some 0.6) (Some 0.075) (Some 0.6) None)]"

definition prices_tokenrouter_3 :: "(string \<times> pricing) list" where
  "prices_tokenrouter_3 = [
    (''openai/gpt-5'', price (Some 1.25) (Some 10) (Some 0.125) (Some 10) None),
    (''openai/gpt-5-image'', price (Some 10) (Some 40) (Some 2.5) (Some 40) None),
    (''openai/gpt-5-image-mini'', price (Some 2.5) (Some 8) (Some 0.25) (Some 8) None),
    (''openai/gpt-5-mini'', price (Some 0.25) (Some 2) (Some 0.025) (Some 2) None),
    (''openai/gpt-5.2'', price (Some 1.75) (Some 14) (Some 0.175) (Some 14) None),
    (''openai/gpt-5.3-codex'', price (Some 1.75) (Some 14) (Some 0.175) (Some 14) None),
    (''openai/gpt-5.4'', price (Some 2.5) (Some 15) (Some 0.25) (Some 15) None),
    (''openai/gpt-5.4-image-2'', price (Some 8) (Some 30) (Some 2) (Some 30) None),
    (''openai/gpt-5.4-mini'', price (Some 0.75) (Some 4.5) (Some 0.075) (Some 4.5) None),
    (''openai/gpt-5.4-nano'', price (Some 0.2) (Some 1.25) (Some 0.02) (Some 1.25) None),
    (''openai/gpt-5.4-pro'', price (Some 30) (Some 180) None (Some 180) None),
    (''openai/gpt-5.5'', price (Some 5) (Some 30) (Some 0.5) (Some 30) None),
    (''openai/gpt-5.5-pro'', price (Some 30) (Some 180) None (Some 180) None),
    (''openai/gpt-5.6-luna'', price (Some 0.2) (Some 1.2) (Some 0.02) (Some 1.2) (Some 0.25)),
    (''openai/gpt-5.6-sol'', price (Some 5) (Some 30) (Some 0.5) (Some 30) (Some 6.25)),
    (''openai/gpt-5.6-terra'', price (Some 2) (Some 12) (Some 0.2) (Some 12) (Some 2.5)),
    (''openai/gpt-audio'', price (Some 2.5) (Some 10) None (Some 10) None),
    (''openai/gpt-audio-mini'', price (Some 0.6) (Some 2.4) None (Some 2.4) None),
    (''openai/gpt-oss-120b'', price (Some 0.039) (Some 0.18) None (Some 0.18) None),
    (''qwen/qwen3-coder-next'', price (Some 0.12) (Some 0.75) (Some 0.06) (Some 0.75) None),
    (''qwen/qwen3.5-122b-a10b'', price (Some 0.26) (Some 2.08) None (Some 2.08) None),
    (''qwen/qwen3.5-35b-a3b'', price (Some 0.1625) (Some 1.3) None (Some 1.3) None),
    (''qwen/qwen3.5-397b-a17b'', price (Some 0.39) (Some 2.34) None (Some 2.34) None),
    (''qwen/qwen3.5-9b'', price (Some 0.1) (Some 0.15) None (Some 0.15) None),
    (''qwen/qwen3.5-flash'', price (Some 0.1048) (Some 0.4194) None (Some 0.4194) None),
    (''qwen/qwen3.5-plus-02-15'', price (Some 0.26) (Some 1.56) None (Some 1.56) None),
    (''qwen/qwen3.6-plus'', price (Some 0.54) (Some 3.21) None (Some 3.21) None),
    (''qwen/qwen3.7-max'', price (Some 1.25) (Some 3.75) (Some 0.25) (Some 3.75) None),
    (''qwen/qwen3.7-plus'', price (Some 0.4) (Some 1.6) (Some 0.08) (Some 1.6) None),
    (''qwen/qwen3.8-max'', price (Some 2) (Some 6) (Some 0.25) (Some 6) (Some 2.5)),
    (''qwen3.5-omni-plus'', price (Some 1) (Some 5.7143) None (Some 5.7143) None),
    (''qwen3.6-flash'', price (Some 0.171) (Some 1.029) (Some 0.017) (Some 1.029) (Some 0.214)),
    (''sakana/fugu-ultra'', price (Some 5) (Some 30) (Some 0.5) (Some 30) None),
    (''seed-2-0-code-preview-260328'', price (Some 1) (Some 6) (Some 0.2) (Some 6) (Some 0.008333)),
    (''seed-2-0-lite-260428'', price (Some 0.5) (Some 4) (Some 0.1) (Some 4) (Some 0.008333))]"

definition prices_tokenrouter_4 :: "(string \<times> pricing) list" where
  "prices_tokenrouter_4 = [
    (''seed-2-0-mini-260428'', price (Some 0.2) (Some 0.8) (Some 0.04) (Some 0.8) (Some 0.00833)),
    (''seed-2-0-pro-260328'', price (Some 1) (Some 6) (Some 0.2) (Some 6) (Some 0.008333)),
    (''stepfun/step-3.5-flash'', price (Some 0.1) (Some 0.3) (Some 0.02) (Some 0.3) None),
    (''stepfun/step-3.7-flash'', price (Some 0.2) (Some 1.15) (Some 0.04) (Some 1.15) None),
    (''tencent/hy3-preview'', price (Some 0.066) (Some 0.26) (Some 0.029) (Some 0.26) None),
    (''x-ai/grok-4.1-fast'', price (Some 0.2) (Some 0.5) (Some 0.05) (Some 0.5) None),
    (''x-ai/grok-4.20-beta'', price (Some 2) (Some 6) (Some 0.2) (Some 6) None),
    (''x-ai/grok-4.3'', price (Some 1.25) (Some 2.5) (Some 0.2) (Some 2.5) None),
    (''x-ai/grok-4.5'', price (Some 2) (Some 6) (Some 0.5) (Some 6) None),
    (''x-ai/grok-build-0.1'', price (Some 1) (Some 2) (Some 0.2) (Some 2) None),
    (''xiaomi/mimo-v2-flash'', price (Some 0.1) (Some 0.3) (Some 0.01) (Some 0.3) None),
    (''xiaomi/mimo-v2-omni'', price (Some 0.4) (Some 2) (Some 0.08) (Some 2) None),
    (''xiaomi/mimo-v2-pro'', price (Some 1) (Some 3) (Some 0.2) (Some 3) None),
    (''xiaomi/mimo-v2.5'', price (Some 0.4) (Some 2) (Some 0.08) (Some 2) None),
    (''xiaomi/mimo-v2.5-pro'', price (Some 1) (Some 3) (Some 0.2) (Some 3) None),
    (''z-ai/glm-4.5-air'', price (Some 0.13) (Some 0.85) (Some 0.025) (Some 0.85) None),
    (''z-ai/glm-4.6'', price (Some 0.6) (Some 2.2) (Some 0.11) (Some 2.2) None),
    (''z-ai/glm-4.6v'', price (Some 0.3) (Some 0.9) None (Some 0.9) None),
    (''z-ai/glm-4.7'', price (Some 0.6) (Some 2.2) (Some 0.11) (Some 2.2) None),
    (''z-ai/glm-5'', price (Some 1) (Some 3.2) (Some 0.2) (Some 3.2) None),
    (''z-ai/glm-5-turbo'', price (Some 1.2) (Some 4) (Some 0.24) (Some 4) None),
    (''z-ai/glm-5.1'', price (Some 1.05) (Some 3.5) (Some 0.525) (Some 3.5) None),
    (''z-ai/glm-5.2'', price (Some 1.4) (Some 4.4) (Some 0.26) (Some 4.4) None)]"

definition prices_meta :: "(string \<times> pricing) list" where
  "prices_meta = [
    (''muse-spark-1.2'', price (Some 1.25) (Some 4.25) (Some 0.15) (Some 4.25) None),
    (''muse-spark-1.1'', price (Some 1.25) (Some 4.25) (Some 0.15) (Some 4.25) None),
    (''muse-spark-1.2-contributor'', price (Some 0.1) (Some 0.2) (Some 0.002) (Some 0.2) None)]"

definition prices_fireworks :: "(string \<times> pricing) list" where
  "prices_fireworks = [
    (''accounts/fireworks/models/glm-5p2'', price (Some 1.4) (Some 4.4) (Some 0.14) (Some 0) (Some 0)),
    (''accounts/fireworks/routers/glm-5p2-fast'', price (Some 2.1) (Some 6.6) (Some 0.21) (Some 0) (Some 0)),
    (''accounts/fireworks/models/glm-5p1'', price (Some 1.4) (Some 4.4) (Some 0.26) (Some 0) (Some 0)),
    (''accounts/fireworks/routers/glm-5p1-fast'', price (Some 2.8) (Some 8.8) (Some 0.52) (Some 0) (Some 0)),
    (''accounts/fireworks/models/qwen3p7-plus'', price (Some 0.4) (Some 1.6) (Some 0.08) (Some 0) (Some 0)),
    (''accounts/fireworks/models/minimax-m3'', price (Some 0.3) (Some 1.2) (Some 0.06) (Some 0) (Some 0)),
    (''accounts/fireworks/models/minimax-m2p7'', price (Some 0.3) (Some 1.2) (Some 0.06) (Some 0) (Some 0)),
    (''accounts/fireworks/models/kimi-k2p7-code'', price (Some 0.95) (Some 4) (Some 0.19) (Some 0) (Some 0)),
    (''accounts/fireworks/routers/kimi-k2p7-code-fast'', price (Some 1.9) (Some 8) (Some 0.38) (Some 0) (Some 0)),
    (''accounts/fireworks/models/kimi-k2p6'', price (Some 0.95) (Some 4) (Some 0.16) (Some 0) (Some 0)),
    (''accounts/fireworks/routers/kimi-k2p6-turbo'', price (Some 2) (Some 8) (Some 0.3) (Some 0) (Some 0)),
    (''accounts/fireworks/routers/kimi-k2p6-fast'', price (Some 2) (Some 8) (Some 0.3) (Some 0) (Some 0)),
    (''accounts/fireworks/models/gpt-oss-120b'', price (Some 0.15) (Some 0.6) (Some 0.015) (Some 0) (Some 0)),
    (''accounts/fireworks/models/gpt-oss-20b'', price (Some 0.07) (Some 0.3) (Some 0.035) (Some 0) (Some 0)),
    (''accounts/fireworks/models/deepseek-v4-pro'', price (Some 1.74) (Some 3.48) (Some 0.145) (Some 0) (Some 0)),
    (''accounts/fireworks/models/deepseek-v4-flash'', price (Some 0.14) (Some 0.28) (Some 0.028) (Some 0) (Some 0))]"

definition PROVIDER_PRICING :: "(string \<times> (string \<times> pricing) list) list" where
  "PROVIDER_PRICING = [(''gh'', prices_gh),
     (''tokenrouter'', prices_tokenrouter_1 @ prices_tokenrouter_2 @ prices_tokenrouter_3 @ prices_tokenrouter_4),
     (''meta'', prices_meta),
     (''fireworks'', prices_fireworks)]"

section \<open>PATTERN_PRICING\<close>

definition patterns_codex :: "(string \<times> pricing) list" where
  "patterns_codex = [
    (''*-codex-xhigh'', price (Some 10) (Some 40) (Some 5) (Some 60) (Some 10)),
    (''*-codex-high'', price (Some 8) (Some 32) (Some 4) (Some 48) (Some 8)),
    (''*-codex-max'', price (Some 8) (Some 32) (Some 4) (Some 48) (Some 8)),
    (''*-codex-mini-*'', price (Some 1.5) (Some 6) (Some 0.75) (Some 9) (Some 1.5)),
    (''*-codex-mini'', price (Some 1.5) (Some 6) (Some 0.75) (Some 9) (Some 1.5)),
    (''*-codex-low'', price (Some 1.75) (Some 14) (Some 0.175) (Some 14) (Some 1.75)),
    (''*-codex-none'', price (Some 1.75) (Some 14) (Some 0.175) (Some 14) (Some 1.75)),
    (''*-codex-spark'', price (Some 3) (Some 12) (Some 0.3) (Some 12) (Some 3)),
    (''codex-*'', price (Some 1.75) (Some 14) (Some 0.175) (Some 14) (Some 1.75)),
    (''*-codex'', price (Some 1.75) (Some 14) (Some 0.175) (Some 14) (Some 1.75))]"

definition patterns_claude :: "(string \<times> pricing) list" where
  "patterns_claude = [
    (''claude-opus-*'', price (Some 5) (Some 25) (Some 0.5) (Some 25) (Some 6.25)),
    (''claude-sonnet-*'', price (Some 3) (Some 15) (Some 0.3) (Some 15) (Some 3.75)),
    (''claude-haiku-*'', price (Some 1) (Some 5) (Some 0.1) (Some 5) (Some 1.25)),
    (''claude-*'', price (Some 3) (Some 15) (Some 0.3) (Some 15) (Some 3.75))]"

definition patterns_gemini :: "(string \<times> pricing) list" where
  "patterns_gemini = [
    (''gemini-*-flash-lite'', price (Some 0.15) (Some 1.25) (Some 0.015) (Some 1.875) (Some 0.15)),
    (''gemini-*-flash'', price (Some 0.3) (Some 2.5) (Some 0.03) (Some 3.75) (Some 0.3)),
    (''gemini-*-pro'', price (Some 2) (Some 12) (Some 0.25) (Some 18) (Some 2)),
    (''gemini-3-*'', price (Some 0.5) (Some 3) (Some 0.03) (Some 4.5) (Some 0.5)),
    (''gemini-2.5-*'', price (Some 0.3) (Some 2.5) (Some 0.03) (Some 3.75) (Some 0.3)),
    (''gemini-*'', price (Some 0.5) (Some 3) (Some 0.03) (Some 4.5) (Some 0.5))]"

definition patterns_gpt :: "(string \<times> pricing) list" where
  "patterns_gpt = [
    (''gpt-5.6-*'', price (Some 2.5) (Some 15) (Some 0.25) (Some 15) (Some 2.5)),
    (''gpt-5.3-*'', price (Some 1.75) (Some 14) (Some 0.175) (Some 14) (Some 1.75)),
    (''gpt-5.2-*'', price (Some 1.75) (Some 14) (Some 0.175) (Some 14) (Some 1.75)),
    (''gpt-5.1-*'', price (Some 1.25) (Some 10) (Some 0.625) (Some 10) (Some 1.25)),
    (''gpt-5-*'', price (Some 1.25) (Some 10) (Some 0.625) (Some 10) (Some 1.25)),
    (''gpt-5*'', price (Some 1.25) (Some 10) (Some 0.625) (Some 10) (Some 1.25)),
    (''gpt-4o-*'', price (Some 0.15) (Some 0.6) (Some 0.075) (Some 0.9) (Some 0.15)),
    (''gpt-4o'', price (Some 2.5) (Some 10) (Some 1.25) (Some 15) (Some 2.5)),
    (''gpt-4*'', price (Some 2.5) (Some 10) (Some 1.25) (Some 15) (Some 2.5))]"

definition patterns_o :: "(string \<times> pricing) list" where
  "patterns_o = [
    (''o1-*'', price (Some 3) (Some 12) (Some 1.5) (Some 18) (Some 3)),
    (''o1'', price (Some 15) (Some 60) (Some 7.5) (Some 90) (Some 15)),
    (''o3-*'', price (Some 10) (Some 40) (Some 5) (Some 60) (Some 10)),
    (''o4-*'', price (Some 2) (Some 8) (Some 1) (Some 12) (Some 2))]"

definition patterns_qwen :: "(string \<times> pricing) list" where
  "patterns_qwen = [
    (''qwen3-coder-*'', price (Some 1) (Some 4) (Some 0.5) (Some 6) (Some 1)),
    (''qwen*-coder-*'', price (Some 1) (Some 4) (Some 0.5) (Some 6) (Some 1)),
    (''qwen*'', price (Some 0.5) (Some 2) (Some 0.25) (Some 3) (Some 0.5))]"

definition patterns_kimi :: "(string \<times> pricing) list" where
  "patterns_kimi = [
    (''kimi-*-thinking'', price (Some 1.8) (Some 7.2) (Some 0.9) (Some 10.8) (Some 1.8)),
    (''kimi-k3*'', price (Some 3) (Some 15) (Some 0.3) (Some 15) (Some 3)),
    (''kimi-k2*'', price (Some 1.2) (Some 4.8) (Some 0.6) (Some 7.2) (Some 1.2)),
    (''kimi-*'', price (Some 1) (Some 4) (Some 0.5) (Some 6) (Some 1))]"

definition patterns_deepseek :: "(string \<times> pricing) list" where
  "patterns_deepseek = [
    (''deepseek-*reasoner*'', price (Some 0.14) (Some 0.28) (Some 0.0028) (Some 0.28) (Some 0.14)),
    (''deepseek-r*'', price (Some 0.14) (Some 0.28) (Some 0.0028) (Some 0.28) (Some 0.14)),
    (''deepseek-v*'', price (Some 0.14) (Some 0.28) (Some 0.0028) (Some 0.28) (Some 0.14)),
    (''deepseek-*'', price (Some 0.14) (Some 0.28) (Some 0.0028) (Some 0.28) (Some 0.14))]"

definition patterns_glm :: "(string \<times> pricing) list" where
  "patterns_glm = [
    (''glm-5*'', price (Some 1) (Some 4) (Some 0.5) (Some 6) (Some 1)),
    (''glm-4*'', price (Some 0.75) (Some 3) (Some 0.375) (Some 4.5) (Some 0.75)),
    (''glm-*'', price (Some 0.5) (Some 2) (Some 0.25) (Some 3) (Some 0.5))]"

definition patterns_minimax :: "(string \<times> pricing) list" where
  "patterns_minimax = [
    (''MiniMax-*'', price (Some 0.5) (Some 2) (Some 0.25) (Some 3) (Some 0.5)),
    (''minimax-*'', price (Some 0.5) (Some 2) (Some 0.25) (Some 3) (Some 0.5))]"

definition patterns_grok :: "(string \<times> pricing) list" where
  "patterns_grok = [
    (''grok-code-*'', price (Some 0.5) (Some 2) (Some 0.25) (Some 3) (Some 0.5)),
    (''grok-*'', price (Some 0.5) (Some 2) (Some 0.25) (Some 3) (Some 0.5))]"

definition patterns_muse :: "(string \<times> pricing) list" where
  "patterns_muse = [
    (''*muse-spark*contributor*'', price (Some 0.1) (Some 0.2) (Some 0.002) (Some 0.3) (Some 0.1)),
    (''*muse-spark*'', price (Some 1.25) (Some 4.25) (Some 0.15) (Some 6.375) (Some 1.25)),
    (''*muse-glimmer*'', price (Some 0.3) (Some 1.2) (Some 0.04) (Some 1.8) (Some 0.3)),
    (''*muse*'', price (Some 1.25) (Some 4.25) (Some 0.15) (Some 6.375) (Some 1.25))]"

definition PATTERN_PRICING :: "(string \<times> pricing) list" where
  "PATTERN_PRICING = patterns_codex @ patterns_claude @ patterns_gemini @ patterns_gpt @ patterns_o @ patterns_qwen @ patterns_kimi @ patterns_deepseek @ patterns_glm @ patterns_minimax @ patterns_grok @ patterns_muse"

end
