(* ===== verification/Pricing.thy ===== *)
theory Pricing
  imports PriceTable JsRegex
begin

text \<open>
  Prices and costs, open-sse/providers/pricing.js: glob patterns compiled to regular expressions in
  a bounded cache, the chain of price sources, and the cost of the tokens of a request. A lookup in
  a table sees the entries the table writes. The name of a provider and of a model are strings, the
  empty string where the caller has none; the token counts are an arbitrary value.
\<close>

section \<open>Patterns\<close>

definition not_newline :: "char \<Rightarrow> bool" where
  "not_newline c = (c \<noteq> CHR 0x0A \<and> c \<noteq> CHR 0x0D)"

text \<open>\<open>pattern.split("*")\<close>: at least one piece.\<close>

fun split_star :: "string \<Rightarrow> string list" where
  "split_star [] = [[]]"
| "split_star (c # cs) = (if c = CHR ''*'' then [] # split_star cs
     else (case split_star cs of [] \<Rightarrow> [[c]] | p # ps \<Rightarrow> (c # p) # ps))"

fun join_pieces :: "string list \<Rightarrow> rx" where
  "join_pieces [] = Eps"
| "join_pieces [p] = lit_ci p"
| "join_pieces (p # q # ps) = Seq (lit_ci p) (Seq (Star (Cls not_newline)) (join_pieces (q # ps)))"

text \<open>\<open>^\<close> is a place with nothing before it, \<open>$\<close> one with nothing after it.\<close>

definition compile_pattern :: "string \<Rightarrow> rx" where
  "compile_pattern pattern = Seq (NotBehind (\<lambda>_. True)) (Seq (join_pieces (split_star pattern)) (NotAhead (\<lambda>_. True)))"

definition MAX_COMPILED_PATTERNS :: nat where
  "MAX_COMPILED_PATTERNS = 256"

type_synonym pattern_cache = "(string \<times> rx) list"

definition remember :: "string \<Rightarrow> rx \<Rightarrow> pattern_cache \<Rightarrow> pattern_cache" where
  "remember pattern regex cache =
     om_set (if MAX_COMPILED_PATTERNS \<le> length cache then tl cache else cache) pattern regex"

definition matchPattern :: "string \<Rightarrow> string \<Rightarrow> pattern_cache \<Rightarrow> pattern_cache \<times> bool" where
  "matchPattern pattern model cache = (case om_get cache pattern of
     Some regex \<Rightarrow> (cache, rx_test regex model)
   | None \<Rightarrow> (let regex = compile_pattern pattern in (remember pattern regex cache, rx_test regex model)))"

section \<open>The chain of prices\<close>

text \<open>\<open>model.split("/").pop()\<close>\<close>

definition base_model :: "string \<Rightarrow> string" where
  "base_model model = last_segment model"

fun first_pattern :: "(string \<times> pricing) list \<Rightarrow> string \<Rightarrow> string \<Rightarrow> pattern_cache \<Rightarrow> pattern_cache \<times> pricing option" where
  "first_pattern [] base model cache = (cache, None)"
| "first_pattern ((pattern, p) # rest) base model cache =
     (let (cache1, m1) = matchPattern pattern base cache in
      if m1 then (cache1, Some p)
      else let (cache2, m2) = matchPattern pattern model cache1 in
        if m2 then (cache2, Some p) else first_pattern rest base model cache2)"

definition provider_override :: "string \<Rightarrow> string \<Rightarrow> pricing option" where
  "provider_override provider model = (if provider = [] then None
     else case om_get PROVIDER_PRICING provider of None \<Rightarrow> None | Some prices \<Rightarrow> om_get prices model)"

definition getPricingForModel :: "string \<Rightarrow> string \<Rightarrow> pattern_cache \<Rightarrow> pattern_cache \<times> pricing option" where
  "getPricingForModel provider model cache =
     (if model = [] then (cache, None)
      else case provider_override provider model of Some p \<Rightarrow> (cache, Some p)
      | None \<Rightarrow> (let base = base_model model in
          case om_get MODEL_PRICING base of Some p \<Rightarrow> (cache, Some p)
          | None \<Rightarrow> (case om_get MODEL_PRICING model of Some p \<Rightarrow> (cache, Some p)
              | None \<Rightarrow> first_pattern PATTERN_PRICING base model cache)))"

definition getDefaultPricing :: "(string \<times> (string \<times> pricing) list) list" where
  "getDefaultPricing = PROVIDER_PRICING"

section \<open>Costs\<close>

definition nonnegativeFiniteNumber :: "jv \<Rightarrow> rat option" where
  "nonnegativeFiniteNumber v =
     (if is_nullish v \<or> (case v of Str s \<Rightarrow> trim s = [] | _ \<Rightarrow> False) then None
      else case to_number v of Fin r \<Rightarrow> if 0 \<le> r then Some r else None | _ \<Rightarrow> None)"

definition rate_num :: "rat option \<Rightarrow> jsnum" where
  "rate_num r = (case r of None \<Rightarrow> NaN | Some x \<Rightarrow> Fin x)"

definition per_token :: "rat option \<Rightarrow> jsnum" where
  "per_token r = num_div (rate_num r) 1000000"

definition num_max :: "jsnum \<Rightarrow> jsnum \<Rightarrow> jsnum" where
  "num_max x y = (if x = NaN \<or> y = NaN then NaN else if x < y then y else x)"

definition num_min :: "jsnum \<Rightarrow> jsnum \<Rightarrow> jsnum" where
  "num_min x y = (if x = NaN \<or> y = NaN then NaN else if x < y then x else y)"

definition first_count :: "jv \<Rightarrow> string \<Rightarrow> string \<Rightarrow> jsnum" where
  "first_count tokens k k' = to_number (js_or (get tokens k) (js_or (get tokens k') (JInt 0)))"

definition one_count :: "jv \<Rightarrow> string \<Rightarrow> jsnum" where
  "one_count tokens k = to_number (js_or (get tokens k) (JInt 0))"

text \<open>\<open>a ?? b\<close> on rates\<close>

definition rate_or :: "rat option \<Rightarrow> rat option \<Rightarrow> rat option" where
  "rate_or a b = (case a of None \<Rightarrow> b | Some r \<Rightarrow> Some r)"

definition metered_cost :: "jv \<Rightarrow> pricing \<Rightarrow> jsnum" where
  "metered_cost tokens p =
     (let inputTokens = first_count tokens ''prompt_tokens'' ''input_tokens'';
          cachedTokens = first_count tokens ''cached_tokens'' ''cache_read_input_tokens'';
          cacheCreationTokens = one_count tokens ''cache_creation_input_tokens'';
          nonCachedInput = num_max (Fin 0) (num_sub (num_sub inputTokens cachedTokens) cacheCreationTokens);
          cost0 = num_add (Fin 0) (num_mul nonCachedInput (per_token (input_rate p)));
          cost1 = (if num_lt (Fin 0) cachedTokens
            then num_add cost0 (num_mul cachedTokens (per_token (rate_or (cached_rate p) (input_rate p)))) else cost0);
          outputTokens = first_count tokens ''completion_tokens'' ''output_tokens'';
          cost2 = num_add cost1 (num_mul outputTokens (per_token (output_rate p)));
          reasoningTokens = num_min (one_count tokens ''reasoning_tokens'') outputTokens;
          cost3 = (if num_lt (Fin 0) reasoningTokens \<and> reasoning_rate p \<noteq> None \<and> reasoning_rate p \<noteq> output_rate p
            then num_add cost2 (num_mul reasoningTokens
              (num_div (num_sub (rate_num (reasoning_rate p)) (rate_num (output_rate p))) 1000000)) else cost2)
      in if num_lt (Fin 0) cacheCreationTokens
         then num_add cost3 (num_mul cacheCreationTokens (per_token (rate_or (creation_rate p) (input_rate p)))) else cost3)"

definition calculateCostFromTokens :: "jv \<Rightarrow> pricing option \<Rightarrow> jsnum" where
  "calculateCostFromTokens tokens pricing =
     (if \<not> truthy tokens then Fin 0
      else case nonnegativeFiniteNumber (get tokens ''cost_usd'') of Some direct \<Rightarrow> Fin direct
      | None \<Rightarrow> (case nonnegativeFiniteNumber (get tokens ''cost_in_usd'') of Some direct \<Rightarrow> Fin direct
        | None \<Rightarrow> (case nonnegativeFiniteNumber (get tokens ''cost_in_usd_ticks'') of
            Some ticks \<Rightarrow> Fin (ticks / 10000000000)
          | None \<Rightarrow> (case pricing of None \<Rightarrow> Fin 0 | Some p \<Rightarrow> metered_cost tokens p))))"

end
