(* ===== verification/PricingGuarantees.thy ===== *)
theory PricingGuarantees
  imports Pricing
begin

text \<open>
  What the pricing code guarantees: a compiled pattern means the glob it was written as, whatever
  the cache holds; the chain of prices; prices are well formed; and the cost of a request is the
  sum of its tokens, each charged once.
\<close>

section \<open>Globs\<close>

text \<open>The reference meaning of a pattern: a star stands for any text without a line break, every
  other character for itself, letters in either case.\<close>

fun glob :: "string \<Rightarrow> string \<Rightarrow> bool" where
  "glob [] s = (s = [])"
| "glob (x # p) [] = (x = CHR ''*'' \<and> glob p [])"
| "glob (x # p) (c # cs) = (if x = CHR ''*'' then glob p (c # cs) \<or> not_newline c \<and> glob (x # p) cs
     else lower_char c = lower_char x \<and> glob p cs)"

lemma ex_split_Cons:
  "(\<exists>u v. c # cs = u @ v \<and> Q u v) \<longleftrightarrow> Q [] (c # cs) \<or> (\<exists>u v. cs = u @ v \<and> Q (c # u) v)"
proof
  assume "\<exists>u v. c # cs = u @ v \<and> Q u v"
  then obtain u v where "c # cs = u @ v" "Q u v" by blast
  then show "Q [] (c # cs) \<or> (\<exists>u v. cs = u @ v \<and> Q (c # u) v)" by (cases u) auto
next
  assume "Q [] (c # cs) \<or> (\<exists>u v. cs = u @ v \<and> Q (c # u) v)"
  then show "\<exists>u v. c # cs = u @ v \<and> Q u v" by (metis append_Cons append_Nil)
qed

lemma glob_star: "glob (CHR ''*'' # p) s \<longleftrightarrow> (\<exists>u v. s = u @ v \<and> list_all not_newline u \<and> glob p v)"
proof (induction s)
  case (Cons c cs)
  show ?case unfolding ex_split_Cons using Cons by auto
qed simp

text \<open>What is left of the subject after a match; for the expressions compiled from patterns it only
  depends on what was left before.\<close>

definition rests :: "rx \<Rightarrow> rx_pos \<Rightarrow> string set" where
  "rests r p = px_rest ` set (rx_match r p)"

lemma rests_Eps [simp]: "rests Eps p = {px_rest p}"
  by (simp add: rests_def)

lemma rests_Cls [simp]: "rests (Cls P) p = (case px_rest p of [] \<Rightarrow> {} | c # cs \<Rightarrow> if P c then {cs} else {})"
  by (auto simp: rests_def next_char_def step_char_def split: list.split)

lemma rests_Seq: "rests (Seq r s) p = (\<Union>q \<in> set (rx_match r p). rests s q)"
  by (auto simp: rests_def)

lemma rests_Seq_plain:
  assumes "\<And>q. rests s q = F (px_rest q)"
  shows "rests (Seq r s) p = (\<Union>v \<in> rests r p. F v)"
  by (simp add: rests_Seq assms) (simp add: rests_def)

definition after_lit :: "string \<Rightarrow> string \<Rightarrow> string set" where
  "after_lit l s = {v. \<exists>u. s = u @ v \<and> map lower_char u = map lower_char l}"

lemma after_lit_simps [simp]:
  "after_lit [] s = {s}"
  "after_lit (c # l) s = (case s of [] \<Rightarrow> {} | d # ds \<Rightarrow> if lower_char d = lower_char c then after_lit l ds else {})"
  by (auto simp: after_lit_def Cons_eq_append_conv split: list.split)

lemma rests_lit: "rests (lit_ci l) p = after_lit l (px_rest p)"
proof (induction l arbitrary: p rule: lit_ci.induct)
  case (3 c d l)
  then have "rests (Seq (Cls (\<lambda>e. lower_char e = lower_char c)) (lit_ci (d # l))) p
      = (\<Union>v \<in> rests (Cls (\<lambda>e. lower_char e = lower_char c)) p. after_lit (d # l) v)"
    by (intro rests_Seq_plain) simp
  then show ?case by (simp only: lit_ci.simps) (simp split: list.split)
qed (auto split: list.split)

lemma rests_star: "rests (Star (Cls P)) p = {v. \<exists>u. px_rest p = u @ v \<and> list_all P u}"
proof -
  have "px_rest ` set (star_rounds n (rx_match (Cls P)) p) = {v. \<exists>u. px_rest p = u @ v \<and> list_all P u}"
    if "length (px_rest p) \<le> n" for n p
    using that
  proof (induction n arbitrary: p)
    case 0
    then show ?case by auto
  next
    case (Suc n)
    show ?case
    proof (cases "px_rest p")
      case Nil
      then show ?thesis by (simp add: next_char_def)
    next
      case (Cons c cs)
      have q: "px_rest (step_char p) = cs" using Cons by (simp add: step_char_def)
      show ?thesis
      proof (cases "P c")
        case True
        have "px_rest ` set (star_rounds (Suc n) (rx_match (Cls P)) p)
            = insert (c # cs) (px_rest ` set (star_rounds n (rx_match (Cls P)) (step_char p)))"
          using Cons True q by (auto simp: next_char_def)
        also have "\<dots> = insert (c # cs) {v. \<exists>u. cs = u @ v \<and> list_all P u}"
          using Suc.IH [of "step_char p"] Suc.prems Cons q by (simp del: rx_match.simps)
        also have "\<dots> = {v. \<exists>u. c # cs = u @ v \<and> list_all P u}"
          using True by (auto simp: Cons_eq_append_conv)
        finally show ?thesis by (simp only: Cons)
      next
        case False
        then show ?thesis using Cons by (auto simp: next_char_def Cons_eq_append_conv)
      qed
    qed
  qed
  then show ?thesis by (simp add: rests_def)
qed

fun after_pieces :: "string list \<Rightarrow> string \<Rightarrow> string set" where
  "after_pieces [] s = {s}"
| "after_pieces [l] s = after_lit l s"
| "after_pieces (l # m # ls) s =
     (\<Union>t \<in> after_lit l s. \<Union>v \<in> {v. \<exists>u. t = u @ v \<and> list_all not_newline u}. after_pieces (m # ls) v)"

lemma rests_pieces: "rests (join_pieces ps) p = after_pieces ps (px_rest p)"
proof (induction ps arbitrary: p rule: join_pieces.induct)
  case (3 l m ls)
  have "rests (Seq (Star (Cls not_newline)) (join_pieces (m # ls))) q
      = (\<Union>v \<in> {v. \<exists>u. px_rest q = u @ v \<and> list_all not_newline u}. after_pieces (m # ls) v)" for q
    using rests_Seq_plain [OF 3] by (simp only: rests_star)
  from rests_Seq_plain [OF this] show ?case by (simp add: rests_lit)
qed (simp_all add: rests_lit)

lemma split_star_Cons: "\<exists>p ps. split_star s = p # ps"
  by (cases s) (auto split: list.split)

lemma after_pieces_Cons:
  "after_pieces ((c # p) # ps) s = (case s of [] \<Rightarrow> {} | d # ds \<Rightarrow>
     if lower_char d = lower_char c then after_pieces (p # ps) ds else {})"
  by (cases ps) (auto split: list.split)

lemma pieces_glob: "[] \<in> after_pieces (split_star pattern) s \<longleftrightarrow> glob pattern s"
proof (induction pattern arbitrary: s)
  case Nil
  then show ?case by auto
next
  case (Cons c cs)
  obtain p ps where sp: "split_star cs = p # ps" using split_star_Cons by blast
  show ?case
  proof (cases "c = CHR ''*''")
    case True
    then have "[] \<in> after_pieces (split_star (c # cs)) s
        \<longleftrightarrow> (\<exists>u v. s = u @ v \<and> list_all not_newline u \<and> [] \<in> after_pieces (p # ps) v)"
      by (auto simp: sp)
    then show ?thesis using True Cons [unfolded sp] by (simp only: glob_star)
  next
    case False
    then show ?thesis using Cons [unfolded sp]
      by (cases s) (simp_all add: sp after_pieces_Cons)
  qed
qed

lemma unanchored_never: "search_from (Seq (NotBehind (\<lambda>_. True)) r) (Some c) s = None"
  by (induction s arbitrary: c) (simp_all add: match_here_def Let_def)

lemma compile_pattern_glob: "rx_test (compile_pattern pattern) s = glob pattern s"
proof -
  let ?p = "\<lparr> px_prev = None, px_rest = s, px_caps = [] \<rparr>"
  have e: "rx_match (NotAhead (\<lambda>_. True)) q = (if px_rest q = [] then [q] else [])" for q
    by (simp add: next_char_def split: list.split)
  have "rx_match (compile_pattern pattern) ?p \<noteq> []
      \<longleftrightarrow> (\<exists>q \<in> set (rx_match (join_pieces (split_star pattern)) ?p). px_rest q = [])"
    unfolding compile_pattern_def rx_match.simps(3) e by auto
  also have "\<dots> \<longleftrightarrow> [] \<in> rests (join_pieces (split_star pattern)) ?p"
    by (auto simp: rests_def image_iff eq_commute)
  also have "\<dots> \<longleftrightarrow> glob pattern s" by (simp add: rests_pieces pieces_glob)
  finally have m: "match_here (compile_pattern pattern) ?p \<noteq> None \<longleftrightarrow> glob pattern s"
    by (cases "rx_match (compile_pattern pattern) ?p") (simp_all add: match_here_def)
  show ?thesis
  proof (cases s)
    case Nil
    then show ?thesis using m by (auto simp: rx_test_def rx_exec_def Let_def split: option.split)
  next
    case (Cons c cs)
    have "search_from (compile_pattern pattern) (Some c) cs = None"
      unfolding compile_pattern_def by (rule unanchored_never)
    then show ?thesis using m Cons by (auto simp: rx_test_def rx_exec_def Let_def split: option.split)
  qed
qed

section \<open>The cache of compiled patterns\<close>

text \<open>A request to match, as an event of the machine that holds the cache.\<close>

definition match_step :: "pattern_cache \<Rightarrow> string \<times> string \<Rightarrow> pattern_cache" where
  "match_step cache q = fst (matchPattern (fst q) (snd q) cache)"

definition cache_ok :: "pattern_cache \<Rightarrow> bool" where
  "cache_ok cache \<longleftrightarrow> length cache \<le> MAX_COMPILED_PATTERNS \<and> distinct (om_keys cache)
     \<and> (\<forall>(pattern, regex) \<in> set cache. regex = compile_pattern pattern)"

lemma length_om_set: "length (om_set m k v) = length m + (if om_get m k = None then 1 else 0)"
  by (induction m k v rule: om_set.induct) auto

lemma set_om_set_new: "om_get m k = None \<Longrightarrow> set (om_set m k v) = insert (k, v) (set m)"
  by (induction m k v rule: om_set.induct) (auto split: if_splits)

lemma remember_ok:
  assumes "cache_ok cache" and "om_get cache pattern = None"
  shows "cache_ok (remember pattern (compile_pattern pattern) cache)"
proof -
  define c where "c = (if MAX_COMPILED_PATTERNS \<le> length cache then tl cache else cache)"
  have sub: "set c \<subseteq> set cache" by (cases cache) (auto simp: c_def)
  have d: "distinct (om_keys c)" using assms(1) by (auto simp: c_def cache_ok_def map_tl distinct_tl)
  have n: "om_get c pattern = None" using assms(2) sub by (auto simp: om_get_None_iff)
  have l: "length c < MAX_COMPILED_PATTERNS"
    using assms(1) by (auto simp: c_def cache_ok_def MAX_COMPILED_PATTERNS_def)
  have "cache_ok (om_set c pattern (compile_pattern pattern))"
    using assms(1) sub d n l by (fastforce simp: cache_ok_def length_om_set set_om_set_new)
  then show ?thesis by (simp add: remember_def c_def)
qed

lemma matchPattern_ok:
  assumes "cache_ok cache"
  shows "cache_ok (fst (matchPattern pattern model cache))"
    and "snd (matchPattern pattern model cache) = glob pattern model"
proof -
  have "regex = compile_pattern pattern" if "om_get cache pattern = Some regex" for regex
    using om_get_Some_set [OF that] assms by (auto simp: cache_ok_def)
  then show "snd (matchPattern pattern model cache) = glob pattern model"
    by (auto simp: matchPattern_def Let_def compile_pattern_glob split: option.split)
  show "cache_ok (fst (matchPattern pattern model cache))"
    using assms remember_ok [OF assms] by (auto simp: matchPattern_def Let_def split: option.split)
qed

interpretation compiled: machine match_step cache_ok
  by unfold_locales (simp add: match_step_def matchPattern_ok)

lemma empty_cache_ok: "cache_ok []"
  by (simp add: cache_ok_def)

lemmas cache_reached_ok = compiled.run_inv [OF empty_cache_ok]

text \<open>a pattern price applies to exactly the names its glob describes. The compiled expression,
  the cache of compiled expressions and the eviction of its oldest entry never change an answer, and
  the cache never holds more than its bound.\<close>

theorem pattern_cache_is_transparent:
  "snd (matchPattern pattern model (foldl match_step [] history)) = glob pattern model
   \<and> length (foldl match_step [] history) \<le> MAX_COMPILED_PATTERNS"
  using matchPattern_ok(2) [OF cache_reached_ok] cache_reached_ok [of history] by (simp add: cache_ok_def)

section \<open>The chain\<close>

lemma first_pattern_spec:
  assumes "cache_ok cache"
  shows "snd (first_pattern ps base model cache) = map_option snd (find (\<lambda>q. glob (fst q) base \<or> glob (fst q) model) ps)
    \<and> cache_ok (fst (first_pattern ps base model cache))"
  using assms
proof (induction ps base model cache rule: first_pattern.induct)
  case (2 pattern p rest base model cache)
  obtain c1 m1 where 1: "matchPattern pattern base cache = (c1, m1)" by fastforce
  obtain c2 m2 where 2: "matchPattern pattern model c1 = (c2, m2)" by fastforce
  have m1: "m1 = glob pattern base" "cache_ok c1"
    using matchPattern_ok [OF "2.prems", of pattern base] 1 by auto
  then have m2: "m2 = glob pattern model" "cache_ok c2"
    using matchPattern_ok [OF m1(2), of pattern model] 2 by auto
  show ?case using "2.IH" [OF 1 [symmetric] refl _ 2 [symmetric] refl] m1 m2 1 2 by auto
qed simp

fun first_price :: "'a option list \<Rightarrow> 'a option" where
  "first_price [] = None"
| "first_price (x # xs) = (case x of None \<Rightarrow> first_price xs | Some p \<Rightarrow> Some p)"

text \<open>The sources of a price in the order of the documentation.\<close>

definition price_spec :: "string \<Rightarrow> string \<Rightarrow> pricing option" where
  "price_spec provider model = (if model = [] then None else
     first_price [provider_override provider model, om_get MODEL_PRICING (base_model model), om_get MODEL_PRICING model,
       map_option snd (find (\<lambda>q. glob (fst q) (base_model model) \<or> glob (fst q) model) PATTERN_PRICING)])"

lemma price_chain_eq: "snd (getPricingForModel provider model (foldl match_step [] history)) = price_spec provider model"
  using first_pattern_spec [OF cache_reached_ok, of PATTERN_PRICING "base_model model" model history]
  by (auto simp: getPricingForModel_def price_spec_def Let_def split: option.split)

text \<open>the price of a model comes from the first source that has one, in the documented order:
  the provider's override, the canonical table under the name without its vendor prefix and then
  under the whole name, the first pattern that fits either name. The history of the cache is
  invisible.\<close>

theorem price_chain_in_order:
  "snd (getPricingForModel provider model (foldl match_step [] history)) = price_spec provider model"
  by (rule price_chain_eq)

section \<open>Listed prices\<close>

definition rate_ok :: "rat option \<Rightarrow> bool" where
  "rate_ok r = (case r of None \<Rightarrow> True | Some x \<Rightarrow> 0 \<le> x)"

definition price_ok :: "pricing \<Rightarrow> bool" where
  "price_ok p = (case (input_rate p, output_rate p) of
     (Some i, Some u) \<Rightarrow> 0 < i \<and> i \<le> u \<and> rate_ok (cached_rate p) \<and> rate_ok (reasoning_rate p) \<and> rate_ok (creation_rate p)
   | _ \<Rightarrow> False)"

abbreviation table_ok :: "(string \<times> pricing) list \<Rightarrow> bool" where
  "table_ok t \<equiv> list_all (\<lambda>q. price_ok (snd q)) t"

lemmas price_tables = prices_claude_def prices_gpt_1_def prices_gpt_2_def prices_gpt_3_def prices_gemini_1_def
  prices_gemini_2_def prices_qwen_def prices_kimi_def prices_deepseek_def prices_glm_def prices_minimax_def
  prices_grok_def prices_router_def prices_misc_def prices_gh_def prices_tokenrouter_1_def prices_tokenrouter_2_def
  prices_tokenrouter_3_def prices_tokenrouter_4_def prices_meta_def prices_fireworks_def patterns_codex_def
  patterns_claude_def patterns_gemini_def patterns_gpt_def patterns_o_def patterns_qwen_def patterns_kimi_def
  patterns_deepseek_def patterns_glm_def patterns_minimax_def patterns_grok_def patterns_muse_def

lemma price_ok_price [simp]: "price_ok (price (Some i) (Some u) c r w)
    \<longleftrightarrow> 0 < i \<and> i \<le> u \<and> rate_ok c \<and> rate_ok r \<and> rate_ok w"
  by (simp add: price_ok_def price_def)

lemma rate_ok_simps [simp]: "rate_ok None" "rate_ok (Some x) \<longleftrightarrow> 0 \<le> x"
  by (simp_all add: rate_ok_def)

lemma tables_ok:
  "table_ok prices_claude" "table_ok prices_gpt_1" "table_ok prices_gpt_2" "table_ok prices_gpt_3" "table_ok prices_gemini_1"
  "table_ok prices_gemini_2" "table_ok prices_qwen" "table_ok prices_kimi" "table_ok prices_deepseek" "table_ok prices_glm"
  "table_ok prices_minimax" "table_ok prices_grok" "table_ok prices_router" "table_ok prices_misc" "table_ok prices_gh"
  "table_ok prices_tokenrouter_1" "table_ok prices_tokenrouter_2" "table_ok prices_tokenrouter_3"
  "table_ok prices_tokenrouter_4" "table_ok prices_meta" "table_ok prices_fireworks" "table_ok patterns_codex"
  "table_ok patterns_claude" "table_ok patterns_gemini" "table_ok patterns_gpt" "table_ok patterns_o" "table_ok patterns_qwen"
  "table_ok patterns_kimi" "table_ok patterns_deepseek" "table_ok patterns_glm" "table_ok patterns_minimax"
  "table_ok patterns_grok" "table_ok patterns_muse"
  unfolding price_tables by simp_all

lemma set_om_set_sub: "set (om_set m k v) \<subseteq> insert (k, v) (set m)"
  by (induction m k v rule: om_set.induct) auto

lemma literal_set: "set (literal kvs) \<subseteq> set kvs"
proof -
  have "set (foldl (\<lambda>m kv. om_set m (fst kv) (snd kv)) m kvs) \<subseteq> set m \<union> set kvs" for m
  proof (induction kvs arbitrary: m)
    case (Cons q kvs)
    show ?case using Cons.IH [of "om_set m (fst q) (snd q)"] set_om_set_sub [of m "fst q" "snd q"] by auto
  qed simp
  from this [of "[]"] show ?thesis by (simp add: literal_def)
qed

lemma table_ok_get: "table_ok t \<Longrightarrow> om_get t k = Some p \<Longrightarrow> price_ok p"
  by (force simp: list_all_iff dest: om_get_Some_set)

lemma model_table_ok: "table_ok MODEL_PRICING"
proof -
  have "table_ok (prices_claude @ prices_gpt_1 @ prices_gpt_2 @ prices_gpt_3 @ prices_gemini_1 @ prices_gemini_2
      @ prices_qwen @ prices_kimi @ prices_deepseek @ prices_glm @ prices_minimax @ prices_grok @ prices_router @ prices_misc)"
    by (simp add: tables_ok)
  then show ?thesis unfolding MODEL_PRICING_def list_all_iff using literal_set by blast
qed

lemma pattern_table_ok: "table_ok PATTERN_PRICING"
  by (simp add: PATTERN_PRICING_def tables_ok)

lemma provider_tables_ok: "(n, t) \<in> set PROVIDER_PRICING \<Longrightarrow> table_ok t"
  by (auto simp: PROVIDER_PRICING_def tables_ok)

lemma provider_override_ok: "provider_override provider model = Some p \<Longrightarrow> price_ok p"
  by (auto simp: provider_override_def split: if_splits option.splits
      dest!: om_get_Some_set [of PROVIDER_PRICING] provider_tables_ok table_ok_get)

lemma find_pattern_ok: "find P PATTERN_PRICING = Some q \<Longrightarrow> price_ok (snd q)"
  using pattern_table_ok by (auto simp: list_all_iff dest!: find_Some_in)

lemma price_spec_ok: "price_spec provider model = Some p \<Longrightarrow> price_ok p"
  using table_ok_get [OF model_table_ok]
  by (auto simp: price_spec_def split: if_splits option.splits dest: provider_override_ok find_pattern_ok)

text \<open>every price the chain can return, for any provider and any model, charges input and output,
  output at least as much as input, and has no negative rate.\<close>

theorem listed_prices_sane:
  assumes "snd (getPricingForModel provider model (foldl match_step [] history)) = Some p"
  shows "price_ok p"
  using assms by (simp only: price_chain_eq price_spec_ok)

lemma gpt5_price: "snd (getPricingForModel ''gh'' ''gpt-5.3-codex'' []) = Some (price (Some 1.75) (Some 14) (Some 0.175) (Some 14) (Some 1.75))"
  by (simp add: getPricingForModel_def provider_override_def PROVIDER_PRICING_def prices_gh_def)

theorem listed_prices_sane_witness:
  "\<exists>p. snd (getPricingForModel ''gh'' ''gpt-5.3-codex'' []) = Some p \<and> price_ok p \<and> output_rate p = Some 14"
  using listed_prices_sane [of "''gh''" "''gpt-5.3-codex''" "[]"] gpt5_price by (simp add: price_def)

section \<open>Costs\<close>

text \<open>Counts a provider may report: every one a finite number, none negative.\<close>

definition count_ok :: "jsnum \<Rightarrow> bool" where
  "count_ok n = (case n of Fin r \<Rightarrow> 0 \<le> r | _ \<Rightarrow> False)"

definition counts_ok :: "jv \<Rightarrow> bool" where
  "counts_ok tokens \<longleftrightarrow> count_ok (first_count tokens ''prompt_tokens'' ''input_tokens'')
     \<and> count_ok (first_count tokens ''cached_tokens'' ''cache_read_input_tokens'')
     \<and> count_ok (one_count tokens ''cache_creation_input_tokens'')
     \<and> count_ok (first_count tokens ''completion_tokens'' ''output_tokens'') \<and> count_ok (one_count tokens ''reasoning_tokens'')"

lemma count_okE: "count_ok n \<Longrightarrow> (\<And>r. n = Fin r \<Longrightarrow> 0 \<le> r \<Longrightarrow> thesis) \<Longrightarrow> thesis"
  by (cases n) (auto simp: count_ok_def)

text \<open>The bill: fresh input, cache reads, output that is not reasoning, reasoning and cache writes,
  each part at its own rate. A rate that is not stated is the one of input, for reasoning the one of
  output.\<close>

definition bill :: "rat \<Rightarrow> rat \<Rightarrow> rat \<Rightarrow> rat \<Rightarrow> rat \<Rightarrow> pricing \<Rightarrow> rat" where
  "bill input cached creation out reasoning p =
     (let inr = the (input_rate p); our = the (output_rate p) in
      (max 0 (input - cached - creation) * inr + cached * (case cached_rate p of None \<Rightarrow> inr | Some c \<Rightarrow> c)
       + (out - min reasoning out) * our + min reasoning out * (case reasoning_rate p of None \<Rightarrow> our | Some c \<Rightarrow> c)
       + creation * (case creation_rate p of None \<Rightarrow> inr | Some c \<Rightarrow> c)) / 1000000)"

lemma num_max_Fin [simp]: "num_max (Fin a) (Fin b) = Fin (max a b)"
  by (simp add: num_max_def max_def)

lemma num_min_Fin [simp]: "num_min (Fin a) (Fin b) = Fin (min a b)"
  by (simp add: num_min_def min_def)

lemma num_sub_Fin [simp]: "num_sub (Fin a) (Fin b) = Fin (a - b)"
  by (simp add: num_sub_def)

lemma per_token_Some [simp]: "per_token (Some r) = Fin (r / 1000000)"
  by (simp add: per_token_def rate_num_def num_div_def)

lemma charge:
  "0 \<le> c \<Longrightarrow> (if num_lt (Fin 0) (Fin c) then Fin (a + c * x) else Fin a) = Fin (a + c * x)"
  by (cases "c = 0") auto

lemma per_token_or: "per_token (rate_or r (Some d)) = Fin ((case r of None \<Rightarrow> d | Some x \<Rightarrow> x) / 1000000)"
  by (simp add: rate_or_def split: option.split)

lemma charge_reasoning:
  "0 \<le> m \<Longrightarrow> (if num_lt (Fin 0) (Fin m) \<and> rr \<noteq> None \<and> rr \<noteq> Some our
      then num_add (Fin a) (num_mul (Fin m) (num_div (num_sub (rate_num rr) (rate_num (Some our))) 1000000)) else Fin a)
     = Fin (a + m * ((case rr of None \<Rightarrow> our | Some x \<Rightarrow> x) - our) / 1000000)"
  by (cases rr; cases "m = 0") (auto simp: rate_num_def num_div_def)

lemma metered_cost_bill:
  assumes "first_count tokens ''prompt_tokens'' ''input_tokens'' = Fin i"
    and "first_count tokens ''cached_tokens'' ''cache_read_input_tokens'' = Fin c" "0 \<le> c"
    and "one_count tokens ''cache_creation_input_tokens'' = Fin w" "0 \<le> w"
    and "first_count tokens ''completion_tokens'' ''output_tokens'' = Fin u" "0 \<le> u"
    and "one_count tokens ''reasoning_tokens'' = Fin r" "0 \<le> r"
    and "price_ok p"
  shows "metered_cost tokens p = Fin (bill i c w u r p)"
proof -
  obtain inr our where rates: "input_rate p = Some inr" "output_rate p = Some our"
    using assms(10) by (auto simp: price_ok_def split: option.splits)
  have m: "0 \<le> min r u" using assms(7,9) by simp
  have "metered_cost tokens p = Fin (max 0 (i - c - w) * (inr / 1000000)
      + c * ((case cached_rate p of None \<Rightarrow> inr | Some x \<Rightarrow> x) / 1000000) + u * (our / 1000000)
      + min r u * ((case reasoning_rate p of None \<Rightarrow> our | Some x \<Rightarrow> x) - our) / 1000000
      + w * ((case creation_rate p of None \<Rightarrow> inr | Some x \<Rightarrow> x) / 1000000))"
    unfolding metered_cost_def Let_def assms(1,2,4,6,8) rates num_sub_Fin num_max_Fin num_min_Fin per_token_or
      per_token_Some num_mul.simps(1) num_add.simps charge [OF assms(3)] charge [OF assms(5)] charge_reasoning [OF m]
    by simp
  also have "\<dots> = Fin (bill i c w u r p)"
    unfolding bill_def Let_def rates option.sel by (simp add: field_simps)
  finally show ?thesis .
qed

lemma bill_nonneg:
  assumes "price_ok p" and "0 \<le> c" "0 \<le> w" "0 \<le> u" "0 \<le> r"
  shows "0 \<le> bill i c w u r p"
proof -
  obtain inr our where rates: "input_rate p = Some inr" "output_rate p = Some our" "0 < inr" "inr \<le> our"
    using assms(1) by (auto simp: price_ok_def split: option.splits)
  have "0 \<le> (case x of None \<Rightarrow> d | Some y \<Rightarrow> y)" if "rate_ok x" "0 \<le> d" for x :: "rat option" and d
    using that by (simp add: rate_ok_def split: option.splits)
  then show ?thesis using assms rates
    by (auto simp: bill_def Let_def price_ok_def intro!: add_nonneg_nonneg mult_nonneg_nonneg)
qed

text \<open>without a cost stated by the provider, a request costs its bill: every input, cache, output and
  reasoning token is charged exactly once, at the rate of its kind, reasoning tokens only as far as
  they are part of the output. The bill is never negative.\<close>

theorem cost_is_the_bill:
  assumes "truthy tokens"
    and "nonnegativeFiniteNumber (get tokens ''cost_usd'') = None"
    and "nonnegativeFiniteNumber (get tokens ''cost_in_usd'') = None"
    and "nonnegativeFiniteNumber (get tokens ''cost_in_usd_ticks'') = None"
    and "first_count tokens ''prompt_tokens'' ''input_tokens'' = Fin i"
    and "first_count tokens ''cached_tokens'' ''cache_read_input_tokens'' = Fin c" "0 \<le> c"
    and "one_count tokens ''cache_creation_input_tokens'' = Fin w" "0 \<le> w"
    and "first_count tokens ''completion_tokens'' ''output_tokens'' = Fin u" "0 \<le> u"
    and "one_count tokens ''reasoning_tokens'' = Fin r" "0 \<le> r"
    and "price_ok p"
  shows "calculateCostFromTokens tokens (Some p) = Fin (bill i c w u r p) \<and> 0 \<le> bill i c w u r p"
  using assms metered_cost_bill [OF assms(5-14)] bill_nonneg [OF assms(14,7,9,11,13)]
  by (simp add: calculateCostFromTokens_def)

definition sample_tokens :: jv where
  "sample_tokens = Obj [(''prompt_tokens'', JInt 1000), (''cached_tokens'', JInt 600),
     (''cache_creation_input_tokens'', JInt 100), (''completion_tokens'', JInt 50), (''reasoning_tokens'', JInt 20)]"

theorem cost_is_the_bill_witness:
  "calculateCostFromTokens sample_tokens (Some (price (Some 5) (Some 25) (Some 0.5) (Some 37.5) (Some 6.25))) = Fin (157 / 40000)"
proof -
  have t: "truthy sample_tokens" by (simp add: sample_tokens_def)
  have d: "nonnegativeFiniteNumber (get sample_tokens k) = None"
    if "k \<in> {''cost_usd'', ''cost_in_usd'', ''cost_in_usd_ticks''}" for k
    using that by (auto simp: sample_tokens_def nonnegativeFiniteNumber_def)
  have c: "first_count sample_tokens ''prompt_tokens'' ''input_tokens'' = Fin 1000"
    "first_count sample_tokens ''cached_tokens'' ''cache_read_input_tokens'' = Fin 600"
    "one_count sample_tokens ''cache_creation_input_tokens'' = Fin 100"
    "first_count sample_tokens ''completion_tokens'' ''output_tokens'' = Fin 50"
    "one_count sample_tokens ''reasoning_tokens'' = Fin 20"
    by (simp_all add: sample_tokens_def first_count_def one_count_def js_or_def)
  have "bill 1000 600 100 50 20 (price (Some 5) (Some 25) (Some 0.5) (Some 37.5) (Some 6.25)) = 157 / 40000"
    by (simp add: bill_def price_def)
  then show ?thesis
    using cost_is_the_bill [OF t d d d c(1) c(2) _ c(3) _ c(4) _ c(5),
        of "price (Some 5) (Some 25) (Some 0.5) (Some 37.5) (Some 6.25)"] by simp
qed

text \<open>whatever the provider and the model are called, and whatever the cache of patterns holds, a
  request whose counts are non-negative numbers has a cost, a number that is not negative: no
  missing rate turns it into NaN. Unknown models cost nothing.\<close>

theorem every_request_has_a_cost:
  assumes "counts_ok tokens"
  shows "\<exists>c. calculateCostFromTokens tokens (snd (getPricingForModel provider model (foldl match_step [] history))) = Fin c \<and> 0 \<le> c"
proof -
  obtain i c w u r where n: "first_count tokens ''prompt_tokens'' ''input_tokens'' = Fin i"
    "first_count tokens ''cached_tokens'' ''cache_read_input_tokens'' = Fin c" "0 \<le> c"
    "one_count tokens ''cache_creation_input_tokens'' = Fin w" "0 \<le> w"
    "first_count tokens ''completion_tokens'' ''output_tokens'' = Fin u" "0 \<le> u"
    "one_count tokens ''reasoning_tokens'' = Fin r" "0 \<le> r"
    using assms unfolding counts_ok_def by (elim conjE count_okE) metis
  have m: "count_ok (metered_cost tokens p)" if "price_spec provider model = Some p" for p
    using metered_cost_bill [OF n price_spec_ok [OF that]] bill_nonneg [OF price_spec_ok [OF that] n(3,5,7,9)] by (simp add: count_ok_def)
  have nn: "0 \<le> x" if "nonnegativeFiniteNumber v = Some x" for v x
    using that by (auto simp: nonnegativeFiniteNumber_def split: if_splits jsnum.splits)
  have "count_ok (calculateCostFromTokens tokens (price_spec provider model))"
    using m nn by (auto simp: calculateCostFromTokens_def count_ok_def split: option.splits)
  then show ?thesis unfolding price_chain_eq by (blast elim: count_okE)
qed

theorem every_request_has_a_cost_witness:
  "\<exists>c. calculateCostFromTokens sample_tokens (snd (getPricingForModel ''meta'' ''muse-spark-1.2'' [])) = Fin c \<and> 0 \<le> c"
proof -
  have "counts_ok sample_tokens"
    by (simp add: sample_tokens_def counts_ok_def count_ok_def first_count_def one_count_def js_or_def)
  from every_request_has_a_cost [OF this, of "''meta''" "''muse-spark-1.2''" "[]"] show ?thesis by simp
qed

section \<open>Fireworks\<close>

definition thinking :: "nat \<Rightarrow> nat \<Rightarrow> jv" where
  "thinking out reasoning = Obj [(''completion_tokens'', JInt (int out)), (''reasoning_tokens'', JInt (int reasoning))]"

lemma fireworks_rates: "list_all (\<lambda>q. reasoning_rate (snd q) = Some 0) prices_fireworks"
  by (simp add: prices_fireworks_def price_def)

text \<open>the Fireworks entries state a reasoning rate of zero to avoid a double charge that the
  calculator does not make: it moves reasoning tokens from the output rate to the reasoning rate, so
  under these entries the reasoning part of the output is free, all of it when a request only reasons.\<close>

theorem fireworks_reasoning_is_free:
  "list_all (\<lambda>q. metered_cost (thinking n (n + k)) (snd q) = Fin 0
     \<and> metered_cost (thinking n 0) (snd q) = Fin (of_nat n * the (output_rate (snd q)) / 1000000)) prices_fireworks"
proof -
  have f: "first_count (thinking a b) ''completion_tokens'' ''output_tokens'' = Fin (of_nat a)"
    "one_count (thinking a b) ''reasoning_tokens'' = Fin (of_nat b)"
    "first_count (thinking a b) ''prompt_tokens'' ''input_tokens'' = Fin 0"
    "first_count (thinking a b) ''cached_tokens'' ''cache_read_input_tokens'' = Fin 0"
    "one_count (thinking a b) ''cache_creation_input_tokens'' = Fin 0" for a b
    by (simp_all add: thinking_def first_count_def one_count_def js_or_def)
  have b: "metered_cost (thinking a b) p = Fin (bill 0 0 0 (of_nat a) (of_nat b) p)" if "price_ok p" for a b p
    by (rule metered_cost_bill) (use that in \<open>simp_all add: f\<close>)
  show ?thesis
    using tables_ok(21) fireworks_rates
    by (simp add: list_all_iff b) (simp add: bill_def Let_def split: option.splits)
qed

end
