(* ===== verification/ComboGraph.thy ===== *)
theory ComboGraph
  imports JsValue
begin

text \<open>
  Combos that name other combos, from open-sse/services/combo.js: the map of combos by name, how a
  member resolves to a combo, the search for a cycle and the validation of a combo about to be
  saved. The combos data is a list of combos or an object whose member \<open>combos\<close> is such a list.
\<close>

section \<open>Combos and references\<close>

definition normalizeCombosData :: "jv \<Rightarrow> jv list" where
  "normalizeCombosData data = (if is_array data then arr_items data else arr_items (get data ''combos''))"

definition name_of :: "jv \<Rightarrow> string" where
  "name_of combo = (case get combo ''name'' of Str s \<Rightarrow> s | _ \<Rightarrow> [])"

type_synonym combo_map = "(string \<times> jv) list"

definition buildComboMap :: "jv \<Rightarrow> combo_map" where
  "buildComboMap data = foldl (\<lambda>m combo. om_set m (name_of combo) combo) []
     (filter (\<lambda>combo. name_of combo \<noteq> []) (normalizeCombosData data))"

definition resolveComboReference :: "jv \<Rightarrow> combo_map \<Rightarrow> jv option" where
  "resolveComboReference modelStr m = (case modelStr of
     Str s \<Rightarrow> (case om_get m s of Some combo \<Rightarrow> Some combo
       | None \<Rightarrow> if CHR ''/'' \<in> set s \<and> last_segment s \<noteq> [] then om_get m (last_segment s) else None)
   | _ \<Rightarrow> None)"

definition members :: "jv \<Rightarrow> jv list" where
  "members combo = arr_items (get combo ''models'')"

section \<open>The search for a cycle\<close>

lemma fewer_names_left:
  assumes "om_get m name = Some combo" and "name \<notin> set path"
  shows "card (fst ` set m - insert name (set path)) < card (fst ` set m - set path)"
proof -
  have "name \<in> fst ` set m" using assms(1) om_get_None_iff [of m name] by auto
  then show ?thesis using assms(2) by (intro psubset_card_mono) auto
qed

text \<open>\<open>visit\<close> and the loop over the members of a combo. The set of finished names is threaded through;
  a result is the cycle found. A combo is only expanded when it is not on the path, so the names
  outside the path shrink with every expansion.\<close>

function (sequential) visit :: "combo_map \<Rightarrow> string \<Rightarrow> string list \<Rightarrow> string list \<Rightarrow> string list \<times> string list option"
  and visit_members :: "combo_map \<Rightarrow> jv list \<Rightarrow> string list \<Rightarrow> string list \<Rightarrow> string list \<times> string list option" where
  "visit m name path visited =
     (if name \<in> set path then (visited, Some (dropWhile (\<lambda>n. n \<noteq> name) path @ [name]))
      else if name \<in> set visited then (visited, None)
      else case om_get m name of None \<Rightarrow> (visited, None)
      | Some combo \<Rightarrow> (case visit_members m (members combo) (path @ [name]) visited of
            (visited', Some cycle) \<Rightarrow> (visited', Some cycle)
          | (visited', None) \<Rightarrow> (name # visited', None)))"
| "visit_members m [] path visited = (visited, None)"
| "visit_members m (x # xs) path visited = (case resolveComboReference x m of
     None \<Rightarrow> visit_members m xs path visited
   | Some next \<Rightarrow> (case visit m (name_of next) path visited of
         (visited', Some cycle) \<Rightarrow> (visited', Some cycle)
       | (visited', None) \<Rightarrow> visit_members m xs path visited'))"
  by pat_completeness auto

termination
  by (relation "measures [\<lambda>a. case a of Inl (m, name, path, visited) \<Rightarrow> card (fst ` set m - set path)
          | Inr (m, xs, path, visited) \<Rightarrow> card (fst ` set m - set path),
        \<lambda>a. case a of Inl _ \<Rightarrow> 0 | Inr (m, xs, path, visited) \<Rightarrow> Suc (length xs)]")
    (auto intro: fewer_names_left)

fun visit_roots :: "combo_map \<Rightarrow> string list \<Rightarrow> string list \<Rightarrow> string list option" where
  "visit_roots m [] visited = None"
| "visit_roots m (n # ns) visited = (case visit m n [] visited of
     (visited', Some cycle) \<Rightarrow> Some cycle
   | (visited', None) \<Rightarrow> visit_roots m ns visited')"

text \<open>The empty name stands for no start.\<close>

definition findComboCycle :: "jv \<Rightarrow> string \<Rightarrow> string list option" where
  "findComboCycle data startName = (let m = buildComboMap data in
     if startName \<noteq> [] then snd (visit m startName [] []) else visit_roots m (om_keys m) [])"

section \<open>Validation and lookup\<close>

definition candidate_combo :: "jv \<Rightarrow> string \<Rightarrow> jv \<Rightarrow> jv" where
  "candidate_combo currentId name models = Obj [(''id'', js_or currentId (Str ''__pending_combo__'')),
     (''name'', Str name), (''models'', Arr (arr_items models))]"

definition next_combos :: "jv \<Rightarrow> string \<Rightarrow> jv \<Rightarrow> jv \<Rightarrow> jv list" where
  "next_combos currentId name models data =
     filter (\<lambda>combo. truthy combo \<and> \<not> seq (get combo ''id'') currentId \<and> \<not> seq (get combo ''name'') (Str name))
       (normalizeCombosData data) @ [candidate_combo currentId name models]"

definition validateComboAcyclic :: "jv \<Rightarrow> jv \<Rightarrow> jv \<Rightarrow> jv \<Rightarrow> string option" where
  "validateComboAcyclic name models data currentId =
     (let comboName = (case name of Str s \<Rightarrow> s | _ \<Rightarrow> []) in
      if comboName = [] then Some ''Combo name is required''
      else case findComboCycle (Arr (next_combos currentId comboName models data)) comboName of
        Some cycle \<Rightarrow> Some (''Combo circular dependency detected: '' @ join_with '' -> '' cycle)
      | None \<Rightarrow> None)"

definition getComboModelsFromData :: "jv \<Rightarrow> jv \<Rightarrow> jv list option" where
  "getComboModelsFromData modelStr data = (case resolveComboReference modelStr (buildComboMap data) of
     Some combo \<Rightarrow> if members combo \<noteq> [] then Some (members combo) else None
   | None \<Rightarrow> None)"

section \<open>The graph of references\<close>

definition successors :: "combo_map \<Rightarrow> string \<Rightarrow> string list" where
  "successors m name = (case om_get m name of None \<Rightarrow> []
     | Some combo \<Rightarrow> concat (map (\<lambda>x. case resolveComboReference x m of None \<Rightarrow> [] | Some c \<Rightarrow> [name_of c]) (members combo)))"

definition refs :: "combo_map \<Rightarrow> (string \<times> string) set" where
  "refs m = {(a, b). b \<in> set (successors m a)}"

fun walk :: "combo_map \<Rightarrow> string list \<Rightarrow> bool" where
  "walk m (a # b # ns) = (b \<in> set (successors m a) \<and> walk m (b # ns))"
| "walk m ns = True"

definition named :: "combo_map \<Rightarrow> bool" where
  "named m \<longleftrightarrow> (\<forall>(n, combo) \<in> set m. name_of combo = n)"

lemma named_om_set: "named m \<Longrightarrow> named (om_set m (name_of c) c)"
  unfolding named_def
proof (induction m "name_of c" c rule: om_set.induct)
  case (2 k' v' m v)
  then show ?case by (cases "k' = name_of v") auto
qed simp

lemma buildComboMap_named: "named (buildComboMap data)"
proof -
  have "named (foldl (\<lambda>m combo. om_set m (name_of combo) combo) m cs)" if "named m" for m cs
    using that by (induction cs arbitrary: m) (auto intro: named_om_set)
  moreover have "named []" by (simp add: named_def)
  ultimately show ?thesis by (simp add: buildComboMap_def)
qed

lemma resolve_known:
  assumes "named m" and "resolveComboReference x m = Some c"
  shows "name_of c \<in> fst ` set m"
proof -
  obtain k where "om_get m k = Some c" using assms(2) by (auto simp: resolveComboReference_def split: jv.splits option.splits if_splits)
  then have "(k, c) \<in> set m" by (rule om_get_Some_set)
  then show ?thesis using assms(1) by (force simp: named_def)
qed

lemma successors_known: "named m \<Longrightarrow> b \<in> set (successors m a) \<Longrightarrow> b \<in> fst ` set m"
  by (auto simp: successors_def split: option.splits) (metis resolve_known)

lemma walk_suffix: "walk m (us @ vs) \<Longrightarrow> walk m vs"
proof (induction us)
  case (Cons a us)
  then show ?case by (cases "us @ vs") auto
qed simp

lemma walk_snoc: "walk m (us @ [a]) \<Longrightarrow> b \<in> set (successors m a) \<Longrightarrow> walk m (us @ [a, b])"
proof (induction us)
  case (Cons c us)
  then show ?case by (cases us) auto
qed simp

lemma walk_reaches: "walk m (a # ns) \<Longrightarrow> ns \<noteq> [] \<Longrightarrow> (a, last ns) \<in> (refs m)\<^sup>+"
proof (induction ns arbitrary: a)
  case (Cons b ns)
  then have e: "(a, b) \<in> refs m" by (simp add: refs_def)
  show ?case
  proof (cases "ns = []")
    case False
    then have "(b, last ns) \<in> (refs m)\<^sup>+" using Cons by simp
    then show ?thesis using e False by (simp add: trancl_into_trancl2)
  qed (use e in simp)
qed simp

lemma walk_reach_all: "walk m (a # ns) \<Longrightarrow> n \<in> set (a # ns) \<Longrightarrow> (a, n) \<in> (refs m)\<^sup>*"
proof (induction ns arbitrary: a)
  case (Cons b ns)
  then have e: "(a, b) \<in> refs m" by (simp add: refs_def)
  show ?case
  proof (cases "n = a")
    case False
    then have "(b, n) \<in> (refs m)\<^sup>*" using Cons by auto
    then show ?thesis using e by (simp add: converse_rtrancl_into_rtrancl)
  qed simp
qed simp

end
