(* ===== verification/ComboCycles.thy ===== *)
theory ComboCycles
  imports ComboGraph
begin

text \<open>
  The search for a cycle is exact: it reports a cycle of references when there is one within reach
  and nothing otherwise. The finished names are kept in the order of finishing, and every reference
  of a finished combo goes to one that finished before it.
\<close>

section \<open>Finished names\<close>

fun topo :: "combo_map \<Rightarrow> string list \<Rightarrow> bool" where
  "topo m [] = True"
| "topo m (v # vs) = (set (successors m v) \<subseteq> set vs \<and> topo m vs)"

lemma topo_closed: "topo m vs \<Longrightarrow> v \<in> set vs \<Longrightarrow> (v, w) \<in> (refs m)\<^sup>+ \<Longrightarrow> w \<in> set vs"
proof -
  assume t: "topo m vs" and v: "v \<in> set vs" and "(v, w) \<in> (refs m)\<^sup>+"
  have step: "b \<in> set vs" if "a \<in> set vs" "(a, b) \<in> refs m" for a b
    using that t by (induction vs) (auto simp: refs_def)
  from \<open>(v, w) \<in> (refs m)\<^sup>+\<close> show ?thesis by (induction rule: trancl_induct) (auto intro: step v)
qed

lemma topo_acyclic: "topo m vs \<Longrightarrow> v \<in> set vs \<Longrightarrow> (v, v) \<notin> (refs m)\<^sup>+"
proof (induction vs)
  case (Cons u vs)
  show ?case
  proof (cases "v \<in> set vs")
    case False
    then have vu: "v = u" using Cons.prems by simp
    show ?thesis
    proof
      assume "(v, v) \<in> (refs m)\<^sup>+"
      then obtain b where b: "(v, b) \<in> refs m" "(b, v) \<in> (refs m)\<^sup>*" by (blast dest: tranclD)
      then have "b \<in> set vs" using Cons.prems vu by (auto simp: refs_def)
      moreover have "b = v \<or> (b, v) \<in> (refs m)\<^sup>+" using b(2) by (auto simp: rtrancl_eq_or_trancl)
      ultimately have "v \<in> set vs" using topo_closed [of m vs b v] Cons.prems by auto
      with False show False ..
    qed
  qed (use Cons in simp)
qed simp

section \<open>The search\<close>

definition is_cycle :: "combo_map \<Rightarrow> string list \<Rightarrow> bool" where
  "is_cycle m c \<longleftrightarrow> 2 \<le> length c \<and> hd c = last c \<and> walk m c"

lemma is_cycle_trancl: "is_cycle m c \<Longrightarrow> (hd c, hd c) \<in> (refs m)\<^sup>+"
proof -
  assume c: "is_cycle m c"
  then obtain a ns where "c = a # ns" by (cases c) (auto simp: is_cycle_def)
  then show ?thesis using c walk_reaches [of m a ns] by (cases "ns = []") (auto simp: is_cycle_def)
qed

lemma cycle_closed:
  assumes "walk m (path @ [name])" and "name \<in> set path"
  shows "is_cycle m (dropWhile (\<lambda>n. n \<noteq> name) path @ [name])" and "dropWhile (\<lambda>n. n \<noteq> name) path \<noteq> []"
    and "hd (dropWhile (\<lambda>n. n \<noteq> name) path @ [name]) = name"
proof -
  let ?d = "dropWhile (\<lambda>n. n \<noteq> name) path"
  have ne: "?d \<noteq> []" using assms(2) by (simp add: dropWhile_eq_Nil_conv)
  then have h: "hd ?d = name" using hd_dropWhile [of "\<lambda>n. n \<noteq> name" path] by simp
  have "walk m (?d @ [name])"
    using assms(1) walk_suffix [of m "takeWhile (\<lambda>n. n \<noteq> name) path" "?d @ [name]"]
    by (metis append.assoc takeWhile_dropWhile_id)
  then show "is_cycle m (?d @ [name])" "?d \<noteq> []" "hd (?d @ [name]) = name"
    using ne h by (auto simp: is_cycle_def Suc_le_eq neq_Nil_conv)
qed

text \<open>What a call leaves behind: a cycle within reach of the start of the path, or a larger set of
  finished names.\<close>

definition outcome :: "combo_map \<Rightarrow> string \<Rightarrow> string list \<Rightarrow> string set \<Rightarrow> string list \<times> string list option \<Rightarrow> bool" where
  "outcome m orig visited goal r = (case r of
     (visited', Some c) \<Rightarrow> is_cycle m c \<and> (orig, hd c) \<in> (refs m)\<^sup>*
   | (visited', None) \<Rightarrow> topo m visited' \<and> set visited \<subseteq> set visited' \<and> goal \<subseteq> set visited')"

definition targets :: "combo_map \<Rightarrow> jv list \<Rightarrow> string set" where
  "targets m xs = {n. \<exists>x \<in> set xs. \<exists>c. resolveComboReference x m = Some c \<and> name_of c = n}"

lemma targets_simps [simp]:
  "targets m [] = {}"
  "targets m (x # xs) = (case resolveComboReference x m of None \<Rightarrow> {} | Some c \<Rightarrow> {name_of c}) \<union> targets m xs"
  by (auto simp: targets_def split: option.split)

lemma successors_targets: "om_get m name = Some combo \<Longrightarrow> set (successors m name) = targets m (members combo)"
  by (auto simp: successors_def targets_def split: option.splits) force+

lemma search_spec:
  "named m \<Longrightarrow> topo m visited \<Longrightarrow> walk m (path @ [name]) \<Longrightarrow> orig = hd (path @ [name])
     \<Longrightarrow> outcome m orig visited ({name} \<inter> fst ` set m) (visit m name path visited)"
  "named m \<Longrightarrow> topo m visited \<Longrightarrow> path \<noteq> [] \<Longrightarrow> walk m path \<Longrightarrow> orig = hd path
     \<Longrightarrow> targets m xs \<subseteq> set (successors m (last path))
     \<Longrightarrow> outcome m orig visited (targets m xs) (visit_members m xs path visited)"
proof (induction m name path visited and m xs path visited arbitrary: orig and orig rule: visit_visit_members.induct)
  case (1 m name path visited)
  show ?case
  proof (cases "name \<in> set path")
    case True
    then obtain a p where p: "path = a # p" by (cases path) auto
    have "(orig, name) \<in> (refs m)\<^sup>*" using walk_reach_all [of m a "p @ [name]" name] "1.prems" p by simp
    then show ?thesis using True cycle_closed [OF "1.prems"(3) True] by (simp add: outcome_def)
  next
    case new: False
    show ?thesis
    proof (cases "name \<in> set visited \<or> om_get m name = None")
      case True
      then have "visit m name path visited = (visited, None) \<and> {name} \<inter> fst ` set m \<subseteq> set visited"
        using new om_get_None_iff [of m name] by auto
      then show ?thesis using "1.prems" by (simp add: outcome_def)
    next
      case False
      then obtain combo where c: "om_get m name = Some combo" by auto
      have "outcome m orig visited (targets m (members combo)) (visit_members m (members combo) (path @ [name]) visited)"
        using "1.IH" [OF new _ c] "1.prems" False successors_targets [OF c] by (cases path) auto
      then show ?thesis
        using new False c successors_targets [OF c]
        by (auto simp: outcome_def split: prod.splits option.splits)
    qed
  qed
next
  case (2 m path visited)
  then show ?case by (simp add: outcome_def)
next
  case (3 m x xs path visited)
  show ?case
  proof (cases "resolveComboReference x m")
    case None
    then show ?thesis using "3.IH"(1) [OF None] "3.prems" by simp
  next
    case (Some c)
    obtain v1 r1 where v: "visit m (name_of c) path visited = (v1, r1)" by fastforce
    obtain us where us: "path = us @ [last path]" using "3.prems"(3) by (metis append_butlast_last_id)
    have e: "name_of c \<in> set (successors m (last path))" using "3.prems"(6) Some by simp
    have "walk m (path @ [name_of c])" using walk_snoc [of m us "last path"] "3.prems"(4) us e by (metis append.assoc append_Cons append_Nil)
    moreover have "orig = hd (path @ [name_of c])" using "3.prems"(3,5) by simp
    ultimately have o1: "outcome m orig visited ({name_of c} \<inter> fst ` set m) (visit m (name_of c) path visited)"
      using "3.IH"(2) [OF Some] "3.prems"(1,2) by blast
    have k: "name_of c \<in> fst ` set m" using resolve_known [OF "3.prems"(1) Some] .
    show ?thesis
    proof (cases r1)
      case (Some cyc)
      then show ?thesis using o1 v \<open>resolveComboReference x m = Some c\<close> by (simp add: outcome_def)
    next
      case None
      then have t: "topo m v1" "set visited \<subseteq> set v1" "name_of c \<in> set v1" using o1 v k by (auto simp: outcome_def)
      have "outcome m orig v1 (targets m xs) (visit_members m xs path v1)"
        using "3.IH"(3) [OF Some v [symmetric] None] "3.prems" t(1) by auto
      then show ?thesis using t None v Some by (auto simp: outcome_def split: prod.splits option.splits)
    qed
  qed
qed

section \<open>The search is exact\<close>

lemma visit_roots_spec:
  assumes "named m" and "topo m visited" and "set ns \<subseteq> fst ` set m"
  shows "case visit_roots m ns visited of
     None \<Rightarrow> \<forall>v \<in> set ns \<union> set visited. (v, v) \<notin> (refs m)\<^sup>+
   | Some c \<Rightarrow> is_cycle m c"
  using assms
proof (induction m ns visited rule: visit_roots.induct)
  case (1 m visited)
  then show ?case using topo_acyclic by auto
next
  case (2 m n ns visited)
  obtain v1 r1 where v: "visit m n [] visited = (v1, r1)" by fastforce
  have o1: "outcome m n visited ({n} \<inter> fst ` set m) (visit m n [] visited)"
    using search_spec(1) [of m visited "[]" n n] "2.prems" by simp
  show ?case
  proof (cases r1)
    case None
    then have t: "topo m v1" "set visited \<subseteq> set v1" "n \<in> set v1" using o1 v "2.prems"(3) by (auto simp: outcome_def)
    then show ?thesis
      using "2.IH" [OF v [symmetric] None "2.prems"(1) t(1)] "2.prems"(3) v None by (auto split: option.splits)
  qed (use o1 v in \<open>simp add: outcome_def\<close>)
qed

lemma refs_from_keys: "(a, b) \<in> refs m \<Longrightarrow> a \<in> fst ` set m"
  using om_get_None_iff [of m a] by (auto simp: refs_def successors_def split: option.splits)

lemma find_from_exact:
  assumes "start \<noteq> []" and "m = buildComboMap data"
  shows "case findComboCycle data start of
     None \<Rightarrow> \<forall>v. (start, v) \<in> (refs m)\<^sup>* \<longrightarrow> (v, v) \<notin> (refs m)\<^sup>+
   | Some c \<Rightarrow> is_cycle m c \<and> (start, hd c) \<in> (refs m)\<^sup>*"
proof -
  have nm: "named m" by (simp add: assms(2) buildComboMap_named)
  obtain v1 r1 where v: "visit m start [] [] = (v1, r1)" by fastforce
  have f: "findComboCycle data start = r1" using assms v by (simp add: findComboCycle_def)
  have o1: "outcome m start [] ({start} \<inter> fst ` set m) (visit m start [] [])"
    using search_spec(1) [of m "[]" "[]" start start] nm by simp
  show ?thesis
  proof (cases r1)
    case None
    then have t: "topo m v1" "{start} \<inter> fst ` set m \<subseteq> set v1" using o1 v by (auto simp: outcome_def)
    have "(w, w) \<notin> (refs m)\<^sup>+" if r: "(start, w) \<in> (refs m)\<^sup>*" for w
    proof
      assume c: "(w, w) \<in> (refs m)\<^sup>+"
      then have "(start, w) \<in> (refs m)\<^sup>+" using r by (rule rtrancl_trancl_trancl [rotated])
      then obtain b where "(start, b) \<in> refs m" by (meson tranclD)
      then have "start \<in> set v1" using refs_from_keys t(2) by auto
      then have "w \<in> set v1" using topo_closed [OF t(1)] \<open>(start, w) \<in> (refs m)\<^sup>+\<close> by blast
      then show False using topo_acyclic [OF t(1)] c by blast
    qed
    then show ?thesis using f None by simp
  next
    case (Some c)
    then show ?thesis using f o1 v by (simp add: outcome_def)
  qed
qed

lemma find_any_exact:
  assumes "m = buildComboMap data"
  shows "case findComboCycle data [] of None \<Rightarrow> acyclic (refs m) | Some c \<Rightarrow> is_cycle m c"
proof -
  have nm: "named m" by (simp add: assms buildComboMap_named)
  have "case visit_roots m (om_keys m) [] of None \<Rightarrow> \<forall>v \<in> set (om_keys m). (v, v) \<notin> (refs m)\<^sup>+ | Some c \<Rightarrow> is_cycle m c"
    using visit_roots_spec [OF nm, of "[]" "om_keys m"] by (simp split: option.splits)
  moreover have "a \<in> fst ` set m" if "(a, a) \<in> (refs m)\<^sup>+" for a
    using that by (meson tranclD refs_from_keys)
  ultimately show ?thesis
    by (auto simp: findComboCycle_def assms Let_def acyclic_def split: option.splits)
qed

text \<open>C23: the search for a cycle is exact, and it always ends. From a named combo it finds a cycle of
  references if and only if one is within reach; over all combos it finds none if and only if the
  references are acyclic. What it reports is a cycle: a walk along references back to its first name.\<close>

theorem combo_cycle_search_exact:
  "(case findComboCycle data [] of None \<Rightarrow> acyclic (refs (buildComboMap data))
     | Some c \<Rightarrow> is_cycle (buildComboMap data) c \<and> \<not> acyclic (refs (buildComboMap data)))
   \<and> (case findComboCycle data (s # ss) of
        None \<Rightarrow> {v. (s # ss, v) \<in> (refs (buildComboMap data))\<^sup>* \<and> (v, v) \<in> (refs (buildComboMap data))\<^sup>+} = {}
      | Some c \<Rightarrow> is_cycle (buildComboMap data) c \<and> (s # ss, hd c) \<in> (refs (buildComboMap data))\<^sup>*)"
  using find_any_exact [OF refl, of data] find_from_exact [OF _ refl, of "s # ss" data]
  by (auto simp: acyclic_def dest: is_cycle_trancl split: option.splits)

end
