(* ===== verification/ComboStore.thy ===== *)
theory ComboStore
  imports ComboCycles
begin

text \<open>
  The stored combos and the handlers that change them: src/app/api/combos/route.js (create),
  src/app/api/combos/[id]/route.js (update, delete) and src/app/api/combos/import/route.js over
  src/lib/db/repos/combosRepo.js. A handler is one step: two requests that interleave between their
  reads and their write are not modelled, nor is the persistence itself. A row keeps the members the
  routing core reads; a stored model list that is no array reads as the empty list.
\<close>

record combo_row =
  row_id :: string
  row_name :: string
  row_models :: "jv list"

definition rowToCombo :: "combo_row \<Rightarrow> jv" where
  "rowToCombo r = Obj [(''id'', Str (row_id r)), (''name'', Str (row_name r)), (''models'', Arr (row_models r))]"

definition getCombos :: "combo_row list \<Rightarrow> jv" where
  "getCombos rows = Arr (map rowToCombo rows)"

definition getComboById :: "string \<Rightarrow> combo_row list \<Rightarrow> combo_row option" where
  "getComboById i rows = find (\<lambda>r. row_id r = i) rows"

definition getComboByName :: "string \<Rightarrow> combo_row list \<Rightarrow> combo_row option" where
  "getComboByName n rows = find (\<lambda>r. row_name r = n) rows"

definition name_char :: "char \<Rightarrow> bool" where
  "name_char c = (let n = of_char c :: nat in (48 \<le> n \<and> n \<le> 57) \<or> (65 \<le> n \<and> n \<le> 90) \<or> (97 \<le> n \<and> n \<le> 122)
     \<or> c \<in> {CHR ''_'', CHR ''.'', CHR ''-''})"

definition valid_name :: "string \<Rightarrow> bool" where
  "valid_name s = (s \<noteq> [] \<and> list_all name_char s)"

text \<open>A handler answers with an error message or changes the rows.\<close>

definition createCombo :: "string \<Rightarrow> jv \<Rightarrow> combo_row list \<Rightarrow> string + combo_row list" where
  "createCombo uuid body rows =
     (let name = get body ''name''; models = js_or (get body ''models'') (Arr []) in
      if \<not> truthy name then Inl ''Name is required''
      else if \<not> valid_name (jstr name) then Inl ''Name can only contain letters, numbers, -, _ and .''
      else if getComboByName (jstr name) rows \<noteq> None then Inl ''Combo name already exists''
      else case validateComboAcyclic name models (getCombos rows) Null of Some err \<Rightarrow> Inl err
      | None \<Rightarrow> Inr (rows @ [\<lparr> row_id = uuid, row_name = jstr name, row_models = arr_items models \<rparr>]))"

definition updated_row :: "jv \<Rightarrow> combo_row \<Rightarrow> combo_row" where
  "updated_row body r = r\<lparr> row_name := (if has_own body ''name'' then jstr (get body ''name'') else row_name r),
     row_models := (if has_own body ''models'' then arr_items (get body ''models'') else row_models r) \<rparr>"

definition updateCombo :: "string \<Rightarrow> jv \<Rightarrow> combo_row list \<Rightarrow> string + combo_row list" where
  "updateCombo i body rows = (case getComboById i rows of None \<Rightarrow> Inl ''Combo not found''
   | Some prev \<Rightarrow>
       (let name = get body ''name'' in
        if truthy name \<and> \<not> valid_name (jstr name) then Inl ''Name can only contain letters, numbers, -, _ and .''
        else if truthy name \<and> jstr name \<noteq> row_name prev
          \<and> (case getComboByName (jstr name) rows of None \<Rightarrow> False | Some existing \<Rightarrow> row_id existing \<noteq> i)
          then Inl ''Combo name already exists''
        else case validateComboAcyclic (if has_own body ''name'' then name else Str (row_name prev))
            (if has_own body ''models'' then get body ''models'' else Arr (row_models prev)) (getCombos rows) (Str i) of
          Some err \<Rightarrow> Inl err
        | None \<Rightarrow> Inr (map (\<lambda>r. if row_id r = i then updated_row body r else r) rows)))"

definition deleteCombo :: "string \<Rightarrow> combo_row list \<Rightarrow> string + combo_row list" where
  "deleteCombo i rows = (if getComboById i rows = None then Inl ''Combo not found''
     else Inr (filter (\<lambda>r. row_id r \<noteq> i) rows))"

text \<open>The check of one imported combo; \<open>seen\<close> are the names before it.\<close>

definition VALID_KINDS :: "string list" where
  "VALID_KINDS = [''llm'', ''webSearch'', ''webFetch'']"

definition VALID_STRATEGIES :: "string list" where
  "VALID_STRATEGIES = [''fallback'', ''round-robin'', ''fusion'']"

definition import_error :: "string list \<Rightarrow> jv \<Rightarrow> string option" where
  "import_error seen combo =
     (let name = get combo ''name''; strategy = get combo ''strategy'' in
      if \<not> is_object combo \<or> is_array combo then Some ''invalid entry''
      else if \<not> is_string name \<or> trim (jstr name) = [] then Some ''name is required''
      else if \<not> valid_name (jstr name) then Some ''can only contain letters, numbers, -, _ and .''
      else if jstr name \<in> set seen then Some ''duplicate name''
      else if \<not> is_nullish (get combo ''kind'') \<and> get combo ''kind'' \<notin> set (map Str VALID_KINDS) then Some ''invalid kind''
      else if \<not> is_array (get combo ''models'') then Some ''models must be an array''
      else if \<not> is_nullish (get combo ''roundRobin'') \<and> \<not> is_bool (get combo ''roundRobin'') then Some ''roundRobin must be a boolean''
      else if is_nullish strategy then None
      else if \<not> is_object strategy \<or> is_array strategy then Some ''strategy must be an object''
      else if truthy (get strategy ''fallbackStrategy'') \<and> get strategy ''fallbackStrategy'' \<notin> set (map Str VALID_STRATEGIES)
        then Some ''invalid strategy''
      else if \<not> is_nullish (get strategy ''judgeModel'') \<and> \<not> is_string (get strategy ''judgeModel'')
        then Some ''judgeModel must be a string''
      else None)"

fun check_import :: "string list \<Rightarrow> jv list \<Rightarrow> string option" where
  "check_import seen [] = None"
| "check_import seen (c # cs) = (case import_error seen c of Some e \<Rightarrow> Some e
     | None \<Rightarrow> check_import (jstr (get c ''name'') # seen) cs)"

text \<open>The import replaces every row; \<open>uuids\<close> are the fresh identifiers in order.\<close>

definition importCombos :: "string list \<Rightarrow> jv list \<Rightarrow> combo_row list \<Rightarrow> string + combo_row list" where
  "importCombos uuids combos rows =
     (if combos = [] then Inl ''At least one combo is required''
      else case check_import [] combos of Some e \<Rightarrow> Inl e
      | None \<Rightarrow> Inr (map (\<lambda>(u, c). \<lparr> row_id = u, row_name = trim (jstr (get c ''name'')),
            row_models = arr_items (get c ''models'') \<rparr>) (zip uuids combos)))"

section \<open>Steps\<close>

datatype combo_event = CreateCombo string jv | UpdateCombo string jv | DeleteCombo string

definition kept :: "combo_row list \<Rightarrow> string + combo_row list \<Rightarrow> combo_row list" where
  "kept rows r = (case r of Inl _ \<Rightarrow> rows | Inr rows' \<Rightarrow> rows')"

text \<open>Identifiers are fresh: a create with one that is in use is no event of the system.\<close>

fun combo_step :: "combo_row list \<Rightarrow> combo_event \<Rightarrow> combo_row list" where
  "combo_step rows (CreateCombo uuid body) = (if uuid \<in> row_id ` set rows then rows else kept rows (createCombo uuid body rows))"
| "combo_step rows (UpdateCombo i body) = kept rows (updateCombo i body rows)"
| "combo_step rows (DeleteCombo i) = kept rows (deleteCombo i rows)"

section \<open>The references of the rows\<close>

definition clean_names :: "combo_row list \<Rightarrow> bool" where
  "clean_names rows \<longleftrightarrow> distinct (map row_name rows) \<and> (\<forall>r \<in> set rows. row_name r \<noteq> [] \<and> CHR ''/'' \<notin> set (row_name r))"

definition row_refs :: "combo_row set \<Rightarrow> (string \<times> string) set" where
  "row_refs R = {(row_name r, last_segment s) |r s. r \<in> R \<and> Str s \<in> set (row_models r) \<and> last_segment s \<in> row_name ` R}"

lemma row_refs_iff: "(a, b) \<in> row_refs R \<longleftrightarrow>
    (\<exists>t. last_segment t = b \<and> (\<exists>q \<in> R. row_name q = a \<and> Str t \<in> set (row_models q))) \<and> b \<in> row_name ` R"
  by (simp add: row_refs_def) blast

lemma name_of_row [simp]: "name_of (rowToCombo r) = row_name r"
  by (simp add: name_of_def rowToCombo_def)

lemma members_row [simp]: "members (rowToCombo r) = row_models r"
  by (simp add: members_def rowToCombo_def)

lemma combo_map_rows:
  assumes "clean_names rows"
  shows "om_get (buildComboMap (getCombos rows)) n = map_option rowToCombo (find (\<lambda>r. row_name r = n) rows)"
proof -
  have f: "om_get (foldl (\<lambda>m c. om_set m (name_of c) c) m (map rowToCombo rs)) n
      = (case find (\<lambda>r. row_name r = n) rs of None \<Rightarrow> om_get m n | Some r \<Rightarrow> Some (rowToCombo r))"
    if "distinct (map row_name rs)" for m rs
    using that
  proof (induction rs arbitrary: m)
    case (Cons r rs)
    then have "find (\<lambda>r'. row_name r' = row_name r) rs = None" by (auto simp: find_None_iff) (metis imageI)
    with Cons show ?case by (cases "row_name r = n") (auto split: option.split)
  qed simp
  have "filter (\<lambda>c. name_of c \<noteq> []) (map rowToCombo rows) = map rowToCombo rows"
    using assms by (auto simp: clean_names_def filter_id_conv)
  then show ?thesis
    using assms f [of rows "[]"]
    by (auto simp: buildComboMap_def normalizeCombosData_def getCombos_def clean_names_def split: option.split)
qed

lemma resolve_clean:
  assumes "clean_names rows"
  shows "resolveComboReference x (buildComboMap (getCombos rows)) =
    (case x of Str s \<Rightarrow> om_get (buildComboMap (getCombos rows)) (last_segment s) | _ \<Rightarrow> None)"
proof -
  let ?m = "buildComboMap (getCombos rows)"
  have k: "om_get ?m n = None" if "n = [] \<or> CHR ''/'' \<in> set n" for n
    using assms that by (auto simp: combo_map_rows clean_names_def find_None_iff)
  show ?thesis
  proof (cases x)
    case (Str s)
    then show ?thesis using k [of s] k [of "last_segment s"]
      by (cases "CHR ''/'' \<in> set s") (auto simp: resolveComboReference_def last_segment_no_slash split: option.split)
  qed (simp_all add: resolveComboReference_def)
qed

lemma find_clean: "clean_names rows \<Longrightarrow> find (\<lambda>r. row_name r = n) rows = Some r \<longleftrightarrow> r \<in> set rows \<and> row_name r = n"
proof (induction rows)
  case (Cons a rows)
  then have "clean_names rows" by (simp add: clean_names_def)
  with Cons show ?case by (auto simp: clean_names_def)
qed simp

lemma refs_rows:
  assumes "clean_names rows"
  shows "refs (buildComboMap (getCombos rows)) = row_refs (set rows)"
proof -
  let ?m = "buildComboMap (getCombos rows)"
  have r: "resolveComboReference x ?m = Some c \<longleftrightarrow> (\<exists>s q. x = Str s \<and> q \<in> set rows \<and> row_name q = last_segment s \<and> c = rowToCombo q)" for x c
    using assms by (cases x) (auto simp: resolve_clean combo_map_rows find_clean)
  have "b \<in> set (successors ?m a) \<longleftrightarrow> (a, b) \<in> row_refs (set rows)" for a b
  proof (cases "om_get ?m a")
    case None
    then have "\<forall>q \<in> set rows. row_name q \<noteq> a" using assms by (auto simp: combo_map_rows find_None_iff)
    then show ?thesis using None by (auto simp: successors_def row_refs_def)
  next
    case (Some c)
    then obtain q where q: "q \<in> set rows" "row_name q = a" "c = rowToCombo q"
      using assms by (auto simp: combo_map_rows find_clean)
    have u: "q' = q" if "q' \<in> set rows" "row_name q' = a" for q'
      using that q assms by (auto simp: clean_names_def distinct_map dest: inj_onD)
    have "b \<in> set (successors ?m a) \<longleftrightarrow> (\<exists>x \<in> set (row_models q). \<exists>d. resolveComboReference x ?m = Some d \<and> name_of d = b)"
      using successors_targets [OF Some] q(3) by (auto simp: targets_def)
    also have "\<dots> \<longleftrightarrow> (a, b) \<in> row_refs (set rows)"
    proof
      assume "\<exists>x \<in> set (row_models q). \<exists>d. resolveComboReference x ?m = Some d \<and> name_of d = b"
      then obtain s q' where "Str s \<in> set (row_models q)" "q' \<in> set rows" "row_name q' = last_segment s" "row_name q' = b"
        by (auto simp: r)
      then show "(a, b) \<in> row_refs (set rows)" using q(1,2) by (force simp: row_refs_def)
    next
      assume "(a, b) \<in> row_refs (set rows)"
      then obtain q0 s q' where "q0 \<in> set rows" "row_name q0 = a" "Str s \<in> set (row_models q0)" "b = last_segment s"
        "q' \<in> set rows" "row_name q' = b" by (auto simp: row_refs_def)
      then show "\<exists>x \<in> set (row_models q). \<exists>d. resolveComboReference x ?m = Some d \<and> name_of d = b"
        using u [of q0] by (intro bexI [of _ "Str s"] exI [of _ "rowToCombo q'"]) (auto simp: r)
    qed
    finally show ?thesis .
  qed
  then show ?thesis by (auto simp: refs_def)
qed

section \<open>A validated change keeps the references acyclic\<close>

lemma trancl_avoid:
  assumes "(v, w) \<in> E'\<^sup>+" and "\<And>a b. (a, b) \<in> E' \<Longrightarrow> a \<noteq> n \<Longrightarrow> b \<noteq> n \<Longrightarrow> (a, b) \<in> E"
  shows "(v, w) \<in> E\<^sup>+ \<or> (v, n) \<in> E'\<^sup>* \<and> (n, w) \<in> E'\<^sup>*"
  using assms(1)
proof (induction rule: trancl_induct)
  case (base b)
  then show ?case using assms(2) [of v b] by blast
next
  case (step b c)
  then show ?case
  proof (cases "b = n \<or> c = n")
    case True
    then show ?thesis using step by (meson rtrancl.rtrancl_refl rtrancl.rtrancl_into_rtrancl trancl_into_rtrancl)
  next
    case False
    then show ?thesis using step assms(2) [of b c] by (meson rtrancl.rtrancl_into_rtrancl trancl.trancl_into_trancl)
  qed
qed

lemma acyclic_change:
  assumes "acyclic E" and "\<And>a b. (a, b) \<in> E' \<Longrightarrow> a \<noteq> n \<Longrightarrow> b \<noteq> n \<Longrightarrow> (a, b) \<in> E" and "(n, n) \<notin> E'\<^sup>+"
  shows "acyclic E'"
proof (rule acyclicI, rule allI, rule notI)
  fix v assume v: "(v, v) \<in> E'\<^sup>+"
  then have "(v, n) \<in> E'\<^sup>* \<and> (n, v) \<in> E'\<^sup>*"
    using trancl_avoid [OF v assms(2)] assms(1) by (auto simp: acyclic_def)
  then have "(n, n) \<in> E'\<^sup>+" using v by (meson rtrancl_trancl_trancl trancl_rtrancl_trancl)
  with assms(3) show False ..
qed

text \<open>The rows the validation looks at.\<close>

definition others :: "string option \<Rightarrow> string \<Rightarrow> combo_row list \<Rightarrow> combo_row list" where
  "others cur n rows = filter (\<lambda>r. Some (row_id r) \<noteq> cur \<and> row_name r \<noteq> n) rows"

definition cur_value :: "string option \<Rightarrow> jv" where
  "cur_value cur = (case cur of None \<Rightarrow> Null | Some i \<Rightarrow> Str i)"

definition candidate_row :: "string option \<Rightarrow> string \<Rightarrow> jv \<Rightarrow> combo_row" where
  "candidate_row cur n models = \<lparr> row_id = (case cur of None \<Rightarrow> ''__pending_combo__'' | Some i \<Rightarrow> if i = [] then ''__pending_combo__'' else i),
     row_name = n, row_models = arr_items models \<rparr>"

lemma next_combos_rows:
  "Arr (next_combos (cur_value cur) n models (getCombos rows)) = getCombos (others cur n rows @ [candidate_row cur n models])"
  by (auto simp: next_combos_def normalizeCombosData_def getCombos_def others_def cur_value_def candidate_combo_def
      candidate_row_def rowToCombo_def js_or_def filter_map comp_def split: option.split)

lemma validated_acyclic:
  assumes "validateComboAcyclic name models (getCombos rows) (cur_value cur) = None" and "jstr name = n"
    and "clean_names rows" and "CHR ''/'' \<notin> set n" and "acyclic (row_refs (set rows))"
    and "set rows' = insert r (set (others cur n rows))" and "row_name r = n" and "row_models r = arr_items models"
  shows "n \<noteq> [] \<and> name = Str n \<and> acyclic (row_refs (set rows'))"
proof -
  obtain s where s: "name = Str s" "s \<noteq> []"
    using assms(1) by (auto simp: validateComboAcyclic_def Let_def split: jv.splits if_splits)
  with assms(2) have n: "name = Str n" "n \<noteq> []" by auto
  let ?rows = "others cur n rows @ [candidate_row cur n models]"
  have cl: "clean_names ?rows"
    using assms(3,4) n(2) by (auto simp: clean_names_def others_def candidate_row_def distinct_map_filter)
  have "findComboCycle (getCombos ?rows) n = None"
    using assms(1) n by (auto simp: validateComboAcyclic_def next_combos_rows Let_def split: option.splits)
  then have nn: "(n, n) \<notin> (row_refs (set ?rows))\<^sup>+"
    using find_from_exact [OF n(2) refl, of "getCombos ?rows"] by (simp add: refs_rows [OF cl])
  have same: "row_refs (set ?rows) = row_refs (set rows')"
  proof -
    have img: "row_name ` set ?rows = row_name ` set rows'" using assms(6,7) by (auto simp: candidate_row_def)
    have "(\<exists>q \<in> set ?rows. row_name q = a \<and> Str t \<in> set (row_models q))
        \<longleftrightarrow> (\<exists>q \<in> set rows'. row_name q = a \<and> Str t \<in> set (row_models q))" for a t
      using assms(6-8) by (auto simp: candidate_row_def)
    then have "(a, b) \<in> row_refs (set ?rows) \<longleftrightarrow> (a, b) \<in> row_refs (set rows')" for a b
      unfolding row_refs_iff img by simp
    then show ?thesis by (auto simp del: set_append)
  qed
  have "acyclic (row_refs (set rows'))"
  proof (rule acyclic_change [OF assms(5) _ nn [unfolded same]])
    fix a b assume e: "(a, b) \<in> row_refs (set rows')" "a \<noteq> n" "b \<noteq> n"
    then show "(a, b) \<in> row_refs (set rows)"
      unfolding row_refs_iff using assms(6,7) by (auto simp: others_def)
  qed
  with n show ?thesis by blast
qed

section \<open>The store\<close>

definition store_ok :: "combo_row list \<Rightarrow> bool" where
  "store_ok rows \<longleftrightarrow> clean_names rows \<and> distinct (map row_id rows) \<and> acyclic (row_refs (set rows))"

lemma valid_name_clean: "valid_name s \<Longrightarrow> s \<noteq> [] \<and> CHR ''/'' \<notin> set s"
  by (auto simp: valid_name_def list_all_iff name_char_def Let_def)

lemma create_ok:
  assumes "store_ok rows" and "uuid \<notin> row_id ` set rows" and "createCombo uuid body rows = Inr rows'"
  shows "store_ok rows'"
proof -
  let ?n = "jstr (get body ''name'')" and ?ms = "js_or (get body ''models'') (Arr [])"
  let ?r = "\<lparr> row_id = uuid, row_name = ?n, row_models = arr_items ?ms \<rparr>"
  have h: "valid_name ?n" "getComboByName ?n rows = None" "validateComboAcyclic (get body ''name'') ?ms (getCombos rows) (cur_value None) = None"
    "rows' = rows @ [?r]"
    using assms(3) by (auto simp: createCombo_def Let_def cur_value_def split: if_splits option.splits)
  have fresh: "\<forall>q \<in> set rows. row_name q \<noteq> ?n" using h(2) by (auto simp: getComboByName_def find_None_iff)
  then have "others None ?n rows = rows" by (auto simp: others_def filter_id_conv)
  then have "acyclic (row_refs (set rows'))"
    using validated_acyclic [OF h(3) refl, of rows' ?r] assms(1) valid_name_clean [OF h(1)] h(4) by (simp add: store_ok_def)
  then show ?thesis
    using assms(1,2) fresh valid_name_clean [OF h(1)] h(4) by (force simp: store_ok_def clean_names_def)
qed

lemma update_ok:
  assumes "store_ok rows" and "updateCombo i body rows = Inr rows'"
  shows "store_ok rows'"
proof -
  obtain prev where p: "getComboById i rows = Some prev"
    using assms(2) by (cases "getComboById i rows") (auto simp: updateCombo_def)
  then have prev: "prev \<in> set rows" "row_id prev = i" by (auto simp: getComboById_def dest: find_Some_in)
  let ?name = "if has_own body ''name'' then get body ''name'' else Str (row_name prev)"
  let ?ms = "if has_own body ''models'' then get body ''models'' else Arr (row_models prev)"
  let ?n = "jstr ?name" and ?r = "updated_row body prev"
  have h: "truthy (get body ''name'') \<Longrightarrow> valid_name (jstr (get body ''name''))"
    "truthy (get body ''name'') \<Longrightarrow> jstr (get body ''name'') \<noteq> row_name prev
       \<Longrightarrow> case getComboByName (jstr (get body ''name'')) rows of None \<Rightarrow> True | Some q \<Rightarrow> row_id q = i"
    "validateComboAcyclic ?name ?ms (getCombos rows) (cur_value (Some i)) = None"
    "rows' = map (\<lambda>r. if row_id r = i then updated_row body r else r) rows"
    using assms(2) p by (auto simp: updateCombo_def Let_def cur_value_def split: if_splits option.splits)
  have uniq: "q = prev" if "q \<in> set rows" "row_id q = i" for q
    using that prev assms(1) by (auto simp: store_ok_def distinct_map dest: inj_onD)
  have r: "row_name ?r = ?n" "row_models ?r = arr_items ?ms" "row_id ?r = i"
    using prev by (auto simp: updated_row_def)
  have valid: "?n \<noteq> [] \<and> CHR ''/'' \<notin> set ?n"
  proof (cases "has_own body ''name''")
    case True
    then have "truthy (get body ''name'')"
      using h(3) by (auto simp: validateComboAcyclic_def Let_def split: jv.splits if_splits)
    then show ?thesis using True h(1) valid_name_clean by simp
  next
    case False
    then show ?thesis using prev(1) assms(1) by (auto simp: store_ok_def clean_names_def)
  qed
  have apart: "row_name q \<noteq> ?n" if q: "q \<in> set rows" "row_id q \<noteq> i" for q
  proof (cases "?n = row_name prev")
    case True
    then show ?thesis using q prev assms(1) by (auto simp: store_ok_def clean_names_def distinct_map dest: inj_onD)
  next
    case False
    then have "has_own body ''name''" "truthy (get body ''name'')"
      using h(3) by (auto simp: validateComboAcyclic_def Let_def split: jv.splits if_splits)
    then have "case getComboByName ?n rows of None \<Rightarrow> True | Some q \<Rightarrow> row_id q = i" using h(2) False by simp
    moreover have "find (\<lambda>r. row_name r = ?n) rows = Some q" if "row_name q = ?n"
      using that q assms(1) find_clean by (auto simp: store_ok_def)
    ultimately show ?thesis using q by (auto simp: getComboByName_def)
  qed
  have "set rows' = insert ?r (set (others (Some i) ?n rows))"
    using prev uniq apart unfolding h(4) by (force simp: others_def)
  then have ac: "acyclic (row_refs (set rows'))"
    using validated_acyclic [OF h(3) refl] assms(1) valid r(1,2) by (simp add: store_ok_def)
  have "clean_names rows' \<and> distinct (map row_id rows')"
  proof -
    have ids: "map row_id rows' = map row_id rows" by (simp add: h(4) updated_row_def)
    have "inj_on row_name (set rows')"
    proof (rule inj_onI)
      fix x y assume xy: "x \<in> set rows'" "y \<in> set rows'" "row_name x = row_name y"
      obtain a b where ab: "a \<in> set rows" "b \<in> set rows" "x = (if row_id a = i then updated_row body a else a)"
        "y = (if row_id b = i then updated_row body b else b)" using xy(1,2) by (auto simp: h(4))
      show "x = y"
      proof (cases "row_id a = i"; cases "row_id b = i")
        assume "row_id a \<noteq> i" "row_id b \<noteq> i"
        then show ?thesis using ab xy(3) assms(1) by (auto simp: store_ok_def clean_names_def distinct_map dest: inj_onD)
      qed (use ab xy(3) uniq apart r(1) in \<open>auto\<close>)
    qed
    moreover have "distinct rows'" using ids assms(1) by (metis distinct_map store_ok_def)
    moreover have "row_name x \<noteq> [] \<and> CHR ''/'' \<notin> set (row_name x)" if xs: "x \<in> set rows'" for x
    proof -
      obtain a where a: "a \<in> set rows" "x = (if row_id a = i then updated_row body a else a)" using xs by (auto simp: h(4))
      show ?thesis
      proof (cases "row_id a = i")
        case True
        then show ?thesis using a uniq valid r(1) by simp
      next
        case False
        then show ?thesis using a assms(1) by (auto simp: store_ok_def clean_names_def)
      qed
    qed
    ultimately show ?thesis using ids assms(1) by (auto simp: store_ok_def clean_names_def distinct_map)
  qed
  with ac show ?thesis by (simp add: store_ok_def)
qed

lemma delete_ok:
  assumes "store_ok rows" and "deleteCombo i rows = Inr rows'"
  shows "store_ok rows'"
proof -
  have r: "rows' = filter (\<lambda>r. row_id r \<noteq> i) rows" using assms(2) by (auto simp: deleteCombo_def split: if_splits)
  have "row_refs (set rows') \<subseteq> row_refs (set rows)"
  proof (rule subrelI)
    fix a b assume "(a, b) \<in> row_refs (set rows')"
    then show "(a, b) \<in> row_refs (set rows)" unfolding row_refs_iff r by (simp only: set_filter) blast
  qed
  then have "acyclic (row_refs (set rows'))" using assms(1) by (meson acyclic_subset store_ok_def)
  then show ?thesis using assms(1) r by (auto simp: store_ok_def clean_names_def distinct_map_filter)
qed

lemma kept_ok: "store_ok rows \<Longrightarrow> (\<And>rows'. r = Inr rows' \<Longrightarrow> store_ok rows') \<Longrightarrow> store_ok (kept rows r)"
  by (cases r) (simp_all add: kept_def)

lemma combo_step_ok: "store_ok rows \<Longrightarrow> store_ok (combo_step rows e)"
proof (cases e)
  case (CreateCombo uuid body)
  then show "store_ok rows \<Longrightarrow> store_ok (combo_step rows e)" using create_ok [of rows uuid body] by (simp add: kept_ok)
next
  case (UpdateCombo i body)
  then show "store_ok rows \<Longrightarrow> store_ok (combo_step rows e)" using update_ok [of rows i body] by (simp add: kept_ok)
next
  case (DeleteCombo i)
  then show "store_ok rows \<Longrightarrow> store_ok (combo_step rows e)" using delete_ok [of rows i] by (simp add: kept_ok)
qed

interpretation combos: machine combo_step store_ok
  by unfold_locales (rule combo_step_ok)

lemma no_combos_ok: "store_ok []"
  by (simp add: store_ok_def clean_names_def row_refs_def acyclic_def)

text \<open>C26: after any history of creates, updates and deletes the stored combos cannot refer to
  themselves, directly or through others: every check sees only the combo being saved, and no cycle
  can arise elsewhere, because a change adds references from and to that combo only. Names stay
  distinct.\<close>

theorem stored_combos_acyclic:
  "acyclic (refs (buildComboMap (getCombos (foldl combo_step [] events))))
   \<and> findComboCycle (getCombos (foldl combo_step [] events)) [] = None
   \<and> distinct (map row_name (foldl combo_step [] events))"
proof -
  let ?rows = "foldl combo_step [] events"
  have ok: "store_ok ?rows" by (rule combos.run_inv [OF no_combos_ok])
  then have a: "acyclic (refs (buildComboMap (getCombos ?rows)))"
    by (simp add: store_ok_def refs_rows)
  then have "findComboCycle (getCombos ?rows) [] = None"
    using find_any_exact [OF refl, of "getCombos ?rows"]
    by (auto simp: acyclic_def dest: is_cycle_trancl split: option.splits)
  with a ok show ?thesis by (simp add: store_ok_def clean_names_def)
qed

definition loop_file :: "jv list" where
  "loop_file = [Obj [(''name'', Str ''fast''), (''models'', Arr [Str ''safe''])],
     Obj [(''name'', Str ''safe''), (''models'', Arr [Str ''openai/gpt-4o'', Str ''fast''])]]"

text \<open>the import has no such check: a file with two combos that name each other passes its
  validation and is stored, although each of the two would be refused by the validation of a save.\<close>

theorem import_stores_a_cycle:
  "case importCombos [''u1'', ''u2''] loop_file rows of Inl e \<Rightarrow> False
   | Inr rows' \<Rightarrow> map row_name rows' = [''fast'', ''safe'']
       \<and> findComboCycle (getCombos rows') [] = Some [''fast'', ''safe'', ''fast'']
       \<and> validateComboAcyclic (Str ''fast'') (Arr [Str ''safe'']) (getCombos rows') (Str ''u1'') \<noteq> None"
proof -
  have "check_import [] loop_file = None" by code_simp
  then have i: "importCombos [''u1'', ''u2''] loop_file rows = Inr
     [\<lparr> row_id = ''u1'', row_name = ''fast'', row_models = [Str ''safe''] \<rparr>,
      \<lparr> row_id = ''u2'', row_name = ''safe'', row_models = [Str ''openai/gpt-4o'', Str ''fast''] \<rparr>]"
    by (simp add: importCombos_def) (simp add: loop_file_def trim_def is_ws_def)
  show ?thesis unfolding i sum.case
    by (intro conjI) (simp, code_simp, code_simp)
qed

end
