(* ===== verification/ComboRotation.thy ===== *)
theory ComboRotation
  imports JsValue
begin

text \<open>
  The rotation of round-robin combos, from open-sse/services/combo.js: a cursor per combo in the
  module state, advanced by every request, read by the diagnostics, moved by a successful fallback
  and reset when a combo changes. The members are of any type: the dispatcher rotates entries, the
  tests names.
\<close>

section \<open>parseInt\<close>

definition parse_int :: "jv \<Rightarrow> int option" where
  "parse_int v = (let s = dropWhile is_ws (jstr v);
       negative = (case s of [] \<Rightarrow> False | c # _ \<Rightarrow> c = CHR ''-'');
       body = (case s of [] \<Rightarrow> [] | c # cs \<Rightarrow> if c \<in> {CHR ''+'', CHR ''-''} then cs else s);
       digits = takeWhile is_digit body
     in if digits = [] then None else Some ((if negative then -1 else 1) * int (digits_val digits)))"

section \<open>The cursor\<close>

text \<open>A state is a record, or the bare index of an older format.\<close>

datatype cursor = Legacy nat | Cursor nat nat

type_synonym rotation_state = "(string \<times> cursor) list"

definition normalizeStickyLimit :: "jv \<Rightarrow> nat" where
  "normalizeStickyLimit stickyLimit = (case parse_int stickyLimit of
     Some n \<Rightarrow> if 0 < n then nat n else 1 | None \<Rightarrow> 1)"

primrec rotateModelsFromIndex :: "'a list \<Rightarrow> nat \<Rightarrow> 'a list" where
  "rotateModelsFromIndex models 0 = models"
| "rotateModelsFromIndex models (Suc n) = rotateModelsFromIndex (case models of [] \<Rightarrow> [] | m # ms \<Rightarrow> ms @ [m]) n"

definition rotation_key :: "string \<Rightarrow> string" where
  "rotation_key comboName = (if comboName = [] then ''__default__'' else comboName)"

definition cursor_of :: "cursor option \<Rightarrow> nat \<times> nat" where
  "cursor_of c = (case c of None \<Rightarrow> (0, 0) | Some (Legacy i) \<Rightarrow> (i, 0) | Some (Cursor i n) \<Rightarrow> (i, n))"

definition rotates :: "'a list \<Rightarrow> string \<Rightarrow> bool" where
  "rotates models strategy \<longleftrightarrow> 1 < length models \<and> strategy = ''round-robin''"

definition getRotatedModels :: "'a list \<Rightarrow> string \<Rightarrow> string \<Rightarrow> jv \<Rightarrow> rotation_state \<Rightarrow> rotation_state \<times> 'a list" where
  "getRotatedModels models comboName strategy stickyLimit st =
     (if \<not> rotates models strategy then (st, models)
      else let key = rotation_key comboName; (index, used) = cursor_of (om_get st key);
             current = index mod length models
        in (om_set st key
              (if normalizeStickyLimit stickyLimit \<le> used + 1 then Cursor ((current + 1) mod length models) 0
               else Cursor current (used + 1)),
            rotateModelsFromIndex models current))"

definition peekRotatedModels :: "'a list \<Rightarrow> string \<Rightarrow> string \<Rightarrow> rotation_state \<Rightarrow> 'a list" where
  "peekRotatedModels models comboName strategy st =
     (if \<not> rotates models strategy then models
      else rotateModelsFromIndex models (fst (cursor_of (om_get st (rotation_key comboName))) mod length models))"

definition snapshotComboRotation :: "string \<Rightarrow> rotation_state \<Rightarrow> nat \<times> nat" where
  "snapshotComboRotation comboName st = cursor_of (om_get st (rotation_key comboName))"

definition advanceRotationAfterSuccessfulFallback :: "'a list \<Rightarrow> string \<Rightarrow> string \<Rightarrow> nat \<Rightarrow> rotation_state \<Rightarrow> rotation_state" where
  "advanceRotationAfterSuccessfulFallback models comboName strategy served st =
     (if \<not> rotates models strategy \<or> length models \<le> served then st
      else om_set st (rotation_key comboName) (Cursor ((served + 1) mod length models) 0))"

definition resetComboRotation :: "string \<Rightarrow> rotation_state \<Rightarrow> rotation_state" where
  "resetComboRotation comboName st = (if comboName \<noteq> [] then om_del st comboName else [])"

section \<open>Rotating\<close>

lemma rotateModelsFromIndex_rotate: "rotateModelsFromIndex models n = rotate n models"
proof (induction n arbitrary: models)
  case (Suc n)
  have "(case models of [] \<Rightarrow> [] | m # ms \<Rightarrow> ms @ [m]) = rotate1 models" by (cases models) simp_all
  then show ?case using Suc by (simp add: rotate1_rotate_swap)
qed simp

text \<open>The cursor after some requests of one combo, each with the same members and sticky limit.\<close>

primrec requests :: "'a list \<Rightarrow> string \<Rightarrow> jv \<Rightarrow> nat \<Rightarrow> rotation_state \<Rightarrow> rotation_state" where
  "requests models name sticky 0 st = st"
| "requests models name sticky (Suc n) st = fst (getRotatedModels models name ''round-robin'' sticky (requests models name sticky n st))"

lemma sticky_pos: "0 < normalizeStickyLimit s"
  by (simp add: normalizeStickyLimit_def split: option.split)

lemma cursor_step:
  assumes "1 < n" and "0 < k" and "i = (t div k) mod n" and "u = t mod k"
  shows "(if k \<le> u + 1 then ((i mod n + 1) mod n, 0) else (i mod n, u + 1)) = ((Suc t div k) mod n, Suc t mod k)"
proof (cases "Suc (t mod k) = k")
  case True
  then have "Suc t mod k = 0" "Suc t div k = Suc (t div k)" using assms(2) by (auto simp: mod_Suc div_Suc)
  then show ?thesis using assms True by (simp add: mod_Suc_eq)
next
  case False
  then have "Suc t mod k = Suc (t mod k)" "Suc t div k = t div k" by (auto simp: mod_Suc div_Suc)
  moreover have "t mod k < k" using assms(2) by simp
  ultimately have "\<not> k \<le> t mod k + 1" "Suc t mod k = Suc (t mod k)" "Suc t div k = t div k"
    using False by simp_all
  then show ?thesis using assms by simp
qed

lemma cursor_after_requests:
  assumes "1 < length models" and "om_get st (rotation_key name) = None"
  shows "cursor_of (om_get (requests models name sticky t st) (rotation_key name))
    = ((t div normalizeStickyLimit sticky) mod length models, t mod normalizeStickyLimit sticky)"
proof (induction t)
  case 0
  then show ?case using assms by (simp add: cursor_of_def)
next
  case (Suc t)
  let ?k = "normalizeStickyLimit sticky" and ?n = "length models"
  have "cursor_of (om_get (requests models name sticky (Suc t) st) (rotation_key name))
      = (if ?k \<le> t mod ?k + 1 then (((t div ?k) mod ?n mod ?n + 1) mod ?n, 0) else ((t div ?k) mod ?n mod ?n, t mod ?k + 1))"
    using Suc assms(1) by (simp add: getRotatedModels_def rotates_def Let_def cursor_of_def split: prod.splits)
  also have "\<dots> = ((Suc t div ?k) mod ?n, Suc t mod ?k)"
    by (rule cursor_step [OF assms(1) sticky_pos refl refl])
  finally show ?case .
qed

text \<open>C30: round robin is fair. From a fresh cursor, request number t of a combo starts with member
  (t div k) mod n, where k is the sticky limit and n the number of members: every member leads k
  consecutive requests in turn. The diagnostic order is the one the next request gets, and the order
  is always a rotation of all members, so none is dropped.\<close>

theorem round_robin_fair:
  assumes "1 < length models"
  shows "snd (getRotatedModels models name ''round-robin'' sticky (requests models name sticky t []))
      = rotate ((t div normalizeStickyLimit sticky) mod length models) models
    \<and> hd (snd (getRotatedModels models name ''round-robin'' sticky (requests models name sticky t [])))
      = models ! ((t div normalizeStickyLimit sticky) mod length models)
    \<and> peekRotatedModels models name ''round-robin'' (requests models name sticky t [])
      = snd (getRotatedModels models name ''round-robin'' sticky (requests models name sticky t []))"
proof -
  let ?i = "(t div normalizeStickyLimit sticky) mod length models"
  have c: "fst (cursor_of (om_get (requests models name sticky t []) (rotation_key name))) = ?i"
    using cursor_after_requests [OF assms, of "[]" name sticky t] by simp
  have s: "snd (getRotatedModels models name ''round-robin'' sticky (requests models name sticky t [])) = rotate ?i models"
    using c assms by (simp add: getRotatedModels_def rotates_def Let_def rotateModelsFromIndex_rotate case_prod_unfold)
  have l: "?i < length models" using assms by (intro mod_less_divisor) linarith
  have "hd (rotate ?i models) = models ! ?i"
    using l assms by (subst hd_rotate_conv_nth) auto
  then show ?thesis
    using s c assms by (simp add: peekRotatedModels_def rotates_def rotateModelsFromIndex_rotate)
qed

theorem round_robin_fair_witness:
  "map (\<lambda>t. hd (snd (getRotatedModels [''a'', ''b'', ''c''] ''c1'' ''round-robin'' (JInt 2)
       (requests [''a'', ''b'', ''c''] ''c1'' (JInt 2) t [])))) [0, 1, 2, 5, 6] = [''a'', ''a'', ''b'', ''c'', ''a'']"
proof -
  have k: "normalizeStickyLimit (JInt 2) = 2" by code_simp
  have l: "1 < length [''a'', ''b'', ''c'']" "length [''a'', ''b'', ''c''] = 3" by simp_all
  have h: "hd (snd (getRotatedModels [''a'', ''b'', ''c''] ''c1'' ''round-robin'' (JInt 2)
       (requests [''a'', ''b'', ''c''] ''c1'' (JInt 2) t []))) = [''a'', ''b'', ''c''] ! ((t div 2) mod 3)" for t
    using round_robin_fair [OF l(1), of "''c1''" "JInt 2" t, unfolded k l(2)] by blast
  show ?thesis unfolding list.map h by simp
qed

section \<open>One combo at a time\<close>

datatype rotation_event = Request string jv | Fallback string nat | Reset string

text \<open>An operation on one combo, the members of every combo given.\<close>

fun rotation_step :: "(string \<Rightarrow> 'a list) \<Rightarrow> rotation_state \<Rightarrow> rotation_event \<Rightarrow> rotation_state" where
  "rotation_step members st (Request name sticky) = fst (getRotatedModels (members name) name ''round-robin'' sticky st)"
| "rotation_step members st (Fallback name served) = advanceRotationAfterSuccessfulFallback (members name) name ''round-robin'' served st"
| "rotation_step members st (Reset name) = resetComboRotation name st"

fun event_combo :: "rotation_event \<Rightarrow> string" where
  "event_combo (Request name _) = name" | "event_combo (Fallback name _) = name" | "event_combo (Reset name) = name"

lemma rotation_step_other:
  assumes "rotation_key (event_combo e) \<noteq> rotation_key name" and "e \<noteq> Reset []"
  shows "om_get (rotation_step members st e) (rotation_key name) = om_get st (rotation_key name)"
proof (cases e)
  case (Request n s)
  then show ?thesis using assms(1) by (simp add: getRotatedModels_def Let_def split: prod.split)
next
  case (Fallback n i)
  then show ?thesis using assms(1) by (simp add: advanceRotationAfterSuccessfulFallback_def)
next
  case (Reset n)
  then show ?thesis using assms by (auto simp: resetComboRotation_def rotation_key_def split: if_splits)
qed

text \<open>the combos rotate independently: whatever happens to other combos, requests, fallbacks and
  resets, leaves the cursor of a combo where it is. Only the reset without a name touches all.\<close>

theorem rotation_isolated:
  assumes "\<forall>e \<in> set events. rotation_key (event_combo e) \<noteq> rotation_key name \<and> e \<noteq> Reset []"
  shows "snapshotComboRotation name (foldl (rotation_step members) st events) = snapshotComboRotation name st"
  using assms
  by (induction events arbitrary: st) (simp_all add: rotation_step_other snapshotComboRotation_def)

theorem rotation_isolated_witness:
  "snapshotComboRotation ''a'' (foldl (rotation_step (\<lambda>_. [1, 2, 3 :: nat])) [(''a'', Cursor 2 1)]
     [Request ''b'' (JInt 1), Fallback ''b'' 1, Reset ''b'']) = (2, 1)"
  using rotation_isolated [of "[Request ''b'' (JInt 1), Fallback ''b'' 1, Reset ''b'']" "''a''" "\<lambda>_. [1, 2, 3 :: nat]" "[(''a'', Cursor 2 1)]"]
  by (simp add: rotation_key_def snapshotComboRotation_def cursor_of_def)

end
