(* ===== verification/ComboOrder.thy ===== *)
theory ComboOrder
  imports JsValue
begin

text \<open>
  Which member of a combo is tried first, from open-sse/services/combo.js: what a request needs
  (detected on the current user turn), how large it is, and the stable reordering of the entries by
  context fit and by capability. The capabilities of a model are a parameter \<open>caps\<close>, the lookup of
  open-sse/providers/capabilities.js: provider and model to an object. A capability set is the list
  of its names in the order they were added. The items of a conversation are objects.
\<close>

section \<open>What a request needs\<close>

definition HARD_CAPS :: "string list" where
  "HARD_CAPS = [''vision'', ''pdf'', ''audioInput'', ''videoInput'']"

definition add_cap :: "string \<Rightarrow> string list \<Rightarrow> string list" where
  "add_cap c required = (if c \<in> set required then required else required @ [c])"

definition addByMime :: "jv \<Rightarrow> string list \<Rightarrow> string list" where
  "addByMime mime required = (case mime of
     Str s \<Rightarrow> if starts_with s ''image/'' then add_cap ''vision'' required
       else if s = ''application/pdf'' then add_cap ''pdf'' required
       else if starts_with s ''audio/'' then add_cap ''audioInput'' required
       else if starts_with s ''video/'' then add_cap ''videoInput'' required
       else required
   | _ \<Rightarrow> required)"

text \<open>\<open>String(v).match(/^data:([^;,]+)/)?.[1]\<close>\<close>

definition data_uri_mime :: "string \<Rightarrow> jv" where
  "data_uri_mime s = (if starts_with s ''data:'' then
       (let mime = takeWhile (\<lambda>c. c \<noteq> CHR '';'' \<and> c \<noteq> CHR '','') (drop 5 s) in if mime = [] then Undef else Str mime)
     else Undef)"

definition file_mime :: "jv \<Rightarrow> jv" where
  "file_mime b =
     (if truthy (get (get b ''input_audio'') ''format'') then Str (''audio/'' @ jstr (get (get b ''input_audio'') ''format''))
      else if truthy (get (get b ''file'') ''file_data'') then data_uri_mime (jstr (get (get b ''file'') ''file_data''))
      else if truthy (get (get b ''source'') ''media_type'') then get (get b ''source'') ''media_type''
      else if truthy (get (get b ''source'') ''data'') then data_uri_mime (jstr (get (get b ''source'') ''data''))
      else Null)"

definition scanBlock :: "jv \<Rightarrow> string list \<Rightarrow> string list" where
  "scanBlock b required =
     (if \<not> is_object b then required
      else let t = get b ''type'';
          r1 = (if t \<in> {Str ''image_url'', Str ''image'', Str ''input_image''} then add_cap ''vision'' required else required);
          r2 = (if t \<in> {Str ''input_audio'', Str ''audio_url'', Str ''audio''} then add_cap ''audioInput'' r1 else r1);
          r3 = (if t \<in> {Str ''input_video'', Str ''video_url'', Str ''video''} then add_cap ''videoInput'' r2 else r2);
          r4 = (if t \<in> {Str ''file'', Str ''document'', Str ''input_file''}
            then (if truthy (file_mime b) then addByMime (file_mime b) r3 else add_cap ''pdf'' r3) else r3)
        in addByMime (js_or (get (get b ''inlineData'') ''mimeType'') (get (get b ''fileData'') ''mimeType'')) r4)"

definition scanContent :: "jv \<Rightarrow> string list \<Rightarrow> string list" where
  "scanContent content required = foldl (\<lambda>r b. scanBlock b r) required (arr_items content)"

definition attachment_mime :: "jv \<Rightarrow> jv" where
  "attachment_mime att = js_or (get att ''contentType'') (js_or (get att ''mediaType'')
     (case get att ''url'' of Str u \<Rightarrow> data_uri_mime u | _ \<Rightarrow> Bool False))"

definition scan_attachment :: "jv \<Rightarrow> string list \<Rightarrow> string list" where
  "scan_attachment att required =
     (if \<not> truthy att then required
      else if truthy (attachment_mime att) then addByMime (attachment_mime att) required
      else if truthy (get att ''url'') \<or> truthy (get att ''data'') then add_cap ''vision'' required
      else required)"

definition scanMessage :: "jv \<Rightarrow> string list \<Rightarrow> string list" where
  "scanMessage m required =
     (if \<not> is_object m then required
      else let r1 = (if arr_items (get m ''images'') \<noteq> [] then add_cap ''vision'' required else required);
          r2 = foldl (\<lambda>r a. scan_attachment a r) r1
            (arr_items (js_or (get m ''experimental_attachments'') (get m ''attachments'')));
          r3 = (if truthy (get m ''image_url'') \<or> truthy (get m ''image'') then add_cap ''vision'' r2 else r2);
          r4 = (if truthy (get m ''audio_url'') \<or> truthy (get m ''audio'') then add_cap ''audioInput'' r3 else r3);
          r5 = scanContent (get m ''content'') r4
        in (case get m ''content'' of
            Str s \<Rightarrow> if str_includes s ''data:image/'' then add_cap ''vision'' r5
              else if str_includes s ''data:audio/'' then add_cap ''audioInput'' r5
              else if str_includes s ''data:application/pdf'' then add_cap ''pdf'' r5
              else r5
          | _ \<Rightarrow> r5))"

definition is_assistant_turn :: "jv \<Rightarrow> bool" where
  "is_assistant_turn item \<longleftrightarrow> get item ''role'' = Str ''assistant'' \<or> get item ''role'' = Str ''model''"

definition trailingUserItems :: "jv \<Rightarrow> jv list" where
  "trailingUserItems arr = rev (takeWhile (\<lambda>item. \<not> is_assistant_turn item) (rev (arr_items arr)))"

definition detectRequiredCapabilities :: "jv \<Rightarrow> string list" where
  "detectRequiredCapabilities body =
     (if \<not> is_object body then []
      else let r1 = foldl (\<lambda>r m. scanMessage m r) [] (trailingUserItems (get body ''messages''));
          r2 = foldl (\<lambda>r it. scanContent (get it ''content'') r) r1 (trailingUserItems (get body ''input''));
          contents = js_or (get body ''contents'') (get (get body ''request'') ''contents'')
        in foldl (\<lambda>r c. scanContent (get c ''parts'') r) r2 (trailingUserItems contents))"

section \<open>How large a request is\<close>

definition CHARS_PER_TOKEN_ESTIMATE :: rat where
  "CHARS_PER_TOKEN_ESTIMATE = 3.8"

definition estimateTokenCount :: "jv list \<Rightarrow> nat" where
  "estimateTokenCount items = (if items = [] then 0
     else case json_str (Arr items) of None \<Rightarrow> 0
     | Some s \<Rightarrow> nat \<lceil>of_nat (length s) / CHARS_PER_TOKEN_ESTIMATE\<rceil>)"

definition estimateRequestContextTokens :: "jv \<Rightarrow> nat" where
  "estimateRequestContextTokens body =
     (if is_array (get body ''messages'') then estimateTokenCount (arr_items (get body ''messages''))
      else if is_array (get body ''input'') then estimateTokenCount (arr_items (get body ''input''))
      else if is_array (get body ''contents'') then estimateTokenCount (arr_items (get body ''contents''))
      else estimateTokenCount (arr_items (get (get body ''request'') ''contents'')))"

section \<open>Reordering\<close>

definition split_model :: "string \<Rightarrow> string \<times> string" where
  "split_model m = (let p = takeWhile (\<lambda>c. c \<noteq> CHR ''/'') m in
     if p \<noteq> [] \<and> CHR ''/'' \<in> set m then (p, drop (Suc (length p)) m) else ([], m))"

text \<open>The numbered members, sorted by tier and then by number.\<close>

definition sort_by_tier :: "('a \<Rightarrow> nat) \<Rightarrow> 'a list \<Rightarrow> 'a list" where
  "sort_by_tier tier xs = map fst
     (js_sort (\<lambda>a b. tier (fst a) < tier (fst b) \<or> tier (fst a) = tier (fst b) \<and> snd a < snd b) (zip xs [0..<length xs]))"

definition tierOf :: "(string \<Rightarrow> string \<Rightarrow> jv) \<Rightarrow> string list \<Rightarrow> string \<Rightarrow> nat" where
  "tierOf caps required m = (let (provider, model) = split_model m; c = caps provider model in
     if \<not> list_all (\<lambda>k. get c k = Bool True) (filter (\<lambda>k. k \<in> set HARD_CAPS) required) then 2
     else if list_all (\<lambda>k. get c k = Bool True) (filter (\<lambda>k. k \<notin> set HARD_CAPS) required) then 0 else 1)"

definition reorderByCapabilities :: "(string \<Rightarrow> string \<Rightarrow> jv) \<Rightarrow> string list \<Rightarrow> string list \<Rightarrow> string list" where
  "reorderByCapabilities caps models required =
     (if required = [] \<or> length models \<le> 1 then models else sort_by_tier (tierOf caps required) models)"

definition fit_tier :: "(string \<Rightarrow> string \<Rightarrow> jv) \<Rightarrow> nat \<Rightarrow> string \<Rightarrow> nat" where
  "fit_tier caps requiredTokens m = (let (provider, model) = split_model m;
       window = to_number (js_or (get (caps provider model) ''contextWindow'') (JInt 0))
     in if num_le (Fin (of_nat requiredTokens)) window then 0 else 1)"

definition reorderByContextFit :: "(string \<Rightarrow> string \<Rightarrow> jv) \<Rightarrow> string list \<Rightarrow> nat \<Rightarrow> string list" where
  "reorderByContextFit caps models requiredTokens =
     (if requiredTokens = 0 \<or> length models \<le> 1 then models else sort_by_tier (fit_tier caps requiredTokens) models)"

record entry =
  modelStr :: string
  originalIndex :: nat

definition group_entries :: "entry list \<Rightarrow> (string \<times> entry list) list" where
  "group_entries es = foldl (\<lambda>m e. om_set m (modelStr e)
     ((case om_get m (modelStr e) of None \<Rightarrow> [] | Some q \<Rightarrow> q) @ [e])) [] es"

text \<open>\<open>entriesByModel.get(modelStr).shift()\<close> for every name in turn; a name that is missing or has
  no entry left gives no entry.\<close>

fun shift_entries :: "(string \<times> entry list) list \<Rightarrow> string list \<Rightarrow> entry option list" where
  "shift_entries m [] = []"
| "shift_entries m (n # ns) = (case om_get m n of
     Some (e # es) \<Rightarrow> Some e # shift_entries (om_set m n es) ns
   | _ \<Rightarrow> None # shift_entries m ns)"

definition reorderEntries :: "entry list \<Rightarrow> string list \<Rightarrow> entry option list" where
  "reorderEntries es names = shift_entries (group_entries es) names"

text \<open>\<open>None\<close> would be the TypeError of reading a member of a missing entry.\<close>

definition orderComboEntries :: "(string \<Rightarrow> string \<Rightarrow> jv) \<Rightarrow> entry list \<Rightarrow> nat \<Rightarrow> string list \<Rightarrow> bool \<Rightarrow> entry list option" where
  "orderComboEntries caps es contextTokens required autoSwitch =
     (if \<not> autoSwitch then Some es
      else case those (reorderEntries es (reorderByContextFit caps (map modelStr es) contextTokens)) of None \<Rightarrow> None
      | Some es1 \<Rightarrow> those (reorderEntries es1 (reorderByCapabilities caps (map modelStr es1) required)))"

section \<open>The order is a stable sort of the entries\<close>

interpretation tiers: strict_weak_order "\<lambda>a b. (f a :: nat) < f b" for f :: "'a \<Rightarrow> nat"
  by unfold_locales auto

lemma sort_by_tier_stable: "sort_by_tier tier xs = js_sort (\<lambda>a b. tier a < tier b) xs"
proof -
  let ?lt = "\<lambda>a b. tier (fst a) < tier (fst b) \<or> tier (fst a) = tier (fst b) \<and> snd a < (snd b :: nat)"
  have "map fst (js_sort ?lt (zip xs [k..<k + length xs])) = js_sort (\<lambda>a b. tier a < tier b) xs" for k
  proof (induction xs arbitrary: k)
    case (Cons x xs)
    let ?ys = "js_sort ?lt (zip xs [Suc k..<Suc k + length xs])"
    have "k < snd y" if "y \<in> set ?ys" for y
    proof -
      have "snd y \<in> set [Suc k..<Suc k + length xs]" using that by (metis prod.collapse set_js_sort set_zip_rightD)
      then show ?thesis by auto
    qed
    then have "insort_lt (\<lambda>a b. tier a < tier b) (fst (x, k)) (map fst ?ys) = map fst (insort_lt ?lt (x, k) ?ys)"
      by (intro insort_lt_map) force
    moreover have "[k..<k + length (x # xs)] = k # [Suc k..<Suc k + length xs]"
      using upt_conv_Cons [of k "k + length (x # xs)"] by (simp del: upt_Suc)
    ultimately show ?case using Cons.IH [of "Suc k"] by (simp del: upt_Suc)
  qed simp
  from this [of 0] show ?thesis by (simp add: sort_by_tier_def)
qed

lemma om_get_group:
  "(case om_get (group_entries es) n of None \<Rightarrow> [] | Some q \<Rightarrow> q) = filter (\<lambda>e. modelStr e = n) es"
proof -
  have "(case om_get (foldl (\<lambda>m e. om_set m (modelStr e) ((case om_get m (modelStr e) of None \<Rightarrow> [] | Some q \<Rightarrow> q) @ [e])) m es) n of
        None \<Rightarrow> [] | Some q \<Rightarrow> q) = (case om_get m n of None \<Rightarrow> [] | Some q \<Rightarrow> q) @ filter (\<lambda>e. modelStr e = n) es" for m
    by (induction es arbitrary: m) auto
  from this [of "[]"] show ?thesis by (simp add: group_entries_def)
qed

lemma shift_entries_all:
  assumes "\<And>n. (case om_get m n of None \<Rightarrow> [] | Some q \<Rightarrow> q) = filter (\<lambda>e. modelStr e = n) es"
  shows "shift_entries m (map modelStr es) = map Some es"
  using assms
proof (induction es arbitrary: m)
  case (Cons e es)
  have q: "om_get m (modelStr e) = Some (e # filter (\<lambda>f. modelStr f = modelStr e) es)"
    using Cons.prems [of "modelStr e"] by (auto split: option.splits)
  have "(case om_get (om_set m (modelStr e) (filter (\<lambda>f. modelStr f = modelStr e) es)) n of None \<Rightarrow> [] | Some q \<Rightarrow> q)
      = filter (\<lambda>f. modelStr f = n) es" for n
    using Cons.prems [of n] by auto
  with Cons.IH q show ?case by simp
qed simp

lemma filter_name_sort:
  "filter (\<lambda>e. modelStr e = n) (js_sort (\<lambda>a b. tier (modelStr a) < (tier (modelStr b) :: nat)) es) = filter (\<lambda>e. modelStr e = n) (es :: entry list)"
proof -
  let ?s = "js_sort (\<lambda>a b. tier (modelStr a) < tier (modelStr b)) es"
  let ?t = "tiers.tie (\<lambda>e. tier (modelStr e)) \<lparr> modelStr = n, originalIndex = 0 \<rparr>"
  have i: "filter (\<lambda>e. modelStr e = n) xs = filter (\<lambda>e. modelStr e = n) (filter ?t xs)" for xs
    by (auto simp: tiers.tie_def intro!: filter_cong)
  show ?thesis unfolding i [of ?s] i [of es] tiers.js_sort_stable ..
qed

lemma reorder_sorted:
  "those (reorderEntries es (js_sort (\<lambda>a b. tier a < (tier b :: nat)) (map modelStr es)))
     = Some (js_sort (\<lambda>a b. tier (modelStr a) < tier (modelStr b)) es)"
proof -
  let ?s = "js_sort (\<lambda>a b. tier (modelStr a) < tier (modelStr b)) es"
  have n: "js_sort (\<lambda>a b. tier a < tier b) (map modelStr es) = map modelStr ?s"
    by (rule js_sort_map) simp
  have "reorderEntries es (map modelStr ?s) = map Some ?s"
    unfolding reorderEntries_def by (rule shift_entries_all) (simp add: om_get_group filter_name_sort)
  moreover have "those (map Some xs) = Some xs" for xs :: "entry list" by (induction xs) simp_all
  ultimately show ?thesis by (simp add: n)
qed

lemma reorder_same: "those (reorderEntries es (map modelStr es)) = Some es"
  using reorder_sorted [of es "\<lambda>_. 0"] by (simp add: js_sort_const)

lemma js_sort_short: "length xs \<le> 1 \<Longrightarrow> js_sort lt xs = xs"
  by (cases xs) auto

definition by_fit :: "(string \<Rightarrow> string \<Rightarrow> jv) \<Rightarrow> nat \<Rightarrow> entry list \<Rightarrow> entry list" where
  "by_fit caps n es = (if n = 0 then es
     else js_sort (\<lambda>a b. fit_tier caps n (modelStr a) < fit_tier caps n (modelStr b)) es)"

definition by_capability :: "(string \<Rightarrow> string \<Rightarrow> jv) \<Rightarrow> string list \<Rightarrow> entry list \<Rightarrow> entry list" where
  "by_capability caps required es = js_sort (\<lambda>a b. tierOf caps required (modelStr a) < tierOf caps required (modelStr b)) es"

lemma orderComboEntries_eq: "orderComboEntries caps es n required True = Some (by_capability caps required (by_fit caps n es))"
proof -
  have fit: "those (reorderEntries xs (reorderByContextFit caps (map modelStr xs) n)) = Some (by_fit caps n xs)" for xs
    by (auto simp: reorderByContextFit_def sort_by_tier_stable reorder_sorted reorder_same by_fit_def js_sort_short)
  have none: "tierOf caps [] m = 0" for m by (simp add: tierOf_def Let_def split: prod.split)
  have cap: "those (reorderEntries xs (reorderByCapabilities caps (map modelStr xs) required)) = Some (by_capability caps required xs)" for xs
    by (auto simp: reorderByCapabilities_def sort_by_tier_stable reorder_sorted reorder_same by_capability_def js_sort_short
        none js_sort_const)
  show ?thesis by (simp add: orderComboEntries_def fit cap)
qed

text \<open>ordering the members of a combo never fails, never drops or duplicates one, even when a
  member is listed twice, and is the stable sort of the entries: capability tiers first, inside a tier
  the members whose context window fits, otherwise the order of rotation.\<close>

theorem combo_order_is_stable_sort:
  "orderComboEntries caps es n required True = Some (by_capability caps required (by_fit caps n es))
   \<and> mset (by_capability caps required (by_fit caps n es)) = mset es
   \<and> sorted_wrt (\<lambda>a b. tierOf caps required (modelStr a) \<le> tierOf caps required (modelStr b))
       (by_capability caps required (by_fit caps n es))"
  using tiers.js_sort_sorted [of "\<lambda>e. tierOf caps required (modelStr e)" "by_fit caps n es"]
  by (simp add: orderComboEntries_eq by_capability_def by_fit_def not_less)

section \<open>Old media never decide\<close>

lemma trailing_after:
  assumes "is_assistant_turn a" and "\<forall>t \<in> set turn. \<not> is_assistant_turn t"
  shows "trailingUserItems (Arr (history @ a # turn)) = turn"
proof -
  have t: "takeWhile (\<lambda>item. \<not> is_assistant_turn item) (rev turn) = rev turn"
    by (rule takeWhile_eq_all_conv [THEN iffD2]) (use assms(2) in simp)
  show ?thesis using assms(1) by (simp add: trailingUserItems_def takeWhile_tail t)
qed

text \<open>only the current user turn decides what a request needs: whatever media the turns up to the
  last assistant message carry, the needs are those of the conversation that holds the current turn
  alone.\<close>

theorem only_current_turn_decides:
  assumes "is_assistant_turn a" and "\<forall>t \<in> set turn. \<not> is_assistant_turn t"
  shows "detectRequiredCapabilities (Obj [(''messages'', Arr (history @ a # turn))])
     = detectRequiredCapabilities (Obj [(''messages'', Arr turn)])"
proof -
  have "trailingUserItems (Arr turn) = turn"
    using assms(2) by (simp add: trailingUserItems_def takeWhile_eq_all_conv [THEN iffD2])
  then show ?thesis using trailing_after [OF assms] by (simp add: detectRequiredCapabilities_def)
qed

definition text_turn :: "string \<Rightarrow> string \<Rightarrow> jv" where
  "text_turn role text = Obj [(''role'', Str role), (''content'', Str text)]"

definition image_turn :: jv where
  "image_turn = Obj [(''role'', Str ''user''), (''content'', Arr [Obj [(''type'', Str ''image_url'')]])]"

theorem only_current_turn_decides_witness:
  "detectRequiredCapabilities (Obj [(''messages'', Arr ([image_turn] @ text_turn ''assistant'' ''a cat'' # [text_turn ''user'' ''and now?'']))]) = []"
proof -
  have a: "is_assistant_turn (text_turn ''assistant'' ''a cat'')" by (simp add: is_assistant_turn_def text_turn_def)
  have t: "\<forall>t \<in> set [text_turn ''user'' ''and now?'']. \<not> is_assistant_turn t" by (simp add: is_assistant_turn_def text_turn_def)
  have "detectRequiredCapabilities (Obj [(''messages'', Arr [text_turn ''user'' ''and now?''])]) = []" by code_simp
  then show ?thesis using only_current_turn_decides [OF a t, of "[image_turn]"] by simp
qed

end
