(* ===== verification/RetryAfter.thy ===== *)
theory RetryAfter
  imports ErrorPolicy JsDate JsRegex
begin

text \<open>
  Error responses and the waits they carry, from open-sse/utils/error.js: which failures may
  announce a wait, how it is written, and how a reset is read back from headers, from the text of a
  message and from a structured body. A response is its status, its headers (lower-case names) and
  its body; the clock is read once per call.
\<close>

section \<open>Responses\<close>

record http_response =
  status :: int
  headers :: "(string \<times> string) list"
  body :: jv

definition header_of :: "http_response \<Rightarrow> string \<Rightarrow> string option" where
  "header_of r name = om_get (headers r) name"

definition set_header :: "string \<Rightarrow> string \<Rightarrow> http_response \<Rightarrow> http_response" where
  "set_header name v r = r\<lparr> headers := om_set (headers r) name v \<rparr>"

definition response_ok :: "http_response \<Rightarrow> bool" where
  "response_ok r \<longleftrightarrow> 200 \<le> status r \<and> status r < 300"

definition buildErrorBody :: "int \<Rightarrow> jv \<Rightarrow> (string \<times> jv) list" where
  "buildErrorBody statusCode message =
     (let info = (case om_get ERROR_TYPES statusCode of Some i \<Rightarrow> i
          | None \<Rightarrow> if 500 \<le> statusCode then (''server_error'', ''internal_server_error'') else (''invalid_request_error'', []))
      in [(''message'', js_or (scrubLongContextDepletion message)
            (Str (case om_get DEFAULT_ERROR_MESSAGES statusCode of Some (c # cs) \<Rightarrow> c # cs | _ \<Rightarrow> ''An error occurred''))),
          (''type'', Str (fst info)), (''code'', Str (snd info))])"

definition NEVER_RETRY_STATUSES :: "int list" where
  "NEVER_RETRY_STATUSES = [400, 401, 402, 403, 404, 413, 422]"

definition isRetryableStatus :: "int \<Rightarrow> bool" where
  "isRetryableStatus statusCode \<longleftrightarrow> statusCode \<notin> set NEVER_RETRY_STATUSES"

text \<open>The date parser of the host on the ISO form and on the date form of HTTP.\<close>

definition MONTHS :: "string list" where
  "MONTHS = [''Jan'', ''Feb'', ''Mar'', ''Apr'', ''May'', ''Jun'', ''Jul'', ''Aug'', ''Sep'', ''Oct'', ''Nov'', ''Dec'']"

definition month_number :: "string \<Rightarrow> int option" where
  "month_number s = om_get (zip MONTHS [1, 2, 3, 4, 5, 6, 7, 8, 9, 10, 11, 12]) s"

definition http_date_parse :: "string \<Rightarrow> int option" where
  "http_date_parse s = (if length s \<noteq> 29 \<or> take 2 (drop 3 s) \<noteq> '', '' \<or> drop 26 s \<noteq> ''GMT''
       \<or> s ! 7 \<noteq> CHR '' '' \<or> s ! 11 \<noteq> CHR '' '' \<or> s ! 16 \<noteq> CHR '' '' \<or> s ! 25 \<noteq> CHR '' '' then None
     else do {
       (d, _) \<leftarrow> take_num 2 (drop 5 s);
       m \<leftarrow> month_number (take 3 (drop 8 s));
       (y, _) \<leftarrow> take_num 4 (drop 12 s);
       tod \<leftarrow> parse_time (take 8 (drop 17 s) @ ''Z'');
       (if 1 \<le> d \<and> d \<le> days_in_month y m then time_clip (days_from_civil y m d * ms_per_day + tod) else None) })"

definition js_date_parse :: "string \<Rightarrow> int option" where
  "js_date_parse s = (case date_parse s of Some t \<Rightarrow> Some t | None \<Rightarrow> http_date_parse s)"

text \<open>\<open>at\<close> is an instant as a number or a date string, \<open>ms\<close> a wait budget; absent is undefined or null.\<close>

definition remaining_of :: "jv \<Rightarrow> jv \<Rightarrow> rat \<Rightarrow> rat option" where
  "remaining_of reset_at budget now =
     (case (if is_nullish reset_at then None
        else case reset_at of Num (Fin t) \<Rightarrow> Some (t - now) | Num _ \<Rightarrow> None
          | v \<Rightarrow> map_option (\<lambda>t. of_int t - now) (js_date_parse (jstr v))) of
        Some r \<Rightarrow> Some r
      | None \<Rightarrow> (case budget of Num (Fin m) \<Rightarrow> Some m | _ \<Rightarrow> None))"

definition retryAfterSeconds :: "jv \<Rightarrow> jv \<Rightarrow> rat \<Rightarrow> int option" where
  "retryAfterSeconds reset_at budget now = map_option (\<lambda>r. max \<lceil>r / 1000\<rceil> 1) (remaining_of reset_at budget now)"

record error_options =
  retry_at :: jv
  retry_ms :: jv
  failure_phase :: string
  rid :: string

definition no_options :: error_options where
  "no_options = \<lparr> retry_at = Undef, retry_ms = Undef, failure_phase = [], rid = [] \<rparr>"

definition retry_header :: "int \<Rightarrow> int option \<Rightarrow> (string \<times> string) list" where
  "retry_header statusCode secs = (if isRetryableStatus statusCode
     then (case secs of None \<Rightarrow> [] | Some n \<Rightarrow> [(''retry-after'', int_str n)]) else [])"

text \<open>The request-id header is named by the observability module.\<close>

definition errorResponse :: "string \<Rightarrow> int \<Rightarrow> jv \<Rightarrow> error_options \<Rightarrow> rat \<Rightarrow> http_response" where
  "errorResponse rid_header statusCode message options now =
     \<lparr> status = statusCode,
       headers = [(''content-type'', ''application/json''), (''access-control-allow-origin'', ''*'')]
         @ (if rid options \<noteq> [] then [(rid_header, rid options)] else [])
         @ retry_header statusCode (retryAfterSeconds (retry_at options) (retry_ms options) now),
       body = Obj [(''error'', Obj (buildErrorBody statusCode message
         @ (if failure_phase options \<noteq> [] then [(''failure_phase'', Str (failure_phase options))] else [])))] \<rparr>"

definition unavailable_message :: "int \<Rightarrow> jv \<Rightarrow> string \<Rightarrow> jv" where
  "unavailable_message statusCode message retryAfterHuman =
     (let scrubbed = scrubLongContextDepletion message in
      if isRetryableStatus statusCode \<and> retryAfterHuman \<noteq> [] then Str (jstr scrubbed @ '' ('' @ retryAfterHuman @ '')'') else scrubbed)"

definition unavailableResponse :: "string \<Rightarrow> int \<Rightarrow> jv \<Rightarrow> string \<Rightarrow> string \<Rightarrow> string \<Rightarrow> rat \<Rightarrow> http_response" where
  "unavailableResponse rid_header statusCode message retryAfter retryAfterHuman rid0 now =
     \<lparr> status = statusCode,
       headers = [(''content-type'', ''application/json'')] @ (if rid0 \<noteq> [] then [(rid_header, rid0)] else [])
         @ retry_header statusCode (retryAfterSeconds (Str retryAfter) Undef now),
       body = Obj [(''error'', Obj [(''message'', unavailable_message statusCode message retryAfterHuman)])] \<rparr>"

section \<open>Reading a wait back\<close>

definition extractRetryAfterDeadline :: "http_response \<Rightarrow> rat \<Rightarrow> rat option" where
  "extractRetryAfterDeadline r now = (case header_of r ''retry-after'' of
     None \<Rightarrow> None
   | Some v \<Rightarrow> if v = [] then None
       else case string_to_number v of
         Fin seconds \<Rightarrow> if 0 < seconds then Some (now + seconds * 1000) else None
       | _ \<Rightarrow> (case js_date_parse v of None \<Rightarrow> None
           | Some t \<Rightarrow> if now < of_int t then Some (of_int t) else None))"

text \<open>A duration such as \<open>1m30s\<close>: amounts with their units, each unit read greedily.\<close>

definition unit_at :: "string \<Rightarrow> (rat \<times> string) option" where
  "unit_at s = (case s of [] \<Rightarrow> None
     | c # cs \<Rightarrow> if c = CHR ''m'' then (case cs of d # ds \<Rightarrow> if d = CHR ''s'' then Some (1, ds) else Some (60000, cs) | [] \<Rightarrow> Some (60000, cs))
       else if c = CHR ''s'' then Some (1000, cs) else if c = CHR ''h'' then Some (3600000, cs) else None)"

lemma unit_at_shorter: "unit_at s = Some (u, r) \<Longrightarrow> length r < length s"
  by (auto simp: unit_at_def split: list.splits if_splits)

function duration_total :: "string \<Rightarrow> rat option" where
  "duration_total s = (if s = [] then Some 0
     else let ds = takeWhile is_digit s in
       if ds = [] then None
       else case unit_at (dropWhile is_digit s) of None \<Rightarrow> None
         | Some (unit, rest) \<Rightarrow> map_option (\<lambda>t. of_nat (digits_val ds) * unit + t) (duration_total rest))"
  by pat_completeness auto
termination
proof (relation "measure length")
  fix s ds x p unit and rest :: string
  assume "unit_at (dropWhile is_digit s) = Some p" "(unit, rest) = p"
  then have "length rest < length (dropWhile is_digit s)" by (metis unit_at_shorter)
  then show "(rest, s) \<in> measure length" using length_dropWhile_le [of is_digit s] by simp
qed simp

declare duration_total.simps [simp del]

definition parseRateLimitDurationMs :: "string \<Rightarrow> rat option" where
  "parseRateLimitDurationMs text = (case (if text = [] then None else duration_total text) of
     Some t \<Rightarrow> if 0 < t then Some t else None | None \<Rightarrow> None)"

definition MAX_BARE_WINDOW_SECONDS :: rat where
  "MAX_BARE_WINDOW_SECONDS = 3600"

definition RATE_LIMIT_RESET_HEADERS :: "string list" where
  "RATE_LIMIT_RESET_HEADERS = [''x-ratelimit-reset-requests'', ''x-ratelimit-reset'']"

text \<open>The strict timestamp: every field in range, so the calendar gives the same fields back (years
  below 100 are moved by \<open>Date.UTC\<close> and never do).\<close>

definition parseFutureRfc3339 :: "string \<Rightarrow> rat \<Rightarrow> rat option" where
  "parseFutureRfc3339 timestamp now = (let s = map (\<lambda>c. if c = CHR ''t'' then CHR ''T'' else if c = CHR ''z'' then CHR ''Z'' else c) timestamp in
     case (do {
       (y, r) \<leftarrow> take_num 4 s;
       r \<leftarrow> expect CHR ''-'' r; (m, r) \<leftarrow> take_num 2 r;
       r \<leftarrow> expect CHR ''-'' r; (d, r) \<leftarrow> take_num 2 r;
       r \<leftarrow> expect CHR ''T'' r; (h, r) \<leftarrow> take_num 2 r;
       r \<leftarrow> expect CHR '':'' r; (mi, r) \<leftarrow> take_num 2 r;
       r \<leftarrow> expect CHR '':'' r; (sec, r) \<leftarrow> take_num 2 r;
       (_, r) \<leftarrow> parse_fraction r;
       (if r \<noteq> [] \<and> 100 \<le> y \<and> h \<le> 23 \<and> mi \<le> 59 \<and> sec \<le> 59 then date_parse s else None) }) of
       Some t \<Rightarrow> if now < of_int t then Some (of_int t) else None
     | None \<Rightarrow> None)"

definition rate_limit_window :: "string \<Rightarrow> rat \<Rightarrow> rat option" where
  "rate_limit_window raw now =
     (case parseRateLimitDurationMs (to_lower raw) of
        Some d \<Rightarrow> Some (now + min d (of_int MAX_RATE_LIMIT_COOLDOWN_MS))
      | None \<Rightarrow>
          (case string_to_number raw of
             Fin seconds \<Rightarrow> if is_integer_num (Fin seconds) \<and> 0 < seconds \<and> seconds \<le> MAX_BARE_WINDOW_SECONDS
               then Some (now + seconds * 1000)
               else map_option (\<lambda>t. min t (now + of_int MAX_RATE_LIMIT_COOLDOWN_MS)) (parseFutureRfc3339 raw now)
           | _ \<Rightarrow> map_option (\<lambda>t. min t (now + of_int MAX_RATE_LIMIT_COOLDOWN_MS)) (parseFutureRfc3339 raw now)))"

fun first_window :: "http_response \<Rightarrow> string list \<Rightarrow> rat \<Rightarrow> rat option" where
  "first_window r [] now = None"
| "first_window r (name # names) now =
     (let raw = (case header_of r name of None \<Rightarrow> [] | Some v \<Rightarrow> trim v) in
      case (if raw = [] then None else rate_limit_window raw now) of Some t \<Rightarrow> Some t | None \<Rightarrow> first_window r names now)"

definition extractRateLimitWindowMs :: "http_response \<Rightarrow> rat \<Rightarrow> rat option" where
  "extractRateLimitWindowMs r now = first_window r RATE_LIMIT_RESET_HEADERS now"

definition digits_rx :: "nat \<Rightarrow> rx" where
  "digits_rx n = seq_of (replicate n (Cls is_digit))"

definition char_rx :: "char \<Rightarrow> rx" where
  "char_rx c = Cls (\<lambda>d. d = c)"

definition RESET_AT :: rx where
  "RESET_AT = seq_of [lit_ci ''reset at'', Plus (Cls is_ws),
     Grp 1 (seq_of [digits_rx 4, char_rx CHR ''-'', digits_rx 2, char_rx CHR ''-'', digits_rx 2]),
     Cls (\<lambda>c. lower_char c = CHR ''t'' \<or> c = CHR '' ''),
     Grp 2 (seq_of [digits_rx 2, char_rx CHR '':'', digits_rx 2, char_rx CHR '':'', digits_rx 2])]"

definition IN_TIME :: rx where
  "IN_TIME = seq_of [any_of [lit_ci ''retry'', lit_ci ''try again'', seq_of [lit_ci ''reset'', OptRx (lit_ci ''s'')]],
     Plus (Cls is_ws), any_of [lit_ci ''after'', lit_ci ''in''], Plus (Cls is_ws), Grp 1 decimal_rx, spaces_rx,
     Grp 2 (any_of [seq_of [lit_ci ''second'', OptRx (lit_ci ''s'')], seq_of [lit_ci ''minute'', OptRx (lit_ci ''s'')],
       seq_of [lit_ci ''hour'', OptRx (lit_ci ''s'')]])]"

definition reset_stamp :: "string \<Rightarrow> rat \<Rightarrow> rat option" where
  "reset_stamp text now = (case rx_exec RESET_AT text of None \<Rightarrow> None
     | Some (_, caps) \<Rightarrow> (case date_parse (group 1 caps @ ''T'' @ group 2 caps @ ''Z'') of None \<Rightarrow> None
         | Some t \<Rightarrow> if now < of_int t then Some (of_int t) else None))"

definition reset_phrase :: "string \<Rightarrow> rat \<Rightarrow> rat option" where
  "reset_phrase text now = (case rx_exec IN_TIME text of None \<Rightarrow> None
     | Some (_, caps) \<Rightarrow> (case string_to_number (group 1 caps) of
         Fin n \<Rightarrow> (let u = lower_char (hd (group 2 caps)) in
           Some (now + n * (if u = CHR ''s'' then 1000 else if u = CHR ''m'' then 60000 else 3600000)))
       | _ \<Rightarrow> None))"

definition header_reset :: "http_response \<Rightarrow> rat \<Rightarrow> rat option" where
  "header_reset r now = (case extractRetryAfterDeadline r now of
     Some d \<Rightarrow> if d \<noteq> 0 then Some d else extractRateLimitWindowMs r now
   | None \<Rightarrow> extractRateLimitWindowMs r now)"

definition message_text :: "jv \<Rightarrow> string" where
  "message_text message = (case message of Str s \<Rightarrow> s
     | v \<Rightarrow> (case json_str (js_or v (Str [])) of None \<Rightarrow> [] | Some s \<Rightarrow> s))"

definition extractResetsAtMs :: "http_response \<Rightarrow> jv \<Rightarrow> rat \<Rightarrow> rat option" where
  "extractResetsAtMs r message now = (case reset_stamp (message_text message) now of
     Some t \<Rightarrow> Some t
   | None \<Rightarrow> (case reset_phrase (message_text message) now of
       Some t \<Rightarrow> Some t
     | None \<Rightarrow> header_reset r now))"

definition positive_delay :: "jv \<Rightarrow> rat option" where
  "positive_delay v = (case v of Num (Fin d) \<Rightarrow> if 0 < d then Some d else None | _ \<Rightarrow> None)"

definition extractBodyResetsAtMs :: "jv \<Rightarrow> rat \<Rightarrow> rat option" where
  "extractBodyResetsAtMs errorPayload now =
     (let error = get errorPayload ''error'';
          capped = (\<lambda>d. now + min d (of_int MAX_RATE_LIMIT_COOLDOWN_MS))
      in if \<not> is_object error \<or> is_array error then None
         else case (case get error ''retryAfter'' of Str s \<Rightarrow> parseFutureRfc3339 s now | _ \<Rightarrow> None) of
           Some t \<Rightarrow> Some t
         | None \<Rightarrow> (case positive_delay (get error ''retry_after_ms'') of
             Some d \<Rightarrow> Some (capped d)
           | None \<Rightarrow> map_option capped (positive_delay (get error ''retryAfterMs''))))"

section \<open>Waits that may be announced\<close>

lemma header_of_error:
  "rid_header \<noteq> ''retry-after'' \<Longrightarrow> header_of (errorResponse rid_header st message options now) ''retry-after''
     = om_get (retry_header st (retryAfterSeconds (retry_at options) (retry_ms options) now)) ''retry-after''"
  by (simp add: header_of_def errorResponse_def)

lemma header_of_unavailable:
  "rid_header \<noteq> ''retry-after'' \<Longrightarrow> header_of (unavailableResponse rid_header st message ra human rid0 now) ''retry-after''
     = om_get (retry_header st (retryAfterSeconds (Str ra) Undef now)) ''retry-after''"
  by (simp add: header_of_def unavailableResponse_def)

lemma retryAfterSeconds_pos: "retryAfterSeconds a m now = Some n \<Longrightarrow> 1 \<le> n"
  by (auto simp: retryAfterSeconds_def)

lemma om_get_retry_header: "om_get (retry_header st secs) ''retry-after'' = (if isRetryableStatus st then map_option int_str secs else None)"
  by (simp add: retry_header_def split: option.split)

text \<open>a failure that waiting cannot repair never announces a wait, neither in its header nor in its
  text, and every other announced wait is at least one second.\<close>

theorem terminal_failures_announce_no_wait:
  assumes "rid_header \<noteq> ''retry-after''"
  shows "(case header_of (errorResponse rid_header st message options now) ''retry-after'' of None \<Rightarrow> True
       | Some v \<Rightarrow> isRetryableStatus st \<and> (\<exists>n \<ge> 1. v = int_str n))
    \<and> (case header_of (unavailableResponse rid_header st message ra human rid0 now) ''retry-after'' of None \<Rightarrow> True
       | Some v \<Rightarrow> isRetryableStatus st \<and> (\<exists>n \<ge> 1. v = int_str n))
    \<and> (isRetryableStatus st \<or> body (unavailableResponse rid_header st message ra human rid0 now)
         = Obj [(''error'', Obj [(''message'', scrubLongContextDepletion message)])])"
  unfolding header_of_error [OF assms] header_of_unavailable [OF assms] om_get_retry_header
  by (auto simp: unavailableResponse_def unavailable_message_def split: option.splits dest: retryAfterSeconds_pos)

theorem terminal_failures_announce_no_wait_witness:
  "header_of (unavailableResponse ''x-request-id'' 401 (Str ''bad key'') ''1970-01-01T00:05:00.000Z'' ''reset after 5m'' [] 0) ''retry-after'' = None"
  using terminal_failures_announce_no_wait [of "''x-request-id''" 401 "Str ''bad key''" no_options 0 "''1970-01-01T00:05:00.000Z''" "''reset after 5m''" "[]"]
  by (auto simp: isRetryableStatus_def NEVER_RETRY_STATUSES_def split: option.splits)

section \<open>A wait survives the way to the next reader\<close>

lemma digit_not_ws: "is_digit c \<Longrightarrow> \<not> is_ws c"
  by (auto simp: is_digit_def is_ws_def Let_def)

lemma dropWhile_none: "s \<noteq> [] \<Longrightarrow> \<not> P (hd s) \<Longrightarrow> dropWhile P s = s"
  by (cases s) auto

lemma trim_digits: "\<forall>c \<in> set s. is_digit c \<Longrightarrow> trim s = s"
proof (cases "s = []")
  case False
  assume d: "\<forall>c \<in> set s. is_digit c"
  have h: "dropWhile is_ws s = s" using False d by (intro dropWhile_none) (auto intro!: digit_not_ws)
  have "dropWhile is_ws (rev s) = rev s" using False d by (intro dropWhile_none) (auto simp: hd_rev intro!: digit_not_ws)
  with h show ?thesis by (simp add: trim_def)
qed (simp add: trim_def)

lemma nat_str_no_zero: "0 < k \<Longrightarrow> hd (nat_str k) \<noteq> CHR ''0''"
proof (induction k rule: nat_str.induct)
  case (1 n)
  show ?case
  proof (cases "n < 10")
    case True
    then have "of_char (digit_char n) \<noteq> (of_char CHR ''0'' :: nat)" using 1 by (simp add: of_char_digit_char)
    then show ?thesis using True by (subst nat_str.simps) auto
  next
    case False
    then show ?thesis using 1 by (subst nat_str.simps) simp
  qed
qed

lemma nat_str_hd_digit: "is_digit (hd (nat_str k))"
  using nat_str_digits [of k] by (simp add: list.set_sel)

lemma string_to_number_nat_str:
  assumes "0 < k"
  shows "string_to_number (nat_str k) = round_num (of_nat k)"
proof -
  let ?s = "nat_str k"
  have d: "\<forall>c \<in> set ?s. is_digit c" by (rule nat_str_digits)
  have h: "is_digit (hd ?s)" "hd ?s \<noteq> CHR ''0''" using nat_str_hd_digit nat_str_no_zero [OF assms] by auto
  then have ne: "?s \<noteq> ''Infinity''" "?s \<noteq> ''+Infinity''" "?s \<noteq> ''-Infinity''" "hd ?s \<notin> {CHR ''+'', CHR ''-''}"
    by (auto simp: is_digit_def Let_def)
  have tk: "takeWhile is_digit ?s = ?s" "dropWhile is_digit ?s = []" using d by (auto simp: takeWhile_eq_all_conv)
  have "unsigned_decimal ?s = Some (of_nat k)" by (simp add: unsigned_decimal_def tk pow10_def)
  then show ?thesis using ne h(2) by (simp add: string_to_number_def trim_digits [OF d] Let_def)
qed

lemma int_str_number:
  assumes "0 < n" and "of_int n < (1000000000000000000000 :: rat)"
  shows "string_to_number (int_str n) = Fin (of_int n)"
proof -
  have k: "0 < nat n" "rat_of_nat (nat n) = of_int n" using assms(1) by simp_all
  have "string_to_number (int_str n) = round_num (of_nat (nat n))"
    using assms(1) string_to_number_nat_str [OF k(1)] by (simp add: int_str_def)
  also have "\<dots> = Fin (of_int n)" unfolding round_num_small k(2) using assms by simp
  finally show ?thesis .
qed

lemma deadline_of_seconds:
  assumes "header_of r ''retry-after'' = Some (int_str n)" and "1 \<le> n" and "of_int n < (1000000000000000000000 :: rat)"
  shows "extractRetryAfterDeadline r now = Some (now + of_int n * 1000)"
proof -
  have "int_str n \<noteq> []" using assms(2) by (simp add: int_str_def)
  then show ?thesis using assms int_str_number [of n] by (simp add: extractRetryAfterDeadline_def)
qed

text \<open>a reset announced by one response and read back by an enclosing dispatcher is never early
  and at most a second late, not counting the time the response was under way: no one is sent back
  before the provider's reset.\<close>

theorem announced_reset_round_trip:
  assumes "rid_header \<noteq> ''retry-after''" and "isRetryableStatus st"
    and "retry_at options = Num (Fin t)" and "0 \<le> now" and "now < t" and "t \<le> of_int max_time" and "now \<le> later"
  shows "\<exists>d. extractRetryAfterDeadline (errorResponse rid_header st message options now) later = Some d
    \<and> t \<le> d \<and> d < t + 1000 + (later - now)"
proof -
  let ?n = "\<lceil>(t - now) / 1000\<rceil>"
  have n1: "1 \<le> ?n" using assms(5) by (simp add: le_ceiling_iff)
  have up: "(t - now) / 1000 \<le> of_int ?n" "of_int ?n < (t - now) / 1000 + 1" by linarith+
  have big: "of_int ?n < (1000000000000000000000 :: rat)" using up assms(4,6) by simp
  have "retryAfterSeconds (retry_at options) (retry_ms options) now = Some ?n"
    using n1 assms(3) by (simp add: retryAfterSeconds_def remaining_of_def)
  then have "header_of (errorResponse rid_header st message options now) ''retry-after'' = Some (int_str ?n)"
    using assms(1,2) by (simp add: header_of_error om_get_retry_header)
  note d = deadline_of_seconds [OF this n1 big, of later]
  define k :: rat where "k = of_int ?n"
  have k: "(t - now) / 1000 \<le> k" "k < (t - now) / 1000 + 1" using up unfolding k_def by blast+
  from k(2) have "k * 1000 < ((t - now) / 1000 + 1) * 1000" by (rule mult_strict_right_mono) simp
  also have "\<dots> = t - now + 1000" by (simp only: distrib_right) simp
  finally have "k * 1000 < t - now + 1000" .
  then have "t \<le> later + k * 1000 \<and> later + k * 1000 < t + 1000 + (later - now)" using k(1) assms(7) by simp
  then show ?thesis using d unfolding k_def by blast
qed

definition reset_soon :: error_options where
  "reset_soon = no_options \<lparr> retry_at := Num (Fin 9500) \<rparr>"

theorem announced_reset_round_trip_witness:
  "\<exists>d. extractRetryAfterDeadline (errorResponse ''x-request-id'' 429 (Str ''slow down'') reset_soon 1000) 1200 = Some d \<and> 9500 \<le> d \<and> d < 10700"
proof -
  have "isRetryableStatus 429" by (simp add: isRetryableStatus_def NEVER_RETRY_STATUSES_def)
  from announced_reset_round_trip [of "''x-request-id''" 429 reset_soon 9500 1000 1200 "Str ''slow down''", OF _ this] show ?thesis
    by (simp add: reset_soon_def)
qed

section \<open>A window is bounded\<close>

lemma parseFutureRfc3339_future: "parseFutureRfc3339 s now = Some t \<Longrightarrow> now < t"
  by (auto simp: parseFutureRfc3339_def Let_def split: option.splits if_splits)

lemma max_cooldown_pos: "0 < (of_int MAX_RATE_LIMIT_COOLDOWN_MS :: rat)"
  by (simp add: MAX_RATE_LIMIT_COOLDOWN_MS_def)

lemma rate_limit_window_bound:
  "rate_limit_window raw now = Some t \<Longrightarrow> now < t \<and> t \<le> now + of_int MAX_RATE_LIMIT_COOLDOWN_MS"
  using max_cooldown_pos
  by (auto simp: rate_limit_window_def parseRateLimitDurationMs_def MAX_BARE_WINDOW_SECONDS_def MAX_RATE_LIMIT_COOLDOWN_MS_def
      split: option.splits jsnum.splits if_splits dest: parseFutureRfc3339_future)

text \<open>a window read from rate-limit headers benches an account only into the future and never for
  longer than the cap of six hours, whatever the headers say.\<close>

theorem rate_limit_window_capped:
  assumes "extractRateLimitWindowMs r now = Some t"
  shows "now < t \<and> t \<le> now + of_int MAX_RATE_LIMIT_COOLDOWN_MS"
proof -
  have "now < t \<and> t \<le> now + of_int MAX_RATE_LIMIT_COOLDOWN_MS" if "first_window r names now = Some t" for names
    using that
    by (induction names) (auto simp: Let_def split: option.splits if_splits dest: rate_limit_window_bound)
  with assms show ?thesis by (simp add: extractRateLimitWindowMs_def)
qed

definition slow_response :: http_response where
  "slow_response = \<lparr> status = 429, headers = [(''x-ratelimit-reset'', ''12h'')], body = Null \<rparr>"

lemma slow_response_window: "extractRateLimitWindowMs slow_response 0 = Some 21600000"
  by code_simp

theorem rate_limit_window_capped_witness:
  "extractRateLimitWindowMs slow_response 0 = Some 21600000 \<and> (21600000 :: rat) \<le> of_int MAX_RATE_LIMIT_COOLDOWN_MS"
  using rate_limit_window_capped [OF slow_response_window] slow_response_window by simp

end
