(* ===== verification/ComboDispatch.thy ===== *)
theory ComboDispatch
  imports ComboRotation ComboOrder RetryAfter AccountState
begin

text \<open>
  Dispatching a combo with fallback: \<open>handleComboChat\<close> of open-sse/services/combo.js. The single-model
  handler, the peek into a stream, the deadline and the abort signal are the environment: what the
  n-th attempt meets is given by \<open>env n\<close>. The loop, the selection of the failure that is reported,
  the retries of a struggling member and the advance of the rotation are the code's. A body that is
  no JSON is the undefined value.
\<close>

section \<open>Failures\<close>

record combo_failure =
  f_status :: int
  f_message :: string
  f_retryAt :: "rat option"

definition selectComboFailure :: "combo_failure option \<Rightarrow> combo_failure \<Rightarrow> combo_failure" where
  "selectComboFailure previous candidate = (case previous of None \<Rightarrow> candidate
     | Some p \<Rightarrow>
         if f_status p \<noteq> 429 \<and> f_status candidate = 429 then candidate
         else if f_status p = f_status candidate \<and> f_retryAt candidate \<noteq> None
           \<and> (f_retryAt p = None \<or> the (f_retryAt candidate) < the (f_retryAt p)) then candidate
         else p)"

definition COMBO_RETRY_MAX_DELAY_MS :: rat where
  "COMBO_RETRY_MAX_DELAY_MS = 10000"

definition COMBO_RETRY_MAX_ATTEMPTS :: nat where
  "COMBO_RETRY_MAX_ATTEMPTS = 2"

definition COMBO_RETRY_STATUSES :: "int list" where
  "COMBO_RETRY_STATUSES = [502, 503, 504]"

section \<open>One attempt\<close>

text \<open>What may be thrown: an abort of the caller, the deadline, or anything else with its message.\<close>

datatype thrown = Aborted | DeadlineExceeded string | Failed string

record attempt_env =
  e_before :: "thrown option"
  e_result :: "thrown + http_response"
  e_statusText :: string
  e_aborted :: bool
  e_peek :: "thrown + bool \<times> (int \<times> string) option"
  e_now :: int
  e_wait :: "thrown option"

definition with_tracking :: "http_response \<Rightarrow> string \<Rightarrow> http_response" where
  "with_tracking r model = (let r1 = set_header ''x-tokenproxy-combo'' ''true'' r in
     if model \<noteq> [] then set_header ''x-tokenproxy-model'' model r1
     else r1\<lparr> headers := om_del (headers r1) ''x-tokenproxy-model'' \<rparr>)"

definition unsafe :: "http_response \<Rightarrow> http_response" where
  "unsafe r = set_header ''x-should-retry'' ''false'' (set_header ''x-tokenproxy-replay-safe'' ''false'' r)"

definition thrown_response :: "string \<Rightarrow> thrown \<Rightarrow> int \<Rightarrow> http_response" where
  "thrown_response rid_header t now = with_tracking (unsafe (case t of
     Aborted \<Rightarrow> errorResponse rid_header 499 (Str ''Request aborted'') no_options (of_int now)
   | DeadlineExceeded m \<Rightarrow> errorResponse rid_header 504 (Str m) (no_options\<lparr> failure_phase := ''routing'' \<rparr>) (of_int now)
   | Failed m \<Rightarrow> errorResponse rid_header 502
       (Str (if m = [] then ''Provider attempt failed with an uncertain outcome'' else m)) no_options (of_int now))) []"

definition empty_answer :: "string \<Rightarrow> (int \<times> string) option \<Rightarrow> string \<Rightarrow> int \<Rightarrow> http_response" where
  "empty_answer rid_header upstreamError model now =
     (let st = (case upstreamError of Some (s, _) \<Rightarrow> if s = 0 then 502 else s | None \<Rightarrow> 502);
          msg = (case upstreamError of Some (_, c # cs) \<Rightarrow> c # cs | _ \<Rightarrow> ''Provider accepted the request but returned no usable content'')
      in with_tracking (unsafe (errorResponse rid_header st (Str msg) no_options (of_int now))) model)"

definition error_text :: "http_response \<Rightarrow> string \<Rightarrow> string" where
  "error_text r statusText = (let b = body r;
     v = js_or (get (get b ''error'') ''message'') (js_or (get b ''error'') (js_or (get b ''message'') (Str statusText)))
   in text_of v)"

definition retry_time :: "http_response \<Rightarrow> int \<Rightarrow> rat option" where
  "retry_time r now = (case extractRetryAfterDeadline r (of_int now) of
     Some t \<Rightarrow> Some t
   | None \<Rightarrow> (case js_date_parse (jstr (coalesce (get (body r) ''retryAfter'') (get (get (body r) ''error'') ''retryAfter''))) of
       Some t \<Rightarrow> if now < t then Some (of_int t) else None
     | None \<Rightarrow> None))"

definition MODEL_LIMITATIONS :: "string list" where
  "MODEL_LIMITATIONS = [''max_tokens'', ''context_length'', ''context length'', ''prompt is too long'', ''too many tokens'',
     ''exceeds the limit'', ''not supported'', ''model_not_found'', ''model not found'']"

definition isContextOrModelLimitation :: "string \<Rightarrow> bool" where
  "isContextOrModelLimitation text \<longleftrightarrow> list_ex (str_includes (to_lower text)) MODEL_LIMITATIONS"

text \<open>The delay a provider stated; the placeholder of an unclassified failure is none.\<close>

definition retry_delay :: "rat option \<Rightarrow> int \<Rightarrow> int \<Rightarrow> rat option" where
  "retry_delay retryAt cooldown now = (case retryAt of
     None \<Rightarrow> if cooldown = TRANSIENT_COOLDOWN_MS then None else Some (of_int cooldown)
   | Some t \<Rightarrow> Some (max 0 (t - of_int now)))"

definition may_retry :: "int \<Rightarrow> nat \<Rightarrow> rat option \<Rightarrow> bool" where
  "may_retry st attempts delay \<longleftrightarrow> st \<in> set COMBO_RETRY_STATUSES \<and> attempts < COMBO_RETRY_MAX_ATTEMPTS
     \<and> (case delay of None \<Rightarrow> False | Some d \<Rightarrow> 0 < d \<and> d \<le> COMBO_RETRY_MAX_DELAY_MS)"

text \<open>What one turn of the loop decides: an answer for the caller, with whether the member served it,
  or a rejection that may move on, after which the same member may be due again.\<close>

datatype verdict = Answer http_response bool | Rejected combo_failure bool

definition replay_safe :: "http_response \<Rightarrow> string option" where
  "replay_safe r = header_of r ''x-tokenproxy-replay-safe''"

definition combo_attempt :: "string \<Rightarrow> backoff_config \<Rightarrow> attempt_env \<Rightarrow> string \<Rightarrow> nat \<Rightarrow> verdict" where
  "combo_attempt rid_header cfg e model attempts =
     (case e_before e of Some t \<Rightarrow> Answer (thrown_response rid_header t (e_now e)) False
      | None \<Rightarrow> (case e_result e of Inl t \<Rightarrow> Answer (thrown_response rid_header t (e_now e)) False
      | Inr r \<Rightarrow>
        if e_aborted e then Answer (thrown_response rid_header Aborted (e_now e)) False
        else if replay_safe r = Some ''false'' then
          (let t = with_tracking r model in
           Answer (if header_of t ''x-should-retry'' = None then set_header ''x-should-retry'' ''false'' t else t) False)
        else if response_ok r then
          (case e_peek e of Inl t \<Rightarrow> Answer (thrown_response rid_header t (e_now e)) False
           | Inr (hasContent, upstreamError) \<Rightarrow>
               if hasContent then Answer (with_tracking r model) True
               else Answer (empty_answer rid_header upstreamError model (e_now e)) False)
        else if status r = 499 then Answer r False
        else if replay_safe r \<noteq> Some ''true'' then Answer (set_header ''x-should-retry'' ''false'' (with_tracking r model)) False
        else (let text = error_text r (e_statusText e); at0 = retry_time r (e_now e);
                  d = checkFallbackError cfg (JInt (status r)) (Str text) 0
          in if \<not> shouldFallback d \<and> \<not> isContextOrModelLimitation text then Answer (with_tracking r model) False
             else let failure = \<lparr> f_status = status r, f_message = (if text = [] then int_str (status r) else text), f_retryAt = at0 \<rparr>
               in if may_retry (status r) attempts (retry_delay at0 (cooldownMs d) (e_now e))
                  then (case e_wait e of Some t \<Rightarrow> Answer (thrown_response rid_header t (e_now e)) False
                    | None \<Rightarrow> Rejected failure True)
                  else Rejected failure False)))"

lemma retry_bounded: "combo_attempt rh cfg e model attempts = Rejected f True \<Longrightarrow> attempts < COMBO_RETRY_MAX_ATTEMPTS"
  by (auto simp: combo_attempt_def may_retry_def Let_def split: option.splits sum.splits prod.splits if_splits)

section \<open>The loop\<close>

record dispatch_state =
  d_failure :: "combo_failure option"
  d_safe :: nat
  d_tried :: "nat list"

text \<open>How the loop ends: with an answer given at a place of the list, or with every member rejected.
  \<open>d_tried\<close> lists the places in the order they were tried; the n-th try meets \<open>env n\<close>. \<open>attempts\<close> is
  the number of retries of the member at hand.\<close>

datatype loop_end = Answered http_response bool nat | Exhausted

function combo_loop :: "string \<Rightarrow> backoff_config \<Rightarrow> (nat \<Rightarrow> attempt_env) \<Rightarrow> entry list \<Rightarrow> nat \<Rightarrow> nat \<Rightarrow> dispatch_state
    \<Rightarrow> dispatch_state \<times> loop_end" where
  "combo_loop rh cfg env es i attempts st =
     (if length es \<le> i then (st, Exhausted)
      else let st1 = st\<lparr> d_tried := d_tried st @ [i] \<rparr> in
        case combo_attempt rh cfg (env (length (d_tried st))) (modelStr (es ! i)) attempts of
          Answer r served \<Rightarrow> (st1, Answered r served i)
        | Rejected f again \<Rightarrow>
            let st2 = st1\<lparr> d_safe := d_safe st1 + 1, d_failure := Some (selectComboFailure (d_failure st1) f) \<rparr> in
            if again then combo_loop rh cfg env es i (attempts + 1) st2
            else combo_loop rh cfg env es (i + 1) 0 st2)"
  by pat_completeness auto

termination
  by (relation "measures [\<lambda>(rh, cfg, env, es, i, attempts, st). length es - i,
      \<lambda>(rh, cfg, env, es, i, attempts, st). COMBO_RETRY_MAX_ATTEMPTS - attempts]")
    (auto dest: retry_bounded)

declare combo_loop.simps [simp del]

text \<open>The answer when every member was rejected; \<open>None\<close> is the RangeError of printing a reset that is
  no date.\<close>

definition exhausted_response :: "string \<Rightarrow> combo_failure option \<Rightarrow> nat \<Rightarrow> int \<Rightarrow> http_response option" where
  "exhausted_response rid_header failure safe now =
     (let allDisabled = (case failure of None \<Rightarrow> False | Some f \<Rightarrow> str_includes (to_lower (f_message f)) ''no credentials'');
          st = (if allDisabled then 503 else case failure of None \<Rightarrow> 503 | Some f \<Rightarrow> if f_status f = 0 then 503 else f_status f);
          msg = (case failure of Some f \<Rightarrow> if f_message f = [] then ''All combo models unavailable'' else f_message f
            | None \<Rightarrow> ''All combo models unavailable'');
          base = (case failure of
              Some f \<Rightarrow> (case f_retryAt f of
                  Some t \<Rightarrow> map_option (\<lambda>ms. unavailableResponse rid_header st (Str msg) (to_iso ms)
                      (formatRetryAfter now (Str (to_iso ms))) [] (of_int now)) (num_to_time (Fin t))
                | None \<Rightarrow> Some (errorResponse rid_header st (Str msg) no_options (of_int now)))
            | None \<Rightarrow> Some (errorResponse rid_header st (Str msg) no_options (of_int now)))
      in map_option (\<lambda>r. with_tracking (set_header ''x-tokenproxy-replay-safe'' (if 0 < safe then ''true'' else ''false'') r) []) base)"

record combo_request =
  c_models :: "string list"
  c_name :: string
  c_strategy :: string
  c_sticky :: jv
  c_autoSwitch :: bool
  c_body :: jv

definition entries_of :: "string list \<Rightarrow> entry list" where
  "entries_of models = map (\<lambda>(m, i). \<lparr> modelStr = m, originalIndex = i \<rparr>) (zip models [0..<length models])"

definition initial_dispatch :: dispatch_state where
  "initial_dispatch = \<lparr> d_failure = None, d_safe = 0, d_tried = [] \<rparr>"

text \<open>The rotation after the request, the state of the loop, and the response; no response is a
  thrown error.\<close>

definition handleComboChat :: "string \<Rightarrow> backoff_config \<Rightarrow> (string \<Rightarrow> string \<Rightarrow> jv) \<Rightarrow> (nat \<Rightarrow> attempt_env) \<Rightarrow> int
    \<Rightarrow> combo_request \<Rightarrow> rotation_state \<Rightarrow> rotation_state \<times> dispatch_state \<times> http_response option" where
  "handleComboChat rh cfg caps env now q rot =
     (let (rot1, rotated) = getRotatedModels (entries_of (c_models q)) (c_name q) (c_strategy q) (c_sticky q) rot in
      case orderComboEntries caps rotated (estimateRequestContextTokens (c_body q)) (detectRequiredCapabilities (c_body q)) (c_autoSwitch q) of
        None \<Rightarrow> (rot1, initial_dispatch, None)
      | Some es \<Rightarrow>
          (case combo_loop rh cfg env es 0 0 initial_dispatch of
             (st, Answered r served i) \<Rightarrow>
               (if served \<and> 0 < i
                then advanceRotationAfterSuccessfulFallback (c_models q) (c_name q) (c_strategy q) (originalIndex (es ! i)) rot1
                else rot1, st, Some r)
           | (st, Exhausted) \<Rightarrow> (rot1, st, exhausted_response rh (d_failure st) (d_safe st) now)))"

end
