(* ===== verification/ComboGuarantees.thy ===== *)
theory ComboGuarantees
  imports ComboDispatch
begin

text \<open>
  What the dispatch of a combo guarantees: no second generation after an outcome that may be billed,
  a bounded number of tries in the order of the list, the failure that is reported, and the cursor a
  served answer leaves behind.
\<close>

section \<open>Rejections\<close>

text \<open>The only outcome after which another member may be asked: an error response that the handler
  marked as known not to have been executed.\<close>

definition safe_rejection :: "attempt_env \<Rightarrow> bool" where
  "safe_rejection e \<longleftrightarrow> e_before e = None \<and> \<not> e_aborted e \<and> (case e_result e of Inl _ \<Rightarrow> False
     | Inr r \<Rightarrow> replay_safe r = Some ''true'' \<and> \<not> response_ok r \<and> status r \<noteq> 499)"

definition rejection :: "attempt_env \<Rightarrow> combo_failure" where
  "rejection e = (case e_result e of
     Inl _ \<Rightarrow> \<lparr> f_status = 0, f_message = [], f_retryAt = None \<rparr>
   | Inr r \<Rightarrow> \<lparr> f_status = status r,
       f_message = (let text = error_text r (e_statusText e) in if text = [] then int_str (status r) else text),
       f_retryAt = retry_time r (e_now e) \<rparr>)"

lemma attempt_rejected:
  assumes "combo_attempt rh cfg e model attempts = Rejected f again"
  shows "safe_rejection e" and "f = rejection e"
    and "again \<Longrightarrow> attempts < COMBO_RETRY_MAX_ATTEMPTS \<and> f_status f \<in> set COMBO_RETRY_STATUSES \<and> e_wait e = None"
  using assms
  by (auto simp: combo_attempt_def safe_rejection_def rejection_def may_retry_def Let_def
      split: option.splits sum.splits prod.splits if_splits)

text \<open>A served answer is the member's own response with the tracking headers.\<close>

lemma attempt_served:
  assumes "combo_attempt rh cfg e model attempts = Answer r True"
  shows "\<exists>r0. e_result e = Inr r0 \<and> response_ok r0 \<and> r = with_tracking r0 model"
  using assms
  by (auto simp: combo_attempt_def Let_def split: option.splits sum.splits prod.splits if_splits)

section \<open>What the loop keeps\<close>

text \<open>Every member before place i was tried one to three times in order, i itself as often as it was
  retried; all tries so far were safe rejections, and a place tried again had answered 502, 503 or
  504.\<close>

definition retried :: "(nat \<Rightarrow> attempt_env) \<Rightarrow> nat list \<Rightarrow> bool" where
  "retried env ps \<longleftrightarrow> (\<forall>m. Suc m < length ps \<longrightarrow> ps ! m = ps ! Suc m \<longrightarrow> f_status (rejection (env m)) \<in> set COMBO_RETRY_STATUSES)"

definition tried_ok :: "(nat \<Rightarrow> attempt_env) \<Rightarrow> nat \<Rightarrow> nat \<Rightarrow> dispatch_state \<Rightarrow> bool" where
  "tried_ok env i attempts st \<longleftrightarrow>
     sorted (d_tried st) \<and> set (d_tried st) = {..<i} \<union> (if attempts = 0 then {} else {i})
   \<and> (\<forall>j<i. count_list (d_tried st) j \<le> 3) \<and> count_list (d_tried st) i = attempts
   \<and> retried env (d_tried st)
   \<and> (attempts \<noteq> 0 \<longrightarrow> f_status (rejection (env (length (d_tried st) - 1))) \<in> set COMBO_RETRY_STATUSES)
   \<and> (\<forall>n<length (d_tried st). safe_rejection (env n))
   \<and> d_safe st = length (d_tried st)
   \<and> d_failure st = foldl (\<lambda>p f. Some (selectComboFailure p f)) None (map (\<lambda>n. rejection (env n)) [0..<length (d_tried st)])"

text \<open>The state in which the loop asks: the tries so far and the one that is under way.\<close>

definition asked_ok :: "(nat \<Rightarrow> attempt_env) \<Rightarrow> nat \<Rightarrow> nat list \<Rightarrow> bool" where
  "asked_ok env i ps \<longleftrightarrow> ps \<noteq> [] \<and> last ps = i \<and> sorted ps \<and> set ps = {..i}
   \<and> (\<forall>j. count_list ps j \<le> 3) \<and> retried env ps \<and> (\<forall>n<length ps - 1. safe_rejection (env n))"

lemma count_list_absent: "j \<notin> set xs \<Longrightarrow> count_list xs j = 0"
  by (induction xs) auto

lemma retried_snoc:
  assumes "retried env ps"
    and "ps \<noteq> [] \<Longrightarrow> last ps = i \<Longrightarrow> f_status (rejection (env (length ps - 1))) \<in> set COMBO_RETRY_STATUSES"
  shows "retried env (ps @ [i])"
proof -
  have "f_status (rejection (env m)) \<in> set COMBO_RETRY_STATUSES"
    if m: "Suc m < length (ps @ [i])" and eq: "(ps @ [i]) ! m = (ps @ [i]) ! Suc m" for m
  proof (cases "Suc m = length ps")
    case True
    then have "ps \<noteq> []" "m = length ps - 1" by auto
    then have "last ps = i" using True eq by (simp add: nth_append last_conv_nth)
    note \<open>ps \<noteq> []\<close> this \<open>m = length ps - 1\<close>
    then show ?thesis using assms(2) by simp
  next
    case False
    then show ?thesis using m eq assms(1) by (auto simp: retried_def nth_append)
  qed
  then show ?thesis by (simp add: retried_def)
qed

lemma asked:
  assumes "tried_ok env i attempts st" and "attempts \<le> COMBO_RETRY_MAX_ATTEMPTS"
  shows "asked_ok env i (d_tried st @ [i])"
proof -
  let ?ps = "d_tried st"
  have s: "set ?ps = {..<i} \<union> (if attempts = 0 then {} else {i})" and so: "sorted ?ps"
    using assms(1) by (simp_all add: tried_ok_def)
  have l: "attempts \<noteq> 0" if "?ps \<noteq> []" "last ?ps = i"
  proof
    assume "attempts = 0"
    then have "i \<notin> set ?ps" using s by simp
    then show False using that last_in_set by metis
  qed
  have "retried env (?ps @ [i])"
    by (rule retried_snoc) (use assms(1) l in \<open>auto simp: tried_ok_def\<close>)
  moreover have "count_list (?ps @ [i]) j \<le> 3" for j
  proof (cases j i rule: linorder_cases)
    case less
    then show ?thesis using assms(1) by (simp add: tried_ok_def)
  next
    case equal
    then show ?thesis using assms by (simp add: tried_ok_def COMBO_RETRY_MAX_ATTEMPTS_def)
  next
    case greater
    then have "j \<notin> set ?ps" using s by (auto split: if_splits)
    then show ?thesis using greater by (simp add: count_list_absent)
  qed
  moreover have "sorted (?ps @ [i])"
  proof -
    have "x \<le> i" if "x \<in> set ?ps" for x using that unfolding s by (auto split: if_splits)
    then show ?thesis using so by (simp add: sorted_append)
  qed
  moreover have "set (?ps @ [i]) = {..i}" unfolding set_append s by (cases "attempts = 0") auto
  moreover have "\<forall>n<length (?ps @ [i]) - 1. safe_rejection (env n)" using assms(1) by (simp add: tried_ok_def)
  moreover have "?ps @ [i] \<noteq> []" "last (?ps @ [i]) = i" by simp_all
  ultimately show ?thesis unfolding asked_ok_def by blast
qed

lemma after_rejection:
  assumes ok: "tried_ok env i attempts st" and le: "attempts \<le> COMBO_RETRY_MAX_ATTEMPTS"
    and r: "combo_attempt rh cfg (env (length (d_tried st))) model attempts = Rejected f again"
    and st2: "st2 = st\<lparr> d_tried := d_tried st @ [i], d_safe := d_safe st + 1, d_failure := Some (selectComboFailure (d_failure st) f) \<rparr>"
  shows "again \<Longrightarrow> tried_ok env i (attempts + 1) st2" and "\<not> again \<Longrightarrow> tried_ok env (i + 1) 0 st2"
proof -
  let ?ps = "d_tried st @ [i]"
  have a: "asked_ok env i ?ps" by (rule asked [OF ok le])
  have safe: "safe_rejection (env n)" if n: "n < length ?ps" for n
    using attempt_rejected(1) [OF r] ok n by (cases "n = length (d_tried st)") (auto simp: tried_ok_def)
  have fail: "Some (selectComboFailure (d_failure st) f)
      = foldl (\<lambda>p f. Some (selectComboFailure p f)) None (map (\<lambda>n. rejection (env n)) [0..<length ?ps])"
    using ok attempt_rejected(2) [OF r] by (simp add: tried_ok_def)
  have s: "set (d_tried st) = {..<i} \<union> (if attempts = 0 then {} else {i})" using ok by (simp add: tried_ok_def)
  show "tried_ok env i (attempts + 1) st2" if ag: again
  proof -
    have "count_list ?ps i = attempts + 1" using ok by (simp add: tried_ok_def)
    moreover have "d_safe st = length (d_tried st)" "\<forall>j<i. count_list (d_tried st) j \<le> 3" using ok by (simp_all add: tried_ok_def)
    moreover have "f_status (rejection (env (length (d_tried st)))) \<in> set COMBO_RETRY_STATUSES"
      using attempt_rejected(2,3) [OF r] ag by simp
    ultimately show ?thesis using a safe fail unfolding tried_ok_def asked_ok_def st2 by (auto simp del: upt_Suc)
  qed
  have "i + 1 \<notin> set ?ps" using s by (auto split: if_splits)
  then have c: "count_list ?ps (i + 1) = 0" by (rule count_list_absent)
  show "tried_ok env (i + 1) 0 st2" if ag: "\<not> again"
  proof -
    have "d_safe st = length (d_tried st)" using ok by (simp add: tried_ok_def)
    moreover have "{..i} = {..<i + 1}" by auto
    ultimately show ?thesis using a safe fail c unfolding tried_ok_def asked_ok_def st2 by (auto simp del: upt_Suc)
  qed
qed

lemma loop_guarantees:
  assumes "tried_ok env i attempts st" and "attempts \<le> COMBO_RETRY_MAX_ATTEMPTS" and "i \<le> length es"
    and "attempts \<noteq> 0 \<Longrightarrow> i < length es"
    and "combo_loop rh cfg env es i attempts st = (st', e)"
  shows "case e of
      Answered r served k \<Rightarrow> k < length es \<and> asked_ok env k (d_tried st')
        \<and> (\<exists>a. combo_attempt rh cfg (env (length (d_tried st') - 1)) (modelStr (es ! k)) a = Answer r served)
    | Exhausted \<Rightarrow> tried_ok env (length es) 0 st'"
  using assms
proof (induction rh cfg env es i attempts st arbitrary: st' e rule: combo_loop.induct)
  case (1 rh cfg env es i attempts st)
  show ?case
  proof (cases "length es \<le> i")
    case True
    then have "i = length es" "attempts = 0" using "1.prems" by auto
    then show ?thesis using "1.prems" True by (auto simp: combo_loop.simps)
  next
    case False
    let ?v = "combo_attempt rh cfg (env (length (d_tried st))) (modelStr (es ! i)) attempts"
    show ?thesis
    proof (cases ?v)
      case (Answer r served)
      then have "e = Answered r served i" "st' = st\<lparr> d_tried := d_tried st @ [i] \<rparr>"
        using "1.prems"(5) False by (simp_all add: Let_def combo_loop.simps [of rh cfg env es i attempts])
      then show ?thesis using Answer False asked [OF "1.prems"(1,2)] by auto
    next
      case (Rejected f again)
      let ?st2 = "st\<lparr> d_tried := d_tried st @ [i], d_safe := d_safe st + 1, d_failure := Some (selectComboFailure (d_failure st) f) \<rparr>"
      note next_state = after_rejection [OF "1.prems"(1,2) Rejected refl]
      show ?thesis
      proof (cases again)
        case True
        have "combo_loop rh cfg env es i (attempts + 1) ?st2 = (st', e)"
          using "1.prems"(5) False Rejected True by (subst (asm) combo_loop.simps) (simp add: Let_def)
        with "1.IH"(1) [OF False refl Rejected refl True] next_state(1) [OF True]
          attempt_rejected(3) [OF Rejected True] False
        show ?thesis by simp
      next
        case nag: False
        have "combo_loop rh cfg env es (i + 1) 0 ?st2 = (st', e)"
          using "1.prems"(5) False Rejected nag by (subst (asm) combo_loop.simps) (simp add: Let_def)
        with "1.IH"(2) [OF False refl Rejected refl nag] next_state(2) [OF nag] False
        show ?thesis by simp
      qed
    qed
  qed
qed

lemma tried_ok_initial: "tried_ok env 0 0 initial_dispatch"
  by (simp add: tried_ok_def initial_dispatch_def retried_def)

lemmas dispatch_guarantees = loop_guarantees [OF tried_ok_initial, simplified]

section \<open>The whole request\<close>

lemma orderComboEntries_mset:
  "orderComboEntries caps es n required sw = Some es' \<Longrightarrow> mset es' = mset es"
  by (cases sw) (auto simp: orderComboEntries_eq by_capability_def by_fit_def orderComboEntries_def [of _ _ _ _ False])

lemma orderComboEntries_some: "\<exists>es'. orderComboEntries caps es n required sw = Some es'"
  by (cases sw) (simp_all add: orderComboEntries_eq orderComboEntries_def [of _ _ _ _ False])

lemma mset_rotate_any: "mset (rotate n xs) = mset xs"
proof -
  have "mset (rotate1 ys) = mset ys" for ys :: "'a list" by (cases ys) simp_all
  then show ?thesis by (induction n) (simp_all add: rotate_def)
qed

lemma rotated_mset: "mset (snd (getRotatedModels models name strategy sticky st)) = mset models"
  by (simp add: getRotatedModels_def Let_def rotateModelsFromIndex_rotate mset_rotate_any split: prod.split)

definition members_of :: "(string \<Rightarrow> string \<Rightarrow> jv) \<Rightarrow> combo_request \<Rightarrow> rotation_state \<Rightarrow> entry list" where
  "members_of caps q rot = the (orderComboEntries caps
     (snd (getRotatedModels (entries_of (c_models q)) (c_name q) (c_strategy q) (c_sticky q) rot))
     (estimateRequestContextTokens (c_body q)) (detectRequiredCapabilities (c_body q)) (c_autoSwitch q))"

lemma members_of_mset: "mset (members_of caps q rot) = mset (entries_of (c_models q))"
proof -
  let ?r = "snd (getRotatedModels (entries_of (c_models q)) (c_name q) (c_strategy q) (c_sticky q) rot)"
  obtain es where es: "orderComboEntries caps ?r (estimateRequestContextTokens (c_body q)) (detectRequiredCapabilities (c_body q))
      (c_autoSwitch q) = Some es"
    using orderComboEntries_some by blast
  then have "mset es = mset ?r" by (rule orderComboEntries_mset)
  then show ?thesis by (simp add: members_of_def es rotated_mset)
qed

lemma length_members_of: "length (members_of caps q rot) = length (c_models q)"
  using members_of_mset [THEN mset_eq_length] by (simp add: entries_of_def)

lemma member_original:
  assumes "e \<in> set (members_of caps q rot)"
  shows "originalIndex e < length (c_models q) \<and> modelStr e = c_models q ! originalIndex e"
proof -
  have "e \<in> set (entries_of (c_models q))"
    using assms members_of_mset [of caps q rot] by (metis set_mset_mset)
  then show ?thesis by (auto simp: entries_of_def set_zip)
qed

lemma handleComboChat_cases:
  "handleComboChat rh cfg caps env now q rot =
     (let rot1 = fst (getRotatedModels (entries_of (c_models q)) (c_name q) (c_strategy q) (c_sticky q) rot);
          es = members_of caps q rot in
      case combo_loop rh cfg env es 0 0 initial_dispatch of
        (st, Answered r served i) \<Rightarrow>
          (if served \<and> 0 < i
           then advanceRotationAfterSuccessfulFallback (c_models q) (c_name q) (c_strategy q) (originalIndex (es ! i)) rot1
           else rot1, st, Some r)
      | (st, Exhausted) \<Rightarrow> (rot1, st, exhausted_response rh (d_failure st) (d_safe st) now))"
proof -
  obtain es where es: "orderComboEntries caps (snd (getRotatedModels (entries_of (c_models q)) (c_name q) (c_strategy q) (c_sticky q) rot))
      (estimateRequestContextTokens (c_body q)) (detectRequiredCapabilities (c_body q)) (c_autoSwitch q) = Some es"
    using orderComboEntries_some by blast
  then show ?thesis by (simp add: handleComboChat_def members_of_def case_prod_unfold Let_def)
qed

lemma tries_bounded:
  assumes "set ps = {..<k}" and "\<forall>j. count_list ps j \<le> 3"
  shows "length ps \<le> 3 * k"
proof -
  have "length ps = (\<Sum>j<k. count_list ps j)"
    using sum_count_set [of ps "{..<k}"] assms(1) by simp
  also have "\<dots> \<le> (\<Sum>j<k. 3)" by (rule sum_mono) (use assms(2) in blast)
  finally show ?thesis by simp
qed

definition tries_in_order :: "(nat \<Rightarrow> attempt_env) \<Rightarrow> nat \<Rightarrow> nat list \<Rightarrow> bool" where
  "tries_in_order env n ps \<longleftrightarrow> sorted ps \<and> (\<exists>k\<le>n. set ps = {..<k}) \<and> (\<forall>j. count_list ps j \<le> 3) \<and> retried env ps"

lemma handle_tries:
  assumes "handleComboChat rh cfg caps env now q rot = (rot', st, resp)"
  shows "tries_in_order env (length (c_models q)) (d_tried st)"
    and "Suc n < length (d_tried st) \<Longrightarrow> safe_rejection (env n)"
proof -
  let ?es = "members_of caps q rot"
  obtain st0 e where l: "combo_loop rh cfg env ?es 0 0 initial_dispatch = (st0, e)" by fastforce
  then have st: "st0 = st" using assms by (auto simp: handleComboChat_cases Let_def split: loop_end.splits)
  note g = dispatch_guarantees [OF l, unfolded st length_members_of]
  have "tries_in_order env (length (c_models q)) (d_tried st) \<and> (Suc n < length (d_tried st) \<longrightarrow> safe_rejection (env n))"
  proof (cases e)
    case (Answered r served k)
    then have "asked_ok env k (d_tried st)" "k < length (c_models q)" using g by auto
    moreover have "{..k} = {..<Suc k}" by auto
    ultimately show ?thesis by (auto simp: asked_ok_def tries_in_order_def intro: exI [of _ "Suc k"])
  next
    case Exhausted
    then have t: "tried_ok env (length (c_models q)) 0 (st)" using g by simp
    have "count_list (d_tried st) j \<le> 3" for j
    proof (cases "j < length (c_models q)")
      case False
      then have "j \<notin> set (d_tried st)" using t by (simp add: tried_ok_def)
      then show ?thesis by (simp add: count_list_absent)
    qed (use t in \<open>simp add: tried_ok_def\<close>)
    then show ?thesis using t by (auto simp: tried_ok_def tries_in_order_def)
  qed
  then show "tries_in_order env (length (c_models q)) (d_tried st)"
    and "Suc n < length (d_tried st) \<Longrightarrow> safe_rejection (env n)" by auto
qed

section \<open>A sample\<close>

text \<open>A member that answers 503 three times with a wait of two seconds, and one that serves.\<close>

definition busy_attempt :: attempt_env where
  "busy_attempt = \<lparr> e_before = None,
     e_result = Inr \<lparr> status = 503, headers = [(''x-tokenproxy-replay-safe'', ''true''), (''retry-after'', ''2'')],
       body = Obj [(''error'', Obj [(''message'', Str ''busy'')])] \<rparr>,
     e_statusText = [], e_aborted = False, e_peek = Inr (False, None), e_now = 1000, e_wait = None \<rparr>"

definition serving_attempt :: attempt_env where
  "serving_attempt = busy_attempt\<lparr> e_result := Inr \<lparr> status = 200, headers = [], body = Undef \<rparr>, e_peek := Inr (True, None) \<rparr>"

definition busy_then_served :: "nat \<Rightarrow> attempt_env" where
  "busy_then_served n = (if n < 3 then busy_attempt else serving_attempt)"

definition three_members :: combo_request where
  "three_members = \<lparr> c_models = [''p/a'', ''p/b'', ''p/c''], c_name = ''fast'', c_strategy = ''round-robin'', c_sticky = Undef,
     c_autoSwitch = True, c_body = Obj [] \<rparr>"

definition busy_state :: dispatch_state where
  "busy_state = \<lparr> d_failure = Some \<lparr> f_status = 503, f_message = ''busy'', f_retryAt = Some 3000 \<rparr>, d_safe = 3, d_tried = [0, 0, 0, 1] \<rparr>"

definition served_by_b :: http_response where
  "served_by_b = \<lparr> status = 200, headers = [(''x-tokenproxy-combo'', ''true''), (''x-tokenproxy-model'', ''p/b'')], body = Undef \<rparr>"

definition no_caps :: "string \<Rightarrow> string \<Rightarrow> jv" where
  "no_caps provider model = Undef"

lemma sample_members: "members_of no_caps three_members [] = entries_of [''p/a'', ''p/b'', ''p/c'']"
  by code_simp

lemma sample_loop:
  "combo_loop ''x-request-id'' DEFAULT_BACKOFF_CONFIG busy_then_served (entries_of [''p/a'', ''p/b'', ''p/c'']) 0 0 initial_dispatch
     = (busy_state, Answered served_by_b True 1)"
  by code_simp

lemma sample_dispatch:
  "\<exists>rot. handleComboChat ''x-request-id'' DEFAULT_BACKOFF_CONFIG no_caps busy_then_served 2000 three_members [] = (rot, busy_state, Some served_by_b)"
  by (simp add: handleComboChat_cases sample_members sample_loop)

text \<open>A member out of quota that states a wait of nine trillion seconds.\<close>

definition far_attempt :: attempt_env where
  "far_attempt = busy_attempt\<lparr> e_result := Inr \<lparr> status = 429,
     headers = [(''x-tokenproxy-replay-safe'', ''true''), (''retry-after'', ''9e12'')], body = Undef \<rparr>, e_statusText := ''busy'' \<rparr>"

definition quota_then_busy :: "nat \<Rightarrow> attempt_env" where
  "quota_then_busy n = (if n = 0 then far_attempt else busy_attempt\<lparr> e_now := 20000 \<rparr>)"

section \<open>One generation\<close>

text \<open>C9: a combo never bills a request twice. Another attempt is made only after an outcome that is
  known not to have been executed: nothing was thrown, the caller had not gone, and the handler
  answered an error marked replay-safe. Whatever else an attempt meets - an accepted request, an
  unknown outcome, a broken connection, an empty stream - it is the last one.\<close>

theorem combo_never_bills_twice:
  assumes "handleComboChat rh cfg caps env now q rot = (rot', st, resp)" and "Suc n < length (d_tried st)"
  shows "safe_rejection (env n)"
  using assms by (rule handle_tries(2))

theorem combo_never_bills_twice_witness:
  "safe_rejection (busy_then_served 2) \<and> \<not> safe_rejection (busy_then_served 3)"
proof -
  obtain rot where d: "handleComboChat ''x-request-id'' DEFAULT_BACKOFF_CONFIG no_caps busy_then_served 2000 three_members []
      = (rot, busy_state, Some served_by_b)"
    using sample_dispatch by blast
  have "safe_rejection (busy_then_served 2)"
    by (rule combo_never_bills_twice [OF d]) (simp add: busy_state_def)
  moreover have "\<not> safe_rejection (busy_then_served 3)" by code_simp
  ultimately show ?thesis ..
qed

text \<open>C28: a combo ends after a bounded number of attempts, in the order of the list: every member is
  tried at least once before the next one, at most three times, and again only after it answered 502,
  503 or 504.\<close>

theorem combo_tries_bounded:
  assumes "handleComboChat rh cfg caps env now q rot = (rot', st, resp)"
  shows "length (d_tried st) \<le> 3 * length (c_models q) \<and> tries_in_order env (length (c_models q)) (d_tried st)"
proof -
  have t: "tries_in_order env (length (c_models q)) (d_tried st)" by (rule handle_tries(1) [OF assms])
  then obtain k where "k \<le> length (c_models q)" "set (d_tried st) = {..<k}" "\<forall>j. count_list (d_tried st) j \<le> 3"
    by (auto simp: tries_in_order_def)
  then have "length (d_tried st) \<le> 3 * k" by (intro tries_bounded)
  with t \<open>k \<le> length (c_models q)\<close> show ?thesis by linarith
qed

theorem combo_tries_bounded_witness:
  "tries_in_order busy_then_served 3 (d_tried busy_state) \<and> length (d_tried busy_state) = 4"
proof -
  obtain rot where d: "handleComboChat ''x-request-id'' DEFAULT_BACKOFF_CONFIG no_caps busy_then_served 2000 three_members []
      = (rot, busy_state, Some served_by_b)"
    using sample_dispatch by blast
  show ?thesis using combo_tries_bounded [OF d] by (simp add: three_members_def busy_state_def eval_nat_numeral)
qed

section \<open>A fallback that served\<close>

text \<open>a member that served after others were rejected is answered as it answered, named in the
  tracking header, and the next request of a round-robin combo starts after it.\<close>

theorem served_fallback_moves_the_cursor:
  assumes "combo_loop rh cfg env (members_of caps q rot) 0 0 initial_dispatch = (st, Answered r True i)"
    and "0 < i" and "c_strategy q = ''round-robin''"
  shows "\<exists>m<length (c_models q). \<exists>r0. e_result (env (length (d_tried st) - 1)) = Inr r0 \<and> response_ok r0
    \<and> snd (snd (handleComboChat rh cfg caps env now q rot)) = Some (with_tracking r0 (c_models q ! m))
    \<and> snapshotComboRotation (c_name q) (fst (handleComboChat rh cfg caps env now q rot)) = ((m + 1) mod length (c_models q), 0)"
proof -
  let ?es = "members_of caps q rot" and ?rot1 = "fst (getRotatedModels (entries_of (c_models q)) (c_name q) (c_strategy q) (c_sticky q) rot)"
  have i: "i < length (c_models q)"
    and "\<exists>a. combo_attempt rh cfg (env (length (d_tried st) - 1)) (modelStr (?es ! i)) a = Answer r True"
    using dispatch_guarantees [OF assms(1)] by (auto simp: length_members_of)
  then obtain r0 where r0: "e_result (env (length (d_tried st) - 1)) = Inr r0" "response_ok r0"
      "r = with_tracking r0 (modelStr (?es ! i))"
    using attempt_served by blast
  have m: "originalIndex (?es ! i) < length (c_models q)" "modelStr (?es ! i) = c_models q ! originalIndex (?es ! i)"
    using member_original [of "?es ! i" caps q rot] i by (auto simp: length_members_of)
  have h: "handleComboChat rh cfg caps env now q rot
      = (advanceRotationAfterSuccessfulFallback (c_models q) (c_name q) (c_strategy q) (originalIndex (?es ! i)) ?rot1, st, Some r)"
    using assms(1,2) by (simp add: handleComboChat_cases)
  have "rotates (c_models q) (c_strategy q)" using i assms(2,3) by (simp add: rotates_def)
  then have "snapshotComboRotation (c_name q) (fst (handleComboChat rh cfg caps env now q rot))
      = ((originalIndex (?es ! i) + 1) mod length (c_models q), 0)"
    using m(1) by (simp add: h advanceRotationAfterSuccessfulFallback_def snapshotComboRotation_def cursor_of_def)
  with m r0 h show ?thesis by auto
qed

theorem served_fallback_moves_the_cursor_witness:
  "\<exists>m<3. served_by_b = with_tracking \<lparr> status = 200, headers = [], body = Undef \<rparr> (c_models three_members ! m)
    \<and> snapshotComboRotation ''fast'' (fst (handleComboChat ''x-request-id'' DEFAULT_BACKOFF_CONFIG no_caps busy_then_served 2000 three_members []))
      = ((m + 1) mod 3, 0)"
proof -
  have l: "combo_loop ''x-request-id'' DEFAULT_BACKOFF_CONFIG busy_then_served (members_of no_caps three_members []) 0 0 initial_dispatch
      = (busy_state, Answered served_by_b True 1)"
    by (simp add: sample_members sample_loop)
  have e: "e_result (busy_then_served 3) = Inr \<lparr> status = 200, headers = [], body = Undef \<rparr>"
    by (simp add: busy_then_served_def serving_attempt_def)
  have s: "snd (snd (handleComboChat ''x-request-id'' DEFAULT_BACKOFF_CONFIG no_caps busy_then_served 2000 three_members [])) = Some served_by_b"
    using sample_dispatch by force
  have t: "length (d_tried busy_state) - 1 = 3" "length (c_models three_members) = 3" "c_name three_members = ''fast''"
    by (simp_all add: busy_state_def three_members_def)
  from served_fallback_moves_the_cursor [OF l, of 2000] show ?thesis
    unfolding t s e by (auto simp: three_members_def)
qed

section \<open>The failure that is reported\<close>

definition reports :: "combo_failure list \<Rightarrow> combo_failure \<Rightarrow> bool" where
  "reports fs g \<longleftrightarrow> g \<in> set fs \<and> (\<forall>f \<in> set fs. f_status f = 429 \<longrightarrow> f_status g = 429
     \<and> (\<forall>t. f_retryAt f = Some t \<longrightarrow> (\<exists>u\<le>t. f_retryAt g = Some u)))"

lemma reports_step:
  assumes "reports fs g"
  shows "reports (fs @ [f]) (selectComboFailure (Some g) f)"
proof -
  consider (quota) "f_status g \<noteq> 429" "f_status f = 429"
    | (sooner) "f_status g = f_status f" "\<exists>t. f_retryAt f = Some t \<and> (\<forall>u. f_retryAt g = Some u \<longrightarrow> t < u)"
    | (same) "selectComboFailure (Some g) f = g" "f_status f = 429 \<longrightarrow> f_status g = 429"
      "f_status f = f_status g \<longrightarrow> (\<forall>t. f_retryAt f = Some t \<longrightarrow> (\<exists>u\<le>t. f_retryAt g = Some u))"
  proof (cases "f_status g \<noteq> 429 \<and> f_status f = 429")
    case nq: False
    show thesis
    proof (cases "f_status g = f_status f \<and> (\<exists>t. f_retryAt f = Some t \<and> (\<forall>u. f_retryAt g = Some u \<longrightarrow> t < u))")
      case False
      then have "\<exists>u\<le>t. f_retryAt g = Some u" if "f_status f = f_status g" "f_retryAt f = Some t" for t
        using that by (metis linorder_not_le)
      moreover have "selectComboFailure (Some g) f = g"
        using nq False by (auto simp: selectComboFailure_def)
      ultimately show ?thesis using nq same by blast
    qed (use sooner in blast)
  qed (use quota in blast)
  then show ?thesis
  proof cases
    case quota
    then show ?thesis using assms by (auto simp: selectComboFailure_def reports_def)
  next
    case sooner
    then have "selectComboFailure (Some g) f = f" by (auto simp: selectComboFailure_def)
    then show ?thesis using assms sooner by (fastforce simp: reports_def)
  next
    case same
    then show ?thesis using assms by (auto simp: reports_def)
  qed
qed

lemma reports_fold:
  assumes "fs \<noteq> []"
  shows "\<exists>g. foldl (\<lambda>p f. Some (selectComboFailure p f)) None fs = Some g \<and> reports fs g"
  using assms
proof (induction fs rule: rev_induct)
  case (snoc f fs)
  show ?case
  proof (cases "fs = []")
    case True
    then show ?thesis by (simp add: selectComboFailure_def reports_def)
  next
    case False
    then show ?thesis using snoc.IH reports_step by auto
  qed
qed simp

text \<open>when every member was rejected, the failure reported is one of the rejections that happened,
  never a mixture: if any member was out of quota it is a 429, with the earliest reset known for any
  of them.\<close>

theorem exhausted_reports_earliest_reset:
  assumes "combo_loop rh cfg env es 0 0 initial_dispatch = (st, Exhausted)" and "es \<noteq> []"
  shows "\<exists>g. d_failure st = Some g \<and> reports (map (\<lambda>n. rejection (env n)) [0..<length (d_tried st)]) g"
proof -
  have t: "tried_ok env (length es) 0 st" using dispatch_guarantees [OF assms(1)] by simp
  then have "d_tried st \<noteq> []" using assms(2) by (auto simp: tried_ok_def)
  then show ?thesis using reports_fold [of "map (\<lambda>n. rejection (env n)) [0..<length (d_tried st)]"] t
    by (simp add: tried_ok_def)
qed

lemma sample_exhausted:
  "combo_loop ''x-request-id'' DEFAULT_BACKOFF_CONFIG quota_then_busy (entries_of [''p/a'', ''p/b'']) 0 0 initial_dispatch
     = (\<lparr> d_failure = Some \<lparr> f_status = 429, f_message = ''busy'', f_retryAt = Some 9000000000001000 \<rparr>, d_safe = 4, d_tried = [0, 1, 1, 1] \<rparr>,
        Exhausted)"
  by code_simp

theorem exhausted_reports_earliest_reset_witness:
  "reports (map (\<lambda>n. rejection (quota_then_busy n)) [0..<4]) \<lparr> f_status = 429, f_message = ''busy'', f_retryAt = Some 9000000000001000 \<rparr>"
  using exhausted_reports_earliest_reset [OF sample_exhausted] by (simp add: entries_of_def eval_nat_numeral)

text \<open>the one error of the dispatch itself: an exhausted combo throws, instead of answering, exactly
  when the reset it would announce is no date. A member that asks to wait nine trillion seconds is
  enough: the header is taken as it is, and the caller gets no 429.\<close>

theorem exhausted_throws_on_far_reset:
  "(exhausted_response rh (Some f) safe now = None \<longleftrightarrow> (\<exists>t. f_retryAt f = Some t \<and> num_to_time (Fin t) = None))
   \<and> snd (snd (handleComboChat ''x-request-id'' DEFAULT_BACKOFF_CONFIG no_caps quota_then_busy 30000
        (three_members\<lparr> c_models := [''p/a'', ''p/b''] \<rparr>) [])) = None"
proof -
  have m: "members_of no_caps (three_members\<lparr> c_models := [''p/a'', ''p/b''] \<rparr>) [] = entries_of [''p/a'', ''p/b'']" by code_simp
  have "num_to_time (Fin 9000000000001000) = None" by code_simp
  then show ?thesis
    by (simp add: handleComboChat_cases m sample_exhausted exhausted_response_def Let_def split: option.split)
qed

end
