(* ===== verification/Repin.thy ===== *)
theory Repin
  imports RankGuarantees
begin

text \<open>
  Whether the pin of a session moves: src/shared/utils/repinPolicy.js, the policy above the ranker.
  A pin is null or an object with \<open>connectionId\<close> and \<open>pinnedAt\<close> (a number or a string; the host's Date
  objects are not values of the model). What \<open>rankAccounts\<close> throws, the decision throws, except where
  the code catches it.
\<close>

section \<open>Verdicts\<close>

datatype repin_action = Keep | Move | NoMove

datatype trigger = InitialPin | Exhaustion | Reset | Unavailable

fun trigger_name :: "trigger \<Rightarrow> string" where
  "trigger_name InitialPin = ''initial-pin''" | "trigger_name Exhaustion = ''exhaustion''"
| "trigger_name Reset = ''reset''" | "trigger_name Unavailable = ''unavailable''"

text \<open>\<open>connectionId\<close> and \<open>to\<close> are the same field twice.\<close>

record verdict =
  v_action :: repin_action
  v_to :: jv
  v_from :: jv
  v_trigger :: "trigger option"
  v_reason :: string

definition pin_id :: "jv \<Rightarrow> jv" where
  "pin_id pin = coalesce (get pin ''connectionId'') Null"

definition keep_pin :: "jv \<Rightarrow> string \<Rightarrow> verdict" where
  "keep_pin pin reason = \<lparr> v_action = Keep, v_to = pin_id pin, v_from = pin_id pin, v_trigger = None, v_reason = reason \<rparr>"

definition no_verdict :: "string \<Rightarrow> verdict" where
  "no_verdict reason = \<lparr> v_action = NoMove, v_to = Null, v_from = Null, v_trigger = None, v_reason = reason \<rparr>"

definition move_pin :: "jv \<Rightarrow> jv \<Rightarrow> trigger \<Rightarrow> string \<Rightarrow> verdict" where
  "move_pin src dst why reason = \<lparr> v_action = Move, v_to = coalesce dst Null, v_from = coalesce src Null, v_trigger = Some why, v_reason = reason \<rparr>"

section \<open>The decision\<close>

definition toMs :: "jv \<Rightarrow> rat option" where
  "toMs value = (case value of Num (Fin r) \<Rightarrow> Some r | Str s \<Rightarrow> map_option of_int (date_parse s) | _ \<Rightarrow> None)"

text \<open>Only a label: any doubt, a throw included, reads as not restocked.\<close>

definition restockedSincePin :: "(string \<Rightarrow> string \<Rightarrow> bool) \<Rightarrow> jv \<Rightarrow> jv list \<Rightarrow> jv \<Rightarrow> rat \<Rightarrow> jv \<Rightarrow> bool" where
  "restockedSincePin collate pin cohort targetId nowMs model = (case toMs (get pin ''pinnedAt'') of
     None \<Rightarrow> False
   | Some pinnedAtMs \<Rightarrow>
       pinnedAtMs \<le> nowMs \<and> (case rankAccounts collate (Arr cohort) (Num (Fin pinnedAtMs)) (pin_id pin) Null model of
          Inl _ \<Rightarrow> False
        | Inr atPin \<Rightarrow> \<not> rg_degraded atPin \<and> \<not> (\<exists>r \<in> set (rg_eligible atPin). seq (rk_id r) targetId)))"

definition reason_or :: "ranking \<Rightarrow> string \<Rightarrow> string" where
  "reason_or g s = (case rg_reason g of Some (c # cs) \<Rightarrow> c # cs | _ \<Rightarrow> s)"

definition reason_text :: "ranking \<Rightarrow> string" where
  "reason_text g = (case rg_reason g of None \<Rightarrow> ''null'' | Some s \<Rightarrow> s)"

definition repin_of :: "(string \<Rightarrow> string \<Rightarrow> bool) \<Rightarrow> jv \<Rightarrow> jv list \<Rightarrow> rat \<Rightarrow> jv \<Rightarrow> ranking \<Rightarrow> verdict" where
  "repin_of collate pin cohort nowMs model g =
     (let pinnedId = pin_id pin;
          winner = (case rg_winner g of None \<Rightarrow> Null | Some w \<Rightarrow> coalesce (rk_id w) Null);
          pinned = find (\<lambda>r. seq (rk_id r) pinnedId) (rg_ranked g) in
      if pinned \<noteq> None \<and> rk_hardBlocked (the pinned)
      then if truthy winner then move_pin pinnedId winner Unavailable ''pinned-entitlement-unavailable''
           else no_verdict ''no-eligible-account''
      else if truthy pinnedId \<and> \<not> (\<exists>a \<in> set cohort. seq (get a ''id'') pinnedId)
      then if truthy winner then move_pin pinnedId winner Unavailable ''pinned-connection-unavailable''
           else no_verdict (reason_or g ''no-eligible-account'')
      else if rg_degraded g
      then if truthy pinnedId then keep_pin pin (''ranking-degraded:'' @ reason_text g)
           else if truthy winner then move_pin Null winner InitialPin (''no-existing-pin:'' @ reason_text g)
           else no_verdict (reason_text g)
      else if \<not> truthy pinnedId
      then if truthy winner then move_pin Null winner InitialPin ''no-existing-pin''
           else no_verdict (reason_or g ''no-eligible-account'')
      else if rg_eligible g = [] then keep_pin pin (''all-depleted-holding-pin:'' @ reason_or g ''all-depleted'')
      else case find (\<lambda>r. seq (rk_id r) pinnedId) (rg_eligible g) of
        Some pinnedRecord \<Rightarrow>
          (case (if rk_windows pinnedRecord = []
               then find (\<lambda>r. \<not> seq (rk_id r) pinnedId \<and> rk_windows r \<noteq> []) (rg_eligible g) else None) of
             None \<Rightarrow> keep_pin pin ''pin-healthy''
           | Some readable \<Rightarrow> move_pin pinnedId (rk_id readable) Unavailable ''pinned-evidence-absent:moving-to-readable'')
      | None \<Rightarrow>
          if \<not> truthy winner then no_verdict (reason_or g ''no-eligible-account'')
          else let returning = restockedSincePin collate pin cohort winner nowMs model in
            move_pin pinnedId winner (if returning then Reset else Exhaustion)
              (if returning then ''pinned-window-exhausted:returning-to-restored'' else ''pinned-window-exhausted''))"

definition decideRepin :: "(string \<Rightarrow> string \<Rightarrow> bool) \<Rightarrow> jv \<Rightarrow> jv \<Rightarrow> jv \<Rightarrow> jv list \<Rightarrow> jv \<Rightarrow> jv \<Rightarrow> rank_error + verdict" where
  "decideRepin collate pin accounts now unavailableIds activeLoad model =
     (let cohort = filter (\<lambda>a. get a ''id'' \<notin> set unavailableIds) (arr_items accounts) in
      if cohort = [] then Inr (no_verdict ''no-accounts'')
      else case rankAccounts collate (Arr cohort) now (pin_id pin) activeLoad model of
        Inl e \<Rightarrow> Inl e
      | Inr g \<Rightarrow> Inr (repin_of collate pin cohort (case to_number now of Fin n \<Rightarrow> n | _ \<Rightarrow> 0) model g))"

section \<open>When a pin moves\<close>

text \<open>The pinned account can serve and its windows could be read.\<close>

definition healthy_pin :: "jv \<Rightarrow> ranking \<Rightarrow> bool" where
  "healthy_pin pin g \<longleftrightarrow> truthy (pin_id pin)
     \<and> (case find (\<lambda>r. seq (rk_id r) (pin_id pin)) (rg_eligible g) of None \<Rightarrow> False | Some r \<Rightarrow> rk_windows r \<noteq> [])"

lemma find_set: "find P xs = Some x \<Longrightarrow> x \<in> set xs \<and> P x"
  by (induction xs) (auto split: if_splits)

lemma find_append: "find P (xs @ ys) = (case find P xs of None \<Rightarrow> find P ys | Some x \<Rightarrow> Some x)"
  by (induction xs) auto

lemma seq_truthy: "truthy v \<Longrightarrow> \<not> is_object v \<Longrightarrow> seq v v"
  by (cases v) auto

lemma filter_split:
  assumes "sorted_wrt (\<lambda>a b. \<not> (P b \<and> \<not> P a)) xs"
  shows "xs = filter P xs @ filter (\<lambda>x. \<not> P x) xs"
  using assms
proof (induction xs)
  case (Cons x xs)
  show ?case
  proof (cases "P x")
    case False
    then have "filter P xs = []" using Cons.prems by (auto simp: filter_empty_conv)
    then show ?thesis using Cons False by auto
  qed (use Cons in auto)
qed simp

lemma usable_first: "rk_usable a \<Longrightarrow> \<not> rk_usable b \<Longrightarrow> rank_lt cx a b"
  by (simp add: rank_compare_def)

text \<open>With any evidence at all, the usable accounts stand before the others.\<close>

lemma ranked_split:
  assumes "rankAccounts collate accounts now previousPinId load model = Inr g" and "\<not> rg_degraded g"
  shows "rg_ranked g = rg_eligible g @ rg_ineligible g"
proof -
  obtain nowMs where n: "to_number now = Fin nowMs"
    and rk: "rg_ranked g = rank_order (context_of load previousPinId (rank_input collate accounts nowMs load model))
       (rank_input collate accounts nowMs load model)"
    and el: "rg_eligible g = filter rk_usable (rg_ranked g)" "rg_ineligible g = filter (\<lambda>r. \<not> rk_usable r) (rg_ranked g)"
    using rankAccounts_Inr [OF assms(1)] by metis
  let ?rs = "rank_input collate accounts nowMs load model" and ?cx = "context_of load previousPinId (rank_input collate accounts nowMs load model)"
  show ?thesis
  proof (cases "?rs = []")
    case True
    then have "rg_ranked g = []" by (simp add: rk rank_order_def)
    then show ?thesis by (simp add: el)
  next
    case False
    then have "\<exists>r \<in> set ?rs. rk_windows r \<noteq> []"
      using assms n by (auto simp: rankAccounts_def rank_input_def [symmetric] Let_def split: sum.splits)
    then have "rg_ranked g = js_sort (rank_lt ?cx) ?rs" by (simp add: rk rank_order_def)
    then have "sorted_wrt (\<lambda>a b. \<not> rank_lt ?cx b a) (rg_ranked g)"
      using strict_weak_order.js_sort_sorted [OF rank.strict_weak_order_axioms, of ?cx ?rs] by simp
    then have "sorted_wrt (\<lambda>a b. \<not> (rk_usable b \<and> \<not> rk_usable a)) (rg_ranked g)"
      by (rule sorted_wrt_mono_rel [rotated]) (use usable_first in blast)
    then show ?thesis unfolding el by (rule filter_split)
  qed
qed

lemma ranked_ids:
  assumes "rankAccounts collate accounts now previousPinId load model = Inr g" and "r \<in> set (rg_ranked g)"
  shows "rk_id r = get (rk_account r) ''id'' \<and> rk_account r \<in> set (arr_items accounts)
    \<and> (rk_usable r \<longrightarrow> \<not> rk_hardBlocked r)"
proof -
  obtain n where rk: "rg_ranked g = rank_order (context_of load previousPinId (rank_input collate accounts n load model))
       (rank_input collate accounts n load model)"
    using rankAccounts_Inr [OF assms(1)] by metis
  have items: "(if is_array accounts then arr_items accounts else []) = arr_items accounts" by (cases accounts) auto
  have r: "r \<in> set (rank_records collate n load model (arr_items accounts))"
    using assms(2) unfolding rk rank_order_set rank_input_def items .
  then obtain i where i: "r = rank_record_of collate n load model i (rk_account r)" using rank_records_elem by blast
  have "rk_account r \<in> set (arr_items accounts)"
    using r rank_records_accounts [of collate n load model "arr_items accounts"] by (metis image_eqI set_map)
  moreover have "rk_usable (rank_record_of collate n load model i a) \<longrightarrow> \<not> rk_hardBlocked (rank_record_of collate n load model i a)" for a
    by (auto simp: rank_record_of_def resolveWindows_def Let_def case_prod_unfold)
  ultimately show ?thesis using i rank_record_fields(3) by metis
qed

lemma eligible_ranked:
  assumes "rankAccounts collate accounts now previousPinId load model = Inr g" and "r \<in> set (rg_eligible g)"
  shows "r \<in> set (rg_ranked g) \<and> rk_usable r"
proof -
  have "rg_eligible g = filter rk_usable (rg_ranked g)" using rankAccounts_Inr [OF assms(1)] by metis
  then show ?thesis using assms(2) by simp
qed

lemma rg_winner_first:
  "rankAccounts collate accounts now previousPinId load model = Inr g \<Longrightarrow> rg_winner g = first_of (rg_eligible g)"
  using rankAccounts_Inr by metis

lemma winner_eligible:
  assumes "rankAccounts collate accounts now previousPinId load model = Inr g"
    and "truthy (case rg_winner g of None \<Rightarrow> Null | Some w \<Rightarrow> coalesce (rk_id w) Null)"
  shows "\<exists>w \<in> set (rg_eligible g). (case rg_winner g of None \<Rightarrow> Null | Some w \<Rightarrow> coalesce (rk_id w) Null) = rk_id w"
  using assms(2) rg_winner_first [OF assms(1)]
  by (cases "rg_eligible g") (auto simp: first_of_def coalesce_def split: if_splits)

lemma degraded_no_windows:
  assumes "rankAccounts collate accounts now previousPinId load model = Inr g" and "rg_degraded g" and "r \<in> set (rg_ranked g)"
  shows "rk_windows r = []"
proof -
  obtain nowMs where n: "to_number now = Fin nowMs"
    and rk: "rg_ranked g = rank_order (context_of load previousPinId (rank_input collate accounts nowMs load model))
       (rank_input collate accounts nowMs load model)"
    using rankAccounts_Inr [OF assms(1)] by metis
  have "r \<in> set (rank_input collate accounts nowMs load model)" using assms(3) by (simp add: rk)
  then show ?thesis
    using assms(1,2) n by (auto simp: rankAccounts_def rank_input_def [symmetric] empty_ranking_def Let_def split: sum.splits if_splits)
qed

section \<open>Guarantees\<close>

definition cohort_of :: "jv \<Rightarrow> jv list \<Rightarrow> jv list" where
  "cohort_of accounts unavailableIds = filter (\<lambda>a. get a ''id'' \<notin> set unavailableIds) (arr_items accounts)"

lemma decideRepin_cases:
  assumes "decideRepin collate pin accounts now unavailableIds load model = Inr v"
    and "rankAccounts collate (Arr (cohort_of accounts unavailableIds)) now (pin_id pin) load model = Inr g"
  shows "v = (if cohort_of accounts unavailableIds = [] then no_verdict ''no-accounts''
    else repin_of collate pin (cohort_of accounts unavailableIds) (case to_number now of Fin n \<Rightarrow> n | _ \<Rightarrow> 0) model g)"
  using assms by (auto simp: decideRepin_def cohort_of_def Let_def)

lemma healthy_kept:
  assumes g: "rankAccounts collate (Arr cohort) now (pin_id pin) load model = Inr g" and h: "healthy_pin pin g"
  shows "repin_of collate pin cohort nowMs model g = keep_pin pin ''pin-healthy''"
proof -
  obtain r where r: "find (\<lambda>r. seq (rk_id r) (pin_id pin)) (rg_eligible g) = Some r" and w: "rk_windows r \<noteq> []"
    and t: "truthy (pin_id pin)"
    using h by (auto simp: healthy_pin_def split: option.splits)
  have el: "r \<in> set (rg_eligible g)" "seq (rk_id r) (pin_id pin)" using find_set [OF r] by auto
  have rk: "r \<in> set (rg_ranked g)" "rk_usable r" using eligible_ranked [OF g el(1)] by auto
  have nd: "\<not> rg_degraded g" using degraded_no_windows [OF g _ rk(1)] w by blast
  have "find (\<lambda>r. seq (rk_id r) (pin_id pin)) (rg_ranked g) = Some r"
    by (simp add: ranked_split [OF g nd] find_append r)
  moreover have "\<not> rk_hardBlocked r" "\<exists>a \<in> set cohort. seq (get a ''id'') (pin_id pin)"
    using ranked_ids [OF g rk(1)] rk(2) el(2) by auto
  moreover have "rg_eligible g \<noteq> []" using el by auto
  ultimately show ?thesis using nd t r w by (simp add: repin_of_def Let_def)
qed

text \<open>a healthy pin is never surrendered: while the ranking still offers the pinned account and its
  windows could be read, the session stays on it, whatever the other accounts have to offer, however
  loaded it is, and whichever account reset in the meantime.\<close>

theorem healthy_pin_stays:
  assumes "decideRepin collate pin accounts now unavailableIds load model = Inr v"
    and "rankAccounts collate (Arr (cohort_of accounts unavailableIds)) now (pin_id pin) load model = Inr g"
    and "healthy_pin pin g"
  shows "v = keep_pin pin ''pin-healthy'' \<and> v_to v = pin_id pin"
proof -
  have "cohort_of accounts unavailableIds \<noteq> []"
    using assms(2,3) by (auto simp: healthy_pin_def rankAccounts_def rank_records_def empty_ranking_def split: jsnum.splits option.splits)
  then show ?thesis
    using decideRepin_cases [OF assms(1,2)] healthy_kept [OF assms(2,3)] by (simp add: keep_pin_def)
qed

text \<open>What justifies leaving the pinned account: it is gone, its entitlement is blocked, it is not
  offered by the ranking, or nothing could be read about it.\<close>

definition may_leave :: "jv \<Rightarrow> jv list \<Rightarrow> ranking \<Rightarrow> bool" where
  "may_leave pinnedId cohort g \<longleftrightarrow>
     \<not> (\<exists>a \<in> set cohort. seq (get a ''id'') pinnedId)
   \<or> (\<exists>r \<in> set (rg_ranked g). seq (rk_id r) pinnedId \<and> (rk_hardBlocked r \<or> rk_windows r = []))
   \<or> \<not> (\<exists>r \<in> set (rg_eligible g). seq (rk_id r) pinnedId)"

lemma find_None_all: "find P xs = None \<Longrightarrow> x \<in> set xs \<Longrightarrow> \<not> P x"
  by (induction xs) (auto split: if_splits)

text \<open>Every outcome of the decision, with what it rests on.\<close>

lemma winner_cases:
  assumes g: "rankAccounts collate accounts now previousPinId load model = Inr g"
  obtains (winner) w where "w \<in> set (rg_eligible g)" "truthy (rk_id w)"
      "(case rg_winner g of None \<Rightarrow> Null | Some w \<Rightarrow> coalesce (rk_id w) Null) = rk_id w"
    | (nobody) "\<not> truthy (case rg_winner g of None \<Rightarrow> Null | Some w \<Rightarrow> coalesce (rk_id w) Null)"
  using winner_eligible [OF g] by metis

definition sound_verdict :: "jv \<Rightarrow> jv list \<Rightarrow> ranking \<Rightarrow> verdict \<Rightarrow> bool" where
  "sound_verdict pinnedId cohort g v \<longleftrightarrow> (case v_action v of
     Keep \<Rightarrow> v_to v = pinnedId \<and> truthy pinnedId \<and> (\<exists>a \<in> set cohort. seq (get a ''id'') pinnedId)
       \<and> (rg_degraded g \<or> rg_eligible g = [] \<or> (\<exists>r \<in> set (rg_eligible g). seq (rk_id r) pinnedId))
   | Move \<Rightarrow> (\<exists>r \<in> set (rg_eligible g). rk_id r = v_to v)
       \<and> (if truthy pinnedId then v_from v = pinnedId \<and> may_leave pinnedId cohort g else v_from v = Null)
   | NoMove \<Rightarrow> \<not> truthy (case rg_winner g of None \<Rightarrow> Null | Some w \<Rightarrow> coalesce (rk_id w) Null))"

lemma repin_sound:
  assumes g: "rankAccounts collate (Arr cohort) now (pin_id pin) load model = Inr g"
    and ids: "\<forall>a \<in> set cohort. truthy (get a ''id'')"
  shows "sound_verdict (pin_id pin) cohort g (repin_of collate pin cohort nowMs model g)"
proof -
  define pid where "pid = pin_id pin"
  define win where "win = (case rg_winner g of None \<Rightarrow> Null | Some w \<Rightarrow> coalesce (rk_id w) Null)"
  have truthy_coalesce: "truthy x \<Longrightarrow> coalesce x Null = x" for x by (cases x) (auto simp: coalesce_def)
  have no: "sound_verdict pid cohort g (no_verdict s)" if "\<not> truthy win" for s
    using that by (simp add: sound_verdict_def no_verdict_def win_def)
  have keep: "sound_verdict pid cohort g (keep_pin pin s)"
    if "truthy pid" "\<exists>a \<in> set cohort. seq (get a ''id'') pid" "rg_degraded g \<or> rg_eligible g = [] \<or> (\<exists>r \<in> set (rg_eligible g). seq (rk_id r) pid)" for s
    using that by (simp add: sound_verdict_def keep_pin_def pid_def)
  have leave: "sound_verdict pid cohort g (move_pin pid (rk_id r) t s)"
    if "truthy pid" "may_leave pid cohort g" "r \<in> set (rg_eligible g)" "truthy (rk_id r)" for r t s
    using that by (auto simp: sound_verdict_def move_pin_def truthy_coalesce)
  have first: "sound_verdict pid cohort g (move_pin Null (rk_id r) t s)"
    if "\<not> truthy pid" "r \<in> set (rg_eligible g)" "truthy (rk_id r)" for r t s
    using that by (auto simp: sound_verdict_def move_pin_def truthy_coalesce) (simp add: coalesce_def)
  have id_truthy: "truthy (rk_id r)" if "r \<in> set (rg_ranked g)" for r
    using ranked_ids [OF g that] ids by simp
  have el_rk: "r \<in> set (rg_ranked g)" if "r \<in> set (rg_eligible g)" for r
    using eligible_ranked [OF g that] by simp
  have w: "truthy win \<Longrightarrow> \<exists>r. r \<in> set (rg_eligible g) \<and> truthy (rk_id r) \<and> win = rk_id r"
    using winner_eligible [OF g] unfolding win_def by metis
  have pinned: "truthy pid \<and> may_leave pid cohort g"
    if f: "find (\<lambda>r. seq (rk_id r) pid) (rg_ranked g) = Some r" "rk_hardBlocked r" for r
  proof -
    have r: "r \<in> set (rg_ranked g)" "seq (rk_id r) pid" using find_set [OF f(1)] by auto
    then have "rk_id r = pid" using seq_imp_eq by blast
    with r f(2) id_truthy [OF r(1)] show ?thesis by (auto simp: may_leave_def)
  qed
  have blind: "sound_verdict pid cohort g (move_pin pid (rk_id q) t s)"
    if f: "find (\<lambda>r. seq (rk_id r) pid) (rg_eligible g) = Some r" "rk_windows r = []"
      and q: "find (\<lambda>r. \<not> seq (rk_id r) pid \<and> rk_windows r \<noteq> []) (rg_eligible g) = Some q" and t: "truthy pid" for r q t s
  proof -
    have "r \<in> set (rg_eligible g)" "seq (rk_id r) pid" "q \<in> set (rg_eligible g)" using find_set [OF f(1)] find_set [OF q] by auto
    moreover from this have "may_leave pid cohort g" using f(2) el_rk by (auto simp: may_leave_def)
    ultimately show ?thesis using leave [OF t] el_rk id_truthy by blast
  qed
  have held: "sound_verdict pid cohort g (keep_pin pin s)"
    if f: "find (\<lambda>r. seq (rk_id r) pid) (rg_eligible g) = Some r" "truthy pid" "\<exists>a \<in> set cohort. seq (get a ''id'') pid" for r s
    using keep [OF that(2,3)] find_set [OF f(1)] by blast
  have gone: "may_leave pid cohort g" if "find (\<lambda>r. seq (rk_id r) pid) (rg_eligible g) = None"
    using find_None_all [OF that] by (auto simp: may_leave_def)
  have absent: "may_leave pid cohort g" if "\<not> (\<exists>a \<in> set cohort. seq (get a ''id'') pid)"
    using that by (auto simp: may_leave_def)
  let ?pinned = "find (\<lambda>r. seq (rk_id r) pid) (rg_ranked g)" and ?gone = "truthy pid \<and> \<not> (\<exists>a \<in> set cohort. seq (get a ''id'') pid)"
  note unfold = repin_of_def Let_def pid_def [symmetric] win_def [symmetric]
  consider (blocked) p where "?pinned = Some p" "rk_hardBlocked p"
    | (gone) "\<not> (?pinned \<noteq> None \<and> rk_hardBlocked (the ?pinned))" ?gone
    | (there) "\<not> (?pinned \<noteq> None \<and> rk_hardBlocked (the ?pinned))" "\<not> ?gone"
    by (metis option.exhaust_sel)
  then have "sound_verdict pid cohort g (repin_of collate pin cohort nowMs model g)"
  proof cases
    case blocked
    show ?thesis
    proof (cases "truthy win")
      case True
      then obtain r where "r \<in> set (rg_eligible g)" "truthy (rk_id r)" "win = rk_id r" using w by blast
      then show ?thesis using blocked True leave pinned [OF blocked] by (simp add: unfold)
    qed (simp add: unfold no blocked)
  next
    case gone
    show ?thesis
    proof (cases "truthy win")
      case True
      then obtain r where "r \<in> set (rg_eligible g)" "truthy (rk_id r)" "win = rk_id r" using w by blast
      then show ?thesis unfolding unfold if_not_P [OF gone(1)] if_P [OF gone(2)]
        using True gone(2) leave absent by simp
    qed (simp only: unfold if_not_P [OF gone(1)] if_P [OF gone(2)] if_False no simp_thms)
  next
    case there
    note skip = if_not_P [OF there(1)] if_not_P [OF there(2)]
    show ?thesis
    proof (cases "truthy pid")
      case False
      then show ?thesis unfolding unfold skip using no w first by (cases "truthy win") auto
    next
      case t: True
      have inside: "\<exists>a \<in> set cohort. seq (get a ''id'') pid" using there(2) t by blast
      show ?thesis
      proof (cases "rg_degraded g \<or> rg_eligible g = []")
        case True
        then show ?thesis unfolding unfold skip using t keep [OF t inside] by (cases "rg_degraded g") simp_all
      next
        case False
        show ?thesis
        proof (cases "find (\<lambda>r. seq (rk_id r) pid) (rg_eligible g)")
          case None
          then show ?thesis unfolding unfold skip using t False no w leave [OF t gone [OF None]]
            by (cases "truthy win") (auto simp: None)
        next
          case (Some r)
          then show ?thesis unfolding unfold skip using t False held [OF Some t inside] blind [OF Some _ _ t]
            by (auto split: option.split)
        qed
      qed
    qed
  qed
  then show ?thesis by (simp add: pid_def)
qed

text \<open>C31: the pin policy, whatever the evidence. A pin is kept only for an account that can serve, or
  when nothing better is known: no evidence at all, or every account depleted. It moves only onto an
  account the ranking offers, and away from an account only when that one left the cohort, lost its
  entitlement, is not offered any more, or could not be read. A request is left without an account
  only when the ranking has no winner.\<close>

theorem pin_moves_are_justified:
  assumes "decideRepin collate pin accounts now unavailableIds load model = Inr v"
    and "rankAccounts collate (Arr (cohort_of accounts unavailableIds)) now (pin_id pin) load model = Inr g"
    and "\<forall>a \<in> set (cohort_of accounts unavailableIds). truthy (get a ''id'')"
    and "cohort_of accounts unavailableIds \<noteq> []"
  shows "sound_verdict (pin_id pin) (cohort_of accounts unavailableIds) g v"
  using decideRepin_cases [OF assms(1,2)] repin_sound [OF assms(2,3)] assms(4) by simp

section \<open>The concrete pool\<close>

definition pin_on :: "string \<Rightarrow> jv" where
  "pin_on name = Obj [(''connectionId'', Str name), (''pinnedAt'', Str ''1970-01-01T00:00:00.000Z'')]"

lemma sample_cohort: "cohort_of sample_pool [] = arr_items sample_pool" "Arr (arr_items sample_pool) = sample_pool"
  by (simp_all add: cohort_of_def sample_pool_def)

lemma sample_verdicts:
  "(case rank_sample (Str ''late'') busy_late of Inl _ \<Rightarrow> False | Inr g \<Rightarrow> healthy_pin (pin_on ''late'') g)"
  "map_option v_to (case decideRepin no_collate (pin_on ''spent'') sample_pool (JInt 1000) [] Null (Str ''m'') of Inl _ \<Rightarrow> None | Inr v \<Rightarrow> Some v)
     = Some (Str ''soon'')"
  by code_simp+

lemma decideRepin_total:
  "rankAccounts collate (Arr (cohort_of accounts unavailableIds)) now (pin_id pin) load model = Inr g
     \<Longrightarrow> \<exists>v. decideRepin collate pin accounts now unavailableIds load model = Inr v"
  by (simp add: decideRepin_def cohort_of_def Let_def)

theorem healthy_pin_stays_witness:
  "decideRepin no_collate (pin_on ''late'') sample_pool (JInt 1000) [] busy_late (Str ''m'') = Inr (keep_pin (pin_on ''late'') ''pin-healthy'')"
proof -
  obtain g where g: "rank_sample (Str ''late'') busy_late = Inr g" "healthy_pin (pin_on ''late'') g"
    using sample_verdicts(1) by (auto split: sum.splits)
  have r: "rankAccounts no_collate (Arr (cohort_of sample_pool [])) (JInt 1000) (pin_id (pin_on ''late'')) busy_late (Str ''m'') = Inr g"
    using g(1) by (simp add: sample_cohort rank_sample_def pin_id_def pin_on_def coalesce_def)
  obtain v where v: "decideRepin no_collate (pin_on ''late'') sample_pool (JInt 1000) [] busy_late (Str ''m'') = Inr v"
    using decideRepin_total [OF r] by blast
  from healthy_pin_stays [OF v r g(2)] v show ?thesis by simp
qed

theorem pin_moves_are_justified_witness:
  "\<exists>g v. decideRepin no_collate (pin_on ''spent'') sample_pool (JInt 1000) [] Null (Str ''m'') = Inr v \<and> v_to v = Str ''soon''
     \<and> sound_verdict (Str ''spent'') (arr_items sample_pool) g v"
proof -
  obtain v where v: "decideRepin no_collate (pin_on ''spent'') sample_pool (JInt 1000) [] Null (Str ''m'') = Inr v" "v_to v = Str ''soon''"
    using sample_verdicts(2) by (auto split: sum.splits)
  obtain g where g: "rankAccounts no_collate (Arr (cohort_of sample_pool [])) (JInt 1000) (pin_id (pin_on ''spent'')) Null (Str ''m'') = Inr g"
    using v(1) by (auto simp: decideRepin_def cohort_of_def Let_def sample_pool_def split: sum.splits)
  have "\<forall>a \<in> set (cohort_of sample_pool []). truthy (get a ''id'')" "cohort_of sample_pool [] \<noteq> []"
    by (simp_all add: sample_cohort) (simp_all add: sample_pool_def pool_account_def)
  from pin_moves_are_justified [OF v(1) g this] v show ?thesis
    by (auto simp: sample_cohort pin_id_def pin_on_def coalesce_def)
qed

end
