(* ===== verification/SwitchReceipt.thy ===== *)
theory SwitchReceipt
  imports QuotaRanking
begin

text \<open>
  The receipt of an account switch, src/shared/utils/switchReceipt.js: every field is picked by name
  and coerced, nothing is copied from the inputs. A receipt is an object with its keys in order.
  A date that cannot be printed is the error \<open>InvalidDate\<close>.
\<close>

definition RECEIPT_KEYS :: "string list" where
  "RECEIPT_KEYS = [''fromConnectionId'', ''toConnectionId'', ''windows'', ''trigger'', ''model'', ''sessionHash'', ''at'']"

definition connectionId_of :: "jv \<Rightarrow> jv" where
  "connectionId_of value = (case value of
     Str s \<Rightarrow> if s = [] then Null else Str s
   | Obj m \<Rightarrow> (case coalesce (get value ''id'') (get value ''connectionId'') of Str s \<Rightarrow> if s = [] then Null else Str s | _ \<Rightarrow> Null)
   | _ \<Rightarrow> Null)"

definition text_field :: "jv \<Rightarrow> jv" where
  "text_field value = (case value of Str s \<Rightarrow> if s = [] then Null else Str s | _ \<Rightarrow> Null)"

text \<open>The reset was read by \<open>Date.parse\<close>, so it is a date.\<close>

definition receipt_window :: "window \<Rightarrow> jv" where
  "receipt_window w = Obj [(''scope'', Str (w_scope w)), (''remaining'', Num (Fin (w_remaining w))), (''limit'', Num (Fin (w_limit w))),
     (''resetAt'', Str (to_iso (w_resetAt w))), (''confidence'', Str (w_confidence w))]"

definition normalizedWindows :: "(string \<Rightarrow> string \<Rightarrow> bool) \<Rightarrow> jv \<Rightarrow> jv list" where
  "normalizedWindows collate windows = (let norm = normalizeAccountWindows collate windows Undef in
     if \<not> st_ok norm then [] else map receipt_window (st_windows norm))"

definition iso_of :: "rat \<Rightarrow> rank_error + string" where
  "iso_of ms = (case num_to_time (Fin ms) of None \<Rightarrow> Inl InvalidDate | Some t \<Rightarrow> Inr (to_iso t))"

definition buildSwitchReceipt :: "(string \<Rightarrow> string \<Rightarrow> bool) \<Rightarrow> jv \<Rightarrow> jv \<Rightarrow> jv \<Rightarrow> jv \<Rightarrow> jv \<Rightarrow> jv \<Rightarrow> jv \<Rightarrow> rank_error + jv" where
  "buildSwitchReceipt collate src dst windows why model sessionHash now = (case to_number now of
     Fin atMs \<Rightarrow> (case iso_of atMs of Inl e \<Rightarrow> Inl e
       | Inr printed \<Rightarrow> Inr (Obj [(''fromConnectionId'', connectionId_of src), (''toConnectionId'', connectionId_of dst),
           (''windows'', Arr (normalizedWindows collate windows)), (''trigger'', text_field why), (''model'', text_field model),
           (''sessionHash'', text_field sessionHash), (''at'', Str printed)]))
   | _ \<Rightarrow> Inl (ClockTypeError ''buildSwitchReceipt requires an injected numeric or Date `now`''))"

section \<open>A receipt holds evidence and nothing else\<close>

text \<open>What a receipt may be made of: the ids of the connections and, of a quota row, five fields.\<close>

definition public_id :: "jv \<Rightarrow> jv" where
  "public_id v = (case v of Obj m \<Rightarrow> Obj [(''id'', get v ''id''), (''connectionId'', get v ''connectionId'')] | _ \<Rightarrow> v)"

definition public_row :: "jv \<Rightarrow> jv" where
  "public_row w = (if is_object w then Obj (map (\<lambda>k. (k, get w k)) [''scope'', ''remaining'', ''limit'', ''resetAt'', ''confidence'']) else w)"

abbreviation unobserved :: "window \<Rightarrow> window" where
  "unobserved w \<equiv> w\<lparr> w_observedAt := None \<rparr>"

lemma is_object_public_row [simp]: "is_object (public_row w) = is_object w"
  by (simp add: public_row_def)

fun unobserved_result :: "row_result \<Rightarrow> row_result" where
  "unobserved_result (Reading w) = Reading (unobserved w)"
| "unobserved_result r = r"

lemma read_window_public: "read_window model (public_row w) = unobserved_result (read_window model w)"
proof (cases "is_object w")
  case True
  have g: "get (public_row w) ''scope'' = get w ''scope''" "get (public_row w) ''remaining'' = get w ''remaining''"
    "get (public_row w) ''limit'' = get w ''limit''" "get (public_row w) ''resetAt'' = get w ''resetAt''"
    "get (public_row w) ''confidence'' = get w ''confidence''" "parseResetAt (get (public_row w) ''observedAt'') = None"
    using True by (simp_all add: public_row_def parseResetAt_def)
  show ?thesis
    unfolding read_window_def is_object_public_row g Let_def
    by (cases "classifyWindow (get w ''scope'')"; cases "finiteNonNegative (get w ''remaining'')";
        cases "finiteNonNegative (get w ''limit'')"; cases "parseResetAt (get w ''resetAt'')"; simp)
qed (simp add: read_window_def)

lemma read_windows_public:
  "read_windows model (map public_row ws) = (let (general, rest) = read_windows model ws in (map unobserved general, rest))"
  by (induction ws) (auto simp: read_window_public Let_def case_prod_unfold split: row_result.split)

lemma normalized_public:
  "normalizedWindows collate (Arr (map public_row rows)) = normalizedWindows collate (Arr rows)"
proof -
  obtain general unreadable reasons blocked where r: "read_windows Undef rows = (general, unreadable, reasons, blocked)"
    using prod_cases4 by blast
  have "js_sort (longer_first collate) (map unobserved general) = map unobserved (js_sort (longer_first collate) general)"
    by (rule js_sort_map) (simp add: longer_first_def)
  then show ?thesis
    by (simp add: normalizedWindows_def normalizeAccountWindows_def read_windows_public r receipt_window_def comp_def)
qed

lemma connectionId_public [simp]: "connectionId_of (public_id v) = connectionId_of v"
  by (cases v) (simp_all add: connectionId_of_def public_id_def)

text \<open>a receipt leaks nothing: it has exactly the seven declared keys, and it is a function of the ids of
  the two connections and of five fields of every quota row. A token, a key or a prompt that a
  connection or a row also carries never reaches it.\<close>

theorem receipt_leaks_nothing:
  "buildSwitchReceipt collate src dst (Arr rows) why model sessionHash now
     = buildSwitchReceipt collate (public_id src) (public_id dst) (Arr (map public_row rows)) why model sessionHash now
   \<and> (case buildSwitchReceipt collate src dst (Arr rows) why model sessionHash now of Inl _ \<Rightarrow> True
      | Inr r \<Rightarrow> map fst (obj_entries r) = RECEIPT_KEYS)"
  by (simp add: buildSwitchReceipt_def normalized_public RECEIPT_KEYS_def split: jsnum.split sum.split)

end
