(* ===== verification/PinStore.thy ===== *)
theory PinStore
  imports SwitchReceipt
begin

text \<open>
  The stored pins of sessions: src/lib/db/repos/sessionAffinityRepo.js, the synchronous facade of
  src/sse/services/schedulerRepos.js and the operator's pin commands of
  src/lib/db/helpers/sessionPinControl.js. A table is an insertion-ordered map or a list of rows, a
  statement an update of it; a NULL column is \<open>None\<close>. Dates are ISO texts and compare as texts, in SQL
  as in the code. The SHA-256 of Node and the random ids are parameters.
\<close>

section \<open>Tables\<close>

record affinity_row =
  a_connectionId :: string
  a_providerNode :: "string option"
  a_pinnedAt :: string
  a_expiresAt :: "string option"
  a_operatorExpiresAt :: "string option"
  a_lastSeenAt :: string

record pin_action =
  pa_id :: string
  pa_sessionHash :: string
  pa_model :: string
  pa_target :: string
  pa_expectedBinding :: string
  pa_status :: string
  pa_reason :: "string option"
  pa_appliedAt :: "string option"
  pa_afterState :: "string option"

record switch_row =
  sw_id :: string
  sw_sessionHash :: string
  sw_model :: string
  sw_from :: jv
  sw_to :: string
  sw_trigger :: string
  sw_reason :: jv
  sw_windows :: "string option"
  sw_at :: string

type_synonym pin_key = "string \<times> string"

record pin_db =
  sql_js :: bool
  affinity :: "(pin_key, affinity_row) omap"
  pin_actions :: "pin_action list"
  switches :: "switch_row list"

section \<open>Pins\<close>

definition PIN_IDLE_TTL_MS :: int where
  "PIN_IDLE_TTL_MS = 24 * 60 * 60 * 1000"

text \<open>The two dates the facade is built with.\<close>

record pin_clock =
  nowIso :: string
  expiresAtIso :: string

definition createSchedulerRepos :: "rat \<Rightarrow> rank_error + pin_clock" where
  "createSchedulerRepos nowMs = (case iso_of nowMs of Inl e \<Rightarrow> Inl e
     | Inr n \<Rightarrow> (case iso_of (nowMs + of_int PIN_IDLE_TTL_MS) of Inl e \<Rightarrow> Inl e
       | Inr x \<Rightarrow> Inr \<lparr> nowIso = n, expiresAtIso = x \<rparr>))"

text \<open>\<open>expiresAt\<close> is a date that is not after the cutoff; NULL is no end.\<close>

definition expired :: "string \<Rightarrow> affinity_row \<Rightarrow> bool" where
  "expired cutoff row \<longleftrightarrow> (case a_expiresAt row of None \<Rightarrow> False | Some e \<Rightarrow> e \<noteq> [] \<and> str_le e cutoff)"

definition swept :: "string \<Rightarrow> affinity_row \<Rightarrow> bool" where
  "swept cutoff row \<longleftrightarrow> (case a_expiresAt row of None \<Rightarrow> False | Some e \<Rightarrow> str_le e cutoff)"

definition livePin :: "affinity_row option \<Rightarrow> string \<Rightarrow> jv" where
  "livePin row now = (case row of None \<Rightarrow> Null
     | Some r \<Rightarrow> if a_connectionId r = [] \<or> expired now r then Null
         else Obj [(''connectionId'', Str (a_connectionId r)), (''pinnedAt'', Str (a_pinnedAt r))])"

definition getPin :: "pin_clock \<Rightarrow> pin_db \<Rightarrow> string \<Rightarrow> string \<Rightarrow> jv" where
  "getPin clk db sessionHash model = (if sessionHash = [] \<or> model = [] then Null
     else livePin (om_get (affinity db) (sessionHash, model)) (nowIso clk))"

definition sweepExpired :: "string \<Rightarrow> pin_db \<Rightarrow> pin_db" where
  "sweepExpired cutoff db = db\<lparr> affinity := filter (\<lambda>(k, row). \<not> swept cutoff row) (affinity db) \<rparr>"

definition upsert_pin :: "pin_key \<Rightarrow> string \<Rightarrow> string option \<Rightarrow> string \<Rightarrow> string option \<Rightarrow> string \<Rightarrow> pin_db \<Rightarrow> pin_db" where
  "upsert_pin key conn node pinnedAt expiresAt seenAt db = db\<lparr> affinity := om_set (affinity db) key
     \<lparr> a_connectionId = conn, a_providerNode = node, a_pinnedAt = pinnedAt, a_expiresAt = expiresAt,
       a_operatorExpiresAt = None, a_lastSeenAt = seenAt \<rparr> \<rparr>"

text \<open>The facade keeps the node of an existing row; the sweep rides on the write.\<close>

definition setPin :: "pin_clock \<Rightarrow> string \<Rightarrow> string \<Rightarrow> string \<Rightarrow> string \<Rightarrow> pin_db \<Rightarrow> pin_db" where
  "setPin clk sessionHash model conn atIso db =
     (if sessionHash = [] \<or> model = [] \<or> conn = [] then db
      else sweepExpired (nowIso clk) (upsert_pin (sessionHash, model) conn
        (case om_get (affinity db) (sessionHash, model) of None \<Rightarrow> None | Some r \<Rightarrow> a_providerNode r)
        (if atIso = [] then nowIso clk else atIso) (Some (expiresAtIso clk)) (nowIso clk) db))"

definition touched :: "pin_clock \<Rightarrow> string \<Rightarrow> affinity_row \<Rightarrow> affinity_row" where
  "touched clk seenAt r = r\<lparr> a_lastSeenAt := seenAt, a_expiresAt := Some (case a_operatorExpiresAt r of
      None \<Rightarrow> expiresAtIso clk
    | Some e \<Rightarrow> if \<not> str_le (expiresAtIso clk) e then e else expiresAtIso clk) \<rparr>"

definition touchPin :: "pin_clock \<Rightarrow> string \<Rightarrow> string \<Rightarrow> string \<Rightarrow> pin_db \<Rightarrow> pin_db" where
  "touchPin clk sessionHash model atIso db = (if sessionHash = [] \<or> model = [] then db
     else case om_get (affinity db) (sessionHash, model) of None \<Rightarrow> db
     | Some r \<Rightarrow> db\<lparr> affinity := om_set (affinity db) (sessionHash, model)
         (touched clk (if atIso = [] then nowIso clk else atIso) r) \<rparr>)"

definition pin_counted :: "string \<Rightarrow> string \<Rightarrow> pin_key \<times> affinity_row \<Rightarrow> bool" where
  "pin_counted model cutoff e \<longleftrightarrow> snd (fst e) = model \<and> (case a_expiresAt (snd e) of None \<Rightarrow> True | Some x \<Rightarrow> \<not> str_le x cutoff)"

text \<open>The grouped count; its order is the database's and nothing below depends on it.\<close>

definition ACTIVE_PINS_BY_CONNECTION :: "string \<Rightarrow> string \<Rightarrow> pin_db \<Rightarrow> (string \<times> nat) list" where
  "ACTIVE_PINS_BY_CONNECTION model cutoff db =
     (let conns = map (\<lambda>e. a_connectionId (snd e)) (filter (pin_counted model cutoff) (affinity db))
      in map (\<lambda>c. (c, count_list conns c)) (remdups conns))"

definition rowsToPinCounts :: "(string \<times> nat) list \<Rightarrow> (string \<times> nat) list" where
  "rowsToPinCounts rows = filter (\<lambda>(c, n). c \<noteq> [] \<and> 0 < n) rows"

definition countActivePins :: "string \<Rightarrow> rat \<Rightarrow> pin_db \<Rightarrow> rank_error + (string \<times> nat) list" where
  "countActivePins model now db = (if model = [] then Inr []
     else case iso_of now of Inl e \<Rightarrow> Inl e | Inr cutoff \<Rightarrow> Inr (rowsToPinCounts (ACTIVE_PINS_BY_CONNECTION model cutoff db)))"

section \<open>The pins outside a request\<close>

definition repo_getPin :: "string \<Rightarrow> string \<Rightarrow> string \<Rightarrow> pin_db \<Rightarrow> affinity_row option" where
  "repo_getPin sessionHash model now db = (if sessionHash = [] \<or> model = [] then None
     else case om_get (affinity db) (sessionHash, model) of None \<Rightarrow> None
     | Some r \<Rightarrow> if expired now r \<or> a_connectionId r = [] then None else Some r)"

definition repo_setPin :: "string \<Rightarrow> string \<Rightarrow> string \<Rightarrow> string option \<Rightarrow> string option \<Rightarrow> string \<Rightarrow> string \<Rightarrow> pin_db \<Rightarrow> pin_db" where
  "repo_setPin sessionHash model conn node expiresAt pinnedAt now db =
     (if sessionHash = [] \<or> model = [] \<or> conn = [] then db
      else upsert_pin (sessionHash, model) conn node (if pinnedAt = [] then now else pinnedAt) expiresAt now db)"

definition clearPin :: "string \<Rightarrow> string \<Rightarrow> pin_db \<Rightarrow> pin_db" where
  "clearPin sessionHash model db = (if sessionHash = [] \<or> model = [] then db
     else db\<lparr> affinity := om_del (affinity db) (sessionHash, model) \<rparr>)"

definition clearPinsForConnection :: "string \<Rightarrow> pin_db \<Rightarrow> pin_db" where
  "clearPinsForConnection conn db = (if conn = [] then db
     else db\<lparr> affinity := filter (\<lambda>(k, r). a_connectionId r \<noteq> conn) (affinity db) \<rparr>)"

definition repo_touchPin :: "string \<Rightarrow> string \<Rightarrow> string \<Rightarrow> pin_db \<Rightarrow> pin_db" where
  "repo_touchPin sessionHash model now db = (if sessionHash = [] \<or> model = [] then db
     else case om_get (affinity db) (sessionHash, model) of None \<Rightarrow> db
     | Some r \<Rightarrow> db\<lparr> affinity := om_set (affinity db) (sessionHash, model) (r\<lparr> a_lastSeenAt := now \<rparr>) \<rparr>)"

section \<open>Receipts\<close>

text \<open>A receipt without session, model or target is not stored. Its windows are stored as JSON.\<close>

definition str_field :: "jv \<Rightarrow> string \<Rightarrow> string" where
  "str_field v k = (case get v k of Str s \<Rightarrow> s | _ \<Rightarrow> [])"

definition receipt_id :: "string \<Rightarrow> jv \<Rightarrow> string" where
  "receipt_id uuid receipt = (if str_field receipt ''id'' = [] then uuid else str_field receipt ''id'')"

definition recordSwitch :: "string \<Rightarrow> pin_clock \<Rightarrow> jv \<Rightarrow> pin_db \<Rightarrow> pin_db \<times> jv" where
  "recordSwitch uuid clk receipt db =
     (if str_field receipt ''sessionHash'' = [] \<or> str_field receipt ''model'' = [] \<or> str_field receipt ''toConnectionId'' = [] then (db, Null)
      else (db\<lparr> switches := switches db @ [\<lparr> sw_id = receipt_id uuid receipt, sw_sessionHash = str_field receipt ''sessionHash'',
              sw_model = str_field receipt ''model'', sw_from = coalesce (get receipt ''fromConnectionId'') Null,
              sw_to = str_field receipt ''toConnectionId'',
              sw_trigger = (if str_field receipt ''trigger'' = [] then ''unknown'' else str_field receipt ''trigger''),
              sw_reason = coalesce (get receipt ''reason'') Null,
              sw_windows = (if is_nullish (get receipt ''windows'') then None else json_str (get receipt ''windows'')),
              sw_at = (if str_field receipt ''switchedAt'' \<noteq> [] then str_field receipt ''switchedAt''
                else if str_field receipt ''at'' \<noteq> [] then str_field receipt ''at'' else nowIso clk) \<rparr>] \<rparr>,
            Obj (om_set (obj_entries receipt) ''id'' (Str (receipt_id uuid receipt)))))"

section \<open>Operator commands\<close>

definition opt_str :: "string option \<Rightarrow> jv" where
  "opt_str t = (case t of None \<Rightarrow> Null | Some s \<Rightarrow> Str s)"

definition pinBinding :: "(string \<Rightarrow> string) \<Rightarrow> pin_key \<Rightarrow> affinity_row option \<Rightarrow> string" where
  "pinBinding sha key row = sha (case json_str (case row of None \<Rightarrow> Null
       | Some r \<Rightarrow> Arr [Str (fst key), Str (snd key), Str (a_connectionId r), Str (a_pinnedAt r), opt_str (a_operatorExpiresAt r)]) of
     None \<Rightarrow> [] | Some s \<Rightarrow> s)"

definition pinRevision :: "(string \<Rightarrow> string) \<Rightarrow> pin_key \<Rightarrow> affinity_row option \<Rightarrow> string" where
  "pinRevision sha key row = sha (case json_str (Arr [Str (pinBinding sha key row),
       (case row of None \<Rightarrow> Null | Some r \<Rightarrow> opt_str (a_expiresAt r))]) of None \<Rightarrow> [] | Some s \<Rightarrow> s)"

definition queued_for :: "string \<Rightarrow> string \<Rightarrow> pin_action \<Rightarrow> bool" where
  "queued_for sessionHash model a \<longleftrightarrow> pa_sessionHash a = sessionHash \<and> pa_model a = model \<and> pa_status a = ''queued''"

definition conflict_action :: "string \<Rightarrow> string \<Rightarrow> pin_action \<Rightarrow> pin_action" where
  "conflict_action i now a = (if pa_id a = i \<and> pa_status a = ''queued''
     then a\<lparr> pa_status := ''conflict'', pa_reason := Some ''binding-ended'', pa_appliedAt := Some now \<rparr> else a)"

text \<open>The flag says that the storage cannot hold the command.\<close>

definition getPendingPinAction :: "(string \<Rightarrow> string) \<Rightarrow> string \<Rightarrow> string \<Rightarrow> string \<Rightarrow> pin_db \<Rightarrow> pin_db \<times> (pin_action \<times> bool) option" where
  "getPendingPinAction sha sessionHash model now db = (case find (queued_for sessionHash model) (pin_actions db) of
     None \<Rightarrow> (db, None)
   | Some a \<Rightarrow>
       if sql_js db then (db, Some (a, True))
       else (case om_get (affinity db) (sessionHash, model) of
           Some r \<Rightarrow>
             if pinBinding sha (sessionHash, model) (Some r) \<noteq> pa_expectedBinding a \<or> expired now r
             then (db\<lparr> pin_actions := map (conflict_action (pa_id a) now) (pin_actions db) \<rparr>, None)
             else (db, Some (a, False))
         | None \<Rightarrow> (db\<lparr> pin_actions := map (conflict_action (pa_id a) now) (pin_actions db) \<rparr>, None)))"

definition row_json :: "pin_key \<Rightarrow> affinity_row option \<Rightarrow> jv" where
  "row_json key row = (case row of None \<Rightarrow> Null
     | Some r \<Rightarrow> Obj [(''sessionHash'', Str (fst key)), (''model'', Str (snd key)), (''connectionId'', Str (a_connectionId r)),
         (''providerNode'', opt_str (a_providerNode r)), (''pinnedAt'', Str (a_pinnedAt r)), (''expiresAt'', opt_str (a_expiresAt r)),
         (''operatorExpiresAt'', opt_str (a_operatorExpiresAt r)), (''lastSeenAt'', Str (a_lastSeenAt r))])"

definition applied_action :: "string \<Rightarrow> string option \<Rightarrow> string \<Rightarrow> pin_action \<Rightarrow> pin_action" where
  "applied_action i after_state now a = (if pa_id a = i \<and> pa_status a = ''queued''
     then a\<lparr> pa_status := ''applied'', pa_reason := Some ''subsequent-selection'', pa_afterState := after_state, pa_appliedAt := Some now \<rparr>
     else a)"

definition completePinAction :: "pin_action \<Rightarrow> string \<Rightarrow> pin_db \<Rightarrow> pin_db" where
  "completePinAction a now db = (let key = (pa_sessionHash a, pa_model a) in
     db\<lparr> pin_actions := map (applied_action (pa_id a) (json_str (row_json key (om_get (affinity db) key))) now) (pin_actions db) \<rparr>)"

end
