(* ===== verification/Scheduler.thy ===== *)
theory Scheduler
  imports Repin PinStore LeaseRegistry
begin

text \<open>
  Selecting an account and reserving a slot on it in one transaction: src/sse/services/accountScheduler.js.
  The world is the process's lease registry and the database with the pins, the receipts and the
  operator's commands. A thrown error and a failed commit roll the database back; the lease that was
  taken is released by the code, because it lives in the process. The clock of the provider gate, the
  SHA-256, the random ids, the collation and whether the commit succeeds are parameters.
\<close>

definition RETRY_AFTER_SECONDS :: int where
  "RETRY_AFTER_SECONDS = 1"

section \<open>Load and resets\<close>

text \<open>When an account is ready again: the latest reset of its exhausted windows.\<close>

definition ready_at :: "rat \<Rightarrow> window list \<Rightarrow> int option" where
  "ready_at nowMs ws = foldl (\<lambda>ready w. if 0 < w_remaining w \<or> of_int (w_resetAt w) \<le> nowMs then ready
     else Some (max (case ready of None \<Rightarrow> 0 | Some t \<Rightarrow> t) (w_resetAt w))) None ws"

definition account_ready :: "(string \<Rightarrow> string \<Rightarrow> bool) \<Rightarrow> rat \<Rightarrow> jv \<Rightarrow> jv \<Rightarrow> int option" where
  "account_ready collate nowMs model account =
     (if \<not> accountSupportsModel account model then None
      else let norm = normalizeAccountWindows collate (get account ''windows'') model in
        if \<not> st_ok norm \<or> st_blocked norm then None else ready_at nowMs (st_windows norm))"

definition earliestReset :: "(string \<Rightarrow> string \<Rightarrow> bool) \<Rightarrow> jv list \<Rightarrow> rat \<Rightarrow> jv \<Rightarrow> jv" where
  "earliestReset collate candidates nowMs model =
     (case foldl (\<lambda>soonest a. case account_ready collate nowMs model a of None \<Rightarrow> soonest
         | Some r \<Rightarrow> (case soonest of None \<Rightarrow> Some r | Some t \<Rightarrow> if r < t then Some r else Some t)) None candidates of
        None \<Rightarrow> Null | Some t \<Rightarrow> Str (to_iso t))"

definition activeLoadFor :: "jv list \<Rightarrow> string \<Rightarrow> rat \<Rightarrow> lease_module \<Rightarrow> pin_db \<Rightarrow> rank_error + jv" where
  "activeLoadFor candidates model nowMs m db = (case countActivePins model nowMs db of Inl e \<Rightarrow> Inl e
     | Inr pins \<Rightarrow> Inr (Obj (foldl (\<lambda>load c. let i = jstr (get c ''id'') in
         om_set load i (Obj [(''pins'', JInt (case om_get pins i of None \<Rightarrow> 0 | Some n \<Rightarrow> int n)),
           (''inFlight'', JInt (inFlight (accounts m) (Some i)))])) [] candidates)))"

section \<open>Planning\<close>

definition sel_trigger :: "trigger \<Rightarrow> string" where
  "sel_trigger t = (case t of Reset \<Rightarrow> ''quota-reset'' | InitialPin \<Rightarrow> ''initial-pin'' | Unavailable \<Rightarrow> ''unavailable''
     | Exhaustion \<Rightarrow> ''exhaustion'')"

definition repin_trace :: "verdict \<Rightarrow> trace_entry list" where
  "repin_trace v = (case v_action v of
     Keep \<Rightarrow> [\<lparr> tr_cls = ''SEL'', tr_verdict = ''pin-hit'', tr_fields = [(''conn'', Str (id8 (v_to v))), (''why'', Str (v_reason v))] \<rparr>]
   | NoMove \<Rightarrow> []
   | Move \<Rightarrow> [\<lparr> tr_cls = ''SEL'', tr_verdict = (if v_trigger v = Some Exhaustion then ''pin-expired'' else ''repin''),
       tr_fields = [(''from'', Str (if truthy (v_from v) then id8 (v_from v) else ''none'')), (''to'', Str (id8 (v_to v))),
         (''trigger'', case v_trigger v of None \<Rightarrow> Null | Some t \<Rightarrow> Str (sel_trigger t)), (''why'', Str (v_reason v))] \<rparr>])"

text \<open>The accounts that are tried, in order. A kept pin is tried alone; a decided account is looked up
  among the ineligible ones only when the decision itself named it.\<close>

definition preferred_of :: "ranking \<Rightarrow> verdict \<Rightarrow> rank_record list" where
  "preferred_of g v =
     (let order = rg_eligible g; decidedId = v_to v;
          decided = (if \<not> truthy decidedId then None
            else case find (\<lambda>r. seq (rk_id r) decidedId) order of Some r \<Rightarrow> Some r
              | None \<Rightarrow> find (\<lambda>r. seq (rk_id r) decidedId) (rg_ranked g))
      in case decided of None \<Rightarrow> order
         | Some r \<Rightarrow> if v_action v = Keep then [r] else r # filter (\<lambda>q. \<not> seq (rk_id q) decidedId) order)"

record plan =
  pl_ranking :: ranking
  pl_repin :: verdict
  pl_repinTrace :: "trace_entry list"
  pl_preferred :: "rank_record list"

definition planAccountSelection :: "(string \<Rightarrow> string \<Rightarrow> bool) \<Rightarrow> jv list \<Rightarrow> jv \<Rightarrow> jv \<Rightarrow> jv \<Rightarrow> jv \<Rightarrow> rank_error + plan" where
  "planAccountSelection collate candidates pin activeLoad model now = (case to_number now of
     Fin nowMs \<Rightarrow>
       (case rankAccounts collate (Arr candidates) (Num (Fin nowMs)) (pin_id pin) activeLoad model of Inl e \<Rightarrow> Inl e
        | Inr g \<Rightarrow> (case decideRepin collate pin (Arr candidates) (Num (Fin nowMs)) [] activeLoad model of Inl e \<Rightarrow> Inl e
          | Inr v \<Rightarrow> Inr \<lparr> pl_ranking = g, pl_repin = v, pl_repinTrace = repin_trace v, pl_preferred = preferred_of g v \<rparr>))
   | _ \<Rightarrow> Inl (ClockTypeError ''planAccountSelection requires an injected clock''))"

section \<open>Requests\<close>

record sched_world =
  leases_w :: lease_module
  db_w :: pin_db

text \<open>A model or a session that is missing is the empty text. \<open>rq_pinAction\<close> is undefined when the
  caller does not resume a command.\<close>

record sched_request =
  rq_session :: string
  rq_model :: string
  rq_accounts :: jv
  rq_windows :: jv
  rq_now :: jv
  rq_pinAction :: jv

record selection =
  se_connection :: jv
  se_lease :: lease_object
  se_receipt :: jv
  se_reason :: string
  se_repin :: verdict
  se_skipped :: "string list"
  se_trace :: "trace_entry list"

record rejection_out =
  re_reason :: string
  re_mustWait :: bool
  re_retryAfter :: int
  re_degraded :: "bool option"
  re_earliestResetAt :: jv
  re_trace :: "trace_entry list"

datatype outcome = Chosen selection | Refused rejection_out

datatype sched_error = RankError rank_error | CommitFailed

definition windowsFor :: "jv \<Rightarrow> jv \<Rightarrow> jv" where
  "windowsFor windows account = (if is_object windows \<and> \<not> is_array windows
     then coalesce (get windows (jstr (get account ''id''))) (coalesce (get account ''windows'') (Arr []))
     else coalesce (get account ''windows'') (Arr []))"

definition candidates_of :: "jv \<Rightarrow> jv \<Rightarrow> jv list" where
  "candidates_of accts windows =
     map (\<lambda>a. Obj (om_set (obj_entries a) ''windows'' (windowsFor windows a)))
       (filter (\<lambda>a. case get a ''id'' of Str s \<Rightarrow> s \<noteq> [] | _ \<Rightarrow> False) (arr_items accts))"

section \<open>Trying the slots\<close>

definition skip_text :: "rank_record \<Rightarrow> string" where
  "skip_text r = take 8 (jstr (rk_id r)) @ '':capacity''"

fun walk_slots :: "int \<Rightarrow> rank_record list \<Rightarrow> lease_module \<Rightarrow> string list
    \<Rightarrow> lease_module \<times> (rank_record \<times> lease_object) option \<times> string list" where
  "walk_slots clock [] m skipped = (m, None, skipped)"
| "walk_slots clock (r # rs) m skipped = (case reserve_lease clock (rk_id r) m of
     (m', None) \<Rightarrow> walk_slots clock rs m' (skipped @ [skip_text r])
   | (m', Some lease) \<Rightarrow> (m', Some (r, lease), skipped))"

definition skipped_trace :: "string list \<Rightarrow> trace_entry list" where
  "skipped_trace skipped = (if skipped = [] then [] else [\<lparr> tr_cls = ''SEL'', tr_verdict = ''skipped'',
     tr_fields = (''alt'', Arr (map Str (take 3 skipped)))
       # (if 3 < length skipped then [(''more'', JInt (int (length skipped) - 3))] else []) \<rparr>])"

definition refused_trace :: "string \<Rightarrow> trace_entry" where
  "refused_trace why = \<lparr> tr_cls = ''SEL'', tr_verdict = ''refused'', tr_fields = [(''why'', Str why)] \<rparr>"

section \<open>The writes of a selection\<close>

definition reason_of :: "bool \<Rightarrow> jv \<Rightarrow> jv \<Rightarrow> string" where
  "reason_of commanded previousPinId target = (if commanded then ''operator-reassignment''
     else if previousPinId = Null then ''first-pin'' else if \<not> seq previousPinId target then ''repin'' else ''pinned'')"

definition receipt_trigger :: "bool \<Rightarrow> jv \<Rightarrow> verdict \<Rightarrow> string" where
  "receipt_trigger commanded previousPinId v = (if commanded then ''operator-reassignment''
     else if previousPinId = Null then ''first-pin''
     else case v_trigger v of None \<Rightarrow> ''exhaustion'' | Some t \<Rightarrow> trigger_name t)"

text \<open>The pin, the receipt and the completed command: the new database and the receipt handed out.\<close>

definition write_selection :: "(string \<Rightarrow> string \<Rightarrow> bool) \<Rightarrow> string \<Rightarrow> pin_clock \<Rightarrow> sched_request \<Rightarrow> rat \<Rightarrow> jv
    \<Rightarrow> pin_action option \<Rightarrow> verdict \<Rightarrow> rank_record \<Rightarrow> pin_db \<Rightarrow> rank_error + pin_db \<times> jv" where
  "write_selection collate uuid clk q nowMs previousPinId action v r db =
     (case iso_of nowMs of Inl e \<Rightarrow> Inl e
      | Inr now \<Rightarrow>
        if previousPinId = Null \<or> \<not> seq previousPinId (rk_id r) then
          (let db1 = setPin clk (rq_session q) (rq_model q) (jstr (rk_id r)) now db in
           case buildSwitchReceipt collate previousPinId (rk_id r) (coalesce (get (rk_account r) ''windows'') (Arr []))
               (Str (receipt_trigger (action \<noteq> None) previousPinId v)) (Str (rq_model q)) (Str (rq_session q)) (Num (Fin nowMs)) of
             Inl e \<Rightarrow> Inl e
           | Inr receipt \<Rightarrow> (let (db2, recorded) = recordSwitch uuid clk receipt db1;
                 db3 = (case action of None \<Rightarrow> db2 | Some a \<Rightarrow> completePinAction a (nowIso clk) db2)
               in Inr (db3, if recorded = Null then receipt else recorded)))
        else (let db1 = touchPin clk (rq_session q) (rq_model q) now db in
           Inr (case action of None \<Rightarrow> db1 | Some a \<Rightarrow> completePinAction a (nowIso clk) db1, Null)))"

section \<open>Select and reserve\<close>

definition refuse_out :: "string \<Rightarrow> bool \<Rightarrow> trace_entry list \<Rightarrow> rejection_out" where
  "refuse_out reason mustWait trace = \<lparr> re_reason = reason, re_mustWait = mustWait, re_retryAfter = RETRY_AFTER_SECONDS,
     re_degraded = None, re_earliestResetAt = Undef, re_trace = trace \<rparr>"

definition resumes_other :: "pin_action option \<Rightarrow> jv \<Rightarrow> bool" where
  "resumes_other action wanted \<longleftrightarrow> wanted \<noteq> Undef
     \<and> \<not> seq (case action of None \<Rightarrow> Null | Some a \<Rightarrow> Str (pa_id a)) wanted"

text \<open>What is left to do once the plan stands.\<close>

definition reserve_plan :: "(string \<Rightarrow> string \<Rightarrow> bool) \<Rightarrow> string \<Rightarrow> int \<Rightarrow> pin_clock \<Rightarrow> sched_request \<Rightarrow> rat \<Rightarrow> jv list
    \<Rightarrow> jv \<Rightarrow> pin_action option \<Rightarrow> plan \<Rightarrow> sched_world \<Rightarrow> sched_world \<times> lease_object option \<times> (rank_error + outcome)" where
  "reserve_plan collate uuid clock clk q nowMs candidates previousPinId action p w =
     (let commanded = (action \<noteq> None); g = pl_ranking p; traces = rg_trace g @ pl_repinTrace p in
      if pl_preferred p = [] then
        (w, None, Inr (Refused \<lparr> re_reason = (if commanded then ''operator-target-unavailable''
             else ''no-eligible-account'' @ (case rg_reason g of Some (c # cs) \<Rightarrow> CHR '':'' # c # cs | _ \<Rightarrow> [])),
           re_mustWait = commanded, re_retryAfter = RETRY_AFTER_SECONDS, re_degraded = Some (rg_degraded g),
           re_earliestResetAt = earliestReset collate candidates nowMs (Str (rq_model q)),
           re_trace = traces @ [refused_trace ''none-eligible''] \<rparr>))
      else case walk_slots clock (pl_preferred p) (leases_w w) [] of
        (m, None, skipped) \<Rightarrow> (w\<lparr> leases_w := m \<rparr>, None, Inr (Refused (refuse_out ''at-capacity'' commanded
           (traces @ skipped_trace skipped
            @ [refused_trace (if v_action (pl_repin p) = NoMove then ''none-eligible'' else ''lease-refused'')]))))
      | (m, Some (r, lease), skipped) \<Rightarrow>
          (case write_selection collate uuid clk q nowMs previousPinId action (pl_repin p) r (db_w w) of
             Inl e \<Rightarrow> (w\<lparr> leases_w := m \<rparr>, Some lease, Inl e)
           | Inr (db, receipt) \<Rightarrow> (w\<lparr> leases_w := m, db_w := db \<rparr>, Some lease, Inr (Chosen
               \<lparr> se_connection = rk_account r, se_lease = lease, se_receipt = receipt,
                 se_reason = reason_of commanded previousPinId (rk_id r), se_repin = pl_repin p, se_skipped = skipped,
                 se_trace = traces @ skipped_trace skipped \<rparr>))))"

text \<open>The body of the transaction: the world, the lease that was taken, and the result.\<close>

definition select_body :: "(string \<Rightarrow> string \<Rightarrow> bool) \<Rightarrow> (string \<Rightarrow> string) \<Rightarrow> string \<Rightarrow> int \<Rightarrow> pin_clock \<Rightarrow> sched_request \<Rightarrow> rat
    \<Rightarrow> sched_world \<Rightarrow> sched_world \<times> lease_object option \<times> (rank_error + outcome)" where
  "select_body collate sha uuid clock clk q nowMs w0 =
     (let candidates = candidates_of (rq_accounts q) (rq_windows q);
          (db, pending) = getPendingPinAction sha (rq_session q) (rq_model q) (nowIso clk) (db_w w0);
          w = w0\<lparr> db_w := db \<rparr>; action = map_option fst pending;
          unavailable = (case pending of None \<Rightarrow> False | Some (a, storageUnavailable) \<Rightarrow> storageUnavailable) in
      if unavailable \<or> resumes_other action (rq_pinAction q)
      then (w, None, Inr (Refused (refuse_out ''pin-command-changed'' True [])))
      else if candidates = []
      then (w, None, Inr (Refused (refuse_out ''no-accounts'' (action \<noteq> None) [refused_trace ''no-accounts''])))
      else let pin = getPin clk db (rq_session q) (rq_model q);
          previousPinId = (case get pin ''connectionId'' of Str s \<Rightarrow> Str s | _ \<Rightarrow> Null) in
        case activeLoadFor candidates (rq_model q) nowMs (leases_w w) db of Inl e \<Rightarrow> (w, None, Inl e)
        | Inr load \<Rightarrow>
          (case planAccountSelection collate
              (case action of None \<Rightarrow> candidates | Some a \<Rightarrow> filter (\<lambda>c. seq (get c ''id'') (Str (pa_target a))) candidates)
              (if action = None then pin else Null) load (Str (rq_model q)) (Num (Fin nowMs)) of
             Inl e \<Rightarrow> (w, None, Inl e)
           | Inr p \<Rightarrow> reserve_plan collate uuid clock clk q nowMs candidates previousPinId action p w))"

text \<open>A throw or a failed commit undoes the database and releases the lease.\<close>

definition rolled_back :: "sched_world \<Rightarrow> sched_world \<Rightarrow> lease_object option \<Rightarrow> sched_world" where
  "rolled_back w0 w taken = \<lparr> leases_w = (case taken of None \<Rightarrow> leases_w w | Some l \<Rightarrow> fst (releaseAccountLease l (leases_w w))),
     db_w = db_w w0 \<rparr>"

definition selectAndReserve :: "(string \<Rightarrow> string \<Rightarrow> bool) \<Rightarrow> (string \<Rightarrow> string) \<Rightarrow> string \<Rightarrow> int \<Rightarrow> pin_clock \<Rightarrow> bool \<Rightarrow> sched_request
    \<Rightarrow> sched_world \<Rightarrow> sched_world \<times> (sched_error + outcome)" where
  "selectAndReserve collate sha uuid clock clk commits q w0 = (case to_number (rq_now q) of
     Fin nowMs \<Rightarrow> (case select_body collate sha uuid clock clk q nowMs w0 of
         (w, taken, Inl e) \<Rightarrow> (rolled_back w0 w taken, Inl (RankError e))
       | (w, taken, Inr out) \<Rightarrow> if commits then (w, Inr out) else (rolled_back w0 w taken, Inl CommitFailed))
   | _ \<Rightarrow> (w0, Inl (RankError (ClockTypeError ''selectAndReserve requires an injected numeric or Date `now`''))))"

end
