(* ===== verification/SchedulerGuarantees.thy ===== *)
theory SchedulerGuarantees
  imports Scheduler
begin

text \<open>
  What select-and-reserve promises: one slot or none, nothing left behind by a failure, the account
  the policy named, a pin and a receipt that agree with what was served.
\<close>

section \<open>The slots that are tried\<close>

definition same_slots :: "lease_module \<Rightarrow> lease_module \<Rightarrow> bool" where
  "same_slots m m' \<longleftrightarrow> module_ok m' \<and> (\<forall>k. module_holds m' k = module_holds m k)
     \<and> capacityByConnection m' = capacityByConnection m"

lemma same_slots_refl: "module_ok m \<Longrightarrow> same_slots m m"
  by (simp add: same_slots_def)

lemma same_slots_trans: "same_slots m m1 \<Longrightarrow> same_slots m1 m2 \<Longrightarrow> same_slots m m2"
  by (simp add: same_slots_def)

lemma reserve_lease_capacities [simp]: "capacityByConnection (fst (reserve_lease now cid m)) = capacityByConnection m"
  by (simp add: reserve_lease_def reserve_account_def Let_def split: option.split prod.split)

text \<open>One slot more, on one connection and below its ceiling.\<close>

definition one_slot :: "lease_module \<Rightarrow> lease_module \<Rightarrow> string \<Rightarrow> lease_object \<Rightarrow> bool" where
  "one_slot m m' cid l \<longleftrightarrow> module_ok m' \<and> capacityByConnection m' = capacityByConnection m \<and> (\<forall>k. l \<notin> module_holds m k)
     \<and> (\<forall>k. module_holds m' k = (if k = Some cid then insert l (module_holds m k) else module_holds m k))
     \<and> (\<forall>n. gated_limit (registry_capacityOf m cid) = Some n \<longrightarrow> countOf (accounts m') cid \<le> n)"

lemma capacity_cong: "capacityByConnection m' = capacityByConnection m \<Longrightarrow> registry_capacityOf m' cid = registry_capacityOf m cid"
  by (simp add: registry_capacityOf_def)

lemma used_module: "lease_module_pool.used m (Some cid) = length (leases_on (accounts m) cid)"
  if "module_ok m"
proof -
  have reg: "registry_ok (accounts m)" using that by (simp add: module_upto_def)
  have "card (AccountLease ` set ls) = card (set ls)" for ls by (rule card_image) (simp add: inj_on_def)
  then show ?thesis
    using distinct_leases_on [OF reg] by (simp add: lease_module_pool.used_def module_holds_def distinct_card)
qed

lemma take_one_slot:
  assumes m: "module_ok m" and r: "reserve_lease now cid m = (m', Some l)"
  shows "one_slot m m' (lease_key cid) l"
proof -
  have t: "module_take (Inl (now, cid)) m = (m', Some l)" by (simp add: module_take_def r)
  have m': "module_ok m'" using lease_module_pool.take_ok [OF m, of "Inl (now, cid)"] t by simp
  have "countOf (accounts m') (lease_key cid) \<le> n" if n: "gated_limit (registry_capacityOf m (lease_key cid)) = Some n" for n
  proof -
    have lim: "module_limit (Inl (now, cid)) m = Some (nat n)" by (simp add: module_limit_def lease_cap_def n)
    have "0 < n" using n by (auto simp: gated_limit_def split: jv.splits jsnum.splits if_splits)
    then show ?thesis
      using lease_module_pool.take_within_limit [OF m _ lim, of l] t used_module [OF m', of "lease_key cid"]
      by (simp add: module_key_def countOf_def)
  qed
  then show ?thesis
    using m' lease_module_pool.take_fresh [OF m, of "Inl (now, cid)" l] lease_module_pool.take_holds [OF m, of "Inl (now, cid)"] t
      reserve_lease_capacities [of now cid m] r
    by (simp add: one_slot_def module_key_def)
qed

lemma refused_slot:
  assumes m: "module_ok m" and r: "reserve_lease now cid m = (m', None)"
  shows "same_slots m m'"
proof -
  have t: "module_take (Inl (now, cid)) m = (m', None)" by (simp add: module_take_def r)
  then show ?thesis
    using lease_module_pool.take_ok [OF m, of "Inl (now, cid)"] lease_module_pool.take_holds [OF m, of "Inl (now, cid)"]
      reserve_lease_capacities [of now cid m] r
    by (simp add: same_slots_def)
qed

lemma one_slot_after: "same_slots m m1 \<Longrightarrow> one_slot m1 m2 cid l \<Longrightarrow> one_slot m m2 cid l"
  using capacity_cong [of m1 m cid] by (simp add: same_slots_def one_slot_def)

lemma walk_slots_none:
  "module_ok m \<Longrightarrow> walk_slots clock rs m skipped = (m', None, skipped') \<Longrightarrow> same_slots m m'"
proof (induction rs arbitrary: m skipped)
  case (Cons r rs)
  obtain m1 x where r: "reserve_lease clock (rk_id r) m = (m1, x)" by fastforce
  then have x: "x = None" using Cons.prems(2) by (cases x) simp_all
  then have "same_slots m m1" using refused_slot [OF Cons.prems(1)] r by simp
  moreover from this have "same_slots m1 m'"
    using Cons.IH [of m1 "skipped @ [skip_text r]"] Cons.prems(2) r x by (simp add: same_slots_def)
  ultimately show ?case by (rule same_slots_trans)
qed (simp add: same_slots_refl)

lemma walk_slots_some:
  "module_ok m \<Longrightarrow> walk_slots clock rs m skipped = (m', Some (r, l), skipped') \<Longrightarrow> r \<in> set rs \<and> one_slot m m' (lease_key (rk_id r)) l"
proof (induction rs arbitrary: m skipped)
  case (Cons q rs)
  obtain m1 x where q: "reserve_lease clock (rk_id q) m = (m1, x)" by fastforce
  show ?case
  proof (cases x)
    case None
    then have s: "same_slots m m1" using refused_slot [OF Cons.prems(1)] q by simp
    then have "r \<in> set rs \<and> one_slot m1 m' (lease_key (rk_id r)) l"
      using Cons.IH [of m1 "skipped @ [skip_text q]"] Cons.prems(2) q None by (simp add: same_slots_def)
    then show ?thesis using one_slot_after [OF s] by simp
  next
    case (Some l')
    then show ?thesis using Cons.prems(2) q take_one_slot [OF Cons.prems(1)] by simp
  qed
qed simp

lemma release_capacities [simp]: "capacityByConnection (fst (releaseAccountLease l m)) = capacityByConnection m"
  by (simp add: releaseAccountLease_def free_permit_def split: lease_object.split prod.split)

lemma release_one_slot:
  assumes "one_slot m m' cid l"
  shows "same_slots m (fst (releaseAccountLease l m'))"
proof -
  have m': "module_ok m'" using assms by (simp add: one_slot_def)
  have "module_holds (fst (releaseAccountLease l m')) k = module_holds m k" for k
    using assms module_holds_release(1) [OF m', of l k] by (auto simp: one_slot_def)
  then show ?thesis using assms releaseAccountLease_ok [OF m'] by (simp add: same_slots_def one_slot_def)
qed

section \<open>The outcomes of the transaction\<close>

definition walked :: "int \<Rightarrow> plan \<Rightarrow> lease_module \<Rightarrow> lease_module \<Rightarrow> rank_record \<Rightarrow> lease_object \<Rightarrow> bool" where
  "walked clock p m m' r l \<longleftrightarrow> (\<exists>skipped. walk_slots clock (pl_preferred p) m [] = (m', Some (r, l), skipped))"

lemma reserve_plan_cases:
  assumes "reserve_plan collate uuid clock clk q nowMs candidates previousPinId action p w = (w', taken, res)"
    and "module_ok (leases_w w)"
  obtains (refused) x where "res = Inr (Refused x)" "taken = None" "db_w w' = db_w w" "same_slots (leases_w w) (leases_w w')"
  | (failed) r l e where "res = Inl e" "taken = Some l" "walked clock p (leases_w w) (leases_w w') r l"
  | (served) r l db receipt s where "res = Inr (Chosen s)" "taken = Some l" "walked clock p (leases_w w) (leases_w w') r l"
      "write_selection collate uuid clk q nowMs previousPinId action (pl_repin p) r (db_w w) = Inr (db, receipt)" "db_w w' = db"
      "se_connection s = rk_account r" "se_lease s = l" "se_receipt s = receipt" "se_repin s = pl_repin p"
      "se_reason s = reason_of (action \<noteq> None) previousPinId (rk_id r)"
proof (cases "pl_preferred p = []")
  case True
  then show ?thesis using assms by (intro refused) (auto simp: reserve_plan_def Let_def same_slots_refl)
next
  case False
  obtain m x skipped where wk: "walk_slots clock (pl_preferred p) (leases_w w) [] = (m, x, skipped)" by (metis prod_cases3)
  show ?thesis
  proof (cases x)
    case None
    then show ?thesis using assms False wk walk_slots_none [OF assms(2)]
      by (intro refused) (auto simp: reserve_plan_def Let_def)
  next
    case (Some rl)
    obtain r l where rl: "rl = (r, l)" by (cases rl)
    have walk: "walked clock p (leases_w w) m r l" using wk Some rl by (auto simp: walked_def)
    show ?thesis
    proof (cases "write_selection collate uuid clk q nowMs previousPinId action (pl_repin p) r (db_w w)")
      case (Inl e)
      then show ?thesis using assms(1) False wk Some rl walk by (intro failed) (auto simp: reserve_plan_def Let_def)
    next
      case (Inr dr)
      obtain db receipt where dr: "dr = (db, receipt)" by (cases dr)
      show ?thesis
        by (rule served [of _ l r db receipt]) (use assms(1) False wk Some rl walk Inr dr in \<open>auto simp: reserve_plan_def Let_def\<close>)
    qed
  qed
qed

text \<open>The pin and the command a request finds.\<close>

definition found_action :: "(string \<Rightarrow> string) \<Rightarrow> pin_clock \<Rightarrow> sched_request \<Rightarrow> pin_db \<Rightarrow> pin_action option" where
  "found_action sha clk q db = map_option fst (snd (getPendingPinAction sha (rq_session q) (rq_model q) (nowIso clk) db))"

definition found_db :: "(string \<Rightarrow> string) \<Rightarrow> pin_clock \<Rightarrow> sched_request \<Rightarrow> pin_db \<Rightarrow> pin_db" where
  "found_db sha clk q db = fst (getPendingPinAction sha (rq_session q) (rq_model q) (nowIso clk) db)"

definition found_pin :: "pin_clock \<Rightarrow> sched_request \<Rightarrow> pin_db \<Rightarrow> jv" where
  "found_pin clk q db = getPin clk db (rq_session q) (rq_model q)"

definition previous_id :: "jv \<Rightarrow> jv" where
  "previous_id pin = (case get pin ''connectionId'' of Str s \<Rightarrow> Str s | _ \<Rightarrow> Null)"

lemma found_db_tables [simp]:
  "affinity (found_db sha clk q db) = affinity db" "switches (found_db sha clk q db) = switches db"
  by (simp_all add: found_db_def getPendingPinAction_def Let_def split: option.split)

lemma found_pin_db [simp]: "found_pin clk q (found_db sha clk q db) = found_pin clk q db"
  by (simp add: found_pin_def getPin_def)

text \<open>The plan of a request, with the load it was made on.\<close>

definition plan_of :: "(string \<Rightarrow> string \<Rightarrow> bool) \<Rightarrow> pin_clock \<Rightarrow> sched_request \<Rightarrow> rat \<Rightarrow> pin_action option \<Rightarrow> pin_db \<Rightarrow> jv \<Rightarrow> rank_error + plan" where
  "plan_of collate clk q nowMs action db load =
     (let candidates = candidates_of (rq_accounts q) (rq_windows q) in
      planAccountSelection collate
        (case action of None \<Rightarrow> candidates | Some a \<Rightarrow> filter (\<lambda>c. seq (get c ''id'') (Str (pa_target a))) candidates)
        (if action = None then found_pin clk q db else Null) load (Str (rq_model q)) (Num (Fin nowMs)))"

lemma select_body_cases:
  assumes "select_body collate sha uuid clock clk q nowMs w0 = (w, taken, res)" and "module_ok (leases_w w0)"
  obtains (refused) x where "res = Inr (Refused x)" "taken = None" "same_slots (leases_w w0) (leases_w w)" "db_w w = found_db sha clk q (db_w w0)"
  | (early) e where "res = Inl e" "taken = None" "leases_w w = leases_w w0"
  | (failed) r l e p where "res = Inl e" "taken = Some l" "walked clock p (leases_w w0) (leases_w w) r l"
  | (served) load p r l db receipt s where "res = Inr (Chosen s)" "taken = Some l" "walked clock p (leases_w w0) (leases_w w) r l"
      "plan_of collate clk q nowMs (found_action sha clk q (db_w w0)) (db_w w0) load = Inr p"
      "write_selection collate uuid clk q nowMs (previous_id (found_pin clk q (db_w w0))) (found_action sha clk q (db_w w0))
         (pl_repin p) r (found_db sha clk q (db_w w0)) = Inr (db, receipt)" "db_w w = db"
      "se_connection s = rk_account r" "se_lease s = l" "se_receipt s = receipt" "se_repin s = pl_repin p"
      "se_reason s = reason_of (found_action sha clk q (db_w w0) \<noteq> None) (previous_id (found_pin clk q (db_w w0))) (rk_id r)"
proof -
  obtain db pending where g: "getPendingPinAction sha (rq_session q) (rq_model q) (nowIso clk) (db_w w0) = (db, pending)" by fastforce
  have fd: "found_db sha clk q (db_w w0) = db" and fa: "found_action sha clk q (db_w w0) = map_option fst pending"
    by (simp_all add: found_db_def found_action_def g)
  have fp: "getPin clk db (rq_session q) (rq_model q) = found_pin clk q (db_w w0)"
    using found_pin_db [of clk q sha "db_w w0"] by (simp add: found_pin_def fd)
  let ?cs = "candidates_of (rq_accounts q) (rq_windows q)"
  let ?w = "w0\<lparr> db_w := db \<rparr>" and ?prev = "previous_id (found_pin clk q (db_w w0))"
  let ?stop = "(case pending of None \<Rightarrow> False | Some (a, u) \<Rightarrow> u) \<or> resumes_other (map_option fst pending) (rq_pinAction q)"
  consider "?stop" | "\<not> ?stop" "?cs = []" | (go) "\<not> (?stop \<or> ?cs = [])" by blast
  then show ?thesis
  proof cases
    case 1
    then show ?thesis using assms g by (intro refused) (auto simp: select_body_def Let_def same_slots_refl fd)
  next
    case 2
    then show ?thesis using assms g by (intro refused) (auto simp: select_body_def Let_def same_slots_refl fd)
  next
    case False: go
    show ?thesis
    proof (cases "activeLoadFor ?cs (rq_model q) nowMs (leases_w w0) db")
      case (Inl e)
      then show ?thesis using assms(1) g False by (intro early) (auto simp: select_body_def Let_def)
    next
      case (Inr load)
      show ?thesis
      proof (cases "plan_of collate clk q nowMs (map_option fst pending) (db_w w0) load")
        case (Inl e)
        then show ?thesis using assms(1) g False Inr
          by (intro early) (auto simp: select_body_def plan_of_def fp Let_def)
      next
        case plan: (Inr p)
        have "reserve_plan collate uuid clock clk q nowMs ?cs ?prev (map_option fst pending) p ?w = (w, taken, res)"
          using assms(1) g False Inr plan by (simp add: select_body_def plan_of_def previous_id_def fp Let_def)
        moreover have "module_ok (leases_w ?w)" using assms(2) by simp
        ultimately show ?thesis
        proof (cases rule: reserve_plan_cases)
          case (refused x)
          then show ?thesis by (intro that(1)) (simp_all add: fd)
        next
          case (failed r l e)
          then show ?thesis by (intro that(3)) simp_all
        next
          case (served r l db' receipt s)
          then show ?thesis using plan by (intro that(4)) (simp_all add: fa fd)
        qed
      qed
    qed
  qed
qed

lemma walked_slot:
  "module_ok m \<Longrightarrow> walked clock p m m' r l \<Longrightarrow> r \<in> set (pl_preferred p) \<and> one_slot m m' (lease_key (rk_id r)) l"
  unfolding walked_def using walk_slots_some by blast

lemma preferred_ranked:
  assumes "rankAccounts collate accts now prev load model = Inr g"
  shows "set (preferred_of g v) \<subseteq> set (rg_ranked g)"
proof -
  have "set (rg_eligible g) \<subseteq> set (rg_ranked g)" using eligible_ranked [OF assms] by blast
  then show ?thesis
    by (auto simp: preferred_of_def Let_def split: option.splits if_splits dest: find_set)
qed

lemma planAccountSelection_Inr:
  assumes "planAccountSelection collate cs pin load model now = Inr p"
  obtains nowMs g v where "to_number now = Fin nowMs" "rankAccounts collate (Arr cs) (Num (Fin nowMs)) (pin_id pin) load model = Inr g"
    "decideRepin collate pin (Arr cs) (Num (Fin nowMs)) [] load model = Inr v"
    "pl_ranking p = g" "pl_repin p = v" "pl_preferred p = preferred_of g v"
  using assms by (auto simp: planAccountSelection_def split: jsnum.splits sum.splits)

lemma plan_ids:
  assumes "planAccountSelection collate cs pin load model now = Inr p" and "r \<in> set (pl_preferred p)"
  shows "rk_id r = get (rk_account r) ''id'' \<and> rk_account r \<in> set cs"
proof -
  obtain nowMs g v where g: "rankAccounts collate (Arr cs) (Num (Fin nowMs)) (pin_id pin) load model = Inr g"
    and p: "pl_preferred p = preferred_of g v"
    using planAccountSelection_Inr [OF assms(1)] by metis
  then have "r \<in> set (rg_ranked g)" using preferred_ranked [OF g] assms(2) by auto
  then show ?thesis using ranked_ids [OF g] by simp
qed

section \<open>One slot or none\<close>

lemma selection_slots:
  assumes "selectAndReserve collate sha uuid clock clk commits q w0 = (w, res)" and "module_ok (leases_w w0)"
  shows "case res of
      Inl e \<Rightarrow> same_slots (leases_w w0) (leases_w w) \<and> db_w w = db_w w0
    | Inr (Refused x) \<Rightarrow> same_slots (leases_w w0) (leases_w w)
    | Inr (Chosen s) \<Rightarrow> one_slot (leases_w w0) (leases_w w) (lease_key (get (se_connection s) ''id'')) (se_lease s)"
proof -
  have undone: "same_slots (leases_w w0) (leases_w (rolled_back w0 w' taken)) \<and> db_w (rolled_back w0 w' taken) = db_w w0"
    if "case taken of None \<Rightarrow> same_slots (leases_w w0) (leases_w w') | Some l \<Rightarrow> \<exists>cid. one_slot (leases_w w0) (leases_w w') cid l"
    for w' :: sched_world and taken
    using that release_one_slot by (auto simp: rolled_back_def split: option.splits)
  show ?thesis
  proof (cases "to_number (rq_now q)")
    case (Fin nowMs)
    obtain w' taken out where b: "select_body collate sha uuid clock clk q nowMs w0 = (w', taken, out)" by (metis prod_cases3)
    from b assms(2) show ?thesis
    proof (cases rule: select_body_cases)
      case (refused x)
      then show ?thesis using assms(1) Fin b undone [of w' taken]
        by (cases commits) (auto simp: selectAndReserve_def)
    next
      case (early e)
      then show ?thesis using assms Fin b undone [of w' taken]
        by (auto simp: selectAndReserve_def same_slots_refl)
    next
      case (failed r l e p)
      then have "\<exists>cid. one_slot (leases_w w0) (leases_w w') cid l" using walked_slot [OF assms(2)] by blast
      then show ?thesis using failed assms(1) Fin b undone [of w' taken]
        by (auto simp: selectAndReserve_def)
    next
      case (served load p r l db receipt s)
      then have o: "one_slot (leases_w w0) (leases_w w') (lease_key (rk_id r)) l" "r \<in> set (pl_preferred p)"
        using walked_slot [OF assms(2)] by blast+
      have "rk_id r = get (rk_account r) ''id''"
        using plan_ids [OF served(4) [unfolded plan_of_def Let_def] o(2)] by simp
      have "same_slots (leases_w w0) (leases_w (rolled_back w0 w' taken)) \<and> db_w (rolled_back w0 w' taken) = db_w w0"
        by (rule undone) (use served(2) o(1) in auto)
      then show ?thesis using served(1,7,8) o(1) assms(1) Fin b \<open>rk_id r = _\<close>
        by (cases commits) (auto simp: selectAndReserve_def)
    qed
  qed (use assms in \<open>auto simp: selectAndReserve_def same_slots_refl\<close>)
qed

text \<open>C3: a request takes one slot or none. When it is refused, and when anything throws or the commit
  fails after a slot was taken, every connection holds the leases it held before, and a failure leaves
  the database as it was. When it is served, exactly one lease was added, on the connection that is
  returned and below that connection's ceiling.\<close>

theorem selection_takes_one_slot:
  assumes "selectAndReserve collate sha uuid clock clk commits q w0 = (w, res)" and "module_ok (leases_w w0)"
  shows "case res of
      Inl e \<Rightarrow> same_slots (leases_w w0) (leases_w w) \<and> db_w w = db_w w0
    | Inr (Refused x) \<Rightarrow> same_slots (leases_w w0) (leases_w w)
    | Inr (Chosen s) \<Rightarrow> one_slot (leases_w w0) (leases_w w) (lease_key (get (se_connection s) ''id'')) (se_lease s)"
  by (rule selection_slots [OF assms])

section \<open>Who serves a request\<close>

text \<open>The accounts a request may be served by, and what a decision of the policy makes of them.\<close>

lemma candidates_ids:
  assumes "a \<in> set (candidates_of accts windows)"
  shows "\<exists>cid. get a ''id'' = Str cid \<and> cid \<noteq> []"
proof -
  obtain b where b: "a = Obj (om_set (obj_entries b) ''windows'' (windowsFor windows b))"
    and i: "case get b ''id'' of Str s \<Rightarrow> s \<noteq> [] | _ \<Rightarrow> False"
    using assms by (auto simp: candidates_of_def)
  have "get a ''id'' = get b ''id''" unfolding b using i by (cases b) (auto simp: om_get_set split: option.split)
  then show ?thesis using i by (cases "get b ''id''") auto
qed

lemma preferred_cases:
  assumes "r \<in> set (preferred_of g v)"
    and "v_action v = Move \<Longrightarrow> \<exists>q \<in> set (rg_eligible g). rk_id q = v_to v" and "v_action v = NoMove \<Longrightarrow> v_to v = Null"
    and "\<And>q. q \<in> set (rg_eligible g) \<Longrightarrow> seq (rk_id q) (rk_id q)"
  shows "r \<in> set (rg_eligible g) \<or> v_action v = Keep \<and> seq (rk_id r) (v_to v)"
proof -
  let ?el = "find (\<lambda>r. seq (rk_id r) (v_to v)) (rg_eligible g)" and ?rk = "find (\<lambda>r. seq (rk_id r) (v_to v)) (rg_ranked g)"
  show ?thesis
  proof (cases "v_action v")
    case Keep
    then show ?thesis
      using assms(1) find_set [of "\<lambda>r. seq (rk_id r) (v_to v)"]
      by (auto simp: preferred_of_def Let_def split: option.splits if_splits)
  next
    case Move
    then obtain q where q: "q \<in> set (rg_eligible g)" "seq (rk_id q) (v_to v)" using assms(2,4) by metis
    then have "?el \<noteq> None" using find_None_all by fastforce
    then show ?thesis
      using assms(1) Move find_set [of "\<lambda>r. seq (rk_id r) (v_to v)" "rg_eligible g"]
      by (auto simp: preferred_of_def Let_def split: option.splits if_splits)
  next
    case NoMove
    then show ?thesis using assms(1,3) by (simp add: preferred_of_def Let_def)
  qed
qed

lemma kept_pin_alone:
  assumes g: "rankAccounts collate (Arr cs) now prev load model = Inr g" and k: "v_action v = Keep" "truthy (v_to v)"
    and a: "a \<in> set cs" "seq (get a ''id'') (v_to v)" and r: "r \<in> set (preferred_of g v)"
  shows "seq (rk_id r) (v_to v)"
proof -
  obtain n where rk: "rg_ranked g = rank_order (context_of load prev (rank_input collate (Arr cs) n load model)) (rank_input collate (Arr cs) n load model)"
    using rankAccounts_Inr [OF g] by metis
  have "a \<in> rk_account ` set (rank_records collate n load model cs)"
    using rank_records_accounts [of collate n load model cs] a(1) by (metis list.set_map)
  then obtain q where "q \<in> set (rg_ranked g)" "rk_account q = a" by (auto simp: rk rank_input_def)
  then have q: "q \<in> set (rg_ranked g)" "seq (rk_id q) (v_to v)" using ranked_ids [OF g] a(2) by auto
  let ?P = "\<lambda>r. seq (rk_id r) (v_to v)"
  have "find ?P (rg_ranked g) \<noteq> None" using q find_None_all by fastforce
  then obtain x where "preferred_of g v = [x]" "find ?P (rg_eligible g) = Some x \<or> find ?P (rg_ranked g) = Some x"
    using k by (cases "find ?P (rg_eligible g)") (auto simp: preferred_of_def Let_def)
  then show ?thesis using r find_set [of ?P] by auto
qed

lemma cohort_all [simp]: "cohort_of (Arr cs) [] = cs"
  by (simp add: cohort_of_def)

lemma eligible_spec:
  assumes g: "rankAccounts collate (Arr cs) (Num (Fin nowMs)) prev load model = Inr g" and r: "r \<in> set (rg_eligible g)"
  shows "accountSupportsModel (rk_account r) model
     \<and> (\<forall>row \<in> set (arr_items (get (rk_account r) ''windows'')). \<not> row_speaks_against nowMs model row)"
proof -
  obtain n where n: "to_number (Num (Fin nowMs)) = Fin n"
    and rk: "rg_ranked g = rank_order (context_of load prev (rank_input collate (Arr cs) n load model)) (rank_input collate (Arr cs) n load model)"
    using rankAccounts_Inr [OF g] by metis
  have n': "n = nowMs" using n by simp
  have el: "r \<in> set (rank_records collate nowMs load model cs)" "rk_usable r"
    using eligible_ranked [OF g r] by (simp_all add: rk rank_input_def n')
  then obtain i where i: "r = rank_record_of collate nowMs load model i (rk_account r)" using rank_records_elem by blast
  show ?thesis using el(2) rank_record_usable [of collate nowMs load model i "rk_account r"] i by simp
qed

lemma no_verdict_target:
  "v_action (repin_of collate pin cohort nowMs model g) = NoMove \<Longrightarrow> v_to (repin_of collate pin cohort nowMs model g) = Null"
  unfolding repin_of_def Let_def
  by (auto simp: keep_pin_def move_pin_def no_verdict_def split: option.splits if_splits)

text \<open>The plan of a request without a command, with the ranking and the verdict behind it.\<close>

lemma plan_sound:
  assumes p: "planAccountSelection collate cs pin load model (Num (Fin nowMs)) = Inr p" and ids: "\<forall>a \<in> set cs. \<exists>cid. get a ''id'' = Str cid \<and> cid \<noteq> []"
    and r: "r \<in> set (pl_preferred p)"
  shows "(accountSupportsModel (rk_account r) model
       \<and> (\<forall>row \<in> set (arr_items (get (rk_account r) ''windows'')). \<not> row_speaks_against nowMs model row))
     \<or> v_action (pl_repin p) = Keep"
    and "v_action (pl_repin p) = Keep \<Longrightarrow> rk_id r = pin_id pin"
proof -
  obtain n g v where n: "to_number (Num (Fin nowMs)) = Fin n"
    and g: "rankAccounts collate (Arr cs) (Num (Fin n)) (pin_id pin) load model = Inr g"
    and v: "decideRepin collate pin (Arr cs) (Num (Fin n)) [] load model = Inr v"
    and pl: "pl_repin p = v" "pl_preferred p = preferred_of g v"
    using planAccountSelection_Inr [OF p] by metis
  have n': "n = nowMs" using n by simp
  have rk: "r \<in> set (rg_ranked g)" using preferred_ranked [OF g] r pl by auto
  then have cs: "cs \<noteq> []" using ranked_ids [OF g rk] by auto
  have t: "\<forall>a \<in> set cs. truthy (get a ''id'')" using ids by fastforce
  have snd: "sound_verdict (pin_id pin) cs g v"
    using decideRepin_cases [OF v, of g] repin_sound [OF g t] g cs by simp
  have str: "\<exists>cid. rk_id q = Str cid" if "q \<in> set (rg_ranked g)" for q
    using ranked_ids [OF g that] ids by auto
  have "r \<in> set (rg_eligible g) \<or> v_action v = Keep"
  proof -
    have "seq (rk_id q) (rk_id q)" if "q \<in> set (rg_eligible g)" for q
      using str [of q] eligible_ranked [OF g that] by auto
    moreover have "v_action v = NoMove \<Longrightarrow> v_to v = Null"
      using decideRepin_cases [OF v, of g] g cs no_verdict_target by simp
    moreover have "v_action v = Move \<Longrightarrow> \<exists>q \<in> set (rg_eligible g). rk_id q = v_to v"
      using snd by (simp add: sound_verdict_def)
    ultimately show ?thesis using preferred_cases [of r g v] r pl(2) by metis
  qed
  then show "(accountSupportsModel (rk_account r) model
       \<and> (\<forall>row \<in> set (arr_items (get (rk_account r) ''windows'')). \<not> row_speaks_against nowMs model row))
     \<or> v_action (pl_repin p) = Keep"
    using eligible_spec [OF g [unfolded n']] pl(1) by auto
  show "rk_id r = pin_id pin" if k: "v_action (pl_repin p) = Keep"
  proof -
    have "v_to v = pin_id pin" "truthy (v_to v)" "\<exists>a \<in> set cs. seq (get a ''id'') (v_to v)"
      using snd k pl(1) by (auto simp: sound_verdict_def)
    then show ?thesis using kept_pin_alone [OF g _ _ _ _ r [unfolded pl(2)]] k pl(1) seq_imp_eq by metis
  qed
qed

lemma served_request:
  assumes "selectAndReserve collate sha uuid clock clk commits q w0 = (w, Inr (Chosen s))" and "module_ok (leases_w w0)"
    and "found_action sha clk q (db_w w0) = None"
  obtains nowMs load p r where "to_number (rq_now q) = Fin nowMs"
    "planAccountSelection collate (candidates_of (rq_accounts q) (rq_windows q)) (found_pin clk q (db_w w0)) load
       (Str (rq_model q)) (Num (Fin nowMs)) = Inr p"
    "r \<in> set (pl_preferred p)" "se_connection s = rk_account r" "se_repin s = pl_repin p"
    "write_selection collate uuid clk q nowMs (previous_id (found_pin clk q (db_w w0))) None (pl_repin p) r
       (found_db sha clk q (db_w w0)) = Inr (db_w w, se_receipt s)"
    "se_reason s = reason_of False (previous_id (found_pin clk q (db_w w0))) (rk_id r)"
proof (cases "to_number (rq_now q)")
  case (Fin nowMs)
  obtain w' taken out where b: "select_body collate sha uuid clock clk q nowMs w0 = (w', taken, out)" by (metis prod_cases3)
  have o: "out = Inr (Chosen s)" "w' = w"
    using assms(1) Fin b by (auto simp: selectAndReserve_def split: sum.splits if_splits)
  from b assms(2) show ?thesis
  proof (cases rule: select_body_cases)
    case (served load p r l db receipt s')
    then have "s' = s" using o by simp
    then show ?thesis
      using served Fin assms(3) o(2) walked_slot [OF assms(2) served(3)]
      by (intro that [of nowMs load p r]) (simp_all add: plan_of_def)
  qed (use o in simp_all)
qed (use assms(1) in \<open>simp_all add: selectAndReserve_def\<close>)

text \<open>C12: a request is served by an account of its own list, and only by one that may serve it: its model
  selection allows the model, and no row states a ceiling of zero or an exhausted window that has not
  reset. The one exception is the account the session is already pinned to, when the policy keeps the
  pin; and when it does, no other account is used.\<close>

theorem served_account_is_allowed:
  assumes "selectAndReserve collate sha uuid clock clk commits q w0 = (w, Inr (Chosen s))" and "module_ok (leases_w w0)"
    and "found_action sha clk q (db_w w0) = None" and "to_number (rq_now q) = Fin nowMs"
  shows "se_connection s \<in> set (candidates_of (rq_accounts q) (rq_windows q))
    \<and> (v_action (se_repin s) \<noteq> Keep \<longrightarrow> accountSupportsModel (se_connection s) (Str (rq_model q))
        \<and> (\<forall>row \<in> set (arr_items (get (se_connection s) ''windows'')). \<not> row_speaks_against nowMs (Str (rq_model q)) row))
    \<and> (v_action (se_repin s) = Keep \<longrightarrow> get (se_connection s) ''id'' = pin_id (found_pin clk q (db_w w0)))"
proof -
  obtain load p r where p: "planAccountSelection collate (candidates_of (rq_accounts q) (rq_windows q)) (found_pin clk q (db_w w0)) load
       (Str (rq_model q)) (Num (Fin nowMs)) = Inr p"
    and r: "r \<in> set (pl_preferred p)" "se_connection s = rk_account r" "se_repin s = pl_repin p"
    using served_request [OF assms(1-3)] assms(4) by (metis jsnum.inject(1))
  have ids: "\<forall>a \<in> set (candidates_of (rq_accounts q) (rq_windows q)). \<exists>cid. get a ''id'' = Str cid \<and> cid \<noteq> []"
    using candidates_ids by blast
  show ?thesis
    using plan_sound [OF p ids r(1)] plan_ids [OF p r(1)] r(2,3) by auto
qed

end
