(* ===== verification/SessionGuarantees.thy ===== *)
theory SessionGuarantees
  imports SchedulerGuarantees
begin

text \<open>
  What the scheduler does to a session: the pin and the receipt agree with the account that served,
  a healthy session stays where it is, and no history of selections and releases over-admits an
  account.
\<close>

section \<open>The pin and the receipt\<close>

definition swept_away :: "pin_clock \<Rightarrow> affinity_row option \<Rightarrow> affinity_row option" where
  "swept_away clk r = (case r of None \<Rightarrow> None | Some r \<Rightarrow> if swept (nowIso clk) r then None else Some r)"

lemma setPin_affinity:
  assumes "distinct (om_keys (affinity db))" and "session \<noteq> []" "model \<noteq> []" "conn \<noteq> []"
  shows "om_get (affinity (setPin clk session model conn now db)) k = swept_away clk
     (if k = (session, model) then Some \<lparr> a_connectionId = conn,
        a_providerNode = (case om_get (affinity db) k of None \<Rightarrow> None | Some r \<Rightarrow> a_providerNode r),
        a_pinnedAt = (if now = [] then nowIso clk else now), a_expiresAt = Some (expiresAtIso clk),
        a_operatorExpiresAt = None, a_lastSeenAt = nowIso clk \<rparr>
      else om_get (affinity db) k)"
  using assms
  by (auto simp: setPin_def sweepExpired_def upsert_pin_def swept_away_def om_get_filter distinct_om_set split: option.split)

lemma setPin_switches [simp]: "switches (setPin clk session model conn now db) = switches db"
  by (simp add: setPin_def sweepExpired_def upsert_pin_def)

lemma recordSwitch_affinity [simp]: "affinity (fst (recordSwitch uuid clk receipt db)) = affinity db"
  by (simp add: recordSwitch_def)

lemma completePinAction_tables [simp]:
  "affinity (completePinAction a now db) = affinity db" "switches (completePinAction a now db) = switches db"
  by (simp_all add: completePinAction_def Let_def)

lemma touchPin_switches [simp]: "switches (touchPin clk session model now db) = switches db"
  by (simp add: touchPin_def split: option.split)

text \<open>Where a session stands after it was served.\<close>

definition pin_row :: "sched_request \<Rightarrow> pin_db \<Rightarrow> affinity_row option" where
  "pin_row q db = om_get (affinity db) (rq_session q, rq_model q)"

lemma found_pin_row:
  assumes "previous_id (found_pin clk q db) = Str cid"
  shows "\<exists>r. pin_row q db = Some r \<and> a_connectionId r = cid \<and> rq_session q \<noteq> [] \<and> rq_model q \<noteq> []"
  using assms
  by (auto simp: previous_id_def found_pin_def getPin_def livePin_def pin_row_def split: option.splits if_splits)

lemma found_pin_nonempty: "previous_id (found_pin clk q db) = Str cid \<Longrightarrow> cid \<noteq> []"
  by (auto simp: previous_id_def found_pin_def getPin_def livePin_def split: option.splits if_splits)

lemma previous_id_cases: "previous_id pin = Null \<or> (\<exists>cid. previous_id pin = Str cid)"
  by (simp add: previous_id_def split: jv.split)

definition switched_row :: "sched_request \<Rightarrow> jv \<Rightarrow> string \<Rightarrow> switch_row \<Rightarrow> bool" where
  "switched_row q previous cid row \<longleftrightarrow> sw_sessionHash row = rq_session q \<and> sw_model row = rq_model q
     \<and> sw_from row = previous \<and> sw_to row = cid"

lemma write_first:
  assumes w: "write_selection collate uuid clk q nowMs prev None v r db = Inr (db', receipt)"
    and ids: "rk_id r = Str cid" "cid \<noteq> []" and sm: "rq_session q \<noteq> []" "rq_model q \<noteq> []"
    and prev: "prev = Null \<or> (\<exists>p. prev = Str p \<and> p \<noteq> [] \<and> p \<noteq> cid)"
    and d: "distinct (om_keys (affinity db))"
  shows "\<exists>row now. switches db' = switches db @ [row] \<and> switched_row q prev cid row
    \<and> (\<forall>k. om_get (affinity db') k = om_get (affinity (setPin clk (rq_session q) (rq_model q) cid now db)) k)"
proof -
  have c: "prev = Null \<or> \<not> seq prev (rk_id r)" using prev ids by auto
  obtain now where now: "iso_of nowMs = Inr now" using w by (auto simp: write_selection_def split: sum.splits)
  obtain rc where rc: "buildSwitchReceipt collate prev (rk_id r) (coalesce (get (rk_account r) ''windows'') (Arr []))
               (Str (receipt_trigger False prev v)) (Str (rq_model q)) (Str (rq_session q)) (Num (Fin nowMs)) = Inr rc"
    using w c now by (auto simp: write_selection_def Let_def split: sum.splits)
  have f: "connectionId_of prev = prev" using prev by (auto simp: connectionId_of_def)
  have fields: "str_field rc ''sessionHash'' = rq_session q" "str_field rc ''model'' = rq_model q" "str_field rc ''toConnectionId'' = cid"
    "get rc ''fromConnectionId'' = prev"
    using rc now ids sm f by (auto simp: buildSwitchReceipt_def str_field_def text_field_def connectionId_of_def)
  have p: "coalesce prev Null = prev" using prev by (auto simp: coalesce_def)
  let ?db1 = "setPin clk (rq_session q) (rq_model q) cid now db"
  have "db' = fst (recordSwitch uuid clk rc ?db1)"
    using w c now rc ids by (auto simp: write_selection_def Let_def case_prod_unfold)
  then show ?thesis
    using fields sm ids p by (auto simp: recordSwitch_def switched_row_def)
qed

lemma write_again:
  assumes w: "write_selection collate uuid clk q nowMs prev None v r db = Inr (db', receipt)"
    and ids: "rk_id r = Str cid" "cid \<noteq> []" and prev: "prev = Str cid"
  shows "receipt = Null \<and> (\<exists>now. db' = touchPin clk (rq_session q) (rq_model q) now db)"
  using assms by (auto simp: write_selection_def Let_def split: sum.splits)

text \<open>C20: after a request was served the session is pinned to the account that served it. When that is the
  account it was pinned to, only the stamps of the pin move: the binding keeps its date, there is no
  receipt and nothing is recorded. Otherwise exactly one switch is recorded, from the account the
  session had to the one it has. The pins of other sessions are only ever swept, when they expired.\<close>

theorem pin_follows_the_account:
  assumes "selectAndReserve collate sha uuid clock clk commits q w0 = (w, Inr (Chosen s))" and "module_ok (leases_w w0)"
    and "found_action sha clk q (db_w w0) = None" and "rq_session q \<noteq> []" "rq_model q \<noteq> []"
    and "distinct (om_keys (affinity (db_w w0)))" and "\<not> str_le (expiresAtIso clk) (nowIso clk)"
  shows "\<exists>cid row. get (se_connection s) ''id'' = Str cid \<and> pin_row q (db_w w) = Some row \<and> a_connectionId row = cid
    \<and> (if previous_id (found_pin clk q (db_w w0)) = Str cid
       then switches (db_w w) = switches (db_w w0) \<and> se_receipt s = Null \<and> se_reason s = ''pinned''
          \<and> map_option a_pinnedAt (pin_row q (db_w w0)) = Some (a_pinnedAt row)
       else (\<exists>rec. switches (db_w w) = switches (db_w w0) @ [rec] \<and> switched_row q (previous_id (found_pin clk q (db_w w0))) cid rec)
          \<and> (\<forall>k. k \<noteq> (rq_session q, rq_model q) \<longrightarrow> om_get (affinity (db_w w)) k = swept_away clk (om_get (affinity (db_w w0)) k)))"
proof -
  let ?prev = "previous_id (found_pin clk q (db_w w0))" and ?db = "found_db sha clk q (db_w w0)"
  obtain nowMs load p r where p: "planAccountSelection collate (candidates_of (rq_accounts q) (rq_windows q)) (found_pin clk q (db_w w0)) load
       (Str (rq_model q)) (Num (Fin nowMs)) = Inr p"
    and r: "r \<in> set (pl_preferred p)" "se_connection s = rk_account r"
    and wr: "write_selection collate uuid clk q nowMs ?prev None (pl_repin p) r ?db = Inr (db_w w, se_receipt s)"
    and reason: "se_reason s = reason_of False ?prev (rk_id r)"
    using served_request [OF assms(1-3)] by metis
  obtain cid where id: "rk_id r = Str cid" "get (rk_account r) ''id'' = Str cid" "cid \<noteq> []"
    using plan_ids [OF p r(1)] candidates_ids by metis
  show ?thesis
  proof (cases "?prev = Str cid")
    case True
    then obtain row where row: "pin_row q (db_w w0) = Some row" "a_connectionId row = cid" using found_pin_row by blast
    obtain now where t: "se_receipt s = Null" "db_w w = touchPin clk (rq_session q) (rq_model q) now ?db"
      using write_again [OF wr id(1,3) True] by blast
    then show ?thesis using True row id r(2) reason assms(4,5)
      by (auto simp: pin_row_def touchPin_def touched_def reason_of_def)
  next
    case False
    have pv: "?prev = Null \<or> (\<exists>p. ?prev = Str p \<and> p \<noteq> [] \<and> p \<noteq> cid)"
      using False previous_id_cases [of "found_pin clk q (db_w w0)"] found_pin_nonempty by metis
    obtain rec now where rec: "switches (db_w w) = switches ?db @ [rec]" "switched_row q ?prev cid rec"
      and aff: "\<And>k. om_get (affinity (db_w w)) k = om_get (affinity (setPin clk (rq_session q) (rq_model q) cid now ?db)) k"
      using write_first [OF wr id(1,3) assms(4,5) pv] assms(6) by auto
    have d: "distinct (om_keys (affinity ?db))" using assms(6) by simp
    note get_k = aff [unfolded setPin_affinity [OF d assms(4,5) id(3)]]
    have "\<not> swept (nowIso clk) r" if "a_expiresAt r = Some (expiresAtIso clk)" for r
      using that assms(7) by (simp add: swept_def)
    then show ?thesis using rec id r(2) False get_k
      by (auto simp: pin_row_def swept_away_def)
  qed
qed

section \<open>A healthy session stays\<close>

lemma activeLoadFor_found [simp]:
  "activeLoadFor cs model nowMs m (found_db sha clk q db) = activeLoadFor cs model nowMs m db"
proof -
  have "ACTIVE_PINS_BY_CONNECTION model cutoff (found_db sha clk q db) = ACTIVE_PINS_BY_CONNECTION model cutoff db" for cutoff
    by (simp add: ACTIVE_PINS_BY_CONNECTION_def)
  then show ?thesis unfolding activeLoadFor_def countActivePins_def by presburger
qed

lemma select_body_plan:
  assumes "found_action sha clk q (db_w w0) = None" and "rq_pinAction q = Undef"
    and "candidates_of (rq_accounts q) (rq_windows q) \<noteq> []"
    and "activeLoadFor (candidates_of (rq_accounts q) (rq_windows q)) (rq_model q) nowMs (leases_w w0) (db_w w0) = Inr load"
    and "plan_of collate clk q nowMs None (db_w w0) load = Inr p"
  shows "select_body collate sha uuid clock clk q nowMs w0 = reserve_plan collate uuid clock clk q nowMs
     (candidates_of (rq_accounts q) (rq_windows q)) (previous_id (found_pin clk q (db_w w0))) None p
     (w0\<lparr> db_w := found_db sha clk q (db_w w0) \<rparr>)"
proof -
  obtain db pending where g: "getPendingPinAction sha (rq_session q) (rq_model q) (nowIso clk) (db_w w0) = (db, pending)" by fastforce
  have pn: "pending = None" using assms(1) by (simp add: found_action_def g)
  have fd: "found_db sha clk q (db_w w0) = db" by (simp add: found_db_def g)
  have fp: "getPin clk db (rq_session q) (rq_model q) = found_pin clk q (db_w w0)"
    using found_pin_db [of clk q sha "db_w w0"] by (simp add: found_pin_def fd)
  have ld: "activeLoadFor (candidates_of (rq_accounts q) (rq_windows q)) (rq_model q) nowMs (leases_w w0) db = Inr load"
    using assms(4) activeLoadFor_found [of _ _ _ _ sha clk q "db_w w0"] by (simp add: fd)
  show ?thesis
    using assms(2,3,5)
    by (simp add: select_body_def g pn ld fp fd previous_id_def plan_of_def resumes_other_def Let_def)
qed

lemma healthy_plan:
  assumes g: "rankAccounts collate (Arr cs) (Num (Fin nowMs)) (pin_id pin) load model = Inr g" and h: "healthy_pin pin g"
  shows "\<exists>p. planAccountSelection collate cs pin load model (Num (Fin nowMs)) = Inr p \<and> pl_repin p = keep_pin pin ''pin-healthy''
    \<and> pl_preferred p \<noteq> [] \<and> (\<forall>r \<in> set (pl_preferred p). rk_id r = pin_id pin)"
proof -
  obtain r where r: "find (\<lambda>r. seq (rk_id r) (pin_id pin)) (rg_eligible g) = Some r" and t: "truthy (pin_id pin)"
    using h by (auto simp: healthy_pin_def split: option.splits)
  have el: "r \<in> set (rg_eligible g)" "seq (rk_id r) (pin_id pin)" using find_set [OF r] by auto
  have a: "rk_account r \<in> set cs" "rk_id r = get (rk_account r) ''id''"
    using ranked_ids [OF g] eligible_ranked [OF g el(1)] by auto
  then have cs: "cs \<noteq> []" by auto
  have v: "decideRepin collate pin (Arr cs) (Num (Fin nowMs)) [] load model = Inr (keep_pin pin ''pin-healthy'')"
    using healthy_kept [OF g h] g cs by (simp add: decideRepin_def)
  let ?v = "keep_pin pin ''pin-healthy''"
  have k: "v_action ?v = Keep" "v_to ?v = pin_id pin" by (simp_all add: keep_pin_def)
  have pr: "preferred_of g ?v = [r]" using r t by (simp add: preferred_of_def k Let_def)
  have "rk_id r = pin_id pin" using el(2) seq_imp_eq by blast
  then show ?thesis using g v pr by (simp add: planAccountSelection_def)
qed

text \<open>C22: a healthy session is never moved. While its account is offered by the ranking and its windows could
  be read, the request is served by that account and nothing is recorded, or it is told to wait for a
  slot on it: no load, no better account and no reset elsewhere sends it to another one.\<close>

theorem healthy_session_stays:
  assumes "selectAndReserve collate sha uuid clock clk commits q w0 = (w, Inr out)" and "module_ok (leases_w w0)"
    and "found_action sha clk q (db_w w0) = None" and "rq_pinAction q = Undef" and "to_number (rq_now q) = Fin nowMs"
    and "activeLoadFor (candidates_of (rq_accounts q) (rq_windows q)) (rq_model q) nowMs (leases_w w0) (db_w w0) = Inr load"
    and "rankAccounts collate (Arr (candidates_of (rq_accounts q) (rq_windows q))) (Num (Fin nowMs))
       (pin_id (found_pin clk q (db_w w0))) load (Str (rq_model q)) = Inr g"
    and "healthy_pin (found_pin clk q (db_w w0)) g"
  shows "case out of Chosen s \<Rightarrow> get (se_connection s) ''id'' = pin_id (found_pin clk q (db_w w0)) \<and> se_reason s = ''pinned''
       \<and> switches (db_w w) = switches (db_w w0)
    | Refused x \<Rightarrow> re_reason x = ''at-capacity'' \<and> same_slots (leases_w w0) (leases_w w)"
proof -
  let ?cs = "candidates_of (rq_accounts q) (rq_windows q)" and ?pin = "found_pin clk q (db_w w0)"
  obtain p where p: "planAccountSelection collate ?cs ?pin load (Str (rq_model q)) (Num (Fin nowMs)) = Inr p"
    and keep: "pl_repin p = keep_pin ?pin ''pin-healthy''" and ne: "pl_preferred p \<noteq> []"
    and ids: "\<forall>r \<in> set (pl_preferred p). rk_id r = pin_id ?pin"
    using healthy_plan [OF assms(7,8)] by blast
  have cs: "?cs \<noteq> []" using plan_ids [OF p] ne by (metis empty_iff empty_set list.set_sel(1))
  have "plan_of collate clk q nowMs None (db_w w0) load = Inr p" using p by (simp add: plan_of_def)
  note body = select_body_plan [OF assms(3,4) cs assms(6) this]
  let ?w = "w0\<lparr> db_w := found_db sha clk q (db_w w0) \<rparr>"
  obtain w' taken res where rp: "reserve_plan collate uuid clock clk q nowMs ?cs (previous_id ?pin) None p ?w = (w', taken, res)"
    by (metis prod_cases3)
  have out: "res = Inr out" "w' = w"
    using assms(1,5) body rp by (auto simp: selectAndReserve_def split: sum.splits if_splits)
  have ok: "module_ok (leases_w ?w)" using assms(2) by simp
  show ?thesis
  proof (cases out)
    case (Refused x)
    have "re_reason x = ''at-capacity''"
      using rp out ne Refused
      by (auto simp: reserve_plan_def refuse_out_def Let_def split: prod.splits option.splits sum.splits)
    moreover from rp ok have "same_slots (leases_w ?w) (leases_w w')"
    proof (cases rule: reserve_plan_cases)
      case (refused x)
      then show ?thesis by simp
    qed (use out Refused in simp_all)
    ultimately show ?thesis using Refused out by simp
  next
    case (Chosen s)
    from rp ok have "get (se_connection s) ''id'' = pin_id ?pin \<and> se_reason s = ''pinned'' \<and> switches (db_w w') = switches (db_w w0)"
    proof (cases rule: reserve_plan_cases)
      case (served r l db receipt s')
      have s: "s' = s" using served(1) out Chosen by simp
      have r: "r \<in> set (pl_preferred p)" using walked_slot [OF _ served(3)] assms(2) by simp
      obtain cid where cid: "rk_id r = Str cid" "cid \<noteq> []" "get (rk_account r) ''id'' = Str cid"
        using plan_ids [OF p r] candidates_ids by metis
      have pid: "pin_id ?pin = Str cid" using ids r cid(1) by metis
      then have prev: "previous_id ?pin = Str cid"
        by (cases "get ?pin ''connectionId''") (auto simp: pin_id_def previous_id_def coalesce_def)
      have "write_selection collate uuid clk q nowMs (previous_id ?pin) None (pl_repin p) r (found_db sha clk q (db_w w0)) = Inr (db, receipt)"
        using served(4) by simp
      from write_again [OF this cid(1,2) prev] have "switches db = switches (db_w w0)" by auto
      then show ?thesis using served s cid prev pid by (simp add: reason_of_def)
    qed (use out Chosen in simp_all)
    then show ?thesis using Chosen out by simp
  qed
qed

section \<open>Histories\<close>

text \<open>What may happen to the world: a selection with whatever environment it runs in, a request that ends,
  and the writes of the affinity store outside a request.\<close>

datatype sched_event =
    Select "string \<Rightarrow> string \<Rightarrow> bool" "string \<Rightarrow> string" string int pin_clock bool sched_request
  | Done lease_object
  | Unpin string string
  | Drain string
  | SweepPins string
  | OperatorPin string string string "string option" "string option" string string

fun sched_step :: "sched_world \<Rightarrow> sched_event \<Rightarrow> sched_world" where
  "sched_step w (Select collate sha uuid clock clk commits q) = fst (selectAndReserve collate sha uuid clock clk commits q w)"
| "sched_step w (Done l) = w\<lparr> leases_w := fst (releaseAccountLease l (leases_w w)) \<rparr>"
| "sched_step w (Unpin session model) = w\<lparr> db_w := clearPin session model (db_w w) \<rparr>"
| "sched_step w (Drain conn) = w\<lparr> db_w := clearPinsForConnection conn (db_w w) \<rparr>"
| "sched_step w (SweepPins cutoff) = w\<lparr> db_w := sweepExpired cutoff (db_w w) \<rparr>"
| "sched_step w (OperatorPin session model conn node expires pinnedAt now) =
     w\<lparr> db_w := repo_setPin session model conn node expires pinnedAt now (db_w w) \<rparr>"

definition world_ok :: "sched_world \<Rightarrow> bool" where
  "world_ok w \<longleftrightarrow> module_ok (leases_w w) \<and> distinct (om_keys (affinity (db_w w)))"

lemma write_selection_keys:
  assumes "write_selection collate uuid clk q nowMs prev action v r db = Inr (db', receipt)" and "distinct (om_keys (affinity db))"
  shows "distinct (om_keys (affinity db'))"
proof -
  have s: "distinct (om_keys (affinity (setPin clk a b c d db)))" for a b c d
    using assms(2) by (simp add: setPin_def sweepExpired_def upsert_pin_def distinct_om_filter distinct_om_set)
  have t: "distinct (om_keys (affinity (touchPin clk a b d db)))" for a b d
    using assms(2) by (simp add: touchPin_def distinct_om_set split: option.split)
  show ?thesis
    using assms(1) s t by (auto simp: write_selection_def Let_def case_prod_unfold split: sum.splits if_splits option.splits)
qed

lemma select_world:
  assumes "world_ok w0" and "selectAndReserve collate sha uuid clock clk commits q w0 = (w, res)"
  shows "distinct (om_keys (affinity (db_w w)))
    \<and> (same_slots (leases_w w0) (leases_w w) \<or> (\<exists>cid l. one_slot (leases_w w0) (leases_w w) cid l))"
proof -
  have m: "module_ok (leases_w w0)" and d: "distinct (om_keys (affinity (db_w w0)))" using assms(1) by (simp_all add: world_ok_def)
  show ?thesis
  proof (cases "to_number (rq_now q)")
    case (Fin nowMs)
    obtain w' taken out where b: "select_body collate sha uuid clock clk q nowMs w0 = (w', taken, out)" by (metis prod_cases3)
    have undone: "distinct (om_keys (affinity (db_w (rolled_back w0 w' taken))))" by (simp add: rolled_back_def d)
    from b m show ?thesis
    proof (cases rule: select_body_cases)
      case (refused x)
      then show ?thesis using assms(2) Fin b d
        by (cases commits) (auto simp: selectAndReserve_def rolled_back_def)
    next
      case (early e)
      then show ?thesis using assms(2) Fin b d m
        by (auto simp: selectAndReserve_def rolled_back_def same_slots_refl)
    next
      case (failed r l e p)
      have "same_slots (leases_w w0) (fst (releaseAccountLease l (leases_w w')))"
        using release_one_slot walked_slot [OF m failed(3)] by blast
      then show ?thesis using failed assms(2) Fin b d by (auto simp: selectAndReserve_def rolled_back_def)
    next
      case (served load p r l db receipt s)
      have o: "one_slot (leases_w w0) (leases_w w') (lease_key (rk_id r)) l" using walked_slot [OF m served(3)] by blast
      have "distinct (om_keys (affinity db))" using write_selection_keys [OF served(5)] d by simp
      then show ?thesis using served(1,2,6) o release_one_slot [OF o] assms(2) Fin b d
        by (cases commits) (auto simp: selectAndReserve_def rolled_back_def)
    qed
  qed (use assms(2) d m in \<open>auto simp: selectAndReserve_def same_slots_refl\<close>)
qed

text \<open>How a step changes what is held.\<close>

lemma sched_step_slots:
  assumes "world_ok w"
  shows "world_ok (sched_step w e) \<and> (same_slots (leases_w w) (leases_w (sched_step w e))
     \<or> (\<exists>cid l. one_slot (leases_w w) (leases_w (sched_step w e)) cid l)
     \<or> (\<exists>l. e = Done l))"
proof -
  have m: "module_ok (leases_w w)" and d: "distinct (om_keys (affinity (db_w w)))" using assms by (simp_all add: world_ok_def)
  show ?thesis
  proof (cases e)
    case (Select collate sha uuid clock clk commits q)
    obtain w' res where s: "selectAndReserve collate sha uuid clock clk commits q w = (w', res)" by fastforce
    show ?thesis using select_world [OF assms s] s Select by (auto simp: world_ok_def same_slots_def one_slot_def)
  next
    case (Done l)
    then show ?thesis using m d releaseAccountLease_ok [OF m] by (simp add: world_ok_def)
  qed (use m d in \<open>auto simp: world_ok_def same_slots_refl clearPin_def clearPinsForConnection_def sweepExpired_def
      repo_setPin_def upsert_pin_def distinct_om_del distinct_om_set distinct_om_filter\<close>)
qed

interpretation scheduler: machine sched_step world_ok
  by unfold_locales (use sched_step_slots in blast)

definition within_ceiling :: "string \<Rightarrow> int \<Rightarrow> sched_world \<Rightarrow> bool" where
  "within_ceiling cid n w \<longleftrightarrow> gated_limit (registry_capacityOf (leases_w w) cid) = Some n \<and> countOf (accounts (leases_w w)) cid \<le> n"

lemma holds_count:
  assumes "module_ok m" "module_ok m'" and "module_holds m' (Some cid) \<subseteq> module_holds m (Some cid)"
  shows "countOf (accounts m') cid \<le> countOf (accounts m) cid"
proof -
  have "finite (module_holds m (Some cid))" by (simp add: module_holds_def)
  then have "card (module_holds m' (Some cid)) \<le> card (module_holds m (Some cid))" using assms(3) card_mono by blast
  then show ?thesis
    using used_module [OF assms(1)] used_module [OF assms(2)] by (simp add: lease_module_pool.used_def countOf_def)
qed

lemma sched_step_ceiling:
  assumes "world_ok w" and "within_ceiling cid n w"
  shows "within_ceiling cid n (sched_step w e)"
proof -
  have m: "module_ok (leases_w w)" "module_ok (leases_w (sched_step w e))"
    using assms(1) sched_step_slots [OF assms(1), of e] by (simp_all add: world_ok_def)
  have lim: "gated_limit (registry_capacityOf (leases_w w) cid) = Some n" "countOf (accounts (leases_w w)) cid \<le> n"
    using assms(2) by (simp_all add: within_ceiling_def)
  have keep: "within_ceiling cid n (sched_step w e)"
    if "capacityByConnection (leases_w (sched_step w e)) = capacityByConnection (leases_w w)"
      "module_holds (leases_w (sched_step w e)) (Some cid) \<subseteq> module_holds (leases_w w) (Some cid)"
    using holds_count [OF m that(2)] lim capacity_cong [OF that(1), of cid] by (simp add: within_ceiling_def)
  consider "same_slots (leases_w w) (leases_w (sched_step w e))"
    | (one) c l where "one_slot (leases_w w) (leases_w (sched_step w e)) c l" | (released) l where "e = Done l"
    using sched_step_slots [OF assms(1), of e] by blast
  then show ?thesis
  proof cases
    case 1
    then show ?thesis using keep by (simp add: same_slots_def)
  next
    case one
    show ?thesis
    proof (cases "c = cid")
      case True
      have "capacityByConnection (leases_w (sched_step w e)) = capacityByConnection (leases_w w)" using one by (simp add: one_slot_def)
      from capacity_cong [OF this, of cid] show ?thesis using one True lim by (simp add: one_slot_def within_ceiling_def)
    next
      case False
      then show ?thesis using one keep by (simp add: one_slot_def)
    qed
  next
    case released
    then show ?thesis using keep module_holds_release(1) [OF m(1)] by simp
  qed
qed

text \<open>C15: concurrent requests never over-admit an account: over every interleaving of selections, with
  whatever evidence, failures and commits, of requests that end, and of the other writes to the pins,
  an account with a ceiling of n is never leased more than n times at once, and there is never more
  than one pin for a session and a model.\<close>

theorem scheduling_never_over_admits:
  assumes "world_ok w" and "within_ceiling cid n w"
  shows "countOf (accounts (leases_w (foldl sched_step w es))) cid \<le> n
    \<and> distinct (om_keys (affinity (db_w (foldl sched_step w es))))"
proof -
  have "world_ok (foldl sched_step w es) \<and> within_ceiling cid n (foldl sched_step w es)"
    using assms
    by (induction es arbitrary: w) (simp_all add: sched_step_ceiling scheduler.step_inv)
  then show ?thesis by (simp add: world_ok_def within_ceiling_def)
qed

end
