(* ===== verification/SchedulerSamples.thy ===== *)
theory SchedulerSamples
  imports SessionGuarantees
begin

text \<open>
  Concrete requests to the scheduler: a new session, the account at its ceiling, a failed commit, and
  a session whose account is healthy.
\<close>

definition day_clock :: pin_clock where
  "day_clock = \<lparr> nowIso = ''1970-01-01T00:00:01.000Z'', expiresAtIso = ''1970-01-02T00:00:01.000Z'' \<rparr>"

definition no_sha :: "string \<Rightarrow> string" where
  "no_sha s = s"

definition empty_db :: pin_db where
  "empty_db = \<lparr> sql_js = False, affinity = [], pin_actions = [], switches = [] \<rparr>"

definition one_slot_world :: sched_world where
  "one_slot_world = \<lparr> leases_w = registerAccountCapacity ''a'' (JInt 1) None Null sample_module, db_w = empty_db \<rparr>"

definition ask :: "string \<Rightarrow> jv list \<Rightarrow> sched_request" where
  "ask session accts = \<lparr> rq_session = session, rq_model = ''m'', rq_accounts = Arr accts, rq_windows = Undef, rq_now = JInt 1000, rq_pinAction = Undef \<rparr>"

definition unread :: "string \<Rightarrow> jv" where
  "unread name = Obj [(''id'', Str name)]"

definition select_a :: "bool \<Rightarrow> string \<Rightarrow> sched_world \<Rightarrow> sched_world \<times> (sched_error + outcome)" where
  "select_a commits session w = selectAndReserve no_collate no_sha ''r1'' 0 day_clock commits (ask session [unread ''a'']) w"

lemma sample_world_ok: "world_ok one_slot_world"
proof -
  have c: "createResourceAdmission Undef = Inr (projr (createResourceAdmission Undef))"
    by (simp add: createResourceAdmission_def default_policy_valid)
  have "module_ok sample_module" unfolding sample_module_def by (rule initial_module_ok [OF c])
  then show ?thesis by (simp add: world_ok_def one_slot_world_def empty_db_def register_ok)
qed

lemma sample_module_ok: "module_ok (leases_w one_slot_world)"
  using sample_world_ok by (simp add: world_ok_def)

text \<open>What a selection comes to: the account and the reason, or why there is none.\<close>

definition gist :: "sched_world \<times> (sched_error + outcome) \<Rightarrow> (jv \<times> string) + (string + bool)" where
  "gist x = (case snd x of Inl e \<Rightarrow> Inr (Inr (e = CommitFailed))
     | Inr (Chosen s) \<Rightarrow> Inl (get (se_connection s) ''id'', se_reason s) | Inr (Refused r) \<Rightarrow> Inr (Inl (re_reason r)))"

lemma gist_Chosen: "gist x = Inl y \<Longrightarrow> \<exists>w s. x = (w, Inr (Chosen s)) \<and> y = (get (se_connection s) ''id'', se_reason s)"
  by (cases x) (auto simp: gist_def split: sum.splits outcome.splits)

lemma sample_first: "gist (select_a True ''s'' one_slot_world) = Inl (Str ''a'', ''first-pin'')"
  by code_simp

lemma sample_failures:
  "gist (select_a False ''s'' one_slot_world) = Inr (Inr True)"
  "gist (select_a True ''t'' (fst (select_a True ''s'' one_slot_world))) = Inr (Inl ''at-capacity'')"
  by code_simp+

theorem selection_takes_one_slot_witness:
  "\<exists>w s. select_a True ''s'' one_slot_world = (w, Inr (Chosen s)) \<and> one_slot (leases_w one_slot_world) (leases_w w) ''a'' (se_lease s)"
proof -
  obtain w s where s: "select_a True ''s'' one_slot_world = (w, Inr (Chosen s))" "get (se_connection s) ''id'' = Str ''a''"
    using gist_Chosen [OF sample_first] by auto
  from selection_takes_one_slot [OF s(1) [unfolded select_a_def] sample_module_ok] s show ?thesis by (simp add: lease_key_def)
qed

lemma sample_no_action: "found_action sha clk q (db_w one_slot_world) = None" "found_pin clk q (db_w one_slot_world) = Null"
  by (simp_all add: found_action_def getPendingPinAction_def one_slot_world_def empty_db_def found_pin_def getPin_def livePin_def)

theorem served_account_is_allowed_witness:
  "\<exists>w s. select_a True ''s'' one_slot_world = (w, Inr (Chosen s))
     \<and> se_connection s \<in> set (candidates_of (Arr [unread ''a'']) Undef)"
proof -
  obtain w s where s: "select_a True ''s'' one_slot_world = (w, Inr (Chosen s))" using gist_Chosen [OF sample_first] by auto
  have n: "to_number (rq_now (ask ''s'' [unread ''a''])) = Fin 1000" by (simp add: ask_def)
  from served_account_is_allowed [OF s [unfolded select_a_def] sample_module_ok sample_no_action(1) n] s show ?thesis
    by (auto simp: ask_def)
qed

theorem pin_follows_the_account_witness:
  "\<exists>w row rec. fst (select_a True ''s'' one_slot_world) = w \<and> om_get (affinity (db_w w)) (''s'', ''m'') = Some row
     \<and> a_connectionId row = ''a'' \<and> switches (db_w w) = [rec] \<and> sw_to rec = ''a''"
proof -
  obtain w s where s: "select_a True ''s'' one_slot_world = (w, Inr (Chosen s))" "get (se_connection s) ''id'' = Str ''a''"
    using gist_Chosen [OF sample_first] by auto
  have q: "rq_session (ask ''s'' [unread ''a'']) \<noteq> []" "rq_model (ask ''s'' [unread ''a'']) \<noteq> []" by (simp_all add: ask_def)
  have d: "distinct (om_keys (affinity (db_w one_slot_world)))" using sample_world_ok by (simp add: world_ok_def)
  have "\<not> str_le (expiresAtIso day_clock) (nowIso day_clock)" by code_simp
  from pin_follows_the_account [OF s(1) [unfolded select_a_def] sample_module_ok sample_no_action(1) q d this] s
  show ?thesis by (auto simp: sample_no_action(2) previous_id_def pin_row_def ask_def switched_row_def) (simp add: one_slot_world_def empty_db_def)
qed

lemma sample_ceiling: "within_ceiling ''a'' 1 one_slot_world"
  by (simp add: within_ceiling_def one_slot_world_def registry_capacityOf_def registerAccountCapacity_def gated_limit_def
      countOf_def leases_on_def sample_module_def initial_module_def createLeaseRegistry_def coalesce_def)

definition rush :: "sched_event list" where
  "rush = [Select no_collate no_sha ''r1'' 0 day_clock True (ask ''s'' [unread ''a'']),
     Select no_collate no_sha ''r2'' 1 day_clock False (ask ''t'' [unread ''a'']),
     Select no_collate no_sha ''r3'' 2 day_clock True (ask ''u'' [unread ''a'']), Unpin ''s'' ''m'']"

theorem scheduling_never_over_admits_witness:
  "countOf (accounts (leases_w (foldl sched_step one_slot_world rush))) ''a'' \<le> 1
   \<and> gist (select_a True ''t'' (fst (select_a True ''s'' one_slot_world))) = Inr (Inl ''at-capacity'')"
  using scheduling_never_over_admits [OF sample_world_ok sample_ceiling, of rush] sample_failures(2) by blast

section \<open>A healthy session\<close>

definition pinned_db :: pin_db where
  "pinned_db = empty_db\<lparr> affinity := [((''s'', ''m''), \<lparr> a_connectionId = ''late'', a_providerNode = None,
     a_pinnedAt = ''1970-01-01T00:00:00.000Z'', a_expiresAt = None, a_operatorExpiresAt = None,
     a_lastSeenAt = ''1970-01-01T00:00:00.000Z'' \<rparr>)] \<rparr>"

definition pinned_world :: sched_world where
  "pinned_world = one_slot_world\<lparr> db_w := pinned_db \<rparr>"

definition pinned_ask :: sched_request where
  "pinned_ask = ask ''s'' [pool_account ''late'' [week_row 90 ''1970-01-06T00:00:00.000Z''], unread ''other'']"

definition pinned_load :: jv where
  "pinned_load = Obj [(''late'', Obj [(''pins'', JInt 1), (''inFlight'', JInt 0)]), (''other'', Obj [(''pins'', JInt 0), (''inFlight'', JInt 0)])]"

lemma pinned_load: "activeLoadFor (candidates_of (rq_accounts pinned_ask) (rq_windows pinned_ask)) (rq_model pinned_ask) 1000
    (leases_w pinned_world) (db_w pinned_world) = Inr pinned_load"
  by code_simp

lemma pinned_healthy: "(case rankAccounts no_collate (Arr (candidates_of (rq_accounts pinned_ask) (rq_windows pinned_ask))) (Num (Fin 1000))
    (pin_id (found_pin day_clock pinned_ask (db_w pinned_world))) pinned_load (Str (rq_model pinned_ask)) of Inl _ \<Rightarrow> False
  | Inr g \<Rightarrow> healthy_pin (found_pin day_clock pinned_ask (db_w pinned_world)) g)"
  by code_simp

lemma pinned_gist: "gist (selectAndReserve no_collate no_sha ''r1'' 0 day_clock True pinned_ask pinned_world) = Inl (Str ''late'', ''pinned'')"
  by code_simp

theorem healthy_session_stays_witness:
  "\<exists>w s. selectAndReserve no_collate no_sha ''r1'' 0 day_clock True pinned_ask pinned_world = (w, Inr (Chosen s))
     \<and> get (se_connection s) ''id'' = Str ''late'' \<and> switches (db_w w) = []"
proof -
  obtain w s where s: "selectAndReserve no_collate no_sha ''r1'' 0 day_clock True pinned_ask pinned_world = (w, Inr (Chosen s))"
      "get (se_connection s) ''id'' = Str ''late''"
    using gist_Chosen [OF pinned_gist] by auto
  obtain g where g: "rankAccounts no_collate (Arr (candidates_of (rq_accounts pinned_ask) (rq_windows pinned_ask))) (Num (Fin 1000))
      (pin_id (found_pin day_clock pinned_ask (db_w pinned_world))) pinned_load (Str (rq_model pinned_ask)) = Inr g"
    "healthy_pin (found_pin day_clock pinned_ask (db_w pinned_world)) g"
    using pinned_healthy by (auto split: sum.splits)
  have m: "module_ok (leases_w pinned_world)" using sample_module_ok by (simp add: pinned_world_def)
  have a: "found_action no_sha day_clock pinned_ask (db_w pinned_world) = None"
    by (simp add: found_action_def getPendingPinAction_def pinned_world_def pinned_db_def empty_db_def)
  have n: "rq_pinAction pinned_ask = Undef" "to_number (rq_now pinned_ask) = Fin 1000" by (simp_all add: pinned_ask_def ask_def)
  from healthy_session_stays [OF s(1) m a n pinned_load g] s show ?thesis
    by (simp add: pinned_world_def pinned_db_def empty_db_def)
qed

end
