(* ===== verification/ConnectionStore.thy ===== *)
theory ConnectionStore
  imports AccountState
begin

text \<open>
  The stored accounts: src/lib/db/repos/connectionsRepo.js, with the identity helpers of
  src/lib/oauth/providerHelpers.js, the credential revision of
  open-sse/services/tokenRefresh/credentialRevision.js and src/shared/utils/accountControls.js.

  The table is an insertion-ordered map from the id to the row, a transaction a function on it. The
  encrypted column holds the JSON of its value; encryption and decryption undo each other and are left
  out, and so are the cache of decrypted rows, which returns what a decryption returns, and the
  bookkeeping of configuration revisions and quota notices around the writes. SHA-256, the random ids,
  the collation and the clock are parameters. The callers supply the columns that may not be NULL.
\<close>

section \<open>Rows\<close>

text \<open>What JSON keeps of a value.\<close>

fun json_clean :: "jv \<Rightarrow> jv" where
  "json_clean Undef = Null" | "json_clean Null = Null" | "json_clean (Bool b) = Bool b"
| "json_clean (Num n) = (if is_finite n then Num n else Null)" | "json_clean (Str s) = Str s"
| "json_clean (Arr xs) = Arr (map json_clean xs)"
| "json_clean (Obj m) = Obj (map (\<lambda>(k, v). (k, json_clean v)) (filter (\<lambda>(k, v). v \<noteq> Undef) m))"

definition IDENTITY_FIELDS :: "string list" where
  "IDENTITY_FIELDS = [''accountId'', ''email'', ''plan'', ''organizationId'', ''organizationName'', ''organizationRole'']"

definition cleanIdentityValue :: "jv \<Rightarrow> string option" where
  "cleanIdentityValue v = (case v of Str s \<Rightarrow> if trim s = [] then None else Some (trim s)
     | Num (Fin r) \<Rightarrow> Some (num_str (Fin r)) | _ \<Rightarrow> None)"

definition normalizeAccountIdentity :: "jv \<Rightarrow> (string, string) omap" where
  "normalizeAccountIdentity identity = concat (map (\<lambda>f. case cleanIdentityValue (get identity f) of
     None \<Rightarrow> [] | Some v \<Rightarrow> [(f, v)]) IDENTITY_FIELDS)"

definition plain_object :: "jv \<Rightarrow> bool" where
  "plain_object v \<longleftrightarrow> is_object v \<and> \<not> is_array v"

definition connectionIdentity :: "jv \<Rightarrow> (string, string) omap" where
  "connectionIdentity conn = (let p = get conn ''providerSpecificData'';
       psd = (if plain_object p then p else Obj []) in
     normalizeAccountIdentity (spread psd [
       (''accountId'', js_or (get psd ''accountId'') (get psd ''chatgptAccountId'')),
       (''plan'', js_or (get psd ''plan'') (get psd ''chatgptPlanType'')),
       (''email'', js_or (get conn ''email'') (get psd ''email''))]))"

definition opt_text :: "string option \<Rightarrow> jv" where
  "opt_text t = (case t of None \<Rightarrow> Null | Some s \<Rightarrow> Str s)"

record conn_row =
  row_id :: jv
  row_provider :: jv
  row_authType :: jv
  row_name :: jv
  row_email :: jv
  row_accountId :: jv
  row_plan :: jv
  row_organizationId :: jv
  row_priority :: jv
  row_isActive :: bool
  row_data :: jv
  row_createdAt :: jv
  row_updatedAt :: jv

definition ROW_COLUMNS :: "string list" where
  "ROW_COLUMNS = [''id'', ''provider'', ''authType'', ''name'', ''email'', ''priority'', ''isActive'', ''createdAt'', ''updatedAt'']"

definition rowToConn :: "conn_row \<Rightarrow> jv" where
  "rowToConn row = spread (row_data row) [(''id'', row_id row), (''provider'', row_provider row), (''authType'', row_authType row),
     (''name'', row_name row), (''email'', row_email row), (''priority'', row_priority row), (''isActive'', Bool (row_isActive row)),
     (''createdAt'', row_createdAt row), (''updatedAt'', row_updatedAt row)]"

definition connToRow :: "jv \<Rightarrow> conn_row" where
  "connToRow c = (let identity = connectionIdentity c in
     \<lparr> row_id = get c ''id'', row_provider = get c ''provider'', row_authType = get c ''authType'',
       row_name = coalesce (get c ''name'') Null, row_email = coalesce (get c ''email'') Null,
       row_accountId = opt_text (om_get identity ''accountId''), row_plan = opt_text (om_get identity ''plan''),
       row_organizationId = opt_text (om_get identity ''organizationId''),
       row_priority = coalesce (get c ''priority'') Null, row_isActive = (\<not> seq (get c ''isActive'') (Bool False)),
       row_data = json_clean (Obj (filter (\<lambda>(k, v). k \<notin> set ROW_COLUMNS) (obj_entries c))),
       row_createdAt = get c ''createdAt'', row_updatedAt = get c ''updatedAt'' \<rparr>)"

section \<open>Revisions\<close>

definition REVISION_FIELDS :: "string list" where
  "REVISION_FIELDS = [''provider'', ''authType'', ''isActive'', ''accessToken'', ''refreshToken'', ''apiKey'', ''token'', ''idToken'',
     ''expiresAt'', ''tokenExpiresAt'', ''lastRefreshAt'', ''lastRefresh'', ''projectId'', ''providerSpecificData'']"

definition text_lt :: "string \<Rightarrow> string \<Rightarrow> bool" where
  "text_lt s t \<longleftrightarrow> str_le s t \<and> s \<noteq> t"

text \<open>Keys in order, \<open>undefined\<close> read as \<open>null\<close>.\<close>

fun canonical :: "jv \<Rightarrow> jv" where
  "canonical (Arr xs) = Arr (map canonical xs)"
| "canonical (Obj m) = Obj (js_sort (\<lambda>a b. text_lt (fst a) (fst b)) (map (\<lambda>(k, v). (k, canonical v)) m))"
| "canonical Undef = Null"
| "canonical v = v"

definition json_text :: "jv \<Rightarrow> string" where
  "json_text v = (case json_str v of None \<Rightarrow> ''undefined'' | Some s \<Rightarrow> s)"

definition credentialContentRevision :: "(string \<Rightarrow> string) \<Rightarrow> jv \<Rightarrow> string" where
  "credentialContentRevision sha credentials = sha (json_text (Arr (map (\<lambda>k. canonical (get credentials k)) REVISION_FIELDS)))"

definition credentialRevision :: "(string \<Rightarrow> string) \<Rightarrow> jv \<Rightarrow> string" where
  "credentialRevision sha credentials = sha (credentialContentRevision sha credentials @ '':''
     @ jstr (js_or (get credentials ''credentialRevisionId'') (Str ''legacy'')))"

definition captureAccountControls :: "jv \<Rightarrow> jv" where
  "captureAccountControls connection = (let thresholds = coalesce (get connection ''quotaPauseThresholds'') (Obj []) in
     Obj [(''isActive'', Bool (\<not> seq (get connection ''isActive'') (Bool False))),
       (''priority'', coalesce (get connection ''priority'') Null),
       (''quotaPauseThresholds'', Obj (js_sort (\<lambda>a b. text_lt (fst a) (fst b)) (obj_entries thresholds)))])"

section \<open>The table\<close>

type_synonym conn_table = "(string, conn_row) omap"

definition without :: "string list \<Rightarrow> jv \<Rightarrow> jv" where
  "without ks c = Obj (filter (\<lambda>(k, v). k \<notin> set ks) (obj_entries c))"

definition revised :: "(string \<Rightarrow> string) \<Rightarrow> string \<Rightarrow> jv option \<Rightarrow> jv \<Rightarrow> jv" where
  "revised sha uuid previous c = (case previous of
     None \<Rightarrow> spread c [(''credentialRevisionId'', Str uuid)]
   | Some p \<Rightarrow> if credentialContentRevision sha p \<noteq> credentialContentRevision sha c then spread c [(''credentialRevisionId'', Str uuid)]
       else if truthy (get p ''credentialRevisionId'') then spread c [(''credentialRevisionId'', get p ''credentialRevisionId'')]
       else without [''credentialRevisionId''] c)"

text \<open>The object written is handed back with its revision; a row keeps the date it was created at.\<close>

definition upsert :: "(string \<Rightarrow> string) \<Rightarrow> string \<Rightarrow> jv \<Rightarrow> conn_table \<Rightarrow> conn_table \<times> jv" where
  "upsert sha uuid c0 tbl = (let key = jstr (get c0 ''id''); old = om_get tbl key; c = revised sha uuid (map_option rowToConn old) c0;
       r = connToRow c in
     (om_set tbl key (case old of None \<Rightarrow> r | Some o' \<Rightarrow> r\<lparr> row_createdAt := row_createdAt o' \<rparr>), c))"

definition rows_of :: "jv \<Rightarrow> conn_table \<Rightarrow> conn_row list" where
  "rows_of provider tbl = filter (\<lambda>r. seq (row_provider r) provider) (map snd tbl)"

definition getProviderConnections :: "jv \<Rightarrow> jv \<Rightarrow> conn_table \<Rightarrow> jv list" where
  "getProviderConnections provider isActive tbl =
     js_sort (\<lambda>a b. num_lt (num_sub (to_number (js_or (get a ''priority'') (JInt 999))) (to_number (js_or (get b ''priority'') (JInt 999)))) (Fin 0))
       (map rowToConn (filter (\<lambda>r. (\<not> truthy provider \<or> seq (row_provider r) provider)
          \<and> (isActive = Undef \<or> row_isActive r = truthy isActive)) (map snd tbl)))"

definition getProviderConnectionById :: "string \<Rightarrow> conn_table \<Rightarrow> jv" where
  "getProviderConnectionById i tbl = (case om_get tbl i of None \<Rightarrow> Null | Some r \<Rightarrow> rowToConn r)"

text \<open>The cache of decrypted rows. The fingerprint is the JSON text of the raw row, a parameter here; an entry is
  good for the row with its very fingerprint.\<close>

record 'f row_cache =
  rc_entries :: "(jv, 'f \<times> jv) omap"
  rc_hits :: nat
  rc_misses :: nat

definition cachedRowToConn :: "(conn_row \<Rightarrow> 'f) \<Rightarrow> 'f row_cache \<Rightarrow> conn_row option \<Rightarrow> 'f row_cache \<times> jv" where
  "cachedRowToConn fingerprint c row = (case row of None \<Rightarrow> (c, Null)
     | Some r \<Rightarrow> (case om_get (rc_entries c) (row_id r) of
         Some (f, conn) \<Rightarrow> if f = fingerprint r then (c\<lparr> rc_hits := rc_hits c + 1 \<rparr>, conn)
           else (c\<lparr> rc_misses := rc_misses c + 1, rc_entries := om_set (rc_entries c) (row_id r) (fingerprint r, rowToConn r) \<rparr>, rowToConn r)
       | None \<Rightarrow> (c\<lparr> rc_misses := rc_misses c + 1, rc_entries := om_set (rc_entries c) (row_id r) (fingerprint r, rowToConn r) \<rparr>, rowToConn r)))"

definition empty_cache :: "'f row_cache" where
  "empty_cache = \<lparr> rc_entries = [], rc_hits = 0, rc_misses = 0 \<rparr>"

definition order_before :: "(string \<Rightarrow> string \<Rightarrow> bool) \<Rightarrow> jv \<Rightarrow> jv \<Rightarrow> bool" where
  "order_before collate a b =
     (let pDiff = num_sub (to_number (js_or (get a ''priority'') (JInt 0))) (to_number (js_or (get b ''priority'') (JInt 0))) in
      if pDiff \<noteq> Fin 0 then num_lt pDiff (Fin 0)
      else case (date_of (js_or (get a ''updatedAt'') (JInt 0)), date_of (js_or (get b ''updatedAt'') (JInt 0))) of
        (Some ta, Some tb) \<Rightarrow> if tb \<noteq> ta then tb < ta else collate (jstr (get a ''id'')) (jstr (get b ''id''))
      | _ \<Rightarrow> False)"

definition set_priority :: "conn_table \<Rightarrow> jv \<times> int \<Rightarrow> conn_table" where
  "set_priority tbl ci = (case om_get tbl (jstr (get (fst ci) ''id'')) of None \<Rightarrow> tbl
     | Some r \<Rightarrow> om_set tbl (jstr (get (fst ci) ''id'')) (r\<lparr> row_priority := JInt (snd ci) \<rparr>))"

definition reorderInTx :: "(string \<Rightarrow> string \<Rightarrow> bool) \<Rightarrow> jv \<Rightarrow> conn_table \<Rightarrow> conn_table" where
  "reorderInTx collate providerId tbl =
     (let sorted = js_sort (order_before collate) (map rowToConn (rows_of providerId tbl))
      in foldl set_priority tbl (zip sorted [1..int (length sorted)]))"

section \<open>Signing in again\<close>

definition CREDENTIAL_FIELDS :: "string list" where
  "CREDENTIAL_FIELDS = [''accessToken'', ''refreshToken'', ''idToken'', ''apiKey'', ''expiresAt'', ''expiresIn'', ''tokenType'',
     ''scope'', ''projectId'', ''lastRefreshAt'']"

definition PROXY_BOUND_KEYS :: "string list" where
  "PROXY_BOUND_KEYS = [''proxyPoolId'', ''strictProxy'', ''connectionProxyMode'', ''connectionProxyEnabled'', ''connectionProxyUrl'',
     ''connectionNoProxy'']"

definition failure_field :: "string \<Rightarrow> bool" where
  "failure_field k \<longleftrightarrow> k \<in> {''lastError'', ''lastErrorAt'', ''errorCode'', ''backoffLevel'', ''rateLimitedUntil''}
     \<or> starts_with k ''modelLock_'' \<or> starts_with k ''modelFailure_''"

definition clearReauthFailureState :: "jv \<Rightarrow> jv" where
  "clearReauthFailureState conn = Obj (filter (\<lambda>(k, v). \<not> failure_field k) (obj_entries conn))"

definition mergeCodexReauthorization :: "jv \<Rightarrow> jv \<Rightarrow> string \<Rightarrow> jv" where
  "mergeCodexReauthorization existing data now = clearReauthFailureState (spread existing (obj_entries data
     @ [(''updatedAt'', Str now), (''isActive'', Bool True), (''testStatus'', Str ''active'')]))"

definition trimmed :: "jv \<Rightarrow> string" where
  "trimmed v = (case v of Str s \<Rightarrow> trim s | _ \<Rightarrow> [])"

datatype reauth_outcome = Reauthorized jv | NotFound | ProviderMismatch | EmptyCredential | IdentityMismatch

definition given :: "jv \<Rightarrow> string list \<Rightarrow> (string \<times> jv) list" where
  "given data ks = concat (map (\<lambda>k. if is_nullish (get data k) then [] else [(k, get data k)]) ks)"

definition psd_of :: "jv \<Rightarrow> (string \<times> jv) list" where
  "psd_of c = (if plain_object (get c ''providerSpecificData'') then obj_entries (get c ''providerSpecificData'') else [])"

definition reauthorized :: "string \<Rightarrow> jv \<Rightarrow> jv \<Rightarrow> jv" where
  "reauthorized now existing data =
     (let psd = obj_entries (spread (Obj (psd_of existing)) (filter (\<lambda>(k, v). k \<notin> set PROXY_BOUND_KEYS) (psd_of data))) in
      clearReauthFailureState (spread existing (given data CREDENTIAL_FIELDS
        @ (if trimmed (get data ''authType'') = [] then [] else [(''authType'', Str (trimmed (get data ''authType'')))])
        @ (if to_lower (trimmed (get data ''email'')) = [] then [] else [(''email'', get data ''email'')])
        @ (if psd = [] then [] else [(''providerSpecificData'', Obj psd)])
        @ [(''isActive'', Bool True), (''testStatus'', Str ''active''), (''updatedAt'', Str now)])))"

definition reauthorizeProviderConnection :: "(string \<Rightarrow> string) \<Rightarrow> string \<Rightarrow> string \<Rightarrow> string \<Rightarrow> jv \<Rightarrow> conn_table \<Rightarrow> conn_table \<times> reauth_outcome" where
  "reauthorizeProviderConnection sha uuid now i data tbl = (case om_get tbl i of None \<Rightarrow> (tbl, NotFound)
     | Some row \<Rightarrow> (let existing = rowToConn row; credentials = Obj (given data CREDENTIAL_FIELDS);
           incomingEmail = to_lower (trimmed (get data ''email'')); existingEmail = to_lower (trimmed (get existing ''email'')) in
         if truthy (get data ''provider'') \<and> \<not> seq (get data ''provider'') (get existing ''provider'') then (tbl, ProviderMismatch)
         else if \<not> truthy (get credentials ''accessToken'') \<and> \<not> truthy (get credentials ''refreshToken'') \<and> \<not> truthy (get credentials ''apiKey'')
         then (tbl, EmptyCredential)
         else if \<not> seq (get data ''force'') (Bool True) \<and> incomingEmail \<noteq> [] \<and> existingEmail \<noteq> [] \<and> incomingEmail \<noteq> existingEmail
         then (tbl, IdentityMismatch)
         else let (tbl', merged) = upsert sha uuid (reauthorized now existing data) tbl in (tbl', Reauthorized merged)))"

section \<open>Adding an account\<close>

definition OPTIONAL_FIELDS :: "string list" where
  "OPTIONAL_FIELDS = [''displayName'', ''email'', ''globalPriority'', ''defaultModel'', ''accessToken'', ''refreshToken'', ''expiresAt'',
     ''tokenType'', ''scope'', ''projectId'', ''apiKey'', ''testStatus'', ''lastTested'', ''lastError'', ''lastErrorAt'',
     ''rateLimitedUntil'', ''expiresIn'', ''errorCode'', ''consecutiveUseCount'', ''idToken'', ''lastRefreshAt'', ''maxConcurrent'']"

text \<open>Whether a sign-in is the account of a row.\<close>

definition same_oauth_account :: "jv \<Rightarrow> jv \<Rightarrow> bool" where
  "same_oauth_account data c =
     (let incomingUsername = get (get data ''providerSpecificData'') ''username''; incomingWs = get (get data ''providerSpecificData'') ''chatgptAccountId'';
          existingUsername = get (get c ''providerSpecificData'') ''username''; existingWs = get (get c ''providerSpecificData'') ''chatgptAccountId'' in
      if \<not> seq (get c ''authType'') (Str ''oauth'') \<or> \<not> seq (get c ''email'') (get data ''email'') then False
      else case (om_get (connectionIdentity data) ''accountId'', om_get (connectionIdentity c) ''accountId'') of
        (Some i, Some e) \<Rightarrow> i = e
      | (Some _, None) \<Rightarrow> False
      | (None, Some _) \<Rightarrow> False
      | (None, None) \<Rightarrow>
          if seq (get data ''provider'') (Str ''codex'') then truthy incomingWs \<and> truthy existingWs \<and> seq incomingWs existingWs
          else if truthy incomingWs \<and> truthy existingWs then seq incomingWs existingWs
          else if truthy incomingWs \<or> truthy existingWs then False
          else if truthy incomingUsername \<and> truthy existingUsername then seq incomingUsername existingUsername
          else \<not> (truthy incomingUsername \<or> truthy existingUsername))"

definition same_api_key :: "jv \<Rightarrow> jv \<Rightarrow> bool" where
  "same_api_key data c \<longleftrightarrow> seq (get c ''authType'') (Str ''apikey'') \<and> seq (get c ''name'') (get data ''name'')
     \<and> seq (js_or (get c ''apiKey'') (Str [])) (js_or (get data ''apiKey'') (Str []))"

definition find_existing :: "jv \<Rightarrow> jv list \<Rightarrow> jv option" where
  "find_existing data accts = (if seq (get data ''authType'') (Str ''oauth'') \<and> truthy (get data ''email'')
     then find (same_oauth_account data) accts
     else if seq (get data ''authType'') (Str ''apikey'') \<and> truthy (get data ''name'') then find (same_api_key data) accts
     else None)"

definition deriveAccountDisplayName :: "(string, string) omap \<Rightarrow> string \<Rightarrow> jv \<Rightarrow> string" where
  "deriveAccountDisplayName identity providerLabel connectionId = (case om_get identity ''email'' of
     Some e \<Rightarrow> (case om_get identity ''organizationName'' of Some n \<Rightarrow> e @ '' ('' @ n @ '')'' | None \<Rightarrow> e)
   | None \<Rightarrow> (case om_get identity ''organizationName'' of Some n \<Rightarrow> n
     | None \<Rightarrow> (case om_get identity ''accountId'' of Some a \<Rightarrow> providerLabel @ '' '' @ take 8 a
       | None \<Rightarrow> (case connectionId of Str (c # cs) \<Rightarrow> providerLabel @ '' '' @ take 8 (c # cs) | _ \<Rightarrow> providerLabel))))"

definition deriveConnectionName :: "jv \<Rightarrow> jv \<Rightarrow> jv" where
  "deriveConnectionName data fallbackName = (if seq (get data ''provider'') (Str ''github'')
     then js_or (get (get data ''providerSpecificData'') ''githubLogin'') (js_or (get (get data ''providerSpecificData'') ''githubEmail'')
       (js_or (get data ''email'') (js_or (get (get data ''providerSpecificData'') ''githubName'') fallbackName)))
     else let label = jstr (js_or (get data ''provider'') (Str ''Account''));
         derived = deriveAccountDisplayName (connectionIdentity data) label (get data ''id'')
       in if derived = label then fallbackName else Str derived)"

text \<open>The first free number behind a name; the loop ends because only finitely many names are taken.\<close>

definition numbered :: "string \<Rightarrow> nat \<Rightarrow> jv" where
  "numbered stem n = Str (stem @ '' '' @ nat_str n)"

lemma numbered_inj: "numbered stem m = numbered stem n \<Longrightarrow> m = n"
  unfolding numbered_def by (metis append_same_eq same_append_eq digits_val_nat_str jv.inject(3))

lemma finite_taken: "finite {k. numbered stem k \<in> set names}"
  using finite_vimageI [of "set names" "numbered stem"] numbered_inj by (auto simp: vimage_def inj_def)

function free_suffix :: "jv list \<Rightarrow> string \<Rightarrow> nat \<Rightarrow> nat" where
  "free_suffix names stem n = (if numbered stem n \<in> set names then free_suffix names stem (Suc n) else n)"
  by pat_completeness auto

termination
proof (relation "measure (\<lambda>(names, stem, n). card {k. n \<le> k \<and> numbered stem k \<in> set names})")
  fix names stem n
  assume "numbered stem n \<in> set names"
  then have n: "n \<in> {k. n \<le> k \<and> numbered stem k \<in> set names} - {k. Suc n \<le> k \<and> numbered stem k \<in> set names}" by simp
  have "{k. Suc n \<le> k \<and> numbered stem k \<in> set names} \<subset> {k. n \<le> k \<and> numbered stem k \<in> set names}"
  proof (rule psubsetI)
    show "{k. Suc n \<le> k \<and> numbered stem k \<in> set names} \<noteq> {k. n \<le> k \<and> numbered stem k \<in> set names}"
      using n by (metis DiffD1 DiffD2)
  qed auto
  moreover have "finite {k. n \<le> k \<and> numbered stem k \<in> set names}" by (rule finite_subset [OF _ finite_taken]) auto
  ultimately show "((names, stem, Suc n), names, stem, n) \<in> measure (\<lambda>(names, stem, n). card {k. n \<le> k \<and> numbered stem k \<in> set names})"
    by (simp add: psubset_card_mono)
qed simp

declare free_suffix.simps [simp del]

definition last6 :: "string \<Rightarrow> string" where
  "last6 s = drop (length s - 6) s"

definition new_name :: "jv \<Rightarrow> jv list \<Rightarrow> jv" where
  "new_name data accts =
     (let names = map (\<lambda>c. get c ''name'') accts; taken = (\<lambda>n. list_ex (\<lambda>m. seq m n) names);
          given_name = js_or (get data ''name'') Null;
          ws = get (get data ''providerSpecificData'') ''chatgptAccountId'';
          name1 = (if \<not> truthy given_name \<and> (seq (get data ''authType'') (Str ''oauth'') \<or> seq (get data ''authType'') (Str ''access_token''))
            then (let n = deriveConnectionName data (js_or (get data ''email'') (Str (''Account '' @ nat_str (length accts + 1)))) in
              if truthy ws \<and> taken n then Str (jstr n @ '' ('' @ last6 (jstr ws) @ '')'') else n)
            else given_name)
      in if seq (get data ''authType'') (Str ''apikey'') \<and> truthy name1 \<and> taken name1
         then numbered (jstr name1) (free_suffix names (jstr name1) 2) else name1)"

definition new_priority :: "jv \<Rightarrow> jv list \<Rightarrow> jv" where
  "new_priority data accts = (if truthy (get data ''priority'') then get data ''priority''
     else Num (num_add (foldl (\<lambda>m c. max m (to_number (js_or (get c ''priority'') (JInt 0)))) (Fin 0) accts) (Fin 1)))"

definition has_keys :: "jv \<Rightarrow> bool" where
  "has_keys v = (case v of Obj m \<Rightarrow> m \<noteq> [] | Arr xs \<Rightarrow> xs \<noteq> [] | Str s \<Rightarrow> s \<noteq> [] | _ \<Rightarrow> False)"

definition new_connection :: "string \<Rightarrow> string \<Rightarrow> jv \<Rightarrow> jv list \<Rightarrow> jv" where
  "new_connection i now data accts = spread (Obj [(''id'', Str i), (''provider'', get data ''provider''),
       (''authType'', js_or (get data ''authType'') (Str ''oauth'')), (''name'', new_name data accts), (''priority'', new_priority data accts),
       (''isActive'', if get data ''isActive'' \<noteq> Undef then get data ''isActive'' else Bool True),
       (''createdAt'', Str now), (''updatedAt'', Str now)])
     (given data OPTIONAL_FIELDS
      @ (if truthy (get data ''providerSpecificData'') \<and> has_keys (get data ''providerSpecificData'')
         then [(''providerSpecificData'', get data ''providerSpecificData'')] else [])
      @ (if get data ''email'' \<noteq> Undef then [(''email'', get data ''email'')] else []))"

definition createProviderConnection :: "(string \<Rightarrow> string \<Rightarrow> bool) \<Rightarrow> (string \<Rightarrow> string) \<Rightarrow> string \<Rightarrow> string \<Rightarrow> string \<Rightarrow> jv \<Rightarrow> conn_table
    \<Rightarrow> conn_table \<times> jv" where
  "createProviderConnection collate sha uuid i now data tbl =
     (let accts = map rowToConn (rows_of (get data ''provider'') tbl) in
      case find_existing data accts of
        Some existing \<Rightarrow> upsert sha uuid
          (if seq (get data ''provider'') (Str ''codex'') \<and> seq (get data ''authType'') (Str ''oauth'') \<and> truthy (get data ''accessToken'')
           then mergeCodexReauthorization existing data now
           else spread existing (obj_entries data @ [(''updatedAt'', Str now)])) tbl
      | None \<Rightarrow> (let (tbl', conn) = upsert sha uuid (new_connection i now data accts) tbl
          in (reorderInTx collate (get data ''provider'') tbl', conn)))"

section \<open>Other writes\<close>

datatype update_error = BadDurability | CriticalUnsupported | CredentialConflict | ControlConflict

record update_options =
  uo_expectedControls :: "jv option"
  uo_expectedCredentials :: "jv option"
  uo_durability :: jv

text \<open>\<open>critical_ok\<close>: the driver has critical transactions.\<close>

definition updateProviderConnection :: "(string \<Rightarrow> string \<Rightarrow> bool) \<Rightarrow> (string \<Rightarrow> string) \<Rightarrow> bool \<Rightarrow> string \<Rightarrow> string \<Rightarrow> string \<Rightarrow> jv
    \<Rightarrow> update_options \<Rightarrow> conn_table \<Rightarrow> update_error + conn_table \<times> jv" where
  "updateProviderConnection collate sha critical_ok uuid now i data opts tbl =
     (if uo_durability opts \<noteq> Undef \<and> \<not> seq (uo_durability opts) (Str ''critical'') then Inl BadDurability
      else if seq (uo_durability opts) (Str ''critical'') \<and> \<not> critical_ok then Inl CriticalUnsupported
      else case om_get tbl i of None \<Rightarrow> Inr (tbl, Null)
      | Some row \<Rightarrow> (let existing = rowToConn row in
          if (case uo_expectedCredentials opts of None \<Rightarrow> False | Some e \<Rightarrow> credentialRevision sha existing \<noteq> credentialRevision sha e)
          then Inl CredentialConflict
          else if (case uo_expectedControls opts of None \<Rightarrow> False
            | Some e \<Rightarrow> json_text (captureAccountControls existing) \<noteq> json_text (captureAccountControls e))
          then Inl ControlConflict
          else let (tbl1, merged) = upsert sha uuid (spread existing (obj_entries data @ [(''updatedAt'', Str now)])) tbl in
            if get data ''priority'' = Undef then Inr (tbl1, merged)
            else let tbl2 = reorderInTx collate (get existing ''provider'') tbl1 in Inr (tbl2, getProviderConnectionById i tbl2)))"

definition mergeProviderConnectionData :: "(string \<Rightarrow> string) \<Rightarrow> string \<Rightarrow> string \<Rightarrow> string \<Rightarrow> jv \<Rightarrow> jv \<Rightarrow> conn_table \<Rightarrow> conn_table \<times> jv" where
  "mergeProviderConnectionData sha uuid now i name psd tbl = (case om_get tbl i of None \<Rightarrow> (tbl, Null)
     | Some row \<Rightarrow> (let existing = rowToConn row in
         upsert sha uuid (spread existing ((if name \<noteq> Undef then [(''name'', name)] else [])
           @ [(''providerSpecificData'', spread (Obj (psd_of existing)) (if plain_object psd then obj_entries psd else [])),
              (''updatedAt'', Str now)])) tbl))"

definition updateConnectionProxyPoolSnapshotIfBound :: "(string \<Rightarrow> string) \<Rightarrow> string \<Rightarrow> string \<Rightarrow> string \<Rightarrow> jv \<Rightarrow> jv \<Rightarrow> conn_table \<Rightarrow> conn_table \<times> jv" where
  "updateConnectionProxyPoolSnapshotIfBound sha uuid now i expectedPoolId pair tbl = (case om_get tbl i of None \<Rightarrow> (tbl, Null)
     | Some row \<Rightarrow> (let existing = rowToConn row; psd = get existing ''providerSpecificData'' in
         if \<not> plain_object psd \<or> \<not> seq (get psd ''proxyPoolId'') expectedPoolId then (tbl, Null)
         else upsert sha uuid (spread existing [(''providerSpecificData'', spread psd [(''proxyPoolId'', get pair ''proxyPoolId''),
             (''strictProxy'', Bool (seq (get pair ''strictProxy'') (Bool True)))]), (''updatedAt'', Str now)]) tbl))"

definition deleteProviderConnection :: "(string \<Rightarrow> string \<Rightarrow> bool) \<Rightarrow> string \<Rightarrow> conn_table \<Rightarrow> conn_table \<times> bool" where
  "deleteProviderConnection collate i tbl = (case om_get tbl i of None \<Rightarrow> (tbl, False)
     | Some row \<Rightarrow> (reorderInTx collate (row_provider row) (om_del tbl i), True))"

definition deleteProviderConnectionsByProvider :: "jv \<Rightarrow> conn_table \<Rightarrow> conn_table \<times> nat" where
  "deleteProviderConnectionsByProvider providerId tbl =
     (filter (\<lambda>(k, r). \<not> seq (row_provider r) providerId) tbl, length (rows_of providerId tbl))"

definition reorderProviderConnections :: "(string \<Rightarrow> string \<Rightarrow> bool) \<Rightarrow> jv \<Rightarrow> conn_table \<Rightarrow> conn_table" where
  "reorderProviderConnections collate providerId tbl = reorderInTx collate providerId tbl"

definition fieldsToCheck :: "string list" where
  "fieldsToCheck = [''displayName'', ''email'', ''globalPriority'', ''defaultModel'', ''accessToken'', ''refreshToken'', ''expiresAt'',
     ''tokenType'', ''scope'', ''projectId'', ''apiKey'', ''testStatus'', ''lastTested'', ''lastError'', ''lastErrorAt'',
     ''rateLimitedUntil'', ''expiresIn'', ''consecutiveUseCount'']"

text \<open>The fields of a row that go, and the row without them.\<close>

definition empty_fields :: "jv \<Rightarrow> string list" where
  "empty_fields conn = filter (\<lambda>f. is_nullish (get conn f) \<and> has_own conn f) fieldsToCheck
     @ (if truthy (get conn ''providerSpecificData'') \<and> \<not> has_keys (get conn ''providerSpecificData'')
        then [''providerSpecificData''] else [])"

definition cleanupProviderConnections :: "(string \<Rightarrow> string) \<Rightarrow> string \<Rightarrow> conn_table \<Rightarrow> conn_table \<times> nat" where
  "cleanupProviderConnections sha uuid tbl = foldl (\<lambda>(t, cleaned) row. let conn = rowToConn row; gone = empty_fields conn in
       if gone = [] then (t, cleaned) else (fst (upsert sha uuid (without gone conn) t), cleaned + length gone))
     (tbl, 0) (map snd tbl)"

section \<open>Health\<close>

definition DEGRADED_TEST_STATUS :: "string list" where
  "DEGRADED_TEST_STATUS = [''error'', ''expired'', ''unavailable'']"

definition MAX_DEGRADED_PROVIDERS :: nat where
  "MAX_DEGRADED_PROVIDERS = 12"

definition limited_until :: "int \<Rightarrow> jv \<Rightarrow> bool" where
  "limited_until now conn \<longleftrightarrow> truthy (get conn ''rateLimitedUntil'')
     \<and> (case date_of (get conn ''rateLimitedUntil'') of None \<Rightarrow> False | Some u \<Rightarrow> now < u)"

definition isConnectionDegraded :: "int \<Rightarrow> jv \<Rightarrow> bool" where
  "isConnectionDegraded now conn \<longleftrightarrow> truthy conn \<and> (list_ex (\<lambda>s. seq (get conn ''testStatus'') (Str s)) DEGRADED_TEST_STATUS
     \<or> truthy (get conn ''errorCode'') \<or> limited_until now conn)"

definition degradationCause :: "int \<Rightarrow> jv \<Rightarrow> string" where
  "degradationCause now conn = (let errorCode = to_number (get conn ''errorCode'') in
     if limited_until now conn \<or> errorCode = Fin 429 then ''rate_limited''
     else if seq (get conn ''testStatus'') (Str ''expired'') \<or> errorCode = Fin 401 \<or> errorCode = Fin 403 then ''authentication''
     else if seq (get conn ''testStatus'') (Str ''unavailable'') then ''unavailable''
     else if seq (get conn ''testStatus'') (Str ''error'') then ''connection_test''
     else ''upstream_error'')"

record provider_health =
  ph_provider :: string
  ph_degraded :: nat
  ph_causes :: "string list"

record health_summary =
  hs_total :: nat
  hs_connected :: nat
  hs_degraded :: nat
  hs_providers :: "provider_health list"
  hs_providerCount :: nat
  hs_omitted :: int

definition health_step :: "int \<Rightarrow> (string, nat \<times> string list) omap \<Rightarrow> conn_row \<Rightarrow> (string, nat \<times> string list) omap" where
  "health_step now m row = (if \<not> isConnectionDegraded now (row_data row) then m
     else let p = jstr (js_or (row_provider row) (Str ''unknown'')); (n, causes) = (case om_get m p of None \<Rightarrow> (0, []) | Some s \<Rightarrow> s);
         why = degradationCause now (row_data row) in
       om_set m p (n + 1, if why \<in> set causes then causes else causes @ [why]))"

definition getUpstreamHealthSummary :: "(string \<Rightarrow> string \<Rightarrow> bool) \<Rightarrow> int \<Rightarrow> conn_table \<Rightarrow> health_summary" where
  "getUpstreamHealthSummary collate now tbl =
     (let rows = map snd tbl; byProvider = foldl (health_step now) [] rows in
      \<lparr> hs_total = length rows, hs_connected = length (filter row_isActive rows),
        hs_degraded = length (filter (\<lambda>r. isConnectionDegraded now (row_data r)) rows),
        hs_providers = map (\<lambda>h. h\<lparr> ph_causes := js_sort text_lt (ph_causes h) \<rparr>) (take MAX_DEGRADED_PROVIDERS
          (js_sort (\<lambda>a b. ph_degraded b < ph_degraded a \<or> ph_degraded a = ph_degraded b \<and> collate (ph_provider a) (ph_provider b))
            (map (\<lambda>(p, n, causes). \<lparr> ph_provider = p, ph_degraded = n, ph_causes = causes \<rparr>) byProvider))),
        hs_providerCount = length byProvider, hs_omitted = max 0 (int (length byProvider) - int MAX_DEGRADED_PROVIDERS) \<rparr>)"

definition getUpstreamHealthCounts :: "(string \<Rightarrow> string \<Rightarrow> bool) \<Rightarrow> int \<Rightarrow> conn_table \<Rightarrow> nat \<times> nat \<times> nat" where
  "getUpstreamHealthCounts collate now tbl = (let h = getUpstreamHealthSummary collate now tbl in (hs_total h, hs_connected h, hs_degraded h))"

end
