(* ===== verification/ConnectionGuarantees.thy ===== *)
theory ConnectionGuarantees
  imports ConnectionStore
begin

text \<open>
  What the account table keeps: its rows stay well formed under every write, what is written is what is
  read, a new sign-in neither destroys the settings of the account nor touches another one, and the order
  of a provider's accounts is numbered without gaps.
\<close>

section \<open>Values that JSON keeps\<close>

text \<open>Objects whose keys are distinct, all the way down; and the values a JSON text can hold.\<close>

fun wf_keys :: "jv \<Rightarrow> bool" where
  "wf_keys (Arr xs) = list_all wf_keys xs"
| "wf_keys (Obj m) = (distinct (om_keys m) \<and> list_all (\<lambda>(k, v). wf_keys v) m)"
| "wf_keys _ = True"

fun wf_json :: "jv \<Rightarrow> bool" where
  "wf_json Undef = False"
| "wf_json (Num n) = is_finite n"
| "wf_json (Arr xs) = list_all wf_json xs"
| "wf_json (Obj m) = (distinct (om_keys m) \<and> list_all (\<lambda>(k, v). wf_json v) m)"
| "wf_json _ = True"

lemma wf_keys_atoms: "wf_keys Undef" "wf_keys Null" "wf_keys (Bool b)" "wf_keys (Num n)" "wf_keys (Str t)"
  by simp_all

lemma json_clean_wf: "wf_keys v \<Longrightarrow> wf_json (json_clean v)"
proof (induction v rule: json_clean.induct)
  case (7 m)
  have "fst \<circ> (\<lambda>(k, v). (k, json_clean v)) = (fst :: string \<times> jv \<Rightarrow> string)" by auto
  then show ?case using 7 by (auto simp: list_all_iff distinct_map_filter)
qed (auto simp: list_all_iff)

lemma json_clean_id: "wf_json v \<Longrightarrow> json_clean v = v"
proof (induction v rule: json_clean.induct)
  case (6 xs)
  then show ?case by (auto simp: list_all_iff intro: map_idI)
next
  case (7 m)
  then have "filter (\<lambda>(k, v). v \<noteq> Undef) m = m" by (auto simp: filter_id_conv list_all_iff)
  moreover have "map (\<lambda>(k, v). (k, json_clean v)) m = m" using 7 \<open>filter _ m = m\<close> by (auto simp: list_all_iff intro!: map_idI)
  ultimately show ?case by simp
qed auto

lemma wf_json_keys: "wf_json v \<Longrightarrow> wf_keys v"
  by (induction v rule: wf_json.induct) (auto simp: list_all_iff)

lemma wf_keys_get: "wf_keys v \<Longrightarrow> wf_keys (get v k)"
  by (cases v) (auto simp: list_all_iff dest!: om_get_Some_set split: option.split)

lemma wf_json_get: "wf_json v \<Longrightarrow> get v k \<noteq> Undef \<Longrightarrow> wf_json (get v k)"
  by (cases v) (auto simp: list_all_iff dest!: om_get_Some_set split: option.splits)

lemma set_om_set_subset: "set (om_set m k v) \<subseteq> insert (k, v) (set m)"
  by (induction m k v rule: om_set.induct) auto

lemma wf_keys_om_set: "wf_keys (Obj m) \<Longrightarrow> wf_keys v \<Longrightarrow> wf_keys (Obj (om_set m k v))"
  using set_om_set_subset [of m k v] by (auto simp: list_all_iff intro: distinct_om_set)

lemma obj_entries_wf: "wf_keys v \<Longrightarrow> wf_keys (Obj (obj_entries v))"
  by (cases v) auto

lemma wf_keys_spread:
  assumes "wf_keys v" and "\<forall>(k, x) \<in> set kvs. wf_keys x"
  shows "wf_keys (spread v kvs)"
proof -
  have "wf_keys (Obj (foldl (\<lambda>m (k, x). om_set m k x) m kvs))" if "wf_keys (Obj m)" for m
    using that assms(2)
  proof (induction kvs arbitrary: m)
    case (Cons e kvs)
    then show ?case by (cases e) (auto intro!: Cons.IH wf_keys_om_set simp del: wf_keys.simps(1,2))
  qed simp
  then show ?thesis using obj_entries_wf [OF assms(1)] by (simp add: spread_def)
qed

lemma wf_keys_filter: "wf_keys v \<Longrightarrow> wf_keys (Obj (filter P (obj_entries v)))"
  by (cases v) (auto simp: list_all_iff distinct_map_filter)

lemma wf_keys_entry: "wf_keys v \<Longrightarrow> (k, x) \<in> set (obj_entries v) \<Longrightarrow> wf_keys x"
  by (cases v) (auto simp: list_all_iff)

section \<open>Reading back\<close>

lemma get_json_clean:
  assumes "distinct (om_keys m)"
  shows "get (json_clean (Obj m)) k = (if get (Obj m) k = Undef then Undef else json_clean (get (Obj m) k))"
proof -
  have "om_get (map (\<lambda>(k, v). (k, json_clean v)) xs) k = map_option json_clean (om_get xs k)" for xs :: "(string \<times> jv) list"
    by (induction xs) auto
  then show ?thesis using om_get_filter [OF assms, of "\<lambda>(k, v). v \<noteq> Undef" k]
    by (auto split: option.splits)
qed

lemma get_filter_keys: "get (Obj (filter (\<lambda>(k, v). P k) (obj_entries c))) k = (if P k then get c k else Undef)"
proof -
  have "om_get (filter (\<lambda>(k, v). P k) m) k = (if P k then om_get m k else None)" for m :: "(string \<times> jv) list"
    by (induction m) auto
  then show ?thesis by (cases c) auto
qed

lemma get_rowToConn:
  "get (rowToConn r) k = (if k = ''id'' then row_id r else if k = ''provider'' then row_provider r
     else if k = ''authType'' then row_authType r else if k = ''name'' then row_name r else if k = ''email'' then row_email r
     else if k = ''priority'' then row_priority r else if k = ''isActive'' then Bool (row_isActive r)
     else if k = ''createdAt'' then row_createdAt r else if k = ''updatedAt'' then row_updatedAt r else get (row_data r) k)"
  by (simp add: rowToConn_def get_spread)

lemma stored_read:
  assumes "distinct (om_keys (obj_entries c))"
  shows "get (rowToConn (connToRow c)) k =
    (if k \<in> {''id'', ''provider'', ''authType'', ''createdAt'', ''updatedAt''} then get c k
     else if k \<in> {''name'', ''email'', ''priority''} then coalesce (get c k) Null
     else if k = ''isActive'' then Bool (\<not> seq (get c k) (Bool False))
     else if get c k = Undef then Undef else json_clean (get c k))"
proof -
  have "get (json_clean (Obj (filter (\<lambda>(k, v). k \<notin> set ROW_COLUMNS) (obj_entries c)))) k
     = (if k \<in> set ROW_COLUMNS \<or> get c k = Undef then Undef else json_clean (get c k))"
    unfolding get_json_clean [OF distinct_om_filter [OF assms]] get_filter_keys by simp
  then show ?thesis by (auto simp: get_rowToConn connToRow_def Let_def ROW_COLUMNS_def)
qed



section \<open>The row cache\<close>

definition row_cache_ok :: "(conn_row \<Rightarrow> 'f) \<Rightarrow> 'f row_cache \<Rightarrow> bool" where
  "row_cache_ok fingerprint c \<longleftrightarrow> (\<forall>i f conn. om_get (rc_entries c) i = Some (f, conn) \<longrightarrow> (\<exists>r. f = fingerprint r \<and> conn = rowToConn r))"

lemma cached_ok:
  assumes "row_cache_ok fingerprint c" and "inj fingerprint"
  shows "row_cache_ok fingerprint (fst (cachedRowToConn fingerprint c row))"
    and "snd (cachedRowToConn fingerprint c row) = (case row of None \<Rightarrow> Null | Some r \<Rightarrow> rowToConn r)"
proof -
  have hit: "conn = rowToConn r" if "om_get (rc_entries c) i = Some (fingerprint r, conn)" for i r conn
    using that assms unfolding row_cache_ok_def by (metis injD)
  show "row_cache_ok fingerprint (fst (cachedRowToConn fingerprint c row))"
    using assms(1) by (auto simp: cachedRowToConn_def row_cache_ok_def split: option.split prod.split)
  show "snd (cachedRowToConn fingerprint c row) = (case row of None \<Rightarrow> Null | Some r \<Rightarrow> rowToConn r)"
    using hit by (auto simp: cachedRowToConn_def split: option.split prod.split)
qed

text \<open>the cache of decrypted rows is transparent: after any history of reads, of whatever rows the table held,
  a read gives what decrypting the row gives, provided that different rows have different texts.\<close>

theorem row_cache_is_transparent:
  assumes "inj fingerprint"
  shows "snd (cachedRowToConn fingerprint (foldl (\<lambda>c r. fst (cachedRowToConn fingerprint c r)) empty_cache reads) row)
    = (case row of None \<Rightarrow> Null | Some r \<Rightarrow> rowToConn r)"
proof -
  have "row_cache_ok fingerprint (foldl (\<lambda>c r. fst (cachedRowToConn fingerprint c r)) c rs)" if "row_cache_ok fingerprint c" for c rs
    using that by (induction rs arbitrary: c) (simp_all add: cached_ok(1) [OF _ assms])
  moreover have "row_cache_ok fingerprint empty_cache" by (simp add: row_cache_ok_def empty_cache_def)
  ultimately show ?thesis using cached_ok(2) [OF _ assms] by blast
qed

theorem row_cache_is_transparent_witness:
  "snd (cachedRowToConn id (foldl (\<lambda>c r. fst (cachedRowToConn id c r)) empty_cache [Some (connToRow (Obj [(''id'', Str ''a''), (''name'', Str ''old'')]))])
     (Some (connToRow (Obj [(''id'', Str ''a''), (''name'', Str ''new'')])))) = rowToConn (connToRow (Obj [(''id'', Str ''a''), (''name'', Str ''new'')]))"
  unfolding row_cache_is_transparent [OF inj_on_id] by simp

section \<open>Well-formed tables\<close>

definition row_ok :: "string \<Rightarrow> conn_row \<Rightarrow> bool" where
  "row_ok k r \<longleftrightarrow> k \<noteq> [] \<and> row_id r = Str k \<and> wf_json (row_data r) \<and> (\<exists>m. row_data r = Obj m \<and> fst ` set m \<inter> set ROW_COLUMNS = {})
     \<and> row_name r \<noteq> Undef \<and> row_email r \<noteq> Undef \<and> row_priority r \<noteq> Undef
     \<and> list_all wf_keys [row_provider r, row_authType r, row_name r, row_email r, row_priority r, row_createdAt r, row_updatedAt r]"

definition conn_ok :: "conn_table \<Rightarrow> bool" where
  "conn_ok tbl \<longleftrightarrow> distinct (om_keys tbl) \<and> (\<forall>k r. om_get tbl k = Some r \<longrightarrow> row_ok k r)"

lemma conn_okD: "conn_ok tbl \<Longrightarrow> om_get tbl k = Some r \<Longrightarrow> row_ok k r"
  by (simp add: conn_ok_def)

lemma connToRow_ok:
  assumes "wf_keys c" and "get c ''id'' = Str k" and "k \<noteq> []"
  shows "row_ok k (connToRow c)"
proof -
  have w: "wf_keys (Obj (filter (\<lambda>(k, v). k \<notin> set ROW_COLUMNS) (obj_entries c)))" by (rule wf_keys_filter [OF assms(1)])
  have "json_clean (Obj (filter (\<lambda>(k, v). k \<notin> set ROW_COLUMNS) (obj_entries c))) = Obj m \<Longrightarrow> fst ` set m \<inter> set ROW_COLUMNS = {}" for m
    by auto
  then show ?thesis
    using json_clean_wf [OF w] wf_keys_get [OF assms(1)] assms(2,3)
    by (auto simp: row_ok_def connToRow_def Let_def coalesce_def wf_keys_atoms simp del: wf_keys.simps(1,2) wf_json.simps)
qed

lemma om_get_upsert:
  assumes "get c ''id'' = Str k"
  shows "om_get (fst (upsert sha uuid c tbl)) k' = (if k' = k
    then Some (let r = connToRow (revised sha uuid (map_option rowToConn (om_get tbl k)) c) in
       case om_get tbl k of None \<Rightarrow> r | Some r0 \<Rightarrow> r\<lparr> row_createdAt := row_createdAt r0 \<rparr>)
    else om_get tbl k')"
  using assms by (simp add: upsert_def Let_def)

lemma wf_keys_without: "wf_keys c \<Longrightarrow> wf_keys (without ks c)"
  unfolding without_def by (rule wf_keys_filter)

lemma revised_wf:
  assumes "wf_keys c" and "\<And>p. previous = Some p \<Longrightarrow> wf_keys p"
  shows "wf_keys (revised sha uuid previous c)"
  using assms by (cases previous) (auto simp: revised_def simp del: wf_keys.simps(1,2) intro!: wf_keys_spread wf_keys_without wf_keys_get wf_keys_atoms)

lemma get_without: "get (without ks c) k = (if k \<in> set ks then Undef else get c k)"
  unfolding without_def get_filter_keys by simp

lemma get_revised: "k \<noteq> ''credentialRevisionId'' \<Longrightarrow> get (revised sha uuid previous c) k = get c k"
  by (auto simp: revised_def get_spread get_without split: option.split)

lemma wf_rowToConn: "row_ok k r \<Longrightarrow> wf_keys (rowToConn r)"
  unfolding rowToConn_def by (rule wf_keys_spread) (auto simp: row_ok_def simp del: wf_json.simps intro: wf_json_keys)

lemma id_rowToConn: "row_ok k r \<Longrightarrow> get (rowToConn r) ''id'' = Str k"
  by (simp add: get_rowToConn row_ok_def)

lemma upsert_ok:
  assumes "conn_ok tbl" and "wf_keys c" and "get c ''id'' = Str k" and "k \<noteq> []"
  shows "conn_ok (fst (upsert sha uuid c tbl))"
proof -
  let ?prev = "map_option rowToConn (om_get tbl k)"
  have w: "wf_keys (revised sha uuid ?prev c)"
    by (rule revised_wf [OF assms(2)]) (use wf_rowToConn conn_okD [OF assms(1)] in blast)
  have i: "get (revised sha uuid ?prev c) ''id'' = Str k" using assms(3) by (simp add: get_revised)
  have new: "row_ok k (let r = connToRow (revised sha uuid ?prev c) in case om_get tbl k of None \<Rightarrow> r | Some r0 \<Rightarrow> r\<lparr> row_createdAt := row_createdAt r0 \<rparr>)"
    using connToRow_ok [OF w i assms(4)] conn_okD [OF assms(1)]
    by (auto simp: row_ok_def Let_def split: option.split)
  have "distinct (om_keys (fst (upsert sha uuid c tbl)))"
    using assms(1) distinct_om_set by (auto simp: upsert_def Let_def conn_ok_def)
  then show ?thesis using new assms(1) unfolding conn_ok_def om_get_upsert [OF assms(3)] by auto
qed

section \<open>The order of the accounts\<close>

lemma om_get_set_priorities:
  assumes "distinct (map (\<lambda>ci. jstr (get (fst ci) ''id'')) cns)"
  shows "om_get (foldl set_priority tbl cns) k = (case om_get tbl k of None \<Rightarrow> None
    | Some r \<Rightarrow> (case om_get (map (\<lambda>ci. (jstr (get (fst ci) ''id''), snd ci)) cns) k of None \<Rightarrow> Some r
        | Some n \<Rightarrow> Some (r\<lparr> row_priority := JInt n \<rparr>)))"
  using assms
proof (induction cns arbitrary: tbl)
  case (Cons ci cns)
  have "om_get (map (\<lambda>ci. (jstr (get (fst ci) ''id''), snd ci)) cns) (jstr (get (fst ci) ''id'')) = None"
    using Cons.prems by (simp add: om_get_None_iff image_image)
  then show ?case using Cons by (auto simp: set_priority_def split: option.split)
qed (simp split: option.split)

lemma provider_ids:
  assumes "conn_ok tbl"
  shows "map (\<lambda>r. jstr (get (rowToConn r) ''id'')) (rows_of p tbl) = map fst (filter (\<lambda>(k, r). seq (row_provider r) p) tbl)"
proof -
  have "jstr (get (rowToConn r) ''id'') = k" if "(k, r) \<in> set tbl" for k r
    using that assms om_get_eq_Some_iff [of tbl k r] id_rowToConn [of k r] by (simp add: conn_ok_def)
  then have "map (\<lambda>r. jstr (get (rowToConn r) ''id'')) (filter (\<lambda>r. seq (row_provider r) p) (map snd xs))
     = map fst (filter (\<lambda>(k, r). seq (row_provider r) p) xs)" if "set xs \<subseteq> set tbl" for xs
    using that by (induction xs) auto
  then show ?thesis by (simp add: rows_of_def)
qed

definition served_order :: "(string \<Rightarrow> string \<Rightarrow> bool) \<Rightarrow> jv \<Rightarrow> conn_table \<Rightarrow> string list" where
  "served_order collate p tbl = map (\<lambda>c. jstr (get c ''id'')) (js_sort (order_before collate) (map rowToConn (rows_of p tbl)))"

lemma mset_served_order:
  "conn_ok tbl \<Longrightarrow> mset (served_order collate p tbl) = mset (map fst (filter (\<lambda>(k, r). seq (row_provider r) p) tbl))"
  unfolding served_order_def provider_ids [symmetric] by (simp add: multiset.map_comp comp_def)

lemma served_order_props:
  assumes "conn_ok tbl"
  shows "distinct (served_order collate p tbl)"
    and "k \<in> set (served_order collate p tbl) \<longleftrightarrow> (\<exists>r. om_get tbl k = Some r \<and> seq (row_provider r) p)"
proof -
  have d: "distinct (om_keys tbl)" using assms by (simp add: conn_ok_def)
  show "distinct (served_order collate p tbl)"
    using mset_eq_imp_distinct_iff [OF mset_served_order [OF assms, of collate p]] distinct_map_filter [OF d] by blast
  show "k \<in> set (served_order collate p tbl) \<longleftrightarrow> (\<exists>r. om_get tbl k = Some r \<and> seq (row_provider r) p)"
    unfolding mset_eq_setD [OF mset_served_order [OF assms]] om_get_eq_Some_iff [OF d] by force
qed

lemma reorder_get:
  assumes "conn_ok tbl"
  shows "om_get (reorderInTx collate p tbl) k = (case om_get tbl k of None \<Rightarrow> None
    | Some r \<Rightarrow> (case om_get (zip (served_order collate p tbl) [1..int (length (served_order collate p tbl))]) k of None \<Rightarrow> Some r
        | Some n \<Rightarrow> Some (r\<lparr> row_priority := JInt n \<rparr>)))"
proof -
  let ?L = "js_sort (order_before collate) (map rowToConn (rows_of p tbl))"
  have m: "map (\<lambda>ci. (jstr (get (fst ci) ''id''), snd ci)) (zip ?L ns) = zip (served_order collate p tbl) ns" for ns
    by (simp add: served_order_def zip_map1 case_prod_beta)
  have "map (\<lambda>ci. jstr (get (fst ci) ''id'')) (zip ?L [1..int (length ?L)]) = map (\<lambda>c. jstr (get c ''id'')) (map fst (zip ?L [1..int (length ?L)]))"
    by (simp only: map_map comp_def)
  also have "map fst (zip ?L [1..int (length ?L)]) = ?L" by (rule map_fst_zip) simp
  finally have ids: "map (\<lambda>ci. jstr (get (fst ci) ''id'')) (zip ?L [1..int (length ?L)]) = served_order collate p tbl"
    unfolding served_order_def .
  have "distinct (map (\<lambda>ci. jstr (get (fst ci) ''id'')) (zip ?L [1..int (length ?L)]))"
    unfolding ids by (rule served_order_props(1) [OF assms])
  from om_get_set_priorities [OF this, of tbl k]
  show ?thesis unfolding reorderInTx_def Let_def m by (simp only: served_order_def length_map)
qed

lemma reorder_shape:
  assumes "conn_ok tbl" and "om_get tbl k = Some r"
  shows "\<exists>v. om_get (reorderInTx collate p tbl) k = Some (r\<lparr> row_priority := v \<rparr>) \<and> (v = row_priority r \<or> (\<exists>n. v = JInt n))"
proof (cases "om_get (zip (served_order collate p tbl) [1..int (length (served_order collate p tbl))]) k")
  case None
  then show ?thesis using assms by (intro exI [of _ "row_priority r"]) (simp add: reorder_get)
next
  case (Some n)
  then show ?thesis using assms by (intro exI [of _ "JInt n"]) (auto simp: reorder_get)
qed

lemma keys_reorder: "om_keys (reorderInTx collate p tbl) = om_keys tbl"
proof -
  have keys: "om_get m k = Some u \<Longrightarrow> om_keys (om_set m k v) = om_keys m" for m :: conn_table and k u v
    by (induction m) (auto split: if_splits)
  have "om_keys (set_priority t cn) = om_keys t" for t cn
    unfolding set_priority_def using keys by (auto split: option.split)
  then have "om_keys (foldl set_priority t cns) = om_keys t" for t cns by (induction cns arbitrary: t) auto
  then show ?thesis by (simp add: reorderInTx_def Let_def)
qed

lemma reorder_ok:
  assumes "conn_ok tbl"
  shows "conn_ok (reorderInTx collate p tbl)"
  unfolding conn_ok_def keys_reorder
proof (intro conjI allI impI)
  fix k r'
  assume r': "om_get (reorderInTx collate p tbl) k = Some r'"
  then obtain r where r: "om_get tbl k = Some r" using reorder_get [OF assms, of collate p k] by (auto split: option.splits)
  obtain v where "r' = r\<lparr> row_priority := v \<rparr>" "v = row_priority r \<or> (\<exists>n. v = JInt n)"
    using reorder_shape [OF assms r, of collate p] r' by auto
  then show "row_ok k r'" using conn_okD [OF assms r] by (auto simp: row_ok_def)
qed (use assms in \<open>simp add: conn_ok_def\<close>)

text \<open>the accounts of a provider are numbered in the order they are listed in: the account at place \<open>n\<close> of
  that order gets the priority \<open>n + 1\<close>, nothing else of it changes, and the accounts of other providers
  keep theirs.\<close>

theorem accounts_numbered_in_order:
  assumes "conn_ok tbl"
  shows "(\<forall>n < length (served_order collate p tbl). \<exists>r. om_get tbl (served_order collate p tbl ! n) = Some r
      \<and> om_get (reorderInTx collate p tbl) (served_order collate p tbl ! n) = Some (r\<lparr> row_priority := JInt (int n + 1) \<rparr>))
    \<and> (\<forall>k. k \<notin> set (served_order collate p tbl) \<longrightarrow> om_get (reorderInTx collate p tbl) k = om_get tbl k)
    \<and> mset (served_order collate p tbl) = mset (map fst (filter (\<lambda>(k, r). seq (row_provider r) p) tbl))"
proof -
  let ?L = "served_order collate p tbl"
  have d: "distinct ?L" by (rule served_order_props(1) [OF assms])
  have z: "om_get (zip ?L [1..int (length ?L)]) (?L ! n) = Some (int n + 1)" if "n < length ?L" for n
  proof -
    have "(?L ! n, int n + 1) \<in> set (zip ?L [1..int (length ?L)])" using that by (auto simp: set_zip intro!: exI [of _ n])
    moreover have "distinct (om_keys (zip ?L [1..int (length ?L)]))" using d by simp
    ultimately show ?thesis by (simp only: om_get_eq_Some_iff)
  qed
  have "\<exists>r. om_get tbl (?L ! n) = Some r \<and> om_get (reorderInTx collate p tbl) (?L ! n) = Some (r\<lparr> row_priority := JInt (int n + 1) \<rparr>)"
    if n: "n < length ?L" for n
  proof -
    obtain r where r: "om_get tbl (?L ! n) = Some r" using served_order_props(2) [OF assms] nth_mem [OF n] by blast
    then show ?thesis by (simp add: reorder_get [OF assms] z [OF n])
  qed
  moreover have "om_get (reorderInTx collate p tbl) k = om_get tbl k" if "k \<notin> set ?L" for k
  proof -
    have "om_get (zip ?L [1..int (length ?L)]) k = None" using that by (auto simp: om_get_None_iff dest: set_zip_leftD)
    then show ?thesis by (simp add: reorder_get [OF assms] split: option.split)
  qed
  ultimately show ?thesis using mset_served_order [OF assms] by blast
qed

section \<open>Signing in again\<close>

lemma get_clear: "get (clearReauthFailureState c) k = (if failure_field k then Undef else get c k)"
  unfolding clearReauthFailureState_def get_filter_keys by simp

lemma om_get_given: "om_get (rev (given data ks)) k = (if k \<in> set ks \<and> \<not> is_nullish (get data k) then Some (get data k) else None)"
proof (induction ks)
  case (Cons j ks)
  show ?case using Cons by (auto simp: given_def om_get_append split: option.splits)
qed (simp add: given_def)

text \<open>The fields a new sign-in may write.\<close>

definition sign_in_field :: "string \<Rightarrow> bool" where
  "sign_in_field k \<longleftrightarrow> k \<in> set CREDENTIAL_FIELDS \<or> failure_field k
     \<or> k \<in> {''authType'', ''email'', ''providerSpecificData'', ''isActive'', ''testStatus'', ''updatedAt'', ''credentialRevisionId''}"

lemma get_reauthorized:
  assumes "\<not> sign_in_field k"
  shows "get (reauthorized now existing data) k = get existing k"
  using assms by (auto simp: reauthorized_def Let_def get_clear get_spread om_get_append om_get_given sign_in_field_def)

lemma psd_reauthorized:
  assumes "k \<in> set PROXY_BOUND_KEYS"
  shows "get (get (reauthorized now existing data) ''providerSpecificData'') k = get (get existing ''providerSpecificData'') k"
proof -
  let ?F = "filter (\<lambda>(k, v). k \<notin> set PROXY_BOUND_KEYS) (psd_of data)"
  have none: "om_get (rev ?F) k = None" using assms by (auto simp: om_get_None_iff)
  have old: "get (Obj (psd_of existing)) k = get (get existing ''providerSpecificData'') k"
    by (cases "get existing ''providerSpecificData''") (simp_all add: psd_of_def plain_object_def)
  have o: "Obj (obj_entries (spread v kvs)) = spread v kvs" for v kvs by (simp add: spread_def)
  have field: "get (reauthorized now existing data) ''providerSpecificData'' =
    (if obj_entries (spread (Obj (psd_of existing)) ?F) = [] then get existing ''providerSpecificData'' else spread (Obj (psd_of existing)) ?F)"
    by (simp add: reauthorized_def Let_def get_clear get_spread om_get_append om_get_given failure_field_def o)
      (simp add: CREDENTIAL_FIELDS_def)
  have "get (spread (Obj (psd_of existing)) ?F) k = get (get existing ''providerSpecificData'') k"
    unfolding get_spread none using old by simp
  then show ?thesis unfolding field by simp
qed

lemma given_entries: "(k, v) \<in> set (given data ks) \<Longrightarrow> v = get data k"
  by (auto simp: given_def split: if_splits)

lemma psd_of_wf: "wf_keys c \<Longrightarrow> wf_keys (Obj (psd_of c))"
  using obj_entries_wf [OF wf_keys_get] by (simp add: psd_of_def)

lemma clear_wf: "wf_keys c \<Longrightarrow> wf_keys (clearReauthFailureState c)"
  unfolding clearReauthFailureState_def by (rule wf_keys_filter)

lemma reauthorized_wf:
  assumes "wf_keys existing" and "wf_keys data"
  shows "wf_keys (reauthorized now existing data)"
proof -
  let ?F = "filter (\<lambda>(k, v). k \<notin> set PROXY_BOUND_KEYS) (psd_of data)"
  have "wf_keys (spread (Obj (psd_of existing)) ?F)"
    using psd_of_wf [OF assms(1)] psd_of_wf [OF assms(2)] by (intro wf_keys_spread) (auto simp: list_all_iff)
  then have "wf_keys (Obj (obj_entries (spread (Obj (psd_of existing)) ?F)))" by (rule obj_entries_wf)
  then show ?thesis unfolding reauthorized_def Let_def
    by (intro clear_wf wf_keys_spread assms(1)) (auto dest!: given_entries simp del: wf_keys.simps(1,2) intro: wf_keys_get assms(2))
qed

lemma coalesce_defined: "v \<noteq> Undef \<Longrightarrow> coalesce v Null = v"
  by (cases v) (simp_all add: coalesce_def)

lemma stored_field:
  assumes c: "wf_keys c" "get c ''id'' = Str k" and row: "row_ok k row" "om_get tbl k = Some row"
    and same: "get c f = get (rowToConn row) f" and f: "f \<noteq> ''credentialRevisionId''"
  shows "get (getProviderConnectionById k (fst (upsert sha uuid c tbl))) f = get (rowToConn row) f"
proof -
  let ?c = "revised sha uuid (Some (rowToConn row)) c"
  have w: "wf_keys ?c" by (rule revised_wf [OF c(1)]) (use wf_rowToConn [OF row(1)] in simp)
  then have d: "distinct (om_keys (obj_entries ?c))" by (cases ?c) auto
  have g: "get ?c f = get (rowToConn row) f" using same f by (simp add: get_revised)
  have ro: "row_name row \<noteq> Undef" "row_email row \<noteq> Undef" "row_priority row \<noteq> Undef" "wf_json (row_data row)"
    using row(1) by (simp_all add: row_ok_def)
  have stored: "getProviderConnectionById k (fst (upsert sha uuid c tbl)) = rowToConn (connToRow ?c\<lparr> row_createdAt := row_createdAt row \<rparr>)"
    by (simp add: getProviderConnectionById_def om_get_upsert [OF c(2)] row(2) Let_def)
  have "get (rowToConn (connToRow ?c\<lparr> row_createdAt := row_createdAt row \<rparr>)) f
    = (if f = ''createdAt'' then row_createdAt row else get (rowToConn (connToRow ?c)) f)"
    by (simp add: get_rowToConn)
  also have "\<dots> = get (rowToConn row) f"
  proof -
    define G where "G = get (rowToConn row) f"
    let ?A = "{''id'', ''provider'', ''authType'', ''createdAt'', ''updatedAt''}" and ?B = "{''name'', ''email'', ''priority''}"
    have G: "get (revised sha uuid (Some (rowToConn row)) c) f = G" by (simp add: g G_def)
    have soft: "coalesce G Null = G" if "f \<in> ?B"
      using that ro(1-3) coalesce_defined by (auto simp: G_def get_rowToConn)
    have act: "\<exists>b. G = Bool b" if "f = ''isActive''" using that by (simp add: G_def get_rowToConn)
    have rest: "json_clean G = G" if "f \<notin> ?A" "f \<notin> ?B" "f \<noteq> ''isActive''" "G \<noteq> Undef"
      using that json_clean_id [OF wf_json_get [OF ro(4)], of f] by (simp add: G_def get_rowToConn)
    have "get (rowToConn (connToRow (revised sha uuid (Some (rowToConn row)) c))) f = G"
    proof (cases "f \<in> ?A")
      case True
      then show ?thesis unfolding stored_read [OF d] G by (rule if_P)
    next
      case a: False
      show ?thesis
      proof (cases "f \<in> ?B")
        case True
        then show ?thesis unfolding stored_read [OF d] G if_not_P [OF a] if_P [OF True] by (rule soft)
      next
        case b: False
        show ?thesis
        proof (cases "f = ''isActive''")
          case True
          then show ?thesis unfolding stored_read [OF d] G if_not_P [OF a] if_not_P [OF b] if_P [OF True] using act [OF True] by auto
        next
          case c: False
          show ?thesis unfolding stored_read [OF d] G if_not_P [OF a] if_not_P [OF b] if_not_P [OF c] using rest [OF a b c] by simp
        qed
      qed
    qed
    moreover have "row_createdAt row = G" if "f = ''createdAt''" using that by (simp add: G_def get_rowToConn)
    ultimately show ?thesis unfolding G_def by simp
  qed
  finally show ?thesis unfolding stored .
qed

lemma stored_gone:
  assumes c: "wf_keys c" "get c ''id'' = Str k" and row: "row_ok k row" "om_get tbl k = Some row"
    and gone: "get c f = Undef" "f \<notin> set ROW_COLUMNS" "f \<noteq> ''credentialRevisionId''"
  shows "get (getProviderConnectionById k (fst (upsert sha uuid c tbl))) f = Undef"
proof -
  let ?c = "revised sha uuid (Some (rowToConn row)) c"
  have "wf_keys ?c" by (rule revised_wf [OF c(1)]) (use wf_rowToConn [OF row(1)] in simp)
  then have d: "distinct (om_keys (obj_entries ?c))" by (cases ?c) auto
  have "get (rowToConn (connToRow ?c)) f = Undef"
    unfolding stored_read [OF d] using gone by (auto simp: get_revised ROW_COLUMNS_def)
  then show ?thesis using gone(2)
    by (simp add: getProviderConnectionById_def om_get_upsert [OF c(2)] row(2) Let_def get_rowToConn ROW_COLUMNS_def split: if_splits)
qed

lemma failure_not_column: "failure_field f \<Longrightarrow> f \<notin> set ROW_COLUMNS \<and> f \<noteq> ''credentialRevisionId''"
  by (auto simp: failure_field_def ROW_COLUMNS_def)

lemma stored_psd:
  assumes c: "wf_keys c" "get c ''id'' = Str k" and row: "row_ok k row" "om_get tbl k = Some row"
    and same: "get (get c ''providerSpecificData'') f = get (get (rowToConn row) ''providerSpecificData'') f"
  shows "get (get (getProviderConnectionById k (fst (upsert sha uuid c tbl))) ''providerSpecificData'') f
    = get (get (rowToConn row) ''providerSpecificData'') f"
proof -
  let ?c = "revised sha uuid (Some (rowToConn row)) c" and ?v = "get c ''providerSpecificData''"
  have "wf_keys ?c" by (rule revised_wf [OF c(1)]) (use wf_rowToConn [OF row(1)] in simp)
  then have d: "distinct (om_keys (obj_entries ?c))" by (cases ?c) auto
  have v: "get ?c ''providerSpecificData'' = ?v" by (simp add: get_revised)
  have r: "get (get (rowToConn row) ''providerSpecificData'') f = Undef \<or> wf_json (get (get (rowToConn row) ''providerSpecificData'') f)"
    using row(1) wf_json_get [of "row_data row" "''providerSpecificData''"] wf_json_get [of "get (row_data row) ''providerSpecificData''" f]
    by (cases "get (row_data row) ''providerSpecificData'' = Undef") (auto simp: get_rowToConn row_ok_def)
  have "get (if ?v = Undef then Undef else json_clean ?v) f = get ?v f"
  proof (cases ?v)
    case (Obj m)
    then have "distinct (om_keys m)" using wf_keys_get [OF c(1), of "''providerSpecificData''"] by simp
    from get_json_clean [OF this, of f] show ?thesis using Obj r same json_clean_id by auto
  qed auto
  then show ?thesis using same
    by (simp add: getProviderConnectionById_def om_get_upsert [OF c(2)] row(2) Let_def get_rowToConn)
      (use stored_read [OF d, of "''providerSpecificData''"] v in \<open>simp add: get_rowToConn split: if_splits\<close>)
qed


section \<open>Adding an account\<close>

text \<open>A sign-in that is another account than the row: for OAuth at least one upstream account id is known
  and they are not the same, for keys the keys differ; everything else never meets an existing row.\<close>

definition another_account :: "jv \<Rightarrow> jv \<Rightarrow> bool" where
  "another_account data c \<longleftrightarrow>
     (if seq (get data ''authType'') (Str ''oauth'') then om_get (connectionIdentity data) ''accountId'' \<noteq> om_get (connectionIdentity c) ''accountId''
      else if seq (get data ''authType'') (Str ''apikey'') then \<not> seq (js_or (get c ''apiKey'') (Str [])) (js_or (get data ''apiKey'') (Str []))
      else True)"

lemma same_oauth_account_id:
  "same_oauth_account data c \<Longrightarrow> om_get (connectionIdentity data) ''accountId'' = om_get (connectionIdentity c) ''accountId''"
  by (cases "om_get (connectionIdentity data) ''accountId''"; cases "om_get (connectionIdentity c) ''accountId''")
    (simp_all add: same_oauth_account_def Let_def split: if_splits)

lemma found_is_same:
  assumes "find_existing data accts = Some c"
  shows "c \<in> set accts \<and> \<not> another_account data c"
proof (cases "seq (get data ''authType'') (Str ''oauth'')")
  case True
  then have f: "find (same_oauth_account data) accts = Some c"
    using assms by (auto simp: find_existing_def split: if_splits dest: seq_imp_eq)
  then have "c \<in> set accts" "same_oauth_account data c" by (auto simp: find_Some_iff)
  then show ?thesis using True same_oauth_account_id by (simp add: another_account_def)
next
  case False
  then have k: "seq (get data ''authType'') (Str ''apikey'')" and f: "find (same_api_key data) accts = Some c"
    using assms unfolding find_existing_def by (auto split: if_splits)
  then have "c \<in> set accts" "same_api_key data c" by (auto simp: find_Some_iff)
  then show ?thesis using False k by (simp add: another_account_def same_api_key_def)
qed

lemma get_no_key: "\<not> has_own data f \<Longrightarrow> om_get (rev (obj_entries data)) f = None"
  by (cases data) (auto simp: om_get_None_iff)

lemma get_merged:
  assumes "\<not> has_own data f" and "om_get (rev kvs) f = None"
  shows "get (spread existing (obj_entries data @ kvs)) f = get existing f"
  using assms get_no_key by (simp add: get_spread om_get_append)

lemma merged_wf:
  assumes "wf_keys existing" and "wf_keys data" and "\<forall>(k, v) \<in> set kvs. wf_keys v"
  shows "wf_keys (spread existing (obj_entries data @ kvs))"
  by (rule wf_keys_spread) (use assms in \<open>auto simp del: wf_keys.simps(1,2) intro: wf_keys_entry\<close>)

lemma wf_keys_if: "wf_keys a \<Longrightarrow> wf_keys b \<Longrightarrow> wf_keys (if P then a else b)"
  by simp

lemma wf_js_or: "wf_keys a \<Longrightarrow> wf_keys b \<Longrightarrow> wf_keys (js_or a b)"
  by (simp add: js_or_def)

lemma deriveConnectionName_wf: "wf_keys data \<Longrightarrow> wf_keys fallback \<Longrightarrow> wf_keys (deriveConnectionName data fallback)"
  unfolding deriveConnectionName_def Let_def by (intro wf_keys_if wf_js_or wf_keys_get wf_keys_atoms)

lemma new_connection_fields:
  "get (new_connection i now data accts) ''id'' = Str i"
  "wf_keys data \<Longrightarrow> wf_keys (new_connection i now data accts)"
proof -
  show "get (new_connection i now data accts) ''id'' = Str i"
    by (simp add: new_connection_def get_spread om_get_append om_get_given) (simp add: OPTIONAL_FIELDS_def)
  assume w: "wf_keys data"
  have name: "wf_keys (new_name data accts)"
    unfolding new_name_def Let_def numbered_def by (intro wf_keys_if wf_js_or wf_keys_get deriveConnectionName_wf w wf_keys_atoms)
  have prio: "wf_keys (new_priority data accts)" using w by (auto simp: new_priority_def simp del: wf_keys.simps(1,2) intro: wf_keys_get)
  show "wf_keys (new_connection i now data accts)"
    unfolding new_connection_def
  proof (rule wf_keys_spread)
    have "wf_keys (js_or (get data ''authType'') (Str ''oauth''))" "wf_keys (if get data ''isActive'' \<noteq> Undef then get data ''isActive'' else Bool True)"
      using wf_keys_get [OF w] by (simp_all add: js_or_def)
    then show "wf_keys (Obj [(''id'', Str i), (''provider'', get data ''provider''),
       (''authType'', js_or (get data ''authType'') (Str ''oauth'')), (''name'', new_name data accts), (''priority'', new_priority data accts),
       (''isActive'', if get data ''isActive'' \<noteq> Undef then get data ''isActive'' else Bool True),
       (''createdAt'', Str now), (''updatedAt'', Str now)])"
      using name prio wf_keys_get [OF w] by simp
  qed (use wf_keys_get [OF w] in \<open>auto dest!: given_entries\<close>)
qed

text \<open>The object that a sign-in writes over the row it found.\<close>

definition signed_in :: "string \<Rightarrow> jv \<Rightarrow> jv \<Rightarrow> jv" where
  "signed_in now data existing = (if seq (get data ''provider'') (Str ''codex'') \<and> seq (get data ''authType'') (Str ''oauth'') \<and> truthy (get data ''accessToken'')
     then mergeCodexReauthorization existing data now else spread existing (obj_entries data @ [(''updatedAt'', Str now)]))"

lemma signed_in_fields:
  assumes "\<not> has_own data ''id''"
  shows "get (signed_in now data existing) ''id'' = get existing ''id''"
    and "wf_keys existing \<Longrightarrow> wf_keys data \<Longrightarrow> wf_keys (signed_in now data existing)"
  using get_merged [OF assms] by (auto simp: signed_in_def mergeCodexReauthorization_def get_clear failure_field_def
      simp del: wf_keys.simps(1,2) intro!: clear_wf merged_wf)

lemma create_cases:
  assumes "conn_ok tbl"
  obtains (found) k r where "om_get tbl k = Some r" "\<not> another_account data (rowToConn r)"
      "fst (createProviderConnection collate sha uuid i now data tbl) = fst (upsert sha uuid (signed_in now data (rowToConn r)) tbl)"
  | (added) accts where "fst (createProviderConnection collate sha uuid i now data tbl)
      = reorderInTx collate (get data ''provider'') (fst (upsert sha uuid (new_connection i now data accts) tbl))"
proof (cases "find_existing data (map rowToConn (rows_of (get data ''provider'') tbl))")
  case None
  then show ?thesis using added by (simp add: createProviderConnection_def Let_def case_prod_unfold)
next
  case (Some c)
  then obtain r where r: "r \<in> snd ` set tbl" "c = rowToConn r" "\<not> another_account data c"
    using found_is_same [OF Some] by (auto simp: rows_of_def)
  then obtain k where "om_get tbl k = Some r" using assms om_get_eq_Some_iff [of tbl] by (auto simp: conn_ok_def)
  then show ?thesis using found [of k r] r Some
    by (simp add: createProviderConnection_def Let_def signed_in_def)
qed

text \<open>C36: signing in never overwrites another account: a row that is not the account signed in to (another
  upstream account id, an id known on one side only, another API key) keeps everything but its place in
  the order, even when it carries the same mail address or the same name.\<close>

theorem sign_in_spares_other_accounts:
  assumes "conn_ok tbl" and "om_get tbl k = Some r" and "another_account data (rowToConn r)"
    and "wf_keys data" and "\<not> has_own data ''id''" and "i \<noteq> []" and "i \<noteq> k"
  shows "\<exists>v. om_get (fst (createProviderConnection collate sha uuid i now data tbl)) k = Some (r\<lparr> row_priority := v \<rparr>)"
  using assms(1)
proof (cases rule: create_cases [where collate = collate and sha = sha and uuid = uuid and i = i and now = now and data = data])
  case (found k' r')
  have ok: "row_ok k' r'" by (rule conn_okD [OF assms(1) found(1)])
  have "k' \<noteq> k" using found(1,2) assms(2,3) by auto
  have "get (signed_in now data (rowToConn r')) ''id'' = Str k'" using signed_in_fields(1) [OF assms(5)] id_rowToConn [OF ok] by simp
  from om_get_upsert [OF this] have "om_get (fst (createProviderConnection collate sha uuid i now data tbl)) k = Some r"
    using \<open>k' \<noteq> k\<close> assms(2) found(3) by simp
  then show ?thesis by (intro exI [of _ "row_priority r"]) simp
next
  case (added accts)
  let ?new = "new_connection i now data accts"
  have "conn_ok (fst (upsert sha uuid ?new tbl))"
    by (rule upsert_ok [OF assms(1) new_connection_fields(2) [OF assms(4)] new_connection_fields(1) assms(6)])
  moreover have "om_get (fst (upsert sha uuid ?new tbl)) k = Some r"
    using assms(2,7) by (simp add: om_get_upsert [OF new_connection_fields(1)])
  ultimately show ?thesis unfolding added using reorder_shape by metis
qed

section \<open>The table stays well formed\<close>

datatype conn_op =
    Create string string string jv
  | Update string string string jv update_options
  | SignIn string string string jv
  | MergeData string string string jv jv
  | Snapshot string string string jv jv
  | Delete string
  | DeleteAll jv
  | Reorder jv
  | Cleanup string

fun conn_step :: "(string \<Rightarrow> string \<Rightarrow> bool) \<Rightarrow> (string \<Rightarrow> string) \<Rightarrow> bool \<Rightarrow> conn_table \<Rightarrow> conn_op \<Rightarrow> conn_table" where
  "conn_step collate sha cr tbl (Create uuid i now data) = fst (createProviderConnection collate sha uuid i now data tbl)"
| "conn_step collate sha cr tbl (Update uuid now i data opts) =
     (case updateProviderConnection collate sha cr uuid now i data opts tbl of Inl _ \<Rightarrow> tbl | Inr (t, _) \<Rightarrow> t)"
| "conn_step collate sha cr tbl (SignIn uuid now i data) = fst (reauthorizeProviderConnection sha uuid now i data tbl)"
| "conn_step collate sha cr tbl (MergeData uuid now i name psd) = fst (mergeProviderConnectionData sha uuid now i name psd tbl)"
| "conn_step collate sha cr tbl (Snapshot uuid now i pool pair) =
     fst (updateConnectionProxyPoolSnapshotIfBound sha uuid now i pool pair tbl)"
| "conn_step collate sha cr tbl (Delete i) = fst (deleteProviderConnection collate i tbl)"
| "conn_step collate sha cr tbl (DeleteAll p) = fst (deleteProviderConnectionsByProvider p tbl)"
| "conn_step collate sha cr tbl (Reorder p) = reorderProviderConnections collate p tbl"
| "conn_step collate sha cr tbl (Cleanup uuid) = fst (cleanupProviderConnections sha uuid tbl)"

text \<open>A payload is an object without an id of its own; a new id is not empty.\<close>

fun op_ok :: "conn_op \<Rightarrow> bool" where
  "op_ok (Create uuid i now data) = (i \<noteq> [] \<and> wf_keys data \<and> \<not> has_own data ''id'')"
| "op_ok (Update uuid now i data opts) = (wf_keys data \<and> \<not> has_own data ''id'')"
| "op_ok (SignIn uuid now i data) = wf_keys data"
| "op_ok (MergeData uuid now i name psd) = (wf_keys name \<and> wf_keys psd)"
| "op_ok (Snapshot uuid now i pool pair) = wf_keys pair"
| "op_ok _ = True"

inductive reachable_table :: "(string \<Rightarrow> string \<Rightarrow> bool) \<Rightarrow> (string \<Rightarrow> string) \<Rightarrow> bool \<Rightarrow> conn_table \<Rightarrow> bool"
  for collate sha cr where
  no_accounts: "reachable_table collate sha cr []"
| conn_step: "reachable_table collate sha cr tbl \<Longrightarrow> op_ok e \<Longrightarrow> reachable_table collate sha cr (conn_step collate sha cr tbl e)"

lemma row_id_nonempty: "row_ok k r \<Longrightarrow> k \<noteq> []"
  by (simp add: row_ok_def)

lemma write_row_ok:
  assumes "conn_ok tbl" and "om_get tbl k = Some r" and "wf_keys c" and "get c ''id'' = get (rowToConn r) ''id''"
  shows "conn_ok (fst (upsert sha uuid c tbl))"
  using upsert_ok [OF assms(1,3)] conn_okD [OF assms(1,2)] id_rowToConn row_id_nonempty assms(4) by metis

lemma create_account_ok:
  assumes "conn_ok tbl" and "i \<noteq> []" and "wf_keys data" and "\<not> has_own data ''id''"
  shows "conn_ok (fst (createProviderConnection collate sha uuid i now data tbl))"
  using assms(1)
proof (cases rule: create_cases [where collate = collate and sha = sha and uuid = uuid and i = i and now = now and data = data])
  case (found k r)
  show ?thesis unfolding found(3)
    by (rule write_row_ok [OF assms(1) found(1)])
      (use signed_in_fields [OF assms(4)] wf_rowToConn [OF conn_okD [OF assms(1) found(1)]] assms(3) in auto)
next
  case (added accts)
  show ?thesis unfolding added
    by (rule reorder_ok [OF upsert_ok [OF assms(1) new_connection_fields(2) [OF assms(3)] new_connection_fields(1) assms(2)]])
qed

lemma update_account_ok:
  assumes "conn_ok tbl" and "wf_keys data" and "\<not> has_own data ''id''"
    and "updateProviderConnection collate sha cr uuid now i data opts tbl = Inr (t, res)"
  shows "conn_ok t"
proof (cases "om_get tbl i")
  case None
  then show ?thesis using assms(1,4) by (auto simp: updateProviderConnection_def split: if_splits)
next
  case (Some row)
  let ?c = "spread (rowToConn row) (obj_entries data @ [(''updatedAt'', Str now)])"
  have "wf_keys ?c" by (rule merged_wf) (use wf_rowToConn [OF conn_okD [OF assms(1) Some]] assms(2) in auto)
  moreover have "get ?c ''id'' = get (rowToConn row) ''id''" by (rule get_merged [OF assms(3)]) simp
  ultimately have "conn_ok (fst (upsert sha uuid ?c tbl))" by (rule write_row_ok [OF assms(1) Some])
  then have "conn_ok (fst (upsert sha uuid ?c tbl)) \<and> conn_ok (reorderInTx collate p (fst (upsert sha uuid ?c tbl)))" for p
    using reorder_ok by blast
  then show ?thesis using assms(4) Some
    by (auto simp: updateProviderConnection_def Let_def case_prod_unfold split: if_splits option.splits)
qed

lemma sign_in_ok:
  assumes "conn_ok tbl" and "wf_keys data"
  shows "conn_ok (fst (reauthorizeProviderConnection sha uuid now i data tbl))"
proof (cases "om_get tbl i")
  case (Some row)
  have "get (reauthorized now (rowToConn row) data) ''id'' = get (rowToConn row) ''id''"
    by (rule get_reauthorized) (simp add: sign_in_field_def failure_field_def CREDENTIAL_FIELDS_def)
  then have "conn_ok (fst (upsert sha uuid (reauthorized now (rowToConn row) data) tbl))"
    by (rule write_row_ok [OF assms(1) Some reauthorized_wf [OF wf_rowToConn [OF conn_okD [OF assms(1) Some]] assms(2)]])
  then show ?thesis using Some assms(1) by (simp add: reauthorizeProviderConnection_def Let_def case_prod_unfold)
qed (use assms in \<open>simp add: reauthorizeProviderConnection_def\<close>)

lemma merge_ok:
  assumes "conn_ok tbl" and "wf_keys name" and "wf_keys psd"
  shows "conn_ok (fst (mergeProviderConnectionData sha uuid now i name psd tbl))"
proof (cases "om_get tbl i")
  case (Some row)
  let ?k = "(if name \<noteq> Undef then [(''name'', name)] else []) @ [(''providerSpecificData'',
     spread (Obj (psd_of (rowToConn row))) (if plain_object psd then obj_entries psd else [])), (''updatedAt'', Str now)]"
  have w: "wf_keys (rowToConn row)" by (rule wf_rowToConn [OF conn_okD [OF assms(1) Some]])
  have "wf_keys (spread (Obj (psd_of (rowToConn row))) (if plain_object psd then obj_entries psd else []))"
    by (rule wf_keys_spread [OF psd_of_wf [OF w]]) (use wf_keys_entry [OF assms(3)] in auto)
  then have "wf_keys (spread (rowToConn row) ?k)"
    by (intro wf_keys_spread [OF w]) (use assms(2) in \<open>auto simp del: wf_keys.simps(1,2)\<close>)
  then have "conn_ok (fst (upsert sha uuid (spread (rowToConn row) ?k) tbl))"
    by (rule write_row_ok [OF assms(1) Some]) (simp add: get_spread)
  then show ?thesis using Some by (simp add: mergeProviderConnectionData_def Let_def)
qed (use assms in \<open>simp add: mergeProviderConnectionData_def\<close>)

lemma snapshot_ok:
  assumes "conn_ok tbl" and "wf_keys pair"
  shows "conn_ok (fst (updateConnectionProxyPoolSnapshotIfBound sha uuid now i pool pair tbl))"
proof (cases "om_get tbl i")
  case (Some row)
  let ?p = "get (rowToConn row) ''providerSpecificData''"
  let ?k = "[(''providerSpecificData'', spread ?p [(''proxyPoolId'', get pair ''proxyPoolId''),
     (''strictProxy'', Bool (seq (get pair ''strictProxy'') (Bool True)))]), (''updatedAt'', Str now)]"
  have w: "wf_keys (rowToConn row)" by (rule wf_rowToConn [OF conn_okD [OF assms(1) Some]])
  have "wf_keys (spread ?p [(''proxyPoolId'', get pair ''proxyPoolId''), (''strictProxy'', Bool (seq (get pair ''strictProxy'') (Bool True)))])"
    by (rule wf_keys_spread [OF wf_keys_get [OF w]]) (use wf_keys_get [OF assms(2)] in auto)
  then have "wf_keys (spread (rowToConn row) ?k)" by (intro wf_keys_spread [OF w]) (auto simp del: wf_keys.simps(1,2))
  then have "conn_ok (fst (upsert sha uuid (spread (rowToConn row) ?k) tbl))"
    by (rule write_row_ok [OF assms(1) Some]) (simp add: get_spread)
  then show ?thesis using Some assms(1) by (simp add: updateConnectionProxyPoolSnapshotIfBound_def Let_def)
qed (use assms in \<open>simp add: updateConnectionProxyPoolSnapshotIfBound_def\<close>)

lemma conn_ok_filter:
  assumes "conn_ok tbl"
  shows "conn_ok (filter P tbl)"
  using assms om_get_filter [of tbl P] unfolding conn_ok_def by (auto intro: distinct_om_filter split: option.splits if_splits)

lemma cleanup_ok:
  assumes "conn_ok tbl"
  shows "conn_ok (fst (cleanupProviderConnections sha uuid tbl))"
proof -
  have "conn_ok (fst (foldl (\<lambda>(t, n). \<lambda>row. let conn = rowToConn row; gone = empty_fields conn in
       if gone = [] then (t, n) else (fst (upsert sha uuid (without gone conn) t), n + length gone)) s rows))"
    if "conn_ok (fst s)" "\<forall>r \<in> set rows. \<exists>k. row_ok k r" for s :: "conn_table \<times> nat" and rows
    using that
  proof (induction rows arbitrary: s)
    case (Cons r rows)
    obtain t n where s: "s = (t, n)" by (cases s)
    obtain k where k: "row_ok k r" using Cons.prems(2) by auto
    have "''id'' \<notin> set fieldsToCheck" by (simp add: fieldsToCheck_def)
    then have "''id'' \<notin> set (empty_fields (rowToConn r))" by (simp add: empty_fields_def)
    then have "get (without (empty_fields (rowToConn r)) (rowToConn r)) ''id'' = Str k"
      using id_rowToConn [OF k] by (simp add: get_without)
    then have "conn_ok (fst (upsert sha uuid (without (empty_fields (rowToConn r)) (rowToConn r)) t))"
      using Cons.prems(1) s by (intro upsert_ok [OF _ wf_keys_without [OF wf_rowToConn [OF k]] _ row_id_nonempty [OF k]]) simp_all
    then show ?case using Cons s by (simp add: Let_def)
  qed simp
  moreover have "\<exists>k. row_ok k r" if mem: "r \<in> set (map snd tbl)" for r
  proof -
    obtain x where x: "x \<in> set tbl" "r = snd x" using mem by auto
    then have "om_get tbl (fst x) = Some r" using assms by (simp add: conn_ok_def om_get_eq_Some_iff)
    then show ?thesis using conn_okD [OF assms] by blast
  qed
  ultimately show ?thesis using assms unfolding cleanupProviderConnections_def by simp
qed

text \<open>C24: the account table is well typed in every reachable state: one row per id, under that id; the
  encrypted part is an object that JSON can hold and names none of the columns; name, mail address and
  priority are present, as null when there is none.\<close>

theorem account_rows_well_formed:
  assumes "reachable_table collate sha cr tbl"
  shows "conn_ok tbl"
  using assms
proof (induction rule: reachable_table.induct)
  case (conn_step tbl e)
  show ?case
  proof (cases e)
    case (Update uuid now i data opts)
    then show ?thesis using conn_step update_account_ok [of tbl data collate sha cr uuid now i opts] by (auto split: sum.split)
  next
    case (Delete i)
    have "conn_ok (om_del tbl i)" unfolding om_del_def by (rule conn_ok_filter [OF conn_step.IH])
    then have "conn_ok (reorderInTx collate p (om_del tbl i))" for p by (rule reorder_ok)
    then show ?thesis unfolding Delete using conn_step.IH by (simp add: deleteProviderConnection_def split: option.split)
  next
    case (DeleteAll p)
    then show ?thesis using conn_ok_filter [OF conn_step.IH] by (simp add: deleteProviderConnectionsByProvider_def)
  next
    case (Create uuid i now data)
    then show ?thesis using conn_step.hyps conn_step.IH by (simp add: create_account_ok)
  next
    case (SignIn uuid now i data)
    then show ?thesis using conn_step.hyps conn_step.IH by (simp add: sign_in_ok)
  next
    case (MergeData uuid now i name psd)
    then show ?thesis using conn_step.hyps conn_step.IH by (simp add: merge_ok)
  next
    case (Snapshot uuid now i pool pair)
    then show ?thesis using conn_step.hyps conn_step.IH by (simp add: snapshot_ok)
  next
    case (Reorder p)
    then show ?thesis using conn_step.IH by (simp add: reorder_ok reorderProviderConnections_def)
  next
    case (Cleanup uuid)
    then show ?thesis using conn_step.IH by (simp add: cleanup_ok)
  qed
qed (simp add: conn_ok_def)

section \<open>The concrete table\<close>

definition sample_row :: "string \<Rightarrow> int \<Rightarrow> string \<Rightarrow> string \<Rightarrow> conn_row" where
  "sample_row i prio account pool = connToRow (Obj [(''id'', Str i), (''provider'', Str ''claude''), (''authType'', Str ''oauth''),
     (''name'', Str i), (''email'', Str ''me@x''), (''priority'', JInt prio), (''isActive'', Bool True),
     (''createdAt'', Str ''2026-01-01T00:00:00.000Z''), (''updatedAt'', Str ''2026-01-01T00:00:00.000Z''),
     (''accessToken'', Str ''old''), (''lastError'', Str ''401''), (''defaultModel'', Str ''opus''),
     (''providerSpecificData'', Obj [(''accountId'', Str account), (''proxyPoolId'', Str pool)])])"

definition sample_accounts :: conn_table where
  "sample_accounts = [(''work'', sample_row ''work'' 7 ''acc-1'' ''p1''), (''home'', sample_row ''home'' 3 ''acc-2'' ''p2'')]"

definition login :: jv where
  "login = Obj [(''provider'', Str ''claude''), (''authType'', Str ''oauth''), (''email'', Str ''me@x''), (''accessToken'', Str ''new''),
     (''providerSpecificData'', Obj [(''accountId'', Str ''acc-3''), (''proxyPoolId'', Str ''stolen'')])]"

lemma sample_row_ok: "i \<noteq> [] \<Longrightarrow> row_ok i (sample_row i prio account pool)"
  unfolding sample_row_def by (rule connToRow_ok) simp_all

lemma sample_accounts_ok: "conn_ok sample_accounts"
  using sample_row_ok by (auto simp: conn_ok_def sample_accounts_def)

theorem account_rows_well_formed_witness:
  "conn_ok (fst (createProviderConnection (\<lambda>_ _. False) id ''u'' ''a'' ''2026-01-01T00:00:00.000Z'' login []))"
proof -
  have "reachable_table (\<lambda>_ _. False) id True (conn_step (\<lambda>_ _. False) id True [] (Create ''u'' ''a'' ''2026-01-01T00:00:00.000Z'' login))"
    by (rule reachable_table.conn_step [OF reachable_table.no_accounts]) (simp add: login_def)
  from account_rows_well_formed [OF this] show ?thesis by simp
qed

lemma sample_order: "served_order (\<lambda>_ _. False) (Str ''claude'') sample_accounts = [''home'', ''work'']"
  by code_simp

theorem accounts_numbered_in_order_witness:
  "\<exists>r. om_get (reorderInTx (\<lambda>_ _. False) (Str ''claude'') sample_accounts) ''home'' = Some r \<and> row_priority r = JInt 1"
proof -
  from accounts_numbered_in_order [OF sample_accounts_ok, of "\<lambda>_ _. False" "Str ''claude''"]
  obtain r where "om_get (reorderInTx (\<lambda>_ _. False) (Str ''claude'') sample_accounts) ''home'' = Some (r\<lparr> row_priority := JInt (int 0 + 1) \<rparr>)"
    unfolding sample_order by force
  then show ?thesis by simp
qed

lemma sample_login:
  "snd (reauthorizeProviderConnection id ''u'' ''2026-02-01T00:00:00.000Z'' ''work'' login sample_accounts) \<noteq> NotFound"
  "(case snd (reauthorizeProviderConnection id ''u'' ''2026-02-01T00:00:00.000Z'' ''work'' login sample_accounts) of Reauthorized _ \<Rightarrow> True | _ \<Rightarrow> False)"
  "get (rowToConn (sample_row ''work'' 7 ''acc-1'' ''p1'')) ''defaultModel'' = Str ''opus''"
  "get (get (rowToConn (sample_row ''work'' 7 ''acc-1'' ''p1'')) ''providerSpecificData'') ''proxyPoolId'' = Str ''p1''"
  "another_account login (rowToConn (sample_row ''work'' 7 ''acc-1'' ''p1''))"
  by code_simp+


theorem sign_in_spares_other_accounts_witness:
  "\<exists>v. om_get (fst (createProviderConnection (\<lambda>_ _. False) id ''u'' ''new'' ''2026-02-01T00:00:00.000Z'' login sample_accounts)) ''work''
     = Some ((sample_row ''work'' 7 ''acc-1'' ''p1'')\<lparr> row_priority := v \<rparr>)"
  by (rule sign_in_spares_other_accounts [OF sample_accounts_ok _ sample_login(5)]) (simp_all add: sample_accounts_def login_def)

end
