(* ===== verification/ProviderRegistry.thy ===== *)
theory ProviderRegistry
  imports JsValue
begin

text \<open>
  The providers and their names: the entries that open-sse/providers/registry/index.js lists, in its
  order, with the fields of each provider_row file that src/shared/constants/providers.js resolves names by:
  the id, the alias (\<open>uiAlias || alias\<close>), the category and \<open>noAuth\<close>. The display and media fields of an
  provider_row are left out.
\<close>

datatype category = Free | FreeTier | OAuth | ApiKey | WebCookie

record provider_entry =
  pe_id :: string
  pe_alias :: "string option"
  pe_category :: category
  pe_noAuth :: bool

definition provider_row :: "string \<Rightarrow> string option \<Rightarrow> category \<Rightarrow> bool \<Rightarrow> provider_entry" where
  "provider_row i a c n = \<lparr> pe_id = i, pe_alias = a, pe_category = c, pe_noAuth = n \<rparr>"

definition REGISTRY :: "provider_entry list" where
  "REGISTRY =
    [provider_row ''alicode-intl'' (Some ''alicode-intl'') ApiKey False,
     provider_row ''alicode'' (Some ''alicode'') ApiKey False,
     provider_row ''alims-intl'' (Some ''alims-intl'') ApiKey False,
     provider_row ''alitp-intl'' (Some ''alitp-intl'') ApiKey False,
     provider_row ''anthropic'' (Some ''anthropic'') ApiKey False,
     provider_row ''antigravity'' (Some ''ag'') OAuth False,
     provider_row ''api-airforce'' (Some ''af'') FreeTier False,
     provider_row ''assemblyai'' (Some ''aai'') ApiKey False,
     provider_row ''aws-polly'' (Some ''polly'') ApiKey False,
     provider_row ''azure'' (Some ''azure'') ApiKey False,
     provider_row ''baidu'' (Some ''qianfan'') ApiKey False,
     provider_row ''bazaarlink'' (Some ''bzl'') FreeTier False,
     provider_row ''black-forest-labs'' (Some ''bfl'') ApiKey False,
     provider_row ''blackbox'' (Some ''bb'') ApiKey False,
     provider_row ''bluesminds'' (Some ''bm'') ApiKey False,
     provider_row ''brave-search'' (Some ''brave'') ApiKey False,
     provider_row ''byteplus'' (Some ''bpm'') FreeTier False,
     provider_row ''cartesia'' (Some ''cartesia'') ApiKey False,
     provider_row ''cerebras'' (Some ''cerebras'') ApiKey False,
     provider_row ''charm-hyper'' (Some ''charm-hyper'') ApiKey False,
     provider_row ''chenzk'' (Some ''chenzk'') ApiKey False,
     provider_row ''chutes'' (Some ''ch'') ApiKey False,
     provider_row ''claude'' (Some ''cc'') OAuth False,
     provider_row ''cloudflare-ai'' (Some ''cf'') FreeTier False,
     provider_row ''codebuddy-cn'' (Some ''cbcn'') OAuth False,
     provider_row ''codebuddy-intl'' (Some ''cbai'') OAuth False,
     provider_row ''codex'' (Some ''cx'') OAuth False,
     provider_row ''cohere'' (Some ''cohere'') ApiKey False,
     provider_row ''comfyui'' (Some ''comfyui'') ApiKey False,
     provider_row ''commandcode'' (Some ''cmc'') ApiKey False,
     provider_row ''coqui'' (Some ''coqui'') FreeTier True,
     provider_row ''crof-ai'' (Some ''crof'') ApiKey False,
     provider_row ''cursor'' (Some ''cu'') OAuth False,
     provider_row ''ddgs'' (Some ''ddgs'') FreeTier True,
     provider_row ''deepgram'' (Some ''dg'') ApiKey False,
     provider_row ''devin'' (Some ''dv'') OAuth False,
     provider_row ''edge-tts'' (Some ''edge-tts'') FreeTier True,
     provider_row ''elevenlabs'' (Some ''el'') ApiKey False,
     provider_row ''exa'' (Some ''exa'') ApiKey False,
     provider_row ''fal-ai'' (Some ''fal'') ApiKey False,
     provider_row ''featherless'' (Some ''fl'') ApiKey False,
     provider_row ''firecrawl'' (Some ''firecrawl'') ApiKey False,
     provider_row ''firecrawl_custom'' (Some ''firecrawl_custom'') ApiKey True,
     provider_row ''fireworks'' (Some ''fireworks'') ApiKey False,
     provider_row ''fish-audio'' (Some ''fish'') ApiKey False,
     provider_row ''gemini-cli'' (Some ''gc'') Free False,
     provider_row ''gemini'' (Some ''gemini'') FreeTier False,
     provider_row ''github'' (Some ''gh'') OAuth False,
     provider_row ''gitlab'' None OAuth False,
     provider_row ''gitlawb-opengateway'' (Some ''ogw'') ApiKey False,
     provider_row ''glm-cn'' (Some ''glm-cn'') ApiKey False,
     provider_row ''glm'' (Some ''glm'') ApiKey False,
     provider_row ''google-pse'' (Some ''gpse'') ApiKey False,
     provider_row ''google-tts'' (Some ''google-tts'') FreeTier True,
     provider_row ''grok-cli'' (Some ''gcli'') OAuth False,
     provider_row ''grok-web'' (Some ''gw'') WebCookie False,
     provider_row ''groq'' (Some ''groq'') ApiKey False,
     provider_row ''huggingface'' (Some ''hf'') ApiKey False,
     provider_row ''hyperbolic'' (Some ''hyp'') ApiKey False,
     provider_row ''iflow'' (Some ''if'') OAuth False,
     provider_row ''inworld'' (Some ''inworld'') ApiKey False,
     provider_row ''jina-ai'' (Some ''jina'') ApiKey False,
     provider_row ''jina-reader'' (Some ''jina-reader'') ApiKey False,
     provider_row ''kenari'' (Some ''kenari'') ApiKey False,
     provider_row ''kilo-gateway'' (Some ''kgw'') FreeTier False,
     provider_row ''kilocode'' (Some ''kc'') OAuth False,
     provider_row ''kimchi'' (Some ''kimchi'') OAuth False,
     provider_row ''kimi-cn'' (Some ''kimi-cn'') ApiKey False,
     provider_row ''kimi'' (Some ''kimi'') OAuth False,
     provider_row ''kiro'' (Some ''kr'') Free False,
     provider_row ''linkup'' (Some ''linkup'') ApiKey False,
     provider_row ''llm7'' (Some ''llm7'') ApiKey False,
     provider_row ''local-device'' (Some ''local-device'') FreeTier True,
     provider_row ''meta'' (Some ''meta'') ApiKey False,
     provider_row ''mimo-free'' (Some ''mmf'') Free True,
     provider_row ''minimax-cn'' (Some ''minimax-cn'') ApiKey False,
     provider_row ''minimax'' (Some ''minimax'') ApiKey False,
     provider_row ''mistral'' (Some ''mistral'') ApiKey False,
     provider_row ''mmf'' None ApiKey False,
     provider_row ''modelscope'' (Some ''ms'') FreeTier False,
     provider_row ''morph'' (Some ''morph'') ApiKey False,
     provider_row ''nanobanana'' (Some ''nb'') ApiKey False,
     provider_row ''nebius'' (Some ''nebius'') ApiKey False,
     provider_row ''nous'' (Some ''nous'') FreeTier False,
     provider_row ''novita'' (Some ''novita'') ApiKey False,
     provider_row ''nube'' (Some ''nube'') ApiKey False,
     provider_row ''nvidia'' (Some ''nvidia'') FreeTier False,
     provider_row ''ollama-local'' (Some ''ollama-local'') ApiKey False,
     provider_row ''ollama-search'' (Some ''ollama-search'') ApiKey False,
     provider_row ''ollama'' (Some ''ollama'') FreeTier False,
     provider_row ''openai'' (Some ''openai'') ApiKey False,
     provider_row ''opencode-go'' (Some ''ocg'') ApiKey False,
     provider_row ''opencode-zen'' (Some ''ocz'') ApiKey False,
     provider_row ''opencode'' (Some ''oc'') Free True,
     provider_row ''openrouter'' (Some ''openrouter'') FreeTier False,
     provider_row ''perplexity-agent'' (Some ''pa'') ApiKey False,
     provider_row ''perplexity-web'' (Some ''pw'') WebCookie False,
     provider_row ''perplexity'' (Some ''pplx'') ApiKey False,
     provider_row ''playht'' (Some ''playht'') ApiKey False,
     provider_row ''poolside'' (Some ''ps'') FreeTier False,
     provider_row ''qoder'' (Some ''qd'') OAuth False,
     provider_row ''recraft'' (Some ''recraft'') ApiKey False,
     provider_row ''runwayml'' (Some ''runway'') ApiKey False,
     provider_row ''sambanova'' (Some ''samba'') ApiKey False,
     provider_row ''sdwebui'' (Some ''sdwebui'') ApiKey False,
     provider_row ''searchapi'' (Some ''searchapi'') ApiKey False,
     provider_row ''searxng'' (Some ''searxng'') FreeTier True,
     provider_row ''selfhosted-embedding'' (Some ''selfhosted-embedding'') ApiKey False,
     provider_row ''selfhosted-stt'' (Some ''selfhosted-stt'') ApiKey False,
     provider_row ''selfhosted-tts'' (Some ''selfhosted-tts'') ApiKey False,
     provider_row ''sensenova'' (Some ''sn'') FreeTier False,
     provider_row ''serper'' (Some ''serper'') ApiKey False,
     provider_row ''siliconflow'' (Some ''siliconflow'') ApiKey False,
     provider_row ''stability-ai'' (Some ''stability'') ApiKey False,
     provider_row ''sumopod'' (Some ''sp'') ApiKey False,
     provider_row ''tavily'' (Some ''tavily'') ApiKey False,
     provider_row ''tencent'' (Some ''hunyuan'') ApiKey False,
     provider_row ''together'' (Some ''together'') ApiKey False,
     provider_row ''tokenrouter'' (Some ''tokenrouter'') ApiKey False,
     provider_row ''topaz'' (Some ''topaz'') ApiKey False,
     provider_row ''tortoise'' (Some ''tortoise'') FreeTier True,
     provider_row ''venice'' (Some ''venice'') ApiKey False,
     provider_row ''vercel-ai-gateway'' (Some ''vercel'') ApiKey False,
     provider_row ''vertex-partner'' (Some ''vxp'') ApiKey False,
     provider_row ''vertex'' (Some ''vx'') FreeTier False,
     provider_row ''volcengine-ark'' (Some ''ark'') ApiKey False,
     provider_row ''voyage-ai'' (Some ''voyage'') ApiKey False,
     provider_row ''x5lab'' (Some ''x5l'') ApiKey False,
     provider_row ''xai'' (Some ''xai'') OAuth False,
     provider_row ''xiaomi-mimo'' (Some ''mimo'') ApiKey False,
     provider_row ''xiaomi-tokenplan'' (Some ''xmtp'') ApiKey False,
     provider_row ''xquik'' (Some ''xquik'') ApiKey False,
     provider_row ''xunfei'' (Some ''xunfei'') ApiKey False,
     provider_row ''youcom'' (Some ''youcom'') ApiKey False,
     provider_row ''zed'' (Some ''zd'') OAuth False,
     provider_row ''zenmux-free'' (Some ''ZF'') Free False]"

definition byCategory :: "category \<Rightarrow> provider_entry list" where
  "byCategory c = filter (\<lambda>r. pe_category r = c) REGISTRY"

definition FREE_PROVIDERS :: "provider_entry list" where
  "FREE_PROVIDERS = byCategory Free"

definition FREE_TIER_PROVIDERS :: "provider_entry list" where
  "FREE_TIER_PROVIDERS = byCategory FreeTier"

text \<open>All providers; the ids are distinct, so spreading the objects concatenates them.\<close>

definition AI_PROVIDERS :: "provider_entry list" where
  "AI_PROVIDERS = FREE_PROVIDERS @ FREE_TIER_PROVIDERS @ byCategory OAuth @ byCategory ApiKey @ byCategory WebCookie"

definition alias_field :: "provider_entry \<Rightarrow> jv" where
  "alias_field r = (case pe_alias r of None \<Rightarrow> Undef | Some a \<Rightarrow> Str a)"

definition provider_at :: "provider_entry list \<Rightarrow> string \<Rightarrow> provider_entry option" where
  "provider_at ps i = find (\<lambda>r. pe_id r = i) ps"

definition NO_AUTH_PROVIDER_IDS :: "string list" where
  "NO_AUTH_PROVIDER_IDS = map pe_id (filter pe_noAuth AI_PROVIDERS)"

definition isNoAuthProvider :: "string \<Rightarrow> bool" where
  "isNoAuthProvider providerId = (case provider_at AI_PROVIDERS providerId of None \<Rightarrow> False | Some r \<Rightarrow> pe_noAuth r)"

fun named_by :: "provider_entry list \<Rightarrow> jv \<Rightarrow> provider_entry option" where
  "named_by [] alias = None"
| "named_by (p # ps) alias = (if seq (alias_field p) alias \<or> seq (Str (pe_id p)) alias then Some p else named_by ps alias)"

definition getProviderByAlias :: "jv \<Rightarrow> provider_entry option" where
  "getProviderByAlias alias = named_by AI_PROVIDERS alias"

definition resolveProviderId :: "jv \<Rightarrow> jv" where
  "resolveProviderId aliasOrId = (case getProviderByAlias aliasOrId of
     None \<Rightarrow> aliasOrId | Some r \<Rightarrow> if pe_id r = [] then aliasOrId else Str (pe_id r))"

definition isProviderDisabled :: "jv \<Rightarrow> jv \<Rightarrow> bool" where
  "isProviderDisabled settings providerId \<longleftrightarrow>
     seq (get (get settings ''disabledProviders'') (jstr (resolveProviderId providerId))) (Bool True)"

definition getProviderAlias :: "string \<Rightarrow> string" where
  "getProviderAlias providerId = (case provider_at AI_PROVIDERS providerId of
     Some r \<Rightarrow> (case pe_alias r of Some (c # cs) \<Rightarrow> c # cs | _ \<Rightarrow> providerId) | None \<Rightarrow> providerId)"

definition ALIAS_TO_ID :: "(string, string) omap" where
  "ALIAS_TO_ID = foldl (\<lambda>acc p. om_set acc (jstr (alias_field p)) (pe_id p)) [] AI_PROVIDERS"

definition ID_TO_ALIAS :: "(string, jv) omap" where
  "ID_TO_ALIAS = foldl (\<lambda>acc p. om_set acc (pe_id p) (alias_field p)) [] AI_PROVIDERS"

section \<open>What the names resolve to\<close>

text \<open>A text as a number: the digits of the characters to base 257.\<close>

fun text_code :: "string \<Rightarrow> int" where
  "text_code [] = 0"
| "text_code (c # s) = of_char c + 1 + 257 * text_code s"

lemma of_char_range: "0 \<le> (of_char c :: int)" "(of_char c :: int) < 256"
proof -
  have "(of_char c :: nat) < 256" by (rule nat_of_char_less_256)
  then show "0 \<le> (of_char c :: int)" "(of_char c :: int) < 256" by (simp_all add: of_char_int)
qed

lemma text_code_nonneg: "0 \<le> text_code s"
  by (induction s) (use of_char_range in auto)

lemma text_code_inj: "text_code s = text_code t \<Longrightarrow> s = t"
proof (induction s arbitrary: t)
  case Nil
  then show ?case using of_char_range text_code_nonneg by (cases t) (auto, smt (verit))
next
  case (Cons c s)
  show ?case
  proof (cases t)
    case Nil
    then show ?thesis using Cons.prems of_char_range [of c] text_code_nonneg [of s] by simp
  next
    case (Cons d u)
    have "(of_char c + 257 * text_code s) mod 257 = (of_char d + 257 * text_code u) mod (257 :: int)"
      using Cons.prems Cons by simp
    then have "(of_char c :: int) = of_char d" using of_char_range [of c] of_char_range [of d] by simp
    then show ?thesis using Cons.prems Cons.IH Cons by simp
  qed
qed

text \<open>Numbers are distinct when the even ones and the odd ones are.\<close>

fun apart :: "nat \<Rightarrow> int list \<Rightarrow> bool" where
  "apart 0 xs = distinct xs"
| "apart (Suc n) xs = (apart n (map (\<lambda>x. x div 2) (filter even xs)) \<and> apart n (map (\<lambda>x. x div 2) (filter odd xs)))"

lemma apart_distinct: "apart n xs \<Longrightarrow> distinct xs"
proof (induction n arbitrary: xs)
  case (Suc n)
  have "distinct (filter even xs)" "distinct (filter odd xs)"
    using Suc.IH [of "map (\<lambda>x. x div 2) (filter even xs)"] Suc.IH [of "map (\<lambda>x. x div 2) (filter odd xs)"] Suc.prems
    by (simp_all add: distinct_map)
  then show ?case by (induction xs) (auto split: if_splits)
qed simp

lemma distinct_mapI_names: "distinct (map f xs) \<Longrightarrow> distinct xs"
  by (simp add: distinct_map)

definition names_of :: "provider_entry \<Rightarrow> string list" where
  "names_of r = (if pe_id r = ''mmf'' then []
     else if pe_alias r = None \<or> pe_alias r = Some (pe_id r) then [pe_id r] else [pe_id r, the (pe_alias r)])"

text \<open>What the tables are checked for, in one evaluation. Two names need their own: the id of a provider
  that is another one's alias, and the missing name, which the first provider without an alias answers to.\<close>

definition provider_row_ok :: "provider_entry \<Rightarrow> bool" where
  "provider_row_ok r \<longleftrightarrow> pe_id r \<noteq> [] \<and> (pe_id r = ''mmf'' \<longrightarrow> pe_alias r = None)
     \<and> pe_alias r \<noteq> Some [] \<and> (pe_alias r = Some ''mmf'' \<longrightarrow> pe_id r = ''mimo-free'')"

definition tables_sound :: "provider_entry list \<Rightarrow> bool" where
  "tables_sound ps \<longleftrightarrow> apart 7 (map text_code (concat (map names_of ps))) \<and> list_all provider_row_ok ps
     \<and> map_option pe_id (named_by ps (Str ''mmf'')) = Some ''mimo-free'' \<and> map_option pe_id (named_by ps Undef) = Some ''gitlab''
     \<and> list_ex (\<lambda>r. r = provider_row ''codex'' (Some ''cx'') OAuth False) ps"

lemma tables_sound: "tables_sound AI_PROVIDERS"
  by code_simp

lemma names_distinct: "distinct (concat (map names_of AI_PROVIDERS))"
proof -
  have "apart 7 (map text_code (concat (map names_of AI_PROVIDERS)))" using tables_sound unfolding tables_sound_def by blast
  from apart_distinct [OF this] show ?thesis by (rule distinct_mapI_names)
qed

lemma odd_names: "map_option pe_id (named_by AI_PROVIDERS (Str ''mmf'')) = Some ''mimo-free''"
  "map_option pe_id (named_by AI_PROVIDERS Undef) = Some ''gitlab''" "list_all provider_row_ok AI_PROVIDERS"
  using tables_sound unfolding tables_sound_def by blast+

lemma registry_facts:
  assumes "r \<in> set AI_PROVIDERS"
  shows "pe_id r \<noteq> []" "pe_id r = ''mmf'' \<Longrightarrow> pe_alias r = None" "pe_alias r \<noteq> Some []"
    "pe_alias r = Some ''mmf'' \<Longrightarrow> pe_id r = ''mimo-free''"
  using odd_names(3) assms unfolding list_all_iff provider_row_ok_def by blast+

lemma named_by_Some: "named_by ps x = Some r \<Longrightarrow> r \<in> set ps \<and> (seq (alias_field r) x \<or> seq (Str (pe_id r)) x)"
  by (induction ps) (auto split: if_splits)

lemma names_of_iff: "pe_id r \<noteq> ''mmf'' \<Longrightarrow> s \<in> set (names_of r) \<longleftrightarrow> seq (alias_field r) (Str s) \<or> seq (Str (pe_id r)) (Str s)"
  by (auto simp: names_of_def alias_field_def split: option.split)

lemma named_by_first:
  assumes "distinct (concat (map names_of ps))" and "r \<in> set ps" and "s \<in> set (names_of r)" and "s \<noteq> ''mmf''"
    and "\<forall>p \<in> set ps. pe_id p = ''mmf'' \<longrightarrow> pe_alias p = None"
  shows "named_by ps (Str s) = Some r"
  using assms
proof (induction ps)
  case (Cons p ps)
  show ?case
  proof (cases "p = r")
    case True
    have "pe_id r \<noteq> ''mmf''" using Cons.prems(3) by (auto simp: names_of_def)
    then show ?thesis using names_of_iff [of r s] Cons.prems(3) True by auto
  next
    case False
    then have r: "r \<in> set ps" using Cons.prems(2) by simp
    then have "s \<notin> set (names_of p)" using Cons.prems(1,3) by auto
    then have "\<not> (seq (alias_field p) (Str s) \<or> seq (Str (pe_id p)) (Str s))"
      using names_of_iff [of p s] Cons.prems(4,5) by (cases "pe_id p = ''mmf''") (auto simp: alias_field_def)
    then show ?thesis using Cons r by simp
  qed
qed simp

lemma resolve_own:
  assumes "r \<in> set AI_PROVIDERS" and "s \<in> set (names_of r)" and "s \<noteq> ''mmf''"
  shows "resolveProviderId (Str s) = Str (pe_id r)"
proof -
  have "named_by AI_PROVIDERS (Str s) = Some r"
    using named_by_first [OF names_distinct assms] registry_facts(2) by blast
  moreover have "pe_id r \<noteq> []" by (rule registry_facts(1) [OF assms(1)])
  ultimately show ?thesis by (simp add: resolveProviderId_def getProviderByAlias_def)
qed

lemma resolve_mmf: "resolveProviderId (Str ''mmf'') = Str ''mimo-free''" "resolveProviderId Undef = Str ''gitlab''"
  using odd_names(1,2) by (auto simp: resolveProviderId_def getProviderByAlias_def)

lemma resolved_cases:
  obtains "resolveProviderId x = x" | r where "r \<in> set AI_PROVIDERS" "pe_id r \<noteq> ''mmf''" "resolveProviderId x = Str (pe_id r)"
proof (cases "named_by AI_PROVIDERS x")
  case None
  then show ?thesis using that(1) by (simp add: resolveProviderId_def getProviderByAlias_def)
next
  case (Some r)
  have r: "r \<in> set AI_PROVIDERS" "seq (alias_field r) x \<or> seq (Str (pe_id r)) x" using named_by_Some [OF Some] by auto
  have nonempty: "pe_id r \<noteq> []" "pe_id r = ''mmf'' \<longrightarrow> pe_alias r = None" using registry_facts [OF r(1)] by blast+
  have "pe_id r \<noteq> ''mmf''"
  proof
    assume m: "pe_id r = ''mmf''"
    then have "x = Undef \<or> x = Str ''mmf''" using r(2) nonempty(2) seq_imp_eq by (fastforce simp: alias_field_def)
    then show False using m Some odd_names(1,2) by auto
  qed
  then show ?thesis using that(2) r(1) Some nonempty(1) by (simp add: resolveProviderId_def getProviderByAlias_def)
qed

text \<open>names resolve once and for all: resolving a resolved name changes nothing, whatever the name is.
  Every provider but one is found by its id and by the alias it goes by. The exception is \<open>mmf\<close>: its id
  is the alias of \<open>mimo-free\<close>, which is found instead.\<close>

theorem provider_names_resolve:
  assumes "r \<in> set AI_PROVIDERS" and "pe_id r \<noteq> ''mmf''"
  shows "resolveProviderId (resolveProviderId x) = resolveProviderId x
   \<and> resolveProviderId (Str (pe_id r)) = Str (pe_id r)
   \<and> resolveProviderId (Str (getProviderAlias (pe_id r))) = Str (pe_id r)
   \<and> resolveProviderId (Str ''mmf'') = Str ''mimo-free''"
proof -
  have own: "resolveProviderId (Str (pe_id q)) = Str (pe_id q)" if "q \<in> set AI_PROVIDERS" "pe_id q \<noteq> ''mmf''" for q
    using resolve_own [OF that(1), of "pe_id q"] that(2) by (auto simp: names_of_def)
  have "resolveProviderId (resolveProviderId x) = resolveProviderId x"
    by (cases rule: resolved_cases [of x]) (simp_all add: own)
  moreover have "resolveProviderId (Str (getProviderAlias (pe_id r))) = Str (pe_id r)"
  proof (cases "provider_at AI_PROVIDERS (pe_id r)")
    case None
    then show ?thesis using own [OF assms] by (simp add: getProviderAlias_def)
  next
    case (Some q)
    then have q: "q \<in> set AI_PROVIDERS" "pe_id q = pe_id r" by (auto simp: provider_at_def find_Some_iff)
    show ?thesis
    proof (cases "pe_alias q")
      case None
      then show ?thesis using own [OF assms] Some by (simp add: getProviderAlias_def)
    next
      case (Some a)
      then obtain c cs where a: "a = c # cs" using registry_facts(3) [OF q(1)] by (cases a) simp_all
      have "a \<in> set (names_of q)" unfolding names_of_def q(2) Some using assms(2) by simp
      then have "resolveProviderId (Str a) = Str (pe_id r)"
        using resolve_own [OF q(1), of a] resolve_mmf(1) registry_facts(4) [OF q(1)] q(2) Some by (cases "a = ''mmf''") simp_all
      then show ?thesis using \<open>provider_at AI_PROVIDERS (pe_id r) = Some q\<close> Some a by (simp add: getProviderAlias_def)
    qed
  qed
  ultimately show ?thesis using own [OF assms] resolve_mmf(1) by simp
qed

theorem provider_names_resolve_witness:
  "resolveProviderId (Str (getProviderAlias ''codex'')) = Str ''codex''"
proof -
  have r: "provider_row ''codex'' (Some ''cx'') OAuth False \<in> set AI_PROVIDERS"
    using tables_sound unfolding tables_sound_def list_ex_iff by blast
  from provider_names_resolve [OF r, of Undef] show ?thesis by (simp add: provider_row_def)
qed

end
