(* ===== verification/AccountFailure.thy ===== *)
theory AccountFailure
  imports ModelLocks ConnectionGuarantees ProviderRegistry QuotaWindows JsRegex Admission
begin

text \<open>
  What a failed attempt does to its account, and what a success undoes: the failure half of
  src/sse/services/auth.js with src/shared/utils/accountFailureClass.js. The world is the account table
  and the process's admission gate. The quota windows that the database holds for the account are an
  argument (\<open>None\<close> when they cannot be read), and so is the clock, which does not move during a call. Log
  lines and the decision log are left out. A date that cannot be printed is a thrown \<open>RangeError\<close>.
\<close>

section \<open>Classes of failures\<close>

definition words :: "string \<Rightarrow> rx" where
  "words s = lit_ci s"

text \<open>The wording of an exhausted entitlement.\<close>

definition QUOTA_WORDING :: rx where
  "QUOTA_WORDING = any_of [words ''usage_limit_reached'', words ''insufficient_quota'', words ''quota_exhausted'', words ''quota_limit_exceeded'',
     seq_of [any_of [words ''extra usage'', words ''usage credits''], words '' '', any_of [words ''is'', words ''are''],
       words '' required for '', any_of [words ''long context'', words ''this model'']],
     seq_of [any_of [words ''weekly'', words ''monthly'', words ''daily'', words ''session''], words '' '',
       OptRx (any_of [words ''usage '', words ''quota '']), words ''limit '', any_of [words ''reached'', words ''exceeded'']],
     seq_of [any_of [words ''quota'', seq_of [words ''credit'', OptRx (words ''s'')]], words '' '',
       OptRx (any_of [words ''has been '', words ''is '', words ''are '']), any_of [words ''exhausted'', words ''depleted'']]]"

definition classifyAccountFailure :: "jv \<Rightarrow> jv \<Rightarrow> jv \<Rightarrow> string" where
  "classifyAccountFailure status err metadata =
     (if seq (get metadata ''unknownModelVerified'') (Bool True) then ''capability''
      else let code = to_number status in
        if code = Fin 401 \<or> code = Fin 403 \<or> code = Fin 404 then ''credential''
        else if code = Fin 402 then ''quota''
        else if code \<noteq> Fin 429 then ''transient''
        else let message = (case err of Str s \<Rightarrow> s | _ \<Rightarrow> json_text (coalesce err (Str []))) in
          if rx_test QUOTA_WORDING message then ''quota'' else ''rate'')"

section \<open>What the provider said\<close>

definition ACCOUNT_ERROR_MESSAGE_MAX_CHARS :: nat where
  "ACCOUNT_ERROR_MESSAGE_MAX_CHARS = 2000"

text \<open>An upstream error is a plain value or a thrown \<open>Error\<close> with its name, its message and the codes on it
  and on its cause.\<close>

datatype provider_error = Plain jv | Thrown string string jv jv

definition clamp_text :: "string \<Rightarrow> string" where
  "clamp_text s = take ACCOUNT_ERROR_MESSAGE_MAX_CHARS (trim (rx_replace_all (Plus (Cls is_ws)) s '' ''))"

text \<open>The code of an error; an empty one counts as none.\<close>

definition error_code :: "jv \<Rightarrow> jv \<Rightarrow> string" where
  "error_code own cause = (case own of Str c \<Rightarrow> c | _ \<Rightarrow> (case cause of Str c \<Rightarrow> c | _ \<Rightarrow> []))"

definition with_code :: "string \<Rightarrow> string \<Rightarrow> string" where
  "with_code code s = s @ '' ('' @ code @ '')''"

definition error_candidates :: "jv \<Rightarrow> jv list" where
  "error_candidates e = [get (get e ''error'') ''message'', get e ''message'',
     (if is_string (get e ''error'') then get e ''error'' else Null), get e ''detail'', get e ''reason'']"

definition describeProviderError :: "provider_error \<Rightarrow> string" where
  "describeProviderError err = (case err of
     Plain (Str s) \<Rightarrow> clamp_text s
   | Plain v \<Rightarrow> if \<not> is_object v then ''Provider error''
       else let code = error_code (get v ''code'') (get (get v ''cause'') ''code'') in
         (case find (\<lambda>c. is_string c \<and> trim (jstr c) \<noteq> []) (error_candidates v) of
            Some c \<Rightarrow> if code \<noteq> [] \<and> \<not> str_includes (jstr c) code then clamp_text (with_code code (jstr c)) else clamp_text (jstr c)
          | None \<Rightarrow> if code \<noteq> [] then clamp_text (with_code code ''Provider error'') else ''Provider error'')
   | Thrown name message own cause \<Rightarrow> let code = error_code own cause;
         text = (if message \<noteq> [] then clamp_text message else if name \<noteq> [] then name else ''Provider error'') in
       if code \<noteq> [] \<and> \<not> str_includes text code then clamp_text (with_code code text) else text)"

section \<open>Failures with a meaning of their own\<close>

definition GITHUB_MONTHLY_USAGE_LIMIT :: string where
  "GITHUB_MONTHLY_USAGE_LIMIT = ''you'' @ [CHR 0x27] @ ''ve reached your additional usage limit for your plan''"

definition CODEX_PERMANENT_OAUTH_MARKERS :: "string list" where
  "CODEX_PERMANENT_OAUTH_MARKERS = [''invalidated oauth token'', ''authentication token has been invalidated'',
     ''refresh_token_invalidated'', ''refresh_token_reused'', ''refresh token already used'']"

definition CLAUDE_ORGANIZATION_OAUTH_REJECTION :: string where
  "CLAUDE_ORGANIZATION_OAUTH_REJECTION = ''oauth authentication is currently not allowed for this organization''"

text \<open>\<open>Date.UTC\<close> of the first day of the next month.\<close>

definition next_month :: "int \<Rightarrow> int" where
  "next_month now = (let (y, m, d) = civil_from_days (now div ms_per_day) in
     days_from_civil (if m = 12 then y + 1 else y) (if m = 12 then 1 else m + 1) 1 * ms_per_day)"

definition githubMonthlyResetMs :: "int \<Rightarrow> jv \<Rightarrow> jv \<Rightarrow> jv \<Rightarrow> int option" where
  "githubMonthlyResetMs now status err provider =
     (if \<not> seq (resolveProviderId provider) (Str ''github'') \<or> to_number status \<noteq> Fin 402 then None
      else if \<not> str_includes (to_lower (jstr (js_or err (Str [])))) GITHUB_MONTHLY_USAGE_LIMIT then None
      else Some (next_month now))"

definition isPermanentOAuthFailure :: "jv \<Rightarrow> jv \<Rightarrow> jv \<Rightarrow> bool" where
  "isPermanentOAuthFailure status err provider =
     (let resolved = resolveProviderId provider; code = to_number status; reason = to_lower (describeProviderError (Plain err)) in
      if seq resolved (Str ''codex'') \<and> code = Fin 401 then list_ex (str_includes reason) CODEX_PERMANENT_OAUTH_MARKERS
      else seq resolved (Str ''claude'') \<and> code = Fin 403 \<and> str_includes reason CLAUDE_ORGANIZATION_OAUTH_REJECTION)"

text \<open>\<open>/"code"\s*:\s*"112"/\<close>\<close>

definition QODER_EXHAUSTED :: rx where
  "QODER_EXHAUSTED = seq_of (map (\<lambda>c. Cls (\<lambda>d. d = c)) ([CHR 0x22] @ ''code'' @ [CHR 0x22]) @ [Star (Cls is_ws), Cls (\<lambda>d. d = CHR '':''), Star (Cls is_ws)]
     @ map (\<lambda>c. Cls (\<lambda>d. d = c)) ([CHR 0x22] @ ''112'' @ [CHR 0x22]))"

definition isQoderQuotaExhausted :: "jv \<Rightarrow> jv \<Rightarrow> jv \<Rightarrow> bool" where
  "isQoderQuotaExhausted status err provider =
     (if \<not> seq (resolveProviderId provider) (Str ''qoder'') \<or> to_number status \<noteq> Fin 403 then False
      else rx_test QODER_EXHAUSTED (jstr (js_or err (Str []))))"

definition retryDelayCapMs :: "jv \<Rightarrow> int" where
  "retryDelayCapMs provider = (if \<not> truthy provider then MAX_RATE_LIMIT_COOLDOWN_MS
     else let i = jstr (js_or (resolveProviderId provider) provider) in
       if provider_at FREE_PROVIDERS i \<noteq> None \<or> provider_at FREE_TIER_PROVIDERS i \<noteq> None
       then FREE_TIER_RATE_LIMIT_COOLDOWN_MS else MAX_RATE_LIMIT_COOLDOWN_MS)"

definition HEADROOM_RETRY_CEILING_MS :: int where
  "HEADROOM_RETRY_CEILING_MS = 60 * 1000"

text \<open>Whether the windows say that there is room: yes, no, or nothing readable.\<close>

fun headroom_scan :: "rat \<Rightarrow> nat \<Rightarrow> window list \<Rightarrow> bool option" where
  "headroom_scan nowMs readable [] = (if 0 < readable then Some True else None)"
| "headroom_scan nowMs readable (w # ws) =
     (if effectiveResetAt (Fin (of_int (w_resetAt w))) (w_horizonMs w) (Fin nowMs) = None then headroom_scan nowMs readable ws
      else if (if of_int (w_resetAt w) \<le> nowMs then w_limit w else w_remaining w) \<le> 0 then Some False
      else headroom_scan nowMs (readable + 1) ws)"

definition hasQuotaHeadroom :: "(string \<Rightarrow> string \<Rightarrow> bool) \<Rightarrow> jv option \<Rightarrow> rat \<Rightarrow> jv \<Rightarrow> bool option" where
  "hasQuotaHeadroom collate windows nowMs model = (case windows of None \<Rightarrow> None
     | Some ws \<Rightarrow> let structural = normalizeAccountWindows collate ws model in
         if \<not> st_ok structural \<or> st_blocked structural then None else headroom_scan nowMs 0 (st_windows structural))"

section \<open>Marking an account\<close>

definition UNKNOWN_MODEL_LOCK_MS :: int where
  "UNKNOWN_MODEL_LOCK_MS = 24 * 60 * 60 * 1000"

record auth_world =
  aw_conns :: conn_table
  aw_gate :: adm

text \<open>A field that a result does not carry is undefined.\<close>

record mark_result =
  mr_shouldFallback :: bool
  mr_cooldownMs :: jsnum
  mr_failureClass :: jv
  mr_retrySameAccount :: jv
  mr_mustWait :: jv

datatype mark_error = RangeError

definition stays :: mark_result where
  "stays = \<lparr> mr_shouldFallback = False, mr_cooldownMs = Fin 0, mr_failureClass = Undef, mr_retrySameAccount = Undef, mr_mustWait = Undef \<rparr>"

definition moves_on :: "jsnum \<Rightarrow> string \<Rightarrow> mark_result" where
  "moves_on cooldown lockClass = \<lparr> mr_shouldFallback = True, mr_cooldownMs = cooldown, mr_failureClass = Str lockClass,
     mr_retrySameAccount = Bool False, mr_mustWait = Bool False \<rparr>"

abbreviation no_mark_options :: update_options where
  "no_mark_options \<equiv> \<lparr> uo_expectedControls = None, uo_expectedCredentials = None, uo_durability = Undef \<rparr>"

text \<open>The environment of a call: the collation, the digest, the id for a new revision, the backoff settings,
  the clock and the stored windows.\<close>

record mark_env =
  me_collate :: "string \<Rightarrow> string \<Rightarrow> bool"
  me_sha :: "string \<Rightarrow> string"
  me_uuid :: string
  me_cfg :: backoff_config
  me_now :: int
  me_windows :: "jv option"

definition patch_account :: "mark_env \<Rightarrow> string \<Rightarrow> (string \<times> jv) list \<Rightarrow> auth_world \<Rightarrow> auth_world" where
  "patch_account env i kvs w =
     (case updateProviderConnection (me_collate env) (me_sha env) True (me_uuid env) (to_iso (me_now env)) i (Obj kvs) no_mark_options (aw_conns w) of
        Inl _ \<Rightarrow> w | Inr (tbl, _) \<Rightarrow> w\<lparr> aw_conns := tbl \<rparr>)"

definition throttle_gate :: "mark_env \<Rightarrow> jv \<Rightarrow> adm \<Rightarrow> adm" where
  "throttle_gate env provider gate = (case resolveProviderId provider of
     Str p \<Rightarrow> providerThrottle (me_now env) p gate | _ \<Rightarrow> sweep_providers (me_now env) gate)"

definition mark_connection :: "string \<Rightarrow> jv \<Rightarrow> auth_world \<Rightarrow> jv" where
  "mark_connection i provider w = (case find (\<lambda>c. seq (get c ''id'') (Str i)) (getProviderConnections provider Undef (aw_conns w)) of
     None \<Rightarrow> Undef | Some c \<Rightarrow> c)"

text \<open>The cooldown and the backoff level of a lock. \<open>resetsAtMs > Date.now()\<close> compares numbers.\<close>

definition later_reset :: "mark_env \<Rightarrow> jv \<Rightarrow> bool" where
  "later_reset env resetsAtMs \<longleftrightarrow> truthy resetsAtMs \<and> num_lt (Fin (of_int (me_now env))) (to_number resetsAtMs)"

definition applied_cap :: "mark_env \<Rightarrow> jv \<Rightarrow> jv \<Rightarrow> jv \<Rightarrow> jsnum \<Rightarrow> int" where
  "applied_cap env status provider model requested =
     (if to_number status = Fin 429 \<and> num_lt (Fin (of_int HEADROOM_RETRY_CEILING_MS)) requested
         \<and> hasQuotaHeadroom (me_collate env) (me_windows env) (of_int (me_now env)) model = Some True
      then min (retryDelayCapMs provider) HEADROOM_RETRY_CEILING_MS else retryDelayCapMs provider)"

definition lock_cooldown :: "mark_env \<Rightarrow> int option \<Rightarrow> string \<Rightarrow> jv \<Rightarrow> jv \<Rightarrow> jv \<Rightarrow> jv \<Rightarrow> fallback_decision \<Rightarrow> jsnum \<times> int option" where
  "lock_cooldown env githubResetAtMs lockClass status provider model resetsAtMs d =
     (let now = Fin (of_int (me_now env)) in
      if githubResetAtMs \<noteq> None \<and> githubResetAtMs \<noteq> Some 0 then (num_sub (Fin (of_int (the githubResetAtMs))) now, Some 0)
      else if lockClass = ''quota'' \<and> later_reset env resetsAtMs then (num_sub (to_number resetsAtMs) now, Some 0)
      else if later_reset env resetsAtMs then
        (let requested = num_sub (to_number resetsAtMs) now in (min requested (Fin (of_int (applied_cap env status provider model requested))), Some 0))
      else (Fin (of_int (if newBackoffLevel d \<noteq> None \<and> newBackoffLevel d \<noteq> Some 0 then min (fallback_decision.cooldownMs d) (retryDelayCapMs provider) else fallback_decision.cooldownMs d)),
            newBackoffLevel d))"

definition mark_credential :: "mark_env \<Rightarrow> string \<Rightarrow> jv \<Rightarrow> jv \<Rightarrow> auth_world \<Rightarrow> auth_world" where
  "mark_credential env i status err w = patch_account env i [(''isActive'', Bool False), (''testStatus'', Str ''reauth_required''),
     (''lastError'', Str (describeProviderError (Plain err))), (''errorCode'', Num (to_number status)),
     (''lastErrorAt'', Str (to_iso (me_now env))), (''backoffLevel'', JInt 0)] w"

definition mark_qoder :: "mark_env \<Rightarrow> string \<Rightarrow> jv \<Rightarrow> auth_world \<Rightarrow> auth_world" where
  "mark_qoder env i err w = patch_account env i [(''isActive'', Bool False), (''testStatus'', Str ''unavailable''),
     (''lastError'', Str (case err of Str s \<Rightarrow> take 200 s | _ \<Rightarrow> ''Qoder quota exhausted (code 112)'')), (''errorCode'', JInt 403),
     (''lastErrorAt'', Str (to_iso (me_now env))), (''backoffLevel'', JInt 0)] w"

definition mark_unknown_model :: "mark_env \<Rightarrow> string \<Rightarrow> jv \<Rightarrow> jv \<Rightarrow> jv \<Rightarrow> jv \<Rightarrow> auth_world \<Rightarrow> auth_world" where
  "mark_unknown_model env i status err model metadata w =
     (let until = Str (to_iso (me_now env + UNKNOWN_MODEL_LOCK_MS)); reason = Str (describeProviderError (Plain err)) in
      patch_account env i (buildModelLockUpdateAt model until
        @ buildModelFailureUpdate model (Obj [(''status'', status), (''message'', reason), (''until'', until), (''resetsAt'', Null),
            (''clientErrorStatus'', coalesce (get metadata ''clientErrorStatus'') Null), (''unknownModelVerified'', Bool True)])
        @ [(''lastError'', reason), (''errorCode'', status), (''lastErrorAt'', Str (to_iso (me_now env)))]) w)"

text \<open>The fields a lock writes; \<open>resets\<close> is the printed reset of the provider.\<close>

definition lock_fields :: "mark_env \<Rightarrow> jv \<Rightarrow> jv \<Rightarrow> string \<Rightarrow> jv \<Rightarrow> jv \<Rightarrow> string \<Rightarrow> jv \<Rightarrow> int \<Rightarrow> (string \<times> jv) list" where
  "lock_fields env status err lockClass lockModel metadata until resets level =
     (let reason = Str (describeProviderError (Plain err)) in
      buildModelLockUpdateAt lockModel (Str until)
      @ map (\<lambda>(k, v). (k, spread v [(''failureClass'', Str lockClass)]))
          (buildModelFailureUpdate lockModel (Obj [(''status'', status), (''message'', reason), (''until'', Str until), (''resetsAt'', resets),
             (''clientErrorStatus'', coalesce (get metadata ''clientErrorStatus'') Null),
             (''unknownModelVerified'', Bool (seq (get metadata ''unknownModelVerified'') (Bool True)))]))
      @ [(''testStatus'', Str ''unavailable''), (''lastError'', reason), (''errorCode'', status),
         (''lastErrorAt'', Str (to_iso (me_now env))), (''backoffLevel'', JInt level)])"

definition printed :: "jv \<Rightarrow> string option" where
  "printed v = map_option to_iso (date_of v)"

definition mark_lock :: "mark_env \<Rightarrow> string \<Rightarrow> jv \<Rightarrow> jv \<Rightarrow> jv \<Rightarrow> jv \<Rightarrow> jv \<Rightarrow> jv \<Rightarrow> string \<Rightarrow> int \<Rightarrow> fallback_decision \<Rightarrow> auth_world
    \<Rightarrow> auth_world \<times> (mark_error + mark_result)" where
  "mark_lock env i status err provider model resetsAtMs metadata lockClass backoffLevel d w =
     (let github = (case githubMonthlyResetMs (me_now env) status err provider of Some t \<Rightarrow> if t = 0 then None else Some t | None \<Rightarrow> None);
          (cooldown, newLevel) = lock_cooldown env github lockClass status provider model resetsAtMs d;
          lockModel = (if github \<noteq> None then Null else model);
          until = (case github of Some t \<Rightarrow> printed (JInt t) | None \<Rightarrow> printed (Num (num_add (Fin (of_int (me_now env))) cooldown)));
          resets = (if truthy resetsAtMs then map_option Str (printed resetsAtMs) else Some Null) in
      case (until, resets) of
        (Some u, Some r) \<Rightarrow> (patch_account env i (lock_fields env status err lockClass lockModel metadata u r
            (case newLevel of Some n \<Rightarrow> n | None \<Rightarrow> backoffLevel)) w, Inr (moves_on cooldown lockClass))
      | _ \<Rightarrow> (w, Inl RangeError))"

definition markAccountUnavailable :: "mark_env \<Rightarrow> string \<Rightarrow> jv \<Rightarrow> jv \<Rightarrow> jv \<Rightarrow> jv \<Rightarrow> jv \<Rightarrow> jv \<Rightarrow> auth_world
    \<Rightarrow> auth_world \<times> (mark_error + mark_result)" where
  "markAccountUnavailable env i status err provider model resetsAtMs metadata w0 =
     (if i = [] \<or> i = ''noauth'' then (w0, Inr stays)
      else let w = (if to_number status = Fin 429 \<and> \<not> seq (get metadata ''failurePhase'') (Str ''admission'')
              then w0\<lparr> aw_gate := throttle_gate env provider (aw_gate w0) \<rparr> else w0);
          class0 = classifyAccountFailure (Num (to_number status)) err metadata;
          backoffLevel = stored_level (mark_connection i provider w);
          lockClass = (if class0 = ''rate'' \<and> hasQuotaHeadroom (me_collate env) (me_windows env) (of_int (me_now env)) model = Some False
            then ''quota'' else class0) in
        if isPermanentOAuthFailure status err provider then (mark_credential env i status err w, Inr (moves_on (Fin 0) lockClass))
        else if isQoderQuotaExhausted status err provider then (mark_qoder env i err w, Inr (moves_on (Fin 0) ''quota''))
        else if seq (get metadata ''unknownModelVerified'') (Bool True) \<and> truthy model
        then (mark_unknown_model env i status err model metadata w, Inr (moves_on (Fin 0) lockClass))
        else let d = checkFallbackError (me_cfg env) status err backoffLevel in
          if \<not> shouldFallback d then (w, Inr stays)
          else mark_lock env i status err provider model resetsAtMs metadata lockClass backoffLevel d w)"

section \<open>After a success\<close>

definition lock_keys :: "jv \<Rightarrow> string list" where
  "lock_keys conn = filter (\<lambda>k. starts_with k ''modelLock_'') (map fst (obj_entries conn))"

definition failure_keys :: "jv \<Rightarrow> string list" where
  "failure_keys conn = filter (\<lambda>k. starts_with k ''modelFailure_'') (map fst (obj_entries conn))"

definition keysToClear :: "int \<Rightarrow> jv \<Rightarrow> jv \<Rightarrow> string list" where
  "keysToClear now conn model = filter (\<lambda>k. truthy model \<and> (k = getModelLockKey model \<or> k = getModelLockKey Null)
     \<or> truthy (get conn k) \<and> (case date_of (get conn k) of None \<Rightarrow> False | Some t \<Rightarrow> t \<le> now)) (lock_keys conn)"

definition failureKeysToClear :: "jv \<Rightarrow> jv \<Rightarrow> string list \<Rightarrow> string list" where
  "failureKeysToClear conn model keys = remdups (map (\<lambda>k. getModelFailureKey (js_or (Str (drop (length ''modelLock_'') k)) Null)) keys
     @ (if truthy model \<and> has_own conn (getModelFailureKey model) then [getModelFailureKey model] else [])
     @ (if truthy model \<and> has_own conn (getModelFailureKey Null) then [getModelFailureKey Null] else []))"

definition remainingActiveLocks :: "int \<Rightarrow> jv \<Rightarrow> string list \<Rightarrow> string list" where
  "remainingActiveLocks now conn keys = filter (\<lambda>k. k \<notin> set keys \<and> truthy (get conn k)
     \<and> (case date_of (get conn k) of None \<Rightarrow> False | Some t \<Rightarrow> now < t)) (lock_keys conn)"

definition cleared_fields :: "int \<Rightarrow> jv \<Rightarrow> jv \<Rightarrow> (string \<times> jv) list" where
  "cleared_fields now conn model = (let keys = keysToClear now conn model in
     map (\<lambda>k. (k, Null)) keys @ map (\<lambda>k. (k, Null)) (failureKeysToClear conn model keys)
     @ (if remainingActiveLocks now conn keys = [] then [(''testStatus'', Str ''active''), (''lastError'', Null), (''errorCode'', Null),
          (''lastErrorAt'', Null), (''backoffLevel'', JInt 0)] else []))"

definition clearAccountError :: "mark_env \<Rightarrow> string \<Rightarrow> jv \<Rightarrow> jv \<Rightarrow> auth_world \<Rightarrow> auth_world" where
  "clearAccountError env i currentConnection model w =
     (if i = [] \<or> i = ''noauth'' then w
      else let conn = js_or (get currentConnection ''_connection'') currentConnection; keys = keysToClear (me_now env) conn model in
        if \<not> truthy (get conn ''testStatus'') \<and> \<not> truthy (get conn ''lastError'') \<and> lock_keys conn = [] \<and> failure_keys conn = [] then w
        else if keys = [] \<and> failureKeysToClear conn model keys = [] \<and> \<not> seq (get conn ''testStatus'') (Str ''unavailable'')
          \<and> \<not> truthy (get conn ''lastError'') then w
        else patch_account env i (cleared_fields (me_now env) conn model) w)"

end
