(* ===== verification/AccountDispatch.thy ===== *)
theory AccountDispatch
  imports AccountFailure LeaseRegistry RetryAfter
begin

text \<open>
  The account loop of \<open>dispatchSingleModelChat\<close> (src/sse/handlers/chat.js): an account is selected and
  leased, the request is sent with it, and what comes back decides whether the answer is final, the request
  is replayed, or the next account is tried. The account table, the lease registry and the admission gate
  are the state; the model's markAccountUnavailable, clearAccountError and releaseAccountLease act on it.
  What the loop asks of the rest of the program is an argument, one record per pass: the selection, the
  upstream call (handleChatCore with the preparation before it), the peek at a stream, the aborts and
  deadlines. A status is a whole number. Log lines are left out.
\<close>

section \<open>What a pass is given\<close>

record selection_options =
  so_preferred :: "string option"
  so_strict :: bool

text \<open>A selection that finds no usable account says why and for how long.\<close>

record pool_refusal =
  pr_lastError :: jv
  pr_lastErrorCode :: "int option"
  pr_clientErrorStatus :: "int option"
  pr_retryAfter :: string
  pr_retryAfterHuman :: string
  pr_mustWait :: jv

record granted_account =
  ca_connectionId :: string
  ca_lease :: "lease_object option"
  ca_credentials :: jv

datatype account_choice = NoAccount | AllLimited pool_refusal | Granted granted_account | SelectionThrew

text \<open>The result of the upstream call; \<open>cr_streams\<close> says whether the response handed on has a body.\<close>

record core_result =
  cr_success :: bool
  cr_status :: int
  cr_error :: jv
  cr_clientAborted :: bool
  cr_resetsAtMs :: jv
  cr_metadata :: jv
  cr_response :: http_response
  cr_streams :: bool

text \<open>The callbacks that the call runs before it returns, and its result unless it throws.\<close>

datatype callback = RequestSuccess | EmptyStream

record core_call =
  cc_callbacks :: "callback list"
  cc_result :: "core_result option"

record peek_result =
  pk_hasContent :: bool
  pk_reason :: jv
  pk_status :: "int option"

record pass_env =
  px_aborted :: bool
  px_expired :: bool
  px_select :: "string list \<Rightarrow> selection_options \<Rightarrow> lease_module \<Rightarrow> lease_module \<times> account_choice"
  px_expired_selected :: bool
  px_core :: "granted_account \<Rightarrow> core_call"
  px_aborted_called :: bool
  px_peek :: "peek_result option"
  px_aborted_peeked :: bool
  px_mark :: mark_env
  px_expired_marked :: bool

record request_ctx =
  dx_provider :: string
  dx_model :: string
  dx_ridHeader :: string
  dx_pinned :: "string option"
  dx_requested :: "string option"
  dx_maxAttempts :: "int option"

section \<open>What the loop keeps\<close>

record dispatch_world =
  dw_conns :: conn_table
  dw_module :: lease_module

record account_loop_state =
  al_excluded :: "string list"
  al_fails :: "(string, nat) omap"
  al_lastError :: jv
  al_lastStatus :: "int option"
  al_replay :: "string option"
  al_replayed :: bool

definition initial_loop :: account_loop_state where
  "initial_loop = \<lparr> al_excluded = [], al_fails = [], al_lastError = Null, al_lastStatus = None, al_replay = None, al_replayed = False \<rparr>"

datatype fault = DeadlineExceeded | SelectionFailed | CallFailed | PeekFailed | MarkingFailed

text \<open>A pass ends with a response, whose body may take over the lease, with a throw, or goes on.\<close>

datatype pass_end = Respond http_response bool bool | Throw fault | Rotate

section \<open>Answers\<close>

definition ACCOUNT_RETRY_LIMIT :: nat where
  "ACCOUNT_RETRY_LIMIT = 3"

definition RETRY_AFTER_FLOOR_MS :: int where
  "RETRY_AFTER_FLOOR_MS = 1000"

definition terminalAttemptResponse :: "http_response \<Rightarrow> jsnum \<Rightarrow> bool \<Rightarrow> http_response" where
  "terminalAttemptResponse response cooldown clientRetrySafe =
     (let r1 = set_header ''x-tokenproxy-replay-safe'' ''false'' response;
          r2 = (if \<not> clientRetrySafe then set_header ''x-should-retry'' ''false'' r1
            else if header_of r1 ''x-should-retry'' = None then set_header ''x-should-retry'' ''true'' r1 else r1) in
      if num_lt (Fin 0) cooldown \<and> isRetryableStatus (http_response.status response) \<and> header_of r2 ''retry-after'' = None
      then set_header ''retry-after'' (jstr (Num (case cooldown of Fin c \<Rightarrow> Fin (of_int (max 1 \<lceil>c / 1000\<rceil>)) | x \<Rightarrow> x))) r2
      else r2)"

definition rejectedAttemptResponse :: "http_response \<Rightarrow> http_response" where
  "rejectedAttemptResponse response = set_header ''x-tokenproxy-replay-safe'' ''true'' response"

definition tagged :: "request_ctx \<Rightarrow> jv \<Rightarrow> jv" where
  "tagged ctx message = Str (''['' @ dx_provider ctx @ ''/'' @ dx_model ctx @ ''] '' @ jstr message)"

definition pool_status :: "pool_refusal \<Rightarrow> int" where
  "pool_status l = (case pr_clientErrorStatus l of Some s \<Rightarrow> s
     | None \<Rightarrow> (case pr_lastErrorCode l of Some c \<Rightarrow> if c = 0 then 503 else c | None \<Rightarrow> 503))"

definition limited_answer :: "request_ctx \<Rightarrow> rat \<Rightarrow> pool_refusal \<Rightarrow> http_response" where
  "limited_answer ctx now l =
     (let response = unavailableResponse (dx_ridHeader ctx) (pool_status l) (tagged ctx (js_or (pr_lastError l) (Str ''Unavailable'')))
            (pr_retryAfter l) (pr_retryAfterHuman l) [] now in
      if truthy (pr_mustWait l) then terminalAttemptResponse response (Fin 0) True else rejectedAttemptResponse response)"

definition no_account_answer :: "request_ctx \<Rightarrow> rat \<Rightarrow> account_loop_state \<Rightarrow> http_response" where
  "no_account_answer ctx now st =
     (if al_excluded st = []
      then rejectedAttemptResponse (errorResponse (dx_ridHeader ctx) 404 (Str (''No active credentials for provider: '' @ dx_provider ctx)) RetryAfter.no_options now)
      else rejectedAttemptResponse (errorResponse (dx_ridHeader ctx) (case al_lastStatus st of Some s \<Rightarrow> if s = 0 then 503 else s | None \<Rightarrow> 503)
          (js_or (al_lastError st) (Str ''All accounts unavailable''))
          (RetryAfter.no_options\<lparr> retry_ms := JInt RETRY_AFTER_FLOOR_MS, failure_phase := ''provider'' \<rparr>) now))"

definition aborted_answer :: "request_ctx \<Rightarrow> rat \<Rightarrow> http_response" where
  "aborted_answer ctx now = errorResponse (dx_ridHeader ctx) 499 (Str ''Request aborted'') RetryAfter.no_options now"

section \<open>One pass\<close>

definition options_of :: "request_ctx \<Rightarrow> account_loop_state \<Rightarrow> selection_options" where
  "options_of ctx st = (case al_replay st of Some c \<Rightarrow> \<lparr> so_preferred = Some c, so_strict = False \<rparr>
     | None \<Rightarrow> (case dx_pinned ctx of Some c \<Rightarrow> \<lparr> so_preferred = Some c, so_strict = True \<rparr>
         | None \<Rightarrow> (case dx_requested ctx of Some c \<Rightarrow> \<lparr> so_preferred = Some c, so_strict = True \<rparr>
             | None \<Rightarrow> \<lparr> so_preferred = None, so_strict = False \<rparr>)))"

definition mark_in :: "pass_env \<Rightarrow> request_ctx \<Rightarrow> string \<Rightarrow> int \<Rightarrow> jv \<Rightarrow> jv \<Rightarrow> jv \<Rightarrow> dispatch_world \<Rightarrow> dispatch_world \<times> (mark_error + mark_result)" where
  "mark_in env ctx conn code err resets metadata dw =
     (case markAccountUnavailable (px_mark env) conn (JInt code) err (Str (dx_provider ctx)) (Str (dx_model ctx)) resets metadata
        \<lparr> aw_conns = dw_conns dw, aw_gate = gate (dw_module dw) \<rparr> of
      (w, r) \<Rightarrow> (\<lparr> dw_conns = aw_conns w, dw_module = (dw_module dw)\<lparr> gate := aw_gate w \<rparr> \<rparr>, r))"

definition unsafe_replay :: jv where
  "unsafe_replay = Obj [(''safeToReplay'', Bool False)]"

definition run_callback :: "pass_env \<Rightarrow> request_ctx \<Rightarrow> granted_account \<Rightarrow> callback \<Rightarrow> dispatch_world \<Rightarrow> dispatch_world" where
  "run_callback env ctx ch cb dw = (case cb of
     RequestSuccess \<Rightarrow> let w = clearAccountError (px_mark env) (ca_connectionId ch) (ca_credentials ch) (Str (dx_model ctx))
         \<lparr> aw_conns = dw_conns dw, aw_gate = gate (dw_module dw) \<rparr> in dw\<lparr> dw_conns := aw_conns w \<rparr>
   | EmptyStream \<Rightarrow> fst (mark_in env ctx (ca_connectionId ch) 502
         (Str (''Empty streaming response from '' @ dx_provider ctx @ ''/'' @ dx_model ctx)) Null unsafe_replay dw))"

definition on_success :: "pass_env \<Rightarrow> request_ctx \<Rightarrow> granted_account \<Rightarrow> core_result \<Rightarrow> dispatch_world \<times> account_loop_state
    \<Rightarrow> dispatch_world \<times> account_loop_state \<times> pass_end" where
  "on_success env ctx ch r ds = (case ds of (dw, st) \<Rightarrow> (case px_peek env of
     None \<Rightarrow> (dw, st, Throw PeekFailed)
   | Some p \<Rightarrow> let now = of_int (me_now (px_mark env)) in
       if px_aborted_peeked env then (dw, st, Respond (aborted_answer ctx now) False True)
       else if pk_hasContent p then (dw, st, Respond (cr_response r) True (cr_streams r))
       else let reason = js_or (pk_reason p) (Str ''provider returned an empty stream'');
                code = (case pk_status p of Some s \<Rightarrow> if s = 0 then 502 else s | None \<Rightarrow> 502);
                st' = st\<lparr> al_lastError := reason, al_lastStatus := Some code \<rparr> in
         (case mark_in env ctx (ca_connectionId ch) 502 (Str (jstr reason @ '' from '' @ dx_provider ctx @ ''/'' @ dx_model ctx)) Null unsafe_replay dw of
            (dw', Inl _) \<Rightarrow> (dw', st', Throw MarkingFailed)
          | (dw', Inr _) \<Rightarrow> (dw', st', Respond (terminalAttemptResponse (errorResponse (dx_ridHeader ctx) code reason
                (RetryAfter.no_options\<lparr> retry_ms := JInt TRANSIENT_COOLDOWN_MS, failure_phase := ''provider'' \<rparr>) now) (Fin 0) False) False True))))"

text \<open>Whether the request may be sent again with another account.\<close>

definition replay_allowed :: "core_result \<Rightarrow> jv \<Rightarrow> bool" where
  "replay_allowed r failureClass \<longleftrightarrow> seq (get (cr_metadata r) ''safeToReplay'') (Bool True)
     \<or> seq (get (cr_metadata r) ''safeAcrossAccounts'') (Bool True) \<and> seq failureClass (Str ''quota'') \<and> cr_status r = 429"

definition remember_failure :: "core_result \<Rightarrow> account_loop_state \<Rightarrow> account_loop_state" where
  "remember_failure r st = (if al_lastStatus st = None \<or> cr_status r = 429 \<and> al_lastStatus st \<noteq> Some 429
     then st\<lparr> al_lastError := cr_error r, al_lastStatus := Some (cr_status r) \<rparr> else st)"

definition exclude :: "string \<Rightarrow> string list \<Rightarrow> string list" where
  "exclude c cs = (if c \<in> set cs then cs else cs @ [c])"

definition at_ceiling :: "request_ctx \<Rightarrow> account_loop_state \<Rightarrow> bool" where
  "at_ceiling ctx st = (case dx_maxAttempts ctx of None \<Rightarrow> False | Some m \<Rightarrow> m \<noteq> 0 \<and> m \<le> int (length (al_excluded st)) + 1)"

text \<open>After a failure that was marked: give up, retry the account, or exclude it.\<close>

definition after_mark :: "pass_env \<Rightarrow> request_ctx \<Rightarrow> granted_account \<Rightarrow> core_result \<Rightarrow> mark_result \<Rightarrow> account_loop_state \<Rightarrow> account_loop_state \<times> pass_end" where
  "after_mark env ctx ch r m st =
     (let safe = replay_allowed r (mr_failureClass m) in
      if \<not> safe \<or> truthy (mr_mustWait m) then (st, Respond (terminalAttemptResponse (cr_response r) (mr_cooldownMs m) safe) True (cr_streams r))
      else if \<not> mr_shouldFallback m then (st, Respond (rejectedAttemptResponse (cr_response r)) True (cr_streams r))
      else let st1 = remember_failure r st in
        if at_ceiling ctx st1 then (st1, Respond (terminalAttemptResponse (cr_response r) (mr_cooldownMs m) False) True (cr_streams r))
        else if px_expired_marked env then (st1, Throw DeadlineExceeded)
        else let fails = (case om_get (al_fails st1) (ca_connectionId ch) of Some n \<Rightarrow> n | None \<Rightarrow> 0) + 1;
                 st2 = st1\<lparr> al_fails := om_set (al_fails st1) (ca_connectionId ch) fails \<rparr> in
          if seq (mr_retrySameAccount m) (Bool True) \<and> isRetryableStatus (cr_status r) \<and> fails < ACCOUNT_RETRY_LIMIT \<and> mr_cooldownMs m = Fin 0
          then (st2, Rotate)
          else (st2\<lparr> al_excluded := exclude (ca_connectionId ch) (al_excluded st2) \<rparr>, Rotate))"

definition on_failure :: "pass_env \<Rightarrow> request_ctx \<Rightarrow> granted_account \<Rightarrow> core_result \<Rightarrow> dispatch_world \<times> account_loop_state
    \<Rightarrow> dispatch_world \<times> account_loop_state \<times> pass_end" where
  "on_failure env ctx ch r ds = (case ds of (dw, st) \<Rightarrow>
     if cr_clientAborted r \<or> cr_status r = 499 \<or> seq (get (cr_metadata r) ''failurePhase'') (Str ''admission'')
     then (dw, st, Respond (cr_response r) True (cr_streams r))
     else if seq (get (cr_metadata r) ''safeToReplay'') (Bool True) \<and> \<not> al_replayed st \<and> isRequestReplayBufferError (JInt (cr_status r)) (cr_error r)
     then (dw, st\<lparr> al_replayed := True, al_replay := Some (ca_connectionId ch) \<rparr>, Rotate)
     else (case mark_in env ctx (ca_connectionId ch) (cr_status r) (cr_error r) (cr_resetsAtMs r) (js_or (cr_metadata r) Null) dw of
         (dw', Inl _) \<Rightarrow> (dw', st, Throw MarkingFailed)
       | (dw', Inr m) \<Rightarrow> (case after_mark env ctx ch r m st of (st', e) \<Rightarrow> (dw', st', e))))"

definition call_upstream :: "pass_env \<Rightarrow> request_ctx \<Rightarrow> granted_account \<Rightarrow> dispatch_world \<times> account_loop_state
    \<Rightarrow> dispatch_world \<times> account_loop_state \<times> pass_end" where
  "call_upstream env ctx ch ds = (case ds of (dw, st) \<Rightarrow>
     let call = px_core env ch; dw1 = fold (run_callback env ctx ch) (cc_callbacks call) dw in
     (case cc_result call of None \<Rightarrow> (dw1, st, Throw CallFailed)
      | Some r \<Rightarrow> if px_aborted_called env then (dw1, st, Respond (aborted_answer ctx (of_int (me_now (px_mark env)))) False True)
          else if cr_success r then on_success env ctx ch r (dw1, st) else on_failure env ctx ch r (dw1, st)))"

definition release_in :: "lease_object option \<Rightarrow> dispatch_world \<Rightarrow> dispatch_world" where
  "release_in lease dw = (case lease of None \<Rightarrow> dw | Some h \<Rightarrow> dw\<lparr> dw_module := fst (releaseAccountLease h (dw_module dw)) \<rparr>)"

text \<open>The \<open>finally\<close> of a pass. A response that takes over the lease and has a body keeps it.\<close>

definition settle :: "lease_object option \<Rightarrow> dispatch_world \<times> account_loop_state \<times> pass_end \<Rightarrow> dispatch_world \<times> account_loop_state \<times> pass_end" where
  "settle lease out = (case out of (dw, st, e) \<Rightarrow> (case e of
     Respond response True True \<Rightarrow> (dw, st, e)
   | _ \<Rightarrow> (release_in lease dw, st, e)))"

definition wrong_account :: "request_ctx \<Rightarrow> granted_account \<Rightarrow> bool" where
  "wrong_account ctx ch = (case dx_requested ctx of None \<Rightarrow> False | Some c \<Rightarrow> ca_connectionId ch \<noteq> c)"

definition use_account :: "pass_env \<Rightarrow> request_ctx \<Rightarrow> granted_account \<Rightarrow> dispatch_world \<times> account_loop_state
    \<Rightarrow> dispatch_world \<times> account_loop_state \<times> pass_end" where
  "use_account env ctx ch ds = (case ds of (dw, st) \<Rightarrow>
     if px_expired_selected env then (dw, st, Throw DeadlineExceeded)
     else if wrong_account ctx ch then (dw, st, Respond (rejectedAttemptResponse (errorResponse (dx_ridHeader ctx) 503
         (Str ''Pinned connection unavailable'') (RetryAfter.no_options\<lparr> failure_phase := ''provider'' \<rparr>) (of_int (me_now (px_mark env))))) False True)
     else call_upstream env ctx ch ds)"

text \<open>The request a pass sent, with what came back.\<close>

definition sent :: "pass_env \<Rightarrow> request_ctx \<Rightarrow> granted_account \<Rightarrow> (string \<times> core_result option) list" where
  "sent env ctx ch = (if px_expired_selected env \<or> wrong_account ctx ch then [] else [(ca_connectionId ch, cc_result (px_core env ch))])"

definition account_pass :: "pass_env \<Rightarrow> request_ctx \<Rightarrow> dispatch_world \<times> account_loop_state
    \<Rightarrow> (dispatch_world \<times> account_loop_state \<times> pass_end) \<times> (string \<times> core_result option) list" where
  "account_pass env ctx ds = (case ds of (dw, st) \<Rightarrow>
     let now = of_int (me_now (px_mark env)) in
     if px_aborted env then ((dw, st, Respond (aborted_answer ctx now) False True), [])
     else if px_expired env then ((dw, st, Throw DeadlineExceeded), [])
     else (case px_select env (al_excluded st) (options_of ctx st) (dw_module dw) of (m, choice) \<Rightarrow>
       let dw1 = dw\<lparr> dw_module := m \<rparr> in (case choice of
         SelectionThrew \<Rightarrow> ((dw1, st, Throw SelectionFailed), [])
       | NoAccount \<Rightarrow> ((dw1, st, if px_expired_selected env then Throw DeadlineExceeded else Respond (no_account_answer ctx now st) False True), [])
       | AllLimited l \<Rightarrow> ((dw1, st, if px_expired_selected env then Throw DeadlineExceeded else Respond (limited_answer ctx now l) False True), [])
       | Granted ch \<Rightarrow> (settle (ca_lease ch) (use_account env ctx ch (dw1, st)), sent env ctx ch))))"

section \<open>The loop\<close>

datatype loop_outcome = Responded http_response bool bool | Threw fault

text \<open>The loop with fuel, over the passes from the \<open>n\<close>-th on; no outcome means that the fuel ran out. The requests
  that it sent come with it, in order, and the lease that the last pass took.\<close>

fun account_loop :: "request_ctx \<Rightarrow> (nat \<Rightarrow> pass_env) \<Rightarrow> nat \<Rightarrow> nat \<Rightarrow> dispatch_world \<times> account_loop_state
    \<Rightarrow> (dispatch_world \<times> account_loop_state \<times> loop_outcome option) \<times> (string \<times> core_result option) list" where
  "account_loop ctx envs 0 n ds = ((fst ds, snd ds, None), [])"
| "account_loop ctx envs (Suc fuel) n ds =
     (case account_pass (envs n) ctx ds of ((dw, st, e), reqs) \<Rightarrow> (case e of
        Respond response handed live \<Rightarrow> ((dw, st, Some (Responded response handed live)), reqs)
      | Throw f \<Rightarrow> ((dw, st, Some (Threw f)), reqs)
      | Rotate \<Rightarrow> (case account_loop ctx envs fuel (Suc n) (dw, st) of (out, later) \<Rightarrow> (out, reqs @ later))))"

text \<open>\<open>readAttemptCeiling\<close>: the caller's limit, when it is a positive safe integer.\<close>

definition readAttemptCeiling :: "jv \<Rightarrow> int option" where
  "readAttemptCeiling header = (case to_number header of
     Fin r \<Rightarrow> if of_int \<lfloor>r\<rfloor> = r \<and> \<bar>r\<bar> \<le> of_int max_safe_integer \<and> 0 < r then Some \<lfloor>r\<rfloor> else None | _ \<Rightarrow> None)"

end
