(* ===== verification/ModelPolicy.thy ===== *)
theory ModelPolicy
  imports ProviderRegistry QuotaWindows ModelLocks
begin

text \<open>
  Which accounts may be asked for a model at all: the operator's lists of disabled models
  (src/shared/utils/disabledModelPolicy.js with the alias table of open-sse/services/model.js), the
  credential test of src/shared/utils/accountCredential.js, and the gate that every account passes before its
  quota is read (src/sse/services/accountAdmissionPolicy.js). A configured node is a row of the
  nodes table.
\<close>

section \<open>Provider names\<close>

definition MEDIA_ONLY_ALIASES :: "(string, string) omap" where
  "MEDIA_ONLY_ALIASES = [(''el'', ''elevenlabs''), (''jina'', ''jina-ai''), (''jina-ai'', ''jina-ai''), (''polly'', ''aws-polly''), (''aws-polly'', ''aws-polly'')]"

text \<open>The registry's entries with their names: \<open>uiAlias\<close>, \<open>alias\<close> and \<open>aliases\<close>, in this order.\<close>

definition REGISTRY_NAMES :: "(string \<times> string list) list" where
  "REGISTRY_NAMES =
     [(''alicode-intl'', [''alicode-intl'']), (''alicode'', [''alicode'']), (''alims-intl'', [''alims-intl'']), (''alitp-intl'', [''alitp-intl'']),
      (''anthropic'', [''anthropic'']), (''antigravity'', [''ag'', ''ag'']), (''api-airforce'', [''af'', ''af'', ''airforce'']),
      (''assemblyai'', [''aai'', ''assemblyai'', ''aai'']), (''aws-polly'', [''polly'']), (''azure'', [''azure'']),
      (''baidu'', [''qianfan'', ''qianfan'', ''qianfan'', ''ernie'', ''baidu-qianfan'']), (''bazaarlink'', [''bzl'', ''bzl'', ''bazaar-link'']),
      (''black-forest-labs'', [''bfl'', ''black-forest-labs'', ''bfl'']), (''blackbox'', [''bb'', ''blackbox'', ''bb'']),
      (''bluesminds'', [''bm'', ''bm'', ''blue-sminds'']), (''brave-search'', [''brave'']), (''byteplus'', [''bpm'', ''byteplus'', ''bpm'']),
      (''cartesia'', [''cartesia'']), (''cerebras'', [''cerebras'']), (''charm-hyper'', [''charm-hyper'']),
      (''chenzk'', [''chenzk'', ''chenzk-api'', ''ezkielyna'']), (''chutes'', [''ch'', ''chutes'', ''ch'']), (''claude'', [''cc'', ''cc'']),
      (''cloudflare-ai'', [''cf'', ''cloudflare-ai'', ''cf'']), (''codebuddy-cn'', [''cbcn'', ''cbcn'']), (''codebuddy-intl'', [''cbai'', ''cbai'']),
      (''codex'', [''cx'', ''cx'']), (''cohere'', [''cohere'']), (''comfyui'', [''comfyui'']),
      (''commandcode'', [''cmc'', ''commandcode'', ''cmc'']), (''coqui'', [''coqui'']), (''crof-ai'', [''crof'', ''crof'']),
      (''cursor'', [''cu'', ''cu'']), (''ddgs'', [''ddgs'']), (''deepgram'', [''dg'', ''deepgram'', ''dg'']), (''devin'', [''dv'', ''dv'']),
      (''edge-tts'', [''edge-tts'']), (''elevenlabs'', [''el'']), (''exa'', [''exa'']), (''fal-ai'', [''fal'', ''fal-ai'', ''fal'']),
      (''featherless'', [''fl'', ''featherless'', ''fl'']), (''firecrawl'', [''firecrawl'']), (''firecrawl_custom'', [''firecrawl_custom'']),
      (''fireworks'', [''fireworks'']), (''fish-audio'', [''fish'']), (''gemini-cli'', [''gc'', ''gc'']), (''gemini'', [''gemini'']),
      (''github'', [''gh'', ''gh'']), (''gitlab'', []), (''gitlawb-opengateway'', [''ogw'', ''ogw'']), (''glm-cn'', [''glm-cn'']),
      (''glm'', [''glm'']), (''google-pse'', [''gpse'']), (''google-tts'', [''google-tts'']),
      (''grok-cli'', [''gcli'', ''gcli'', ''grok-build'', ''gb'']), (''grok-web'', [''gw'', ''grok-web'', ''gw'']), (''groq'', [''groq'']),
      (''huggingface'', [''hf'', ''huggingface'', ''hf'']), (''hyperbolic'', [''hyp'', ''hyperbolic'', ''hyp'']), (''iflow'', [''if'']),
      (''inworld'', [''inworld'']), (''jina-ai'', [''jina'']), (''jina-reader'', [''jina-reader'']), (''kenari'', [''kenari'']),
      (''kilo-gateway'', [''kgw'', ''kgw'', ''kilo-gateway'', ''kilogateway'']), (''kilocode'', [''kc'', ''kc'']),
      (''kimchi'', [''kimchi'', ''kimchi'']), (''kimi-cn'', [''kimi-cn'']), (''kimi'', [''kimi'', ''kimi-coding'', ''kmc'']),
      (''kiro'', [''kr'', ''kr'']), (''linkup'', [''linkup'']), (''llm7'', [''llm7'', ''llm7'', ''llm-7'']), (''local-device'', [''local-device'']),
      (''meta'', [''meta'', ''meta'', ''meta-ai'', ''llama'']), (''mimo-free'', [''mmf'', ''mmf'']), (''minimax-cn'', [''minimax-cn'']),
      (''minimax'', [''minimax'']), (''mistral'', [''mistral'']), (''mmf'', []), (''modelscope'', [''ms'']),
      (''morph'', [''morph'', ''morph'', ''morphllm'']), (''nanobanana'', [''nb'', ''nanobanana'', ''nb'']), (''nebius'', [''nebius'']),
      (''nous'', [''nous'', ''nous'', ''nous-portal'', ''nous-research'']), (''novita'', [''novita'']), (''nube'', [''nube'']),
      (''nvidia'', [''nvidia'']), (''ollama-local'', [''ollama-local'']), (''ollama-search'', [''ollama-search'']), (''ollama'', [''ollama'']),
      (''openai'', [''openai'']), (''opencode-go'', [''ocg'', ''opencode-go'', ''ocg'']), (''opencode-zen'', [''ocz'', ''opencode-zen'', ''ocz'']),
      (''opencode'', [''oc'', ''oc'']), (''openrouter'', [''openrouter'']),
      (''perplexity-agent'', [''pa'', ''perplexity-agent'', ''pplx-agent'', ''pplx-responses'']),
      (''perplexity-web'', [''pw'', ''perplexity-web'', ''pw'']), (''perplexity'', [''pplx'', ''perplexity'', ''pplx'']), (''playht'', [''playht'']),
      (''poolside'', [''ps'', ''poolside'', ''ps'']), (''qoder'', [''qd'', ''qd'']), (''recraft'', [''recraft'']),
      (''runwayml'', [''runway'', ''runwayml'', ''runway'']), (''sambanova'', [''samba'', ''samba'', ''sambanova-ai'']),
      (''sdwebui'', [''sdwebui'']), (''searchapi'', [''searchapi'']), (''searxng'', [''searxng'']),
      (''selfhosted-embedding'', [''selfhosted-embedding'']), (''selfhosted-stt'', [''selfhosted-stt'']), (''selfhosted-tts'', [''selfhosted-tts'']),
      (''sensenova'', [''sn'', ''sensenova'', ''sn'']), (''serper'', [''serper'']), (''siliconflow'', [''siliconflow'']),
      (''stability-ai'', [''stability'', ''stability-ai'', ''stability'']), (''sumopod'', [''sp'', ''sp'']), (''tavily'', [''tavily'']),
      (''tencent'', [''hunyuan'', ''hunyuan'', ''hunyuan'', ''tencent-hunyuan'']), (''together'', [''together'']),
      (''tokenrouter'', [''tokenrouter'', ''tokenrouter'', ''tr'']), (''topaz'', [''topaz'']), (''tortoise'', [''tortoise'']),
      (''venice'', [''venice'', ''venice'', ''vn'']), (''vercel-ai-gateway'', [''vercel'', ''vercel-ai-gateway'', ''vercel'']),
      (''vertex-partner'', [''vxp'', ''vertex-partner'', ''vxp'']), (''vertex'', [''vx'', ''vertex'', ''vx'']),
      (''volcengine-ark'', [''ark'', ''volcengine-ark'', ''ark'']), (''voyage-ai'', [''voyage'', ''voyage-ai'']), (''x5lab'', [''x5l'', ''x5l'']),
      (''xai'', [''xai'']), (''xiaomi-mimo'', [''mimo'', ''xiaomi-mimo'', ''mimo'']),
      (''xiaomi-tokenplan'', [''xmtp'', ''xiaomi-tokenplan'', ''xmtp'']), (''xquik'', [''xquik'']),
      (''xunfei'', [''xunfei'', ''xunfei'', ''xf'', ''spark'']), (''youcom'', [''youcom'']), (''zed'', [''zd'', ''zd'']),
      (''zenmux-free'', [''ZF'', ''zmf'', ''zenmux'', ''zm''])]"

definition ALIAS_TO_PROVIDER_ID :: "(string, string) omap" where
  "ALIAS_TO_PROVIDER_ID = foldl (\<lambda>m (i, names). foldl (\<lambda>m n. om_set m n i) (om_set m i i) names) MEDIA_ONLY_ALIASES REGISTRY_NAMES"

definition resolveProviderAlias :: "string \<Rightarrow> string" where
  "resolveProviderAlias aliasOrId = (case om_get ALIAS_TO_PROVIDER_ID aliasOrId of Some (c # cs) \<Rightarrow> c # cs | _ \<Rightarrow> aliasOrId)"

section \<open>Disabled models\<close>

record provider_node =
  nd_id :: string
  nd_type :: string
  nd_prefix :: "string option"

definition nodeTypes :: "string list" where
  "nodeTypes = [''openai-compatible'', ''anthropic-compatible'', ''multi-compatible'', ''custom-embedding'']"

definition is_provider_id :: "string \<Rightarrow> bool" where
  "is_provider_id v \<longleftrightarrow> list_ex (\<lambda>e. pe_id e = v) REGISTRY"

fun node_named :: "provider_node list \<Rightarrow> string \<Rightarrow> string list \<Rightarrow> provider_node option" where
  "node_named nodes v [] = None"
| "node_named nodes v (t # ts) = (case find (\<lambda>n. nd_type n = t \<and> nd_prefix n = Some v) nodes of
     Some n \<Rightarrow> Some n | None \<Rightarrow> node_named nodes v ts)"

definition resolveDisabledModelProvider :: "provider_node list \<Rightarrow> string \<Rightarrow> string" where
  "resolveDisabledModelProvider nodes v = (if is_provider_id v \<or> list_ex (\<lambda>n. nd_id n = v) nodes then v
     else case node_named nodes v nodeTypes of Some n \<Rightarrow> nd_id n | None \<Rightarrow> resolveProviderAlias v)"

text \<open>\<open>s.indexOf(p)\<close> with what comes before and after.\<close>

fun split_at_first :: "string \<Rightarrow> string \<Rightarrow> (string \<times> string) option" where
  "split_at_first p [] = (if p = [] then Some ([], []) else None)"
| "split_at_first p (c # s) = (if starts_with (c # s) p then Some ([], drop (length p) (c # s))
     else map_option (\<lambda>(a, b). (c # a, b)) (split_at_first p s))"

definition matchesProvider :: "provider_node list \<Rightarrow> string list \<Rightarrow> string \<Rightarrow> string \<Rightarrow> bool" where
  "matchesProvider nodes aliases providerId v \<longleftrightarrow> resolveDisabledModelProvider nodes v = providerId
     \<or> nodes = [] \<and> \<not> is_provider_id v \<and> v \<in> set aliases"

text \<open>The model without the prefix of its provider; a value that is no text names no model.\<close>

definition modelId :: "provider_node list \<Rightarrow> string list \<Rightarrow> string \<Rightarrow> jv \<Rightarrow> string option" where
  "modelId nodes aliases providerId v = (case v of
     Str s \<Rightarrow> (case split_at_first ''/'' s of
         Some (p, m) \<Rightarrow> if p \<noteq> [] \<and> (matchesProvider nodes aliases providerId p \<or> p \<in> set aliases) then Some m else Some s
       | None \<Rightarrow> Some s)
   | _ \<Rightarrow> None)"

text \<open>The lists that concern the provider: those of every account, and those of one account.\<close>

definition inherited_lists :: "provider_node list \<Rightarrow> string list \<Rightarrow> string \<Rightarrow> jv \<Rightarrow> jv list list" where
  "inherited_lists nodes aliases providerId disabledMap =
     List.map_filter (\<lambda>(key, ids). case ids of
         Arr xs \<Rightarrow> if split_at_first ''::'' key = None \<and> matchesProvider nodes aliases providerId key then Some xs else None
       | _ \<Rightarrow> None) (obj_entries disabledMap)"

definition own_lists :: "provider_node list \<Rightarrow> string list \<Rightarrow> string \<Rightarrow> string \<Rightarrow> jv \<Rightarrow> jv list list" where
  "own_lists nodes aliases providerId connectionId disabledMap =
     List.map_filter (\<lambda>(key, ids). case ids of
         Arr xs \<Rightarrow> (case split_at_first ''::'' key of
             Some (prefix, c) \<Rightarrow> if matchesProvider nodes aliases providerId prefix \<and> connectionId \<noteq> [] \<and> c = connectionId then Some xs else None
           | None \<Rightarrow> None)
       | _ \<Rightarrow> None) (obj_entries disabledMap)"

text \<open>The connection is the empty text when the caller names none.\<close>

definition isAccountModelDisabled :: "jv \<Rightarrow> string \<Rightarrow> jv \<Rightarrow> string \<Rightarrow> string list \<Rightarrow> provider_node list \<Rightarrow> bool" where
  "isAccountModelDisabled disabledMap provider model connectionId aliases nodes =
     (case model of
        Str (c # cs) \<Rightarrow> is_object disabledMap \<and> provider \<noteq> []
          \<and> (let providerId = resolveDisabledModelProvider nodes provider;
                 requested = modelId nodes aliases providerId model;
                 own = own_lists nodes aliases providerId connectionId disabledMap;
                 lists = (if own \<noteq> [] then own else inherited_lists nodes aliases providerId disabledMap)
             in list_ex (list_ex (\<lambda>i. modelId nodes aliases providerId i = requested)) lists)
      | _ \<Rightarrow> False)"

section \<open>The gate of an account\<close>

definition holdsCredential :: "jv \<Rightarrow> bool" where
  "holdsCredential connection = (let type = get connection ''authType'' in
     if type = Str ''apikey'' \<or> type = Str ''api_key'' then truthy (get connection ''apiKey'')
     else if type = Str ''oauth'' \<or> type = Str ''access_token'' then truthy (get connection ''accessToken'') \<or> truthy (get connection ''refreshToken'')
     else True)"

record admission_query =
  aq_model :: jv
  aq_preferred :: jv
  aq_strict :: bool
  aq_excluded :: bool
  aq_disabled :: bool
  aq_draining :: bool
  aq_snapshot :: jv

definition accountAdmissionReason :: "int \<Rightarrow> jv \<Rightarrow> admission_query \<Rightarrow> string option" where
  "accountAdmissionReason now connection q =
     (if aq_strict q \<and> \<not> seq (get connection ''id'') (aq_preferred q) then Some ''strict-account-mismatch''
      else if aq_excluded q then Some ''request-excluded''
      else if \<not> accountSupportsModel connection (aq_model q) then Some ''account-model-excluded''
      else if aq_disabled q then Some ''model-disabled''
      else if aq_draining q then Some ''account-draining''
      else if getExhaustedQuotaWindow now (Obj (om_set (obj_entries connection) ''lastQuotaSnapshot'' (aq_snapshot q))) (aq_model q) \<noteq> None
      then Some ''quota-exhausted'' else None)"

section \<open>What the lists say\<close>

text \<open>A list of the account, even an empty one, stands in for the lists of the provider; without one the
  account inherits them. Without any list nothing is disabled.\<close>

lemma own_list_overrides:
  assumes "own_lists nodes aliases (resolveDisabledModelProvider nodes provider) connectionId m = [[]]"
  shows "\<not> isAccountModelDisabled m provider model connectionId aliases nodes"
  using assms by (simp add: isAccountModelDisabled_def Let_def split: jv.split list.split)

lemma no_list_no_bar: "\<not> isAccountModelDisabled (Obj []) provider model connectionId aliases nodes"
  by (simp add: isAccountModelDisabled_def own_lists_def inherited_lists_def map_filter_def Let_def split: jv.split list.split)

end
