(* ===== verification/QuotaBridge.thy ===== *)
theory QuotaBridge
  imports QuotaWindows ProviderRegistry
begin

text \<open>
  From a provider's usage report to the routing decision: src/shared/utils/quotaPause.js derives a snapshot
  in percent and says whether the account pauses, src/shared/utils/quotaWindowBridge.js converts the
  snapshot into the windows that the ranking compares. The clock is a whole number of milliseconds in the
  range of dates, and not zero. Dates that are numbers are read as \<open>new Date\<close> reads them.
\<close>

section \<open>Numbers on the wire\<close>

text \<open>\<open>finiteQuotaNumber\<close> of quotaPause.js and \<open>finiteNonNegative\<close> of quotaWindowBridge.js are the same
  function: a number, or a text that is not blank, that is finite and not negative.\<close>

definition finiteQuotaNumber :: "jv \<Rightarrow> rat option" where
  "finiteQuotaNumber v = (if (case v of Num _ \<Rightarrow> False | Str s \<Rightarrow> trim s = [] | _ \<Rightarrow> True) then None
     else case to_number v of Fin r \<Rightarrow> if 0 \<le> r then Some r else None | _ \<Rightarrow> None)"

definition finitePositive :: "jv \<Rightarrow> rat option" where
  "finitePositive v = (case finiteQuotaNumber v of Some n \<Rightarrow> if 0 < n then Some n else None | None \<Rightarrow> None)"

definition isoOrNull :: "jv \<Rightarrow> int option" where
  "isoOrNull v = (case v of Str s \<Rightarrow> if trim s = [] then None else date_parse s | _ \<Rightarrow> None)"

definition percent_round :: "rat \<Rightarrow> int" where
  "percent_round r = \<lfloor>r + 1 / 2\<rfloor>"

section \<open>Pausing an account\<close>

definition USAGE_APIKEY_PROVIDERS :: "string list" where
  "USAGE_APIKEY_PROVIDERS = [''cloudflare-ai'', ''codebuddy-cn'', ''codebuddy-intl'', ''glm-cn'', ''glm'', ''kimi'', ''kiro'',
     ''minimax-cn'', ''minimax'', ''ollama'', ''opencode-go'', ''qoder'', ''tokenrouter'', ''vercel-ai-gateway'']"

definition isQuotaEligible :: "jv \<Rightarrow> bool" where
  "isQuotaEligible connection \<longleftrightarrow> truthy connection
     \<and> (let authType = get connection ''authType'' in
        authType = Str ''oauth'' \<or> authType = Str ''access_token''
        \<or> (authType = Str ''apikey'' \<or> authType = Str ''api_key'')
          \<and> list_ex (\<lambda>p. get connection ''provider'' = Str p) USAGE_APIKEY_PROVIDERS)"

definition getWindowThresholds :: "jv \<Rightarrow> jv" where
  "getWindowThresholds connection = (let t = get connection ''quotaPauseThresholds'' in if is_object t then t else Obj [])"

definition normalizeWindowThreshold :: "jv \<Rightarrow> rat" where
  "normalizeWindowThreshold v = (case finiteQuotaNumber v of None \<Rightarrow> 0 | Some t \<Rightarrow> if t \<le> 0 \<or> 100 < t then 0 else t)"

record pause_state =
  ps_key :: jv
  ps_remaining :: "rat option"
  ps_threshold :: rat
  ps_configured :: bool
  ps_resetPassed :: "bool option"
  ps_paused :: bool

definition windowPauseState :: "jv \<Rightarrow> jv \<Rightarrow> int \<Rightarrow> pause_state" where
  "windowPauseState w thresholds now =
     (let threshold = normalizeWindowThreshold (get thresholds (jstr (get w ''key'')));
          remaining = (case finiteQuotaNumber (get w ''remainingPercentage'') of None \<Rightarrow> None
            | Some n \<Rightarrow> if n \<le> 100 then Some n else None);
          reset = (case get w ''resetAt'' of Str (c # cs) \<Rightarrow> date_parse (c # cs) | _ \<Rightarrow> None);
          resetPassed = map_option (\<lambda>t. t \<le> now) reset
      in \<lparr> ps_key = get w ''key'', ps_remaining = remaining, ps_threshold = threshold, ps_configured = 0 < threshold,
           ps_resetPassed = resetPassed,
           ps_paused = (0 < threshold \<and> get w ''unlimited'' \<noteq> Bool True \<and> resetPassed \<noteq> Some True
             \<and> (case remaining of None \<Rightarrow> False | Some n \<Rightarrow> n \<le> threshold)) \<rparr>)"

text \<open>The window that pauses the account: the most depleted one, the first of several equal ones.\<close>

definition more_depleted :: "pause_state option \<Rightarrow> pause_state \<Rightarrow> bool" where
  "more_depleted triggered s = (case triggered of None \<Rightarrow> True
     | Some t \<Rightarrow> (case (ps_remaining s, ps_remaining t) of (Some a, Some b) \<Rightarrow> a < b | _ \<Rightarrow> False))"

fun scan_pauses :: "jv \<Rightarrow> int \<Rightarrow> pause_state option \<Rightarrow> jv list \<Rightarrow> pause_state option" where
  "scan_pauses thresholds now triggered [] = triggered"
| "scan_pauses thresholds now triggered (w # ws) =
     (let s = windowPauseState w thresholds now in
      scan_pauses thresholds now
        (if truthy w \<and> get w ''unlimited'' \<noteq> Bool True \<and> ps_paused s \<and> more_depleted triggered s then Some s else triggered) ws)"

definition getPausedWindow :: "jv \<Rightarrow> int \<Rightarrow> pause_state option" where
  "getPausedWindow connection now = (if \<not> isQuotaEligible connection then None
     else scan_pauses (getWindowThresholds connection) now None (arr_items (get (get connection ''lastQuotaSnapshot'') ''windows'')))"

definition isQuotaPaused :: "jv \<Rightarrow> int \<Rightarrow> bool" where
  "isQuotaPaused connection now \<longleftrightarrow> getPausedWindow connection now \<noteq> None"

record pause_info =
  pi_enabled :: bool
  pi_paused :: bool
  pi_triggered :: "pause_state option"
  pi_eligible :: bool
  pi_windows :: "pause_state list"

text \<open>The values of \<open>Object.values\<close>.\<close>

definition object_values :: "jv \<Rightarrow> jv list" where
  "object_values v = (case v of Obj m \<Rightarrow> map snd m | Arr xs \<Rightarrow> xs | _ \<Rightarrow> [])"

definition getQuotaPauseInfo :: "jv \<Rightarrow> int \<Rightarrow> pause_info" where
  "getQuotaPauseInfo connection now =
     (let thresholds = getWindowThresholds connection; eligible = isQuotaEligible connection;
          windows = filter is_object (arr_items (get (get connection ''lastQuotaSnapshot'') ''windows''));
          triggered = getPausedWindow connection now
      in \<lparr> pi_enabled = list_ex (\<lambda>v. 0 < normalizeWindowThreshold v) (object_values thresholds), pi_paused = (triggered \<noteq> None),
           pi_triggered = triggered, pi_eligible = eligible,
           pi_windows = map (\<lambda>w. let s = windowPauseState w thresholds now in s\<lparr> ps_paused := eligible \<and> ps_paused s \<rparr>) windows \<rparr>)"

section \<open>The snapshot\<close>

definition pct :: "jv \<Rightarrow> jv \<Rightarrow> int option" where
  "pct used total0 = (case (finiteQuotaNumber total0, finiteQuotaNumber used) of
     (Some t, Some u) \<Rightarrow> if t \<le> 0 then None else if u = 0 then Some 100 else if t \<le> u then Some 0
       else Some (max 0 (min 100 (percent_round ((t - u) / t * 100))))
   | _ \<Rightarrow> None)"

definition quotaRemainingPercentage :: "jv \<Rightarrow> int option" where
  "quotaRemainingPercentage q = (case finiteQuotaNumber (get q ''remainingPercentage'') of
     Some r \<Rightarrow> if r \<le> 100 then Some (percent_round r) else pct (get q ''used'') (get q ''total'')
   | None \<Rightarrow> pct (get q ''used'') (get q ''total''))"

text \<open>\<open>Array.isArray(quotas) ? quotas : Object.entries(quotas)\<close>, and \<open>Array.isArray(entry) ? entry : [entry?.name, entry]\<close>.\<close>

definition item :: "jv list \<Rightarrow> nat \<Rightarrow> jv" where
  "item xs i = (if i < length xs then xs ! i else Undef)"

definition quota_entries :: "jv \<Rightarrow> (jv \<times> jv) list" where
  "quota_entries quotas = (case quotas of
     Arr xs \<Rightarrow> map (\<lambda>e. case e of Arr ys \<Rightarrow> (item ys 0, item ys 1) | _ \<Rightarrow> (get e ''name'', e)) xs
   | Obj m \<Rightarrow> map (\<lambda>(k, v). (Str k, v)) m | _ \<Rightarrow> [])"

definition snapshot_window :: "jv \<times> jv \<Rightarrow> jv option" where
  "snapshot_window e = (case e of (key, q) \<Rightarrow> if \<not> is_object q then None
     else case quotaRemainingPercentage q of None \<Rightarrow> None
     | Some p \<Rightarrow> Some (Obj [(''key'', Str (jstr (coalesce key (coalesce (get q ''name'') (Str ''unknown''))))),
         (''remainingPercentage'', JInt p),
         (''resetAt'', if truthy (get q ''resetAt'') then (case date_of (get q ''resetAt'') of Some t \<Rightarrow> Str (to_iso t) | None \<Rightarrow> Null) else Null),
         (''unlimited'', Bool (get q ''unlimited'' = Bool True))]))"

definition deriveQuotaSnapshot :: "int \<Rightarrow> jv \<Rightarrow> jv" where
  "deriveQuotaSnapshot now rawUsage =
     (if \<not> is_object rawUsage \<or> truthy (get rawUsage ''message'') \<or> truthy (get rawUsage ''error'') then Null
      else let entries = quota_entries (get rawUsage ''quotas'');
               windows = List.map_filter snapshot_window entries;
               fetchedAt = (case get (get rawUsage ''quotaObservation'') ''observedAt'' of
                 Str s \<Rightarrow> (case date_parse s of Some t \<Rightarrow> t | None \<Rightarrow> now) | _ \<Rightarrow> now) in
        if windows = [] then Null
        else Obj [(''windows'', Arr windows), (''fetchedAt'', Str (to_iso fetchedAt))])"

section \<open>Windows for the ranking\<close>

definition SYNTHETIC_LIMIT :: rat where
  "SYNTHETIC_LIMIT = 100"

definition STALE_AFTER_MS :: int where
  "STALE_AFTER_MS = 15 * 60000"

text \<open>What is left and the ceiling, when the provider reports its own total.\<close>

definition absoluteUnits :: "jv \<Rightarrow> (rat \<times> rat) option" where
  "absoluteUnits rawQuota = (case finitePositive (get rawQuota ''total'') of None \<Rightarrow> None
     | Some t \<Rightarrow> (case finiteQuotaNumber (get rawQuota ''remaining'') of Some r \<Rightarrow> Some (min r t, t)
         | None \<Rightarrow> (case finiteQuotaNumber (get rawQuota ''used'') of Some u \<Rightarrow> Some (max 0 (t - u), t) | None \<Rightarrow> None)))"

definition ranker_window :: "string \<Rightarrow> rat \<Rightarrow> rat \<Rightarrow> int \<Rightarrow> int \<Rightarrow> string \<Rightarrow> jv" where
  "ranker_window scope remaining limit resetAt observed confidence =
     Obj [(''scope'', Str scope), (''remaining'', Num (Fin remaining)), (''limit'', Num (Fin limit)),
       (''resetAt'', Str (to_iso resetAt)), (''observedAt'', Str (to_iso observed)), (''confidence'', Str confidence)]"

definition toRankerWindow :: "int \<Rightarrow> jv \<Rightarrow> jv \<Rightarrow> jv \<Rightarrow> jv option" where
  "toRankerWindow now observedAt snapshotWindow rawQuota =
     (if \<not> is_object snapshotWindow then None
      else let scope = trim (jstr (coalesce (get snapshotWindow ''key'') (Str []))) in
        if scope = [] \<or> get snapshotWindow ''unlimited'' = Bool True then None
        else case isoOrNull (get snapshotWindow ''resetAt'') of None \<Rightarrow> None
        | Some resetAt \<Rightarrow>
          let observed = (case isoOrNull observedAt of Some t \<Rightarrow> t | None \<Rightarrow> now); aged = STALE_AFTER_MS < now - observed in
          (case absoluteUnits rawQuota of
             Some (r, l) \<Rightarrow> Some (ranker_window scope r l resetAt observed (if aged then ''stale'' else ''fresh''))
           | None \<Rightarrow> (case finiteQuotaNumber (get snapshotWindow ''remainingPercentage'') of None \<Rightarrow> None
               | Some p \<Rightarrow> Some (ranker_window scope (max 0 (min SYNTHETIC_LIMIT p)) SYNTHETIC_LIMIT resetAt observed ''unknown''))))"

text \<open>The raw entries under their names; of two with the same name the later counts.\<close>

definition raw_by_key :: "jv \<Rightarrow> (string, jv) omap" where
  "raw_by_key rawUsage = foldl (\<lambda>m (key, q). om_set m (jstr (coalesce key (coalesce (get q ''name'') (Str [])))) q) []
     (filter (\<lambda>(key, q). is_object q) (quota_entries (get rawUsage ''quotas'')))"

definition toRankerWindows :: "int \<Rightarrow> jv \<Rightarrow> jv \<Rightarrow> jv list" where
  "toRankerWindows now snap rawUsage =
     List.map_filter (\<lambda>w. toRankerWindow now (get snap ''fetchedAt'') w
         (case om_get (raw_by_key rawUsage) (jstr (coalesce (get w ''key'') (Str []))) of Some q \<Rightarrow> q | None \<Rightarrow> Null))
       (arr_items (get snap ''windows''))"

section \<open>Texts that are not blank\<close>

lemma trim_Nil: "trim s = [] \<longleftrightarrow> list_all is_ws s"
proof
  assume t: "trim s = []"
  show "list_all is_ws s"
  proof (rule ccontr)
    assume "\<not> list_all is_ws s"
    then obtain c where c: "c \<in> set s" "\<not> is_ws c" by (auto simp: list_all_iff)
    then have d: "dropWhile is_ws s \<noteq> []" by (auto simp: dropWhile_eq_Nil_conv)
    then have "\<not> is_ws (hd (dropWhile is_ws s))" by (rule hd_dropWhile)
    then have "\<exists>x \<in> set (rev (dropWhile is_ws s)). \<not> is_ws x" using d by (metis hd_in_set set_rev)
    moreover have "dropWhile is_ws (rev (dropWhile is_ws s)) = []" using t by (simp add: trim_def)
    ultimately show False by (simp only: dropWhile_eq_Nil_conv) blast
  qed
next
  assume "list_all is_ws s"
  then have "dropWhile is_ws s = []" by (simp only: dropWhile_eq_Nil_conv list_all_iff)
  then show "trim s = []" by (auto simp: trim_def dest: set_dropWhileD)
qed

lemma digit_not_blank: "is_digit c \<Longrightarrow> \<not> is_ws c"
  by (auto simp: is_digit_def is_ws_def Let_def)

lemma number_not_blank [simp]: "trim (rat_str r) \<noteq> []"
proof -
  have d: "\<exists>c \<in> set (nat_str n). is_digit c" for n using nat_str_digits [of n] by (metis hd_in_set nat_str_not_Nil)
  have "\<exists>c \<in> set (rat_str r). is_digit c"
    using d [of "nat \<lfloor>\<bar>r\<bar>\<rfloor>"] by (auto simp: rat_str_def Let_def split: option.splits)
  then show ?thesis using digit_not_blank by (auto simp: trim_Nil list_all_iff)
qed

lemma iso_not_blank [simp]: "trim (to_iso t) \<noteq> []"
proof -
  have "CHR ''Z'' \<in> set (to_iso t)" "\<not> is_ws (CHR ''Z'')" by (simp_all add: to_iso_def Let_def case_prod_beta is_ws_def)
  then show ?thesis by (auto simp: trim_Nil list_all_iff)
qed

section \<open>What the ranking is given\<close>

lemma iso_range: "isoOrNull v = Some t \<Longrightarrow> date_parse (to_iso t) = Some t"
  using date_parse_range date_parse_to_iso by (auto simp: isoOrNull_def split: jv.splits if_splits)

lemma number_read [simp]: "finiteNonNegative (Num (Fin r)) = (if 0 \<le> r then Some r else None)" "\<not> blank_value (Num (Fin r))"
  by (simp_all add: finiteNonNegative_def blank_value_def)

lemma quota_number_nonneg: "finiteQuotaNumber v = Some r \<Longrightarrow> 0 \<le> r"
  by (auto simp: finiteQuotaNumber_def split: if_splits jsnum.splits)

lemma absolute_units_range: "absoluteUnits q = Some (r, l) \<Longrightarrow> 0 \<le> r \<and> r \<le> l \<and> 0 < l \<and> finitePositive (get q ''total'') = Some l"
  by (auto simp: absoluteUnits_def finitePositive_def min_def max_def split: option.splits if_splits dest: quota_number_nonneg)

lemma ranker_window_shape:
  assumes "toRankerWindow now observedAt w q = Some x"
  obtains scope r l t o' c where "x = ranker_window scope r l t o' c" "0 \<le> r" "r \<le> l" "0 < l" "date_parse (to_iso t) = Some t"
    "c \<noteq> ''unknown'' \<longrightarrow> finitePositive (get q ''total'') = Some l"
  using assms absolute_units_range iso_range
  by (fastforce simp: toRankerWindow_def Let_def SYNTHETIC_LIMIT_def min_def max_def split: if_splits option.splits prod.splits dest: quota_number_nonneg)

lemma reading_of_window:
  assumes "0 \<le> r" "0 < l" "date_parse (to_iso t) = Some t"
  shows "case read_window model (ranker_window scope r l t o' c) of
      Reading x \<Rightarrow> w_remaining x = r \<and> w_limit x = l | Unreadable why \<Rightarrow> classifyWindow (Str scope) = None | ZeroCeiling why \<Rightarrow> False | Skipped \<Rightarrow> True"
  using assms by (auto simp: read_window_def ranker_window_def declared_zero_def parseResetAt_def Let_def split: option.split)

lemma raw_entry:
  "om_get (foldl (\<lambda>m (key, q). om_set m (f key q) q) m0 es) k = Some q \<Longrightarrow> om_get m0 k = Some q \<or> (\<exists>key. (key, q) \<in> set es)"
proof (induction es arbitrary: m0)
  case (Cons e es)
  obtain key v where e: "e = (key, v)" by (cases e)
  from Cons.IH [of "om_set m0 (f key v) v"] Cons.prems show ?case by (auto simp: e om_get_set split: if_splits)
qed simp

text \<open>C29: The ranking can read every window it is given, unless its name says nothing about its length: what is
  left lies between zero and a positive ceiling. A report never bars an account by a ceiling of zero. And a
  window that claims to be measured has a ceiling that the provider stated.\<close>

theorem reported_windows_readable:
  assumes "w \<in> set (toRankerWindows now snap rawUsage)"
  shows "(case read_window model w of
        Reading x \<Rightarrow> 0 \<le> w_remaining x \<and> w_remaining x \<le> w_limit x \<and> 0 < w_limit x
      | Unreadable why \<Rightarrow> classifyWindow (get w ''scope'') = None | ZeroCeiling why \<Rightarrow> False | Skipped \<Rightarrow> True)
    \<and> (get w ''confidence'' \<noteq> Str ''unknown'' \<longrightarrow> (\<exists>key q l. (key, q) \<in> set (quota_entries (get rawUsage ''quotas''))
        \<and> finitePositive (get q ''total'') = Some l \<and> get w ''limit'' = Num (Fin l)))"
proof -
  obtain v q where w: "toRankerWindow now (get snap ''fetchedAt'') v q = Some w"
    and q: "q = Null \<or> om_get (raw_by_key rawUsage) (jstr (coalesce (get v ''key'') (Str []))) = Some q"
    using assms by (auto simp: toRankerWindows_def map_filter_def split: option.splits)
  obtain scope r l t o' c where x: "w = ranker_window scope r l t o' c" "0 \<le> r" "r \<le> l" "0 < l" "date_parse (to_iso t) = Some t"
    and honest: "c \<noteq> ''unknown'' \<longrightarrow> finitePositive (get q ''total'') = Some l"
    using ranker_window_shape [OF w] by blast
  have f: "get w ''scope'' = Str scope" "get w ''confidence'' = Str c" "get w ''limit'' = Num (Fin l)" by (simp_all add: x(1) ranker_window_def)
  have entry: "q = Null \<or> (\<exists>key. (key, q) \<in> set (quota_entries (get rawUsage ''quotas'')))"
    using q raw_entry [of "\<lambda>key q. jstr (coalesce key (coalesce (get q ''name'') (Str [])))" "[]"] by (fastforce simp: raw_by_key_def)
  have "finitePositive (get Null ''total'') = None" by (simp add: finitePositive_def finiteQuotaNumber_def)
  then have "c \<noteq> ''unknown'' \<longrightarrow> (\<exists>key q l'. (key, q) \<in> set (quota_entries (get rawUsage ''quotas''))
        \<and> finitePositive (get q ''total'') = Some l' \<and> l' = l)" using honest entry by auto
  moreover have "case read_window model w of
        Reading x \<Rightarrow> 0 \<le> w_remaining x \<and> w_remaining x \<le> w_limit x \<and> 0 < w_limit x
      | Unreadable why \<Rightarrow> classifyWindow (get w ''scope'') = None | ZeroCeiling why \<Rightarrow> False | Skipped \<Rightarrow> True"
    using reading_of_window [where model = model and scope = scope and o' = o' and c = c, OF x(2,4,5)] x(2-4) f(1) by (auto simp: x(1) split: row_result.splits)
  ultimately show ?thesis using f by simp
qed

definition sample_usage :: jv where
  "sample_usage = Obj [(''quotas'', Obj [(''session (5h)'', Obj [(''used'', JInt 30), (''total'', JInt 300), (''resetAt'', Str ''2026-01-01T05:00:00.000Z'')])])]"

definition sample_snapshot :: jv where
  "sample_snapshot = deriveQuotaSnapshot (the (date_parse ''2026-01-01T00:00:00.000Z'')) sample_usage"

theorem reported_windows_readable_witness:
  "\<exists>w. toRankerWindows (the (date_parse ''2026-01-01T00:00:00.000Z'')) sample_snapshot sample_usage = [w] \<and> get w ''confidence'' = Str ''fresh''
    \<and> (\<exists>key q l. (key, q) \<in> set (quota_entries (get sample_usage ''quotas'')) \<and> finitePositive (get q ''total'') = Some l \<and> get w ''limit'' = Num (Fin l))"
proof -
  let ?ws = "toRankerWindows (the (date_parse ''2026-01-01T00:00:00.000Z'')) sample_snapshot sample_usage"
  have ws: "length ?ws = 1" "get (hd ?ws) ''confidence'' = Str ''fresh''" by code_simp+
  then obtain w where w: "?ws = [w]" by (cases ?ws) auto
  have c: "get w ''confidence'' = Str ''fresh''" using ws(2) w by simp
  have "w \<in> set ?ws" using w by simp
  from conjunct2 [OF reported_windows_readable [OF this, where model = Null]] w c show ?thesis by simp
qed

section \<open>When an account pauses\<close>

text \<open>A window pauses its account: the operator set a threshold, the reading is at or below it, and no reset has
  passed since.\<close>

definition pauses :: "jv \<Rightarrow> int \<Rightarrow> jv \<Rightarrow> bool" where
  "pauses connection now w \<longleftrightarrow> truthy w \<and> get w ''unlimited'' \<noteq> Bool True
     \<and> (\<exists>n. finiteQuotaNumber (get w ''remainingPercentage'') = Some n \<and> n \<le> 100
         \<and> 0 < normalizeWindowThreshold (get (getWindowThresholds connection) (jstr (get w ''key'')))
         \<and> n \<le> normalizeWindowThreshold (get (getWindowThresholds connection) (jstr (get w ''key''))))
     \<and> (\<forall>c cs t. get w ''resetAt'' = Str (c # cs) \<longrightarrow> date_parse (c # cs) = Some t \<longrightarrow> now < t)"

lemma pause_state_iff: "truthy w \<and> get w ''unlimited'' \<noteq> Bool True \<and> ps_paused (windowPauseState w (getWindowThresholds connection) now)
    \<longleftrightarrow> pauses connection now w"
  by (auto simp: windowPauseState_def pauses_def Let_def split: option.splits jv.splits list.splits if_splits)

lemma paused_known: "ps_paused (windowPauseState w thresholds now) \<Longrightarrow> \<exists>n. ps_remaining (windowPauseState w thresholds now) = Some n"
  by (auto simp: windowPauseState_def Let_def split: option.splits)

lemma scan_pauses_least:
  assumes "\<forall>t. triggered = Some t \<longrightarrow> (\<exists>n. ps_remaining t = Some n)"
  shows "case scan_pauses (getWindowThresholds c) now triggered ws of
      None \<Rightarrow> triggered = None \<and> (\<forall>w \<in> set ws. \<not> pauses c now w)
    | Some s \<Rightarrow> (\<exists>n. ps_remaining s = Some n
        \<and> (\<forall>t m. triggered = Some t \<longrightarrow> ps_remaining t = Some m \<longrightarrow> n \<le> m)
        \<and> (\<forall>w \<in> set ws. pauses c now w \<longrightarrow> (\<exists>m. ps_remaining (windowPauseState w (getWindowThresholds c) now) = Some m \<and> n \<le> m)))
      \<and> (triggered = Some s \<or> (\<exists>w \<in> set ws. pauses c now w \<and> s = windowPauseState w (getWindowThresholds c) now))"
  using assms
proof (induction ws arbitrary: triggered)
  case (Cons w ws)
  let ?s = "windowPauseState w (getWindowThresholds c) now"
  define next' where "next' = (if pauses c now w \<and> more_depleted triggered ?s then Some ?s else triggered)"
  have step: "scan_pauses (getWindowThresholds c) now triggered (w # ws) = scan_pauses (getWindowThresholds c) now next' ws"
    using pause_state_iff [of w c now] by (auto simp: next'_def Let_def)
  have known: "\<exists>n. ps_remaining ?s = Some n" if "pauses c now w" using that pause_state_iff [of w c now] paused_known by blast
  have "\<forall>t. next' = Some t \<longrightarrow> (\<exists>n. ps_remaining t = Some n)"
    using known Cons.prems by (auto simp: next'_def split: if_splits)
  note IH = Cons.IH [OF this]
  show ?case
  proof (cases "scan_pauses (getWindowThresholds c) now next' ws")
    case None
    have "next' = None \<Longrightarrow> triggered = None \<and> \<not> pauses c now w" by (auto simp: next'_def more_depleted_def split: if_splits)
    then show ?thesis unfolding step using None IH by auto
  next
    case (Some s)
    have le: "\<exists>m. ps_remaining ?s = Some m \<and> (\<exists>t k. next' = Some t \<and> ps_remaining t = Some k \<and> k \<le> m)" if p: "pauses c now w"
      using known [OF p] Cons.prems p by (cases triggered) (fastforce simp: next'_def more_depleted_def not_less)+
    have le': "\<exists>k. (\<exists>u. next' = Some u \<and> ps_remaining u = Some k) \<and> k \<le> m" if "triggered = Some t" "ps_remaining t = Some m" for t m
      using that known by (auto simp: next'_def more_depleted_def split: option.splits if_splits)
    from IH Some obtain n where n: "ps_remaining s = Some n" "\<And>t m. next' = Some t \<Longrightarrow> ps_remaining t = Some m \<Longrightarrow> n \<le> m"
      "\<And>x. x \<in> set ws \<Longrightarrow> pauses c now x \<Longrightarrow> \<exists>m. ps_remaining (windowPauseState x (getWindowThresholds c) now) = Some m \<and> n \<le> m"
      "next' = Some s \<or> (\<exists>w \<in> set ws. pauses c now w \<and> s = windowPauseState w (getWindowThresholds c) now)" by auto
    have "triggered = Some s \<or> (\<exists>x \<in> set (w # ws). pauses c now x \<and> s = windowPauseState x (getWindowThresholds c) now)"
      using n(4) by (auto simp: next'_def split: if_splits)
    moreover have "n \<le> m" if "triggered = Some t" "ps_remaining t = Some m" for t m
      using le' [OF that] n(2) by (metis order_trans)
    moreover have "\<exists>m. ps_remaining (windowPauseState x (getWindowThresholds c) now) = Some m \<and> n \<le> m" if "x \<in> set (w # ws)" "pauses c now x" for x
      using that le n(2,3) by (metis order_trans set_ConsD)
    ultimately show ?thesis unfolding step Some using n(1) by auto
  qed
qed (use assms in \<open>auto split: option.split\<close>)

text \<open>An account pauses exactly when its plan reports readings and one of them pauses it, and the window that is
  named is the one with the least left.\<close>

theorem pause_names_the_deepest_window:
  "case getPausedWindow c now of
     None \<Rightarrow> \<not> isQuotaEligible c \<or> (\<forall>w \<in> set (arr_items (get (get c ''lastQuotaSnapshot'') ''windows'')). \<not> pauses c now w)
   | Some s \<Rightarrow> isQuotaEligible c \<and> (\<exists>w \<in> set (arr_items (get (get c ''lastQuotaSnapshot'') ''windows'')). pauses c now w
         \<and> s = windowPauseState w (getWindowThresholds c) now)
       \<and> (\<forall>w \<in> set (arr_items (get (get c ''lastQuotaSnapshot'') ''windows'')). pauses c now w
         \<longrightarrow> the (ps_remaining s) \<le> the (ps_remaining (windowPauseState w (getWindowThresholds c) now)))"
  using scan_pauses_least [where triggered = None and c = c and now = now and ws = "arr_items (get (get c ''lastQuotaSnapshot'') ''windows'')"]
  by (fastforce simp: getPausedWindow_def split: option.splits)

end
