(* ===== verification/ProxyRoute.thy ===== *)
theory ProxyRoute
  imports JsValue
begin

text \<open>
  The network route of an account: src/lib/network/connectionProxy.js with src/shared/utils/proxyUrl.js. An
  account may name a proxy pool, carry proxy fields of its own, or name no route. The URL class of Node is
  an argument: the protocol and the normal form of a text, or nothing when the constructor throws. So is
  the database: the pool of an id, or a failed read, and whether the pair of a pool and its
  strictness could be stored. The random choice among pools is an argument as well.
\<close>

section \<open>Proxy URLs\<close>

definition PROXY_PROTOCOLS :: "string list" where
  "PROXY_PROTOCOLS = [''http:'', ''https:'', ''socks:'', ''socks4:'', ''socks4a:'', ''socks5:'', ''socks5h:'']"

type_synonym url_class = "string \<Rightarrow> (string \<times> string) option"

definition is_alpha :: "char \<Rightarrow> bool" where
  "is_alpha c = (let n = of_char c :: nat in 65 \<le> n \<and> n \<le> 90 \<or> 97 \<le> n \<and> n \<le> 122)"

text \<open>\<open>/^[a-z][a-z0-9+.-]*:\/\//i\<close>\<close>

definition has_scheme :: "string \<Rightarrow> bool" where
  "has_scheme s = (case s of [] \<Rightarrow> False
     | c # cs \<Rightarrow> is_alpha c \<and> starts_with (dropWhile (\<lambda>d. is_alpha d \<or> is_digit d \<or> d \<in> {CHR ''+'', CHR ''.'', CHR ''-''}) cs) ''://'')"

definition hex_digit :: "nat \<Rightarrow> char" where
  "hex_digit n = (if n < 10 then char_of (48 + n) else char_of (55 + n))"

text \<open>\<open>encodeURIComponent\<close> on characters below 256: one byte, or the two bytes of their UTF-8 form.\<close>

definition percent :: "nat \<Rightarrow> string" where
  "percent b = [CHR ''%'', hex_digit (b div 16), hex_digit (b mod 16)]"

definition encode_char :: "char \<Rightarrow> string" where
  "encode_char c = (let n = of_char c :: nat in
     if is_alpha c \<or> is_digit c \<or> c \<in> set ''-_.!~*'' \<or> n = 39 \<or> c = CHR ''('' \<or> c = CHR '')'' then [c]
     else if n < 128 then percent n else percent (192 + n div 64) @ percent (128 + n mod 64))"

definition encodeURIComponent :: "string \<Rightarrow> string" where
  "encodeURIComponent s = concat (map encode_char s)"

fun split_on :: "char \<Rightarrow> string \<Rightarrow> string list" where
  "split_on d [] = [[]]"
| "split_on d (c # cs) = (case split_on d cs of [] \<Rightarrow> [[c]] | p # ps \<Rightarrow> if c = d then [] # p # ps else (c # p) # ps)"

text \<open>The shorthand of proxy vendors: host, port and perhaps a user with a password.\<close>

definition build_url :: "url_class \<Rightarrow> string \<Rightarrow> string \<Rightarrow> (string \<times> string) option \<Rightarrow> string option" where
  "build_url new_url host port login =
     (if host = [] \<or> port = [] \<or> \<not> list_all is_digit port then None
      else let auth = (case login of None \<Rightarrow> [] | Some (user, pass) \<Rightarrow> encodeURIComponent user @ '':'' @ encodeURIComponent pass @ ''@'')
        in map_option snd (new_url (''http://'' @ auth @ host @ '':'' @ port)))"

definition normalizeProxyUrl :: "url_class \<Rightarrow> jv \<Rightarrow> string option" where
  "normalizeProxyUrl new_url v =
     (let trimmed = (case v of Str s \<Rightarrow> trim s | _ \<Rightarrow> []) in
      if trimmed = [] then None
      else if has_scheme trimmed then (case new_url trimmed of
          Some (protocol, _) \<Rightarrow> if protocol \<in> set PROXY_PROTOCOLS then Some trimmed else None | None \<Rightarrow> None)
      else (case split_on (CHR '':'') trimmed of
          [host, port] \<Rightarrow> build_url new_url host port None
        | [host, port, user, pass] \<Rightarrow> if user \<noteq> [] \<and> pass \<noteq> [] then build_url new_url host port (Some (user, pass)) else None
        | _ \<Rightarrow> None))"

section \<open>Routes\<close>

record proxy_config =
  pc_resolutionKind :: string
  pc_reason :: "string option"
  pc_source :: string
  pc_poolId :: "string option"
  pc_enabled :: bool
  pc_url :: string
  pc_noProxy :: string
  pc_relayUrl :: string
  pc_strict :: bool

record proxy_refusal =
  pu_reason :: string
  pu_poolId :: "string option"
  pu_strict :: bool

datatype proxy_route = Usable proxy_config | RequiredUnavailable proxy_refusal

definition normalizeString :: "jv \<Rightarrow> string" where
  "normalizeString v = (if is_nullish v then [] else trim (jstr v))"

definition requiredUnavailable :: "string \<Rightarrow> string option \<Rightarrow> bool \<Rightarrow> proxy_route" where
  "requiredUnavailable reason poolId strict = RequiredUnavailable \<lparr> pu_reason = reason, pu_poolId = poolId, pu_strict = strict \<rparr>"

definition usableConfigFromPool :: "jv \<Rightarrow> string \<Rightarrow> string \<Rightarrow> bool \<Rightarrow> proxy_route" where
  "usableConfigFromPool pool url poolId strict =
     (let isRelay = (get pool ''type'' = Str ''vercel'' \<or> get pool ''type'' = Str ''cloudflare'') in
      Usable \<lparr> pc_resolutionKind = ''selected-proxy'', pc_reason = None, pc_source = ''pool'', pc_poolId = Some poolId,
        pc_enabled = (\<not> isRelay), pc_url = (if isRelay then [] else url), pc_noProxy = normalizeString (get pool ''noProxy''),
        pc_relayUrl = (if isRelay then url else []), pc_strict = strict \<rparr>)"

text \<open>A route without a proxy.\<close>

definition direct_route :: "string \<Rightarrow> string \<Rightarrow> string option \<Rightarrow> proxy_route" where
  "direct_route kind origin reason = Usable \<lparr> pc_resolutionKind = kind, pc_reason = reason, pc_source = origin, pc_poolId = None,
     pc_enabled = False, pc_url = [], pc_noProxy = [], pc_relayUrl = [], pc_strict = False \<rparr>"

record legacy_proxy =
  lp_mode :: string
  lp_hasFields :: bool
  lp_hasEnabled :: bool
  lp_enabled :: bool
  lp_url :: string
  lp_noProxy :: string
  lp_strict :: bool
  lp_strictValid :: bool
  lp_historical :: bool

definition normalizeLegacyProxy :: "jv \<Rightarrow> legacy_proxy" where
  "normalizeLegacyProxy data =
     (let mode = normalizeString (get data ''connectionProxyMode''); url = normalizeString (get data ''connectionProxyUrl'');
          noProxy = normalizeString (get data ''connectionNoProxy''); hasStrict = has_own data ''strictProxy'' in
      \<lparr> lp_mode = mode,
        lp_hasFields = list_ex (has_own data) [''connectionProxyEnabled'', ''connectionProxyUrl'', ''connectionNoProxy'', ''strictProxy''],
        lp_hasEnabled = has_own data ''connectionProxyEnabled'', lp_enabled = (get data ''connectionProxyEnabled'' = Bool True),
        lp_url = url, lp_noProxy = noProxy, lp_strict = (get data ''strictProxy'' = Bool True),
        lp_strictValid = (\<not> hasStrict \<or> is_bool (get data ''strictProxy'')),
        lp_historical = (mode = [] \<and> get data ''connectionProxyEnabled'' = Bool False \<and> url = [] \<and> noProxy = []
          \<and> (\<not> hasStrict \<or> get data ''strictProxy'' = Bool False)) \<rparr>)"

definition usableLegacyConfig :: "url_class \<Rightarrow> legacy_proxy \<Rightarrow> proxy_route option" where
  "usableLegacyConfig new_url l =
     (if lp_mode l = ''direct'' then
        (if lp_hasFields l then Some (requiredUnavailable ''connection-proxy-direct-conflict'' None (lp_strict l))
         else Some (direct_route ''intentional-direct'' ''legacy'' (Some ''connection-proxy-direct'')))
      else if lp_mode l \<noteq> [] \<and> lp_mode l \<noteq> ''proxy'' then Some (requiredUnavailable ''connection-proxy-mode-invalid'' None (lp_strict l))
      else if \<not> lp_strictValid l then Some (requiredUnavailable ''legacy-proxy-strict-invalid'' None False)
      else if lp_historical l then None
      else if \<not> lp_hasFields l \<and> lp_mode l = [] then None
      else if \<not> lp_hasEnabled l then Some (requiredUnavailable ''legacy-proxy-enabled-missing'' None (lp_strict l))
      else if \<not> lp_enabled l then Some (requiredUnavailable ''legacy-proxy-disabled-ambiguous'' None (lp_strict l))
      else case normalizeProxyUrl new_url (Str (lp_url l)) of
        None \<Rightarrow> Some (requiredUnavailable ''legacy-proxy-invalid'' None (lp_strict l))
      | Some url \<Rightarrow> Some (if url = [] then requiredUnavailable ''legacy-proxy-invalid'' None (lp_strict l)
          else Usable \<lparr> pc_resolutionKind = ''selected-proxy'', pc_reason = None, pc_source = ''legacy'', pc_poolId = None,
            pc_enabled = True, pc_url = url, pc_noProxy = lp_noProxy l, pc_relayUrl = [], pc_strict = lp_strict l \<rparr>))"

text \<open>The database: the pool of an id (\<open>None\<close> when the read fails), and the store of a pair, when the caller
  gives one (\<open>Some False\<close> when it throws or is refused).\<close>

record proxy_db =
  pd_pool :: "string \<Rightarrow> jv option"
  pd_persist :: "(string \<Rightarrow> bool \<Rightarrow> bool) option"

definition pool_route :: "url_class \<Rightarrow> proxy_db \<Rightarrow> jv \<Rightarrow> string \<Rightarrow> proxy_route" where
  "pool_route new_url db data poolId =
     (let storedStrict = get data ''strictProxy''; gone = requiredUnavailable ''selected-pool-unavailable'' (Some poolId) (storedStrict = Bool True) in
      case pd_pool db poolId of None \<Rightarrow> gone
      | Some pool \<Rightarrow>
        (case normalizeProxyUrl new_url (Str (normalizeString (get pool ''proxyUrl''))) of
           None \<Rightarrow> gone
         | Some url \<Rightarrow>
           if \<not> truthy pool \<or> get pool ''isActive'' \<noteq> Bool True \<or> url = [] then gone
           else (case storedStrict of
               Bool strict \<Rightarrow> usableConfigFromPool pool url poolId strict
             | _ \<Rightarrow> let strict = (get pool ''strictProxy'' = Bool True) in
                 (case pd_persist db of None \<Rightarrow> requiredUnavailable ''legacy-pool-snapshot-unavailable'' (Some poolId) True
                  | Some persist \<Rightarrow> if persist poolId strict then usableConfigFromPool pool url poolId strict
                      else requiredUnavailable ''legacy-pool-snapshot-unavailable'' (Some poolId) strict))))"

definition resolveConnectionProxyConfig :: "url_class \<Rightarrow> proxy_db \<Rightarrow> jv \<Rightarrow> proxy_route" where
  "resolveConnectionProxyConfig new_url db data =
     (let poolId = normalizeString (get data ''proxyPoolId'') in
      if poolId = ''__none__'' then direct_route ''intentional-direct'' ''legacy-pool-none'' (Some ''pool-none'')
      else if poolId \<noteq> [] then pool_route new_url db data poolId
      else let legacy = normalizeLegacyProxy data in
        if lp_historical legacy then direct_route ''unselected'' ''legacy-default'' None
        else case usableLegacyConfig new_url legacy of Some r \<Rightarrow> r | None \<Rightarrow> direct_route ''unselected'' ''none'' None)"

text \<open>\<open>toConnectionProxyOptions\<close>; a route that cannot be used throws.\<close>

definition toConnectionProxyOptions :: "proxy_route \<Rightarrow> jv option" where
  "toConnectionProxyOptions r = (case r of RequiredUnavailable _ \<Rightarrow> None
     | Usable c \<Rightarrow> Some (Obj [(''connectionProxyEnabled'', Bool (pc_enabled c)), (''connectionProxyUrl'', Str (pc_url c)),
         (''connectionNoProxy'', Str (pc_noProxy c)), (''vercelRelayUrl'', Str (pc_relayUrl c)),
         (''strictProxy'', Bool (pc_strict c)), (''resolutionKind'', Str (pc_resolutionKind c))]))"

section \<open>Turns among the pools\<close>

definition pickProxyPoolId :: "nat \<Rightarrow> string list \<Rightarrow> string \<Rightarrow> string \<Rightarrow> (string, int) omap \<Rightarrow> string option \<times> (string, int) omap" where
  "pickProxyPoolId dice poolIds strategy providerId turns =
     (if poolIds = [] then (None, turns)
      else if length poolIds = 1 then (Some (hd poolIds), turns)
      else if strategy = ''round-robin'' then
        let i = ((case om_get turns providerId of Some n \<Rightarrow> n | None \<Rightarrow> -1) + 1) mod int (length poolIds)
        in (Some (poolIds ! nat i), om_set turns providerId i)
      else if strategy = ''random'' then (Some (poolIds ! (dice mod length poolIds)), turns)
      else (Some (hd poolIds), turns))"

section \<open>No silent downgrade\<close>

text \<open>An account selects a proxy when it names a pool other than none, or turns a proxy of its own on.\<close>

definition selects_proxy :: "jv \<Rightarrow> bool" where
  "selects_proxy data \<longleftrightarrow> (let poolId = normalizeString (get data ''proxyPoolId'') in
     if poolId = ''__none__'' then False else poolId \<noteq> [] \<or> get data ''connectionProxyEnabled'' = Bool True)"

definition through_proxy :: "proxy_config \<Rightarrow> bool" where
  "through_proxy c \<longleftrightarrow> pc_resolutionKind c = ''selected-proxy'' \<and> (pc_enabled c \<and> pc_url c \<noteq> [] \<or> pc_relayUrl c \<noteq> [])"

lemma pool_route_proxied: "pool_route new_url db data poolId = Usable c \<Longrightarrow> through_proxy c \<and> pc_poolId c = Some poolId"
  by (auto simp: pool_route_def usableConfigFromPool_def requiredUnavailable_def through_proxy_def Let_def
      split: option.splits if_splits jv.splits)

lemma enabled_is_own: "get data k = Bool b \<Longrightarrow> has_own data k"
  by (cases data) (auto split: option.splits)

lemma legacy_proxied:
  assumes "get data ''connectionProxyEnabled'' = Bool True" and "usableLegacyConfig new_url (normalizeLegacyProxy data) = Some (Usable c)"
  shows "through_proxy c"
  using assms enabled_is_own [OF assms(1)]
  by (auto simp: usableLegacyConfig_def normalizeLegacyProxy_def requiredUnavailable_def direct_route_def through_proxy_def Let_def
      split: option.splits if_splits)

lemma legacy_not_skipped:
  assumes "get data ''connectionProxyEnabled'' = Bool True"
  shows "\<not> lp_historical (normalizeLegacyProxy data)" "usableLegacyConfig new_url (normalizeLegacyProxy data) \<noteq> None"
  using assms enabled_is_own [OF assms]
  by (auto simp: usableLegacyConfig_def normalizeLegacyProxy_def Let_def split: option.splits)


definition sample_pools :: proxy_db where
  "sample_pools = \<lparr> pd_pool = (\<lambda>i. if i = ''p1'' then Some (Obj [(''proxyUrl'', Str ''10.0.0.7:8080''), (''isActive'', Bool True)]) else None),
     pd_persist = None \<rparr>"

definition sample_url :: url_class where
  "sample_url s = Some (''http:'', s @ ''/'')"


end
