(* ===== verification/AccountSelection.thy ===== *)
theory AccountSelection
  imports AccountDispatch Scheduler Capacity ModelPolicy QuotaBridge ProxyRoute
begin

text \<open>
  \<open>getProviderCredentials\<close> of src/sse/services/auth.js: the selection of an account for one attempt of a
  request. It reads the operator's pending command, the account table, drains, policies and routes,
  gates every account, evaluates the quota evidence outside the selection lock and starts over, ranks what is
  left, and reserves a slot, for the account an operator named or for the one the scheduler picks. The
  world is the scheduler's: the lease registry with the gate, and the database of the pins. What
  a pass reads (tables, drains, settings, resolved routes, quota reports) is an argument, one record
  per pass, and so are the digests. The queue per provider keeps two selections from interleaving; one
  pass here is what happens between taking the queue and leaving it. Log lines are left out, and so is the
  detached write of the windows, which nothing here reads back.
\<close>

section \<open>What a selection is given\<close>

record quota_reading =
  qe_paused :: bool
  qe_snapshot :: jv
  qe_rawUsage :: jv

text \<open>The session is the digest of \<open>resolveRoutingSessionIdentity\<close>.\<close>

record selection_request =
  sr_provider :: string
  sr_model :: jv
  sr_session :: string
  sr_identity_source :: string
  sr_excluded :: "string list"
  sr_options :: selection_options

text \<open>\<open>sv_stops\<close>: the request is aborted, or a read fails, before anything is reserved; \<open>sv_stops_reserved\<close>: it is
  aborted after the reservation. \<open>sv_pin_commits\<close>: the operator pin can be written.\<close>

record selection_env =
  sv_now :: int
  sv_stops :: bool
  sv_collate :: "string \<Rightarrow> string \<Rightarrow> bool"
  sv_sha :: "string \<Rightarrow> string"
  sv_uuid :: string
  sv_disabled :: jv
  sv_nodes :: "provider_node list"
  sv_conns :: conn_table
  sv_drains :: jv
  sv_settings :: jv
  sv_route :: "jv \<Rightarrow> proxy_route"
  sv_public_route :: proxy_route
  sv_identity_of :: "jv \<Rightarrow> string"
  sv_evaluate :: "jv \<Rightarrow> quota_reading"
  sv_commits :: bool
  sv_pin_commits :: bool
  sv_stops_reserved :: bool

record prepared_quota =
  pq_evidence :: "(string, quota_reading) omap"
  pq_passes :: nat
  pq_pinActionId :: "string option"

datatype pass_result = Settled account_choice | Again prepared_quota

definition MAX_QUOTA_REVALIDATIONS :: nat where
  "MAX_QUOTA_REVALIDATIONS = 8"

definition SCHEDULER_RETRY_AFTER_SECONDS :: int where
  "SCHEDULER_RETRY_AFTER_SECONDS = 1"

definition MODEL_ANY :: string where
  "MODEL_ANY = ''*''"

definition model_key :: "jv \<Rightarrow> string" where
  "model_key model = (if truthy model then jstr model else MODEL_ANY)"

definition provider_id :: "selection_request \<Rightarrow> string" where
  "provider_id q = jstr (resolveProviderId (Str (sr_provider q)))"

section \<open>Answers without an account\<close>

text \<open>A status that is a whole number; the others are no status.\<close>

definition status_of :: "jv \<Rightarrow> int option" where
  "status_of v = (case v of Num (Fin r) \<Rightarrow> Some \<lfloor>r\<rfloor> | _ \<Rightarrow> None)"

definition wait_second :: "int \<Rightarrow> string \<Rightarrow> account_choice" where
  "wait_second now why = AllLimited \<lparr> pr_lastError = Str why, pr_lastErrorCode = None, pr_clientErrorStatus = None,
     pr_retryAfter = to_iso (now + SCHEDULER_RETRY_AFTER_SECONDS * 1000),
     pr_retryAfterHuman = int_str SCHEDULER_RETRY_AFTER_SECONDS @ ''s'', pr_mustWait = Bool True \<rparr>"

definition commandWait :: "int \<Rightarrow> account_choice" where
  "commandWait now = wait_second now ''Pending session reassignment cannot accept this request''"

section \<open>The public account\<close>

definition public_aliases :: "selection_env \<Rightarrow> string \<Rightarrow> string list" where
  "public_aliases env providerId = (case find (\<lambda>n. nd_id n = providerId) (sv_nodes env) of
     Some n \<Rightarrow> (case nd_prefix n of Some (c # cs) \<Rightarrow> [c # cs] | _ \<Rightarrow> []) | None \<Rightarrow> [])"

definition model_disabled :: "selection_env \<Rightarrow> selection_request \<Rightarrow> string \<Rightarrow> bool" where
  "model_disabled env q connectionId = isAccountModelDisabled (if truthy (sr_model q) then sv_disabled env else Obj [])
     (provider_id q) (sr_model q) connectionId (public_aliases env (provider_id q)) (sv_nodes env)"

definition route_fields :: "proxy_config \<Rightarrow> (string \<times> jv) list" where
  "route_fields c = [(''connectionProxyEnabled'', Bool (pc_enabled c)), (''connectionProxyUrl'', Str (pc_url c)),
     (''connectionNoProxy'', Str (pc_noProxy c)), (''connectionProxyPoolId'', case pc_poolId c of Some (x # xs) \<Rightarrow> Str (x # xs) | _ \<Rightarrow> Null),
     (''vercelRelayUrl'', Str (pc_relayUrl c)), (''strictProxy'', Bool (pc_strict c)), (''resolutionKind'', Str (pc_resolutionKind c))]"

definition provider_ceiling :: "selection_env \<Rightarrow> string \<Rightarrow> jv" where
  "provider_ceiling env providerId = get (get (get (sv_settings env) ''providerStrategies'') providerId) ''maxConcurrent''"

definition public_account :: "selection_env \<Rightarrow> selection_request \<Rightarrow> sched_world \<Rightarrow> sched_world \<times> account_choice" where
  "public_account env q w =
     (let providerId = provider_id q in
      if model_disabled env q [] then (w, NoAccount)
      else if isProviderDisabled (sv_settings env) (Str providerId) then (w, NoAccount)
      else case sv_public_route env of RequiredUnavailable _ \<Rightarrow> (w, NoAccount)
      | Usable c \<Rightarrow>
          (case reserveProviderLease (sv_now env) (Some providerId) (provider_ceiling env providerId) (leases_w w) of
             (m, None) \<Rightarrow> (w\<lparr> leases_w := m \<rparr>, wait_second (sv_now env) ''Provider at capacity'')
           | (m, Some lease) \<Rightarrow> (w\<lparr> leases_w := m \<rparr>, Granted \<lparr> ca_connectionId = ''noauth'', ca_lease = Some lease,
               ca_credentials = Obj [(''id'', Str ''noauth''), (''connectionId'', Str ''noauth''), (''connectionName'', Str ''Public''),
                 (''isActive'', Bool True), (''accessToken'', Str ''public''), (''providerSpecificData'', Obj (route_fields c))] \<rparr>)))"

section \<open>Accounts that may be asked\<close>

definition is_draining :: "selection_env \<Rightarrow> jv \<Rightarrow> bool" where
  "is_draining env c \<longleftrightarrow> truthy (get (get (sv_drains env) (jstr (get c ''id''))) ''isDraining'')"

definition admission_of :: "selection_env \<Rightarrow> selection_request \<Rightarrow> selection_options \<Rightarrow> jv \<Rightarrow> admission_query" where
  "admission_of env q opts c = \<lparr> aq_model = sr_model q, aq_preferred = (case so_preferred opts of Some p \<Rightarrow> Str p | None \<Rightarrow> Null),
     aq_strict = so_strict opts, aq_excluded = (jstr (get c ''id'') \<in> set (sr_excluded q)),
     aq_disabled = model_disabled env q (jstr (get c ''id'')), aq_draining = is_draining env c, aq_snapshot = Null \<rparr>"

definition available_accounts :: "selection_env \<Rightarrow> selection_request \<Rightarrow> selection_options \<Rightarrow> jv list \<Rightarrow> jv list" where
  "available_accounts env q opts conns =
     filter (\<lambda>c. holdsCredential c \<and> accountAdmissionReason (sv_now env) c (admission_of env q opts c) = None) conns"

definition verified :: "jv \<Rightarrow> jv \<Rightarrow> jv" where
  "verified c snap = Obj (om_set (obj_entries c) ''lastQuotaSnapshot'' (js_or snap Null))"

definition evidence_of :: "selection_env \<Rightarrow> prepared_quota \<Rightarrow> jv \<Rightarrow> quota_reading option" where
  "evidence_of env prep c = om_get (pq_evidence prep) (sv_identity_of env c)"

text \<open>The accounts that are left after the quota, with their windows; the readings go to the gate.\<close>

fun quota_checked :: "selection_env \<Rightarrow> selection_request \<Rightarrow> prepared_quota \<Rightarrow> jv list \<Rightarrow> adm \<Rightarrow> adm \<times> (jv \<times> jv list) list" where
  "quota_checked env q prep [] g = (g, [])"
| "quota_checked env q prep (c # cs) g =
     (case evidence_of env prep c of None \<Rightarrow> quota_checked env q prep cs g
      | Some e \<Rightarrow>
        if getExhaustedQuotaWindow (sv_now env) (verified c (qe_snapshot e)) (sr_model q) \<noteq> None \<or> qe_paused e
        then quota_checked env q prep cs g
        else let g' = recordQuota (sv_now env) (jstr (get c ''id'')) (js_or (qe_snapshot e) Null) (Bool (qe_paused e)) g;
                 windows = toRankerWindows (sv_now env) (js_or (qe_snapshot e) Null) (js_or (qe_rawUsage e) Null);
                 (g'', later) = quota_checked env q prep cs g'
          in (g'', (c, windows) # later))"

text \<open>No account is left: the earliest end of a recorded failure is passed on as the time to come back.\<close>

definition locked_report :: "selection_env \<Rightarrow> selection_request \<Rightarrow> selection_options \<Rightarrow> prepared_quota \<Rightarrow> jv list \<Rightarrow> jv list \<Rightarrow> account_choice" where
  "locked_report env q opts prep conns available =
     (let candidates = filter (\<lambda>c. (\<not> so_strict opts \<or> so_preferred opts = Some (jstr (get c ''id''))) \<and> \<not> model_disabled env q (jstr (get c ''id''))) conns;
          checked = (\<lambda>c. verified c (if c \<in> set available then (case evidence_of env prep c of Some e \<Rightarrow> qe_snapshot e | None \<Rightarrow> Null) else Null));
          failures = List.map_filter (\<lambda>c. getActiveModelFailure (sv_now env) (checked c) (sr_model q)) candidates in
      case js_sort (\<lambda>a b. sv_collate env (jstr (mf_until a)) (jstr (mf_until b))) failures of [] \<Rightarrow> NoAccount
      | f # _ \<Rightarrow> AllLimited \<lparr> pr_lastError = mf_message f, pr_lastErrorCode = status_of (mf_status f),
          pr_clientErrorStatus = status_of (mf_clientErrorStatus f), pr_retryAfter = jstr (mf_until f),
          pr_retryAfterHuman = formatRetryAfter (sv_now env) (mf_until f), pr_mustWait = Undef \<rparr>)"

section \<open>Reserving a slot\<close>

definition register_accounts :: "selection_env \<Rightarrow> string \<Rightarrow> jv list \<Rightarrow> lease_module \<Rightarrow> lease_module" where
  "register_accounts env providerId accts m = foldl (\<lambda>m c. registerAccountCapacity (jstr (get c ''id''))
      (JInt (ec_limit (effectiveCapacity c (sv_settings env) (Str providerId) Undef))) (Some providerId) (provider_ceiling env providerId) m) m accts"

text \<open>\<open>persistOperatorPin\<close>: the database, whether the caller has to wait, and the reason that is recorded. The
  command is read again inside the transaction; an error undoes what the transaction wrote.\<close>

record pin_write =
  pw_db :: pin_db
  pw_mustWait :: bool
  pw_reason :: jv

definition must_wait :: "pin_db \<Rightarrow> pin_write" where
  "must_wait db = \<lparr> pw_db = db, pw_mustWait = True, pw_reason = Null \<rparr>"

definition pinned_as :: "string \<Rightarrow> pin_db \<Rightarrow> pin_write" where
  "pinned_as reason db = \<lparr> pw_db = db, pw_mustWait = False, pw_reason = Str reason \<rparr>"

definition command_changed :: "pin_action option \<Rightarrow> (pin_action \<times> bool) option \<Rightarrow> string \<Rightarrow> bool" where
  "command_changed expected pending cid \<longleftrightarrow> (case pending of
      None \<Rightarrow> expected \<noteq> None
    | Some (a, storageUnavailable) \<Rightarrow> storageUnavailable \<or> pa_target a \<noteq> cid
        \<or> (case expected of None \<Rightarrow> True | Some x \<Rightarrow> pa_id a \<noteq> pa_id x))"

definition write_operator_pin :: "selection_env \<Rightarrow> selection_request \<Rightarrow> pin_clock \<Rightarrow> string \<Rightarrow> jv list \<Rightarrow> pin_action option \<Rightarrow> pin_db \<Rightarrow> rank_error + pin_write" where
  "write_operator_pin env q clk cid windows action db =
     (let model = model_key (sr_model q);
          previous = (case get (getPin clk db (sr_session q) model) ''connectionId'' of Str s \<Rightarrow> Str s | _ \<Rightarrow> Null) in
      if seq previous (Str cid) then Inr (pinned_as ''pinned'' (touchPin clk (sr_session q) model (nowIso clk) db))
      else let trigger = (if action \<noteq> None then ''operator-reassignment'' else if previous = Null then ''first-pin'' else ''operator-pin'') in
        (case buildSwitchReceipt (sv_collate env) previous (Str cid) (Arr windows) (Str trigger) (Str model) (Str (sr_session q)) (JInt (sv_now env)) of
           Inl e \<Rightarrow> Inl e
         | Inr receipt \<Rightarrow> let db1 = fst (recordSwitch (sv_uuid env) clk receipt (setPin clk (sr_session q) model cid (nowIso clk) db)) in
             Inr (pinned_as trigger (case action of None \<Rightarrow> db1 | Some a \<Rightarrow> completePinAction a (nowIso clk) db1))))"

definition pin_transaction :: "selection_env \<Rightarrow> selection_request \<Rightarrow> pin_clock \<Rightarrow> jv \<Rightarrow> jv list \<Rightarrow> pin_action option \<Rightarrow> pin_db \<Rightarrow> rank_error + pin_write" where
  "pin_transaction env q clk connection windows expected db0 =
     (let model = model_key (sr_model q); cid = jstr (get connection ''id'') in
      case getPendingPinAction (sv_sha env) (sr_session q) model (nowIso clk) db0 of (db, pending) \<Rightarrow>
        if command_changed expected pending cid then Inr (must_wait db)
        else if pending = None then write_operator_pin env q clk cid windows None db
        else case planAccountSelection (sv_collate env) [Obj (om_set (obj_entries connection) ''windows'' (Arr windows))] Null Null (Str model) (JInt (sv_now env)) of
          Inl e \<Rightarrow> Inl e
        | Inr p \<Rightarrow> if pl_preferred p = [] then Inr (must_wait db) else write_operator_pin env q clk cid windows (map_option fst pending) db)"

definition persistOperatorPin :: "selection_env \<Rightarrow> selection_request \<Rightarrow> jv \<Rightarrow> jv list \<Rightarrow> pin_action option \<Rightarrow> pin_db \<Rightarrow> pin_write" where
  "persistOperatorPin env q connection windows expected db =
     (if sr_session q = [] \<or> jstr (get connection ''id'') = [] then \<lparr> pw_db = db, pw_mustWait = False, pw_reason = Null \<rparr>
      else if \<not> sv_pin_commits env then must_wait db
      else case createSchedulerRepos (of_int (sv_now env)) of Inl _ \<Rightarrow> must_wait db
      | Inr clk \<Rightarrow> (case pin_transaction env q clk connection windows expected db of Inl _ \<Rightarrow> must_wait db | Inr r \<Rightarrow> r))"

text \<open>A reservation: the account with its lease and the selection's verdict, or an answer.\<close>

record reservation =
  rs_connection :: jv
  rs_lease :: lease_object
  rs_selection :: jv

definition selection_report :: "string \<Rightarrow> jv \<Rightarrow> jv \<Rightarrow> jv" where
  "selection_report verdict connection why = Obj [(''verdict'', Str verdict), (''conn'', Str (take 8 (jstr (get connection ''id'')))), (''why'', why)]"

definition release_slot :: "lease_object \<Rightarrow> sched_world \<Rightarrow> sched_world" where
  "release_slot h w = w\<lparr> leases_w := fst (releaseAccountLease h (leases_w w)) \<rparr>"

definition operator_slot :: "selection_env \<Rightarrow> selection_request \<Rightarrow> jv \<Rightarrow> jv list \<Rightarrow> pin_action option \<Rightarrow> sched_world
    \<Rightarrow> sched_world \<times> (account_choice + reservation)" where
  "operator_slot env q connection windows action w =
     (if action \<noteq> None \<and> (case sv_route env connection of Usable _ \<Rightarrow> False | _ \<Rightarrow> True) then (w, Inl (commandWait (sv_now env)))
      else case reserve_lease (sv_now env) (get connection ''id'') (leases_w w) of
        (m, None) \<Rightarrow> (w\<lparr> leases_w := m \<rparr>, Inl (wait_second (sv_now env) ''Account at capacity''))
      | (m, Some lease) \<Rightarrow>
          (let pw = persistOperatorPin env q connection windows action (db_w w); w' = \<lparr> leases_w = m, db_w = pw_db pw \<rparr> in
           if pw_mustWait pw then (release_slot lease w', Inl (commandWait (sv_now env)))
           else (w', Inr \<lparr> rs_connection = connection, rs_lease = lease,
             rs_selection = selection_report ''operator-pinned'' connection (pw_reason pw) \<rparr>)))"

definition sched_request_of :: "selection_env \<Rightarrow> selection_request \<Rightarrow> (jv \<times> jv list) list \<Rightarrow> pin_action option \<Rightarrow> sched_request" where
  "sched_request_of env q routed action = \<lparr> rq_session = sr_session q, rq_model = model_key (sr_model q), rq_accounts = Arr (map fst routed),
     rq_windows = Obj (foldl (\<lambda>m (c, ws). om_set m (jstr (get c ''id'')) (Arr ws)) [] routed), rq_now = JInt (sv_now env),
     rq_pinAction = (case action of None \<Rightarrow> Null | Some a \<Rightarrow> Str (pa_id a)) \<rparr>"

text \<open>A refusal of the scheduler: a wait for a slot, or an exhausted pool with the earliest reset.\<close>

definition refused_answer :: "selection_env \<Rightarrow> rejection_out \<Rightarrow> account_choice" where
  "refused_answer env x =
     (let capacityWait = (re_reason x = ''at-capacity'');
          later = to_iso (sv_now env + (if re_retryAfter x = 0 then SCHEDULER_RETRY_AFTER_SECONDS else re_retryAfter x) * 1000);
          retryAt = (if \<not> capacityWait \<and> truthy (re_earliestResetAt x) then jstr (re_earliestResetAt x) else later) in
      AllLimited \<lparr> pr_lastError = Str (''No account available ('' @ re_reason x @ '')''),
        pr_lastErrorCode = (if capacityWait then None else Some 429), pr_clientErrorStatus = (if capacityWait then None else Some 429),
        pr_retryAfter = retryAt,
        pr_retryAfterHuman = (if capacityWait then int_str (if re_retryAfter x = 0 then SCHEDULER_RETRY_AFTER_SECONDS else re_retryAfter x) @ ''s''
          else formatRetryAfter (sv_now env) (Str retryAt)),
        pr_mustWait = Bool (capacityWait \<or> re_mustWait x) \<rparr>)"

definition scheduler_slot :: "selection_env \<Rightarrow> selection_request \<Rightarrow> (jv \<times> jv list) list \<Rightarrow> pin_action option \<Rightarrow> sched_world
    \<Rightarrow> sched_world \<times> (account_choice + reservation)" where
  "scheduler_slot env q routed action w =
     (case createSchedulerRepos (of_int (sv_now env)) of Inl _ \<Rightarrow> (w, Inl SelectionThrew)
      | Inr clk \<Rightarrow>
        (case selectAndReserve (sv_collate env) (sv_sha env) (sv_uuid env) (sv_now env) clk (sv_commits env) (sched_request_of env q routed action) w of
           (w', Inl _) \<Rightarrow> (w', Inl SelectionThrew)
         | (w', Inr (Refused x)) \<Rightarrow> (w', Inl (refused_answer env x))
         | (w', Inr (Chosen s)) \<Rightarrow> (w', Inr \<lparr> rs_connection = se_connection s, rs_lease = se_lease s,
             rs_selection = selection_report (if se_reason s = ''pinned'' then ''pin-hit'' else ''win'') (se_connection s) (Str (v_reason (se_repin s))) \<rparr>)))"

section \<open>The account that is handed out\<close>

definition credential_fields :: "string list" where
  "credential_fields = [''authType'', ''apiKey'', ''accessToken'', ''refreshToken'', ''idToken'', ''expiresAt'', ''expiresIn'', ''lastRefreshAt'', ''projectId'']"

definition credentials_of :: "selection_request \<Rightarrow> reservation \<Rightarrow> proxy_config \<Rightarrow> jv" where
  "credentials_of q r c = (let conn = rs_connection r; psd = get conn ''providerSpecificData'' in
     Obj (map (\<lambda>k. (k, get conn k)) credential_fields
       @ [(''connectionName'', js_or (get conn ''displayName'') (js_or (get conn ''name'') (js_or (get conn ''email'') (get conn ''id'')))),
          (''copilotToken'', get psd ''copilotToken''),
          (''defaultModel'', case get conn ''defaultModel'' of Str s \<Rightarrow> if trim s = [] then Null else Str (trim s) | _ \<Rightarrow> Null),
          (''providerSpecificData'', Obj (foldl (\<lambda>m (k, v). om_set m k v) (obj_entries psd) (route_fields c))),
          (''connectionId'', get conn ''id''), (''sessionHash'', Str (sr_session q)), (''sessionIdentitySource'', Str (sr_identity_source q)),
          (''testStatus'', get conn ''testStatus''), (''lastError'', get conn ''lastError''),
          (''selection'', rs_selection r), (''_connection'', conn)]))"

text \<open>The route is the one resolved for the account of this id before the reservation.\<close>

definition resolved_route :: "selection_env \<Rightarrow> jv list \<Rightarrow> jv \<Rightarrow> proxy_route" where
  "resolved_route env available conn = (case find (\<lambda>c. seq (get c ''id'') (get conn ''id'')) available of
     Some c \<Rightarrow> sv_route env c | None \<Rightarrow> sv_route env conn)"

definition hand_out :: "selection_env \<Rightarrow> selection_request \<Rightarrow> jv list \<Rightarrow> sched_world \<times> (account_choice + reservation) \<Rightarrow> sched_world \<times> account_choice" where
  "hand_out env q available out = (case out of
     (w, Inl choice) \<Rightarrow> (w, choice)
   | (w, Inr r) \<Rightarrow>
       if sv_stops_reserved env then (release_slot (rs_lease r) w, SelectionThrew)
       else (case resolved_route env available (rs_connection r) of
           RequiredUnavailable _ \<Rightarrow> (release_slot (rs_lease r) w, NoAccount)
         | Usable c \<Rightarrow> (w, Granted \<lparr> ca_connectionId = jstr (get (rs_connection r) ''id''), ca_lease = Some (rs_lease r),
             ca_credentials = credentials_of q r c \<rparr>)))"

section \<open>One pass\<close>

text \<open>A pending command decides the account: \<open>None\<close> when the request has to wait for it.\<close>

definition commanded_options :: "selection_options \<Rightarrow> (pin_action \<times> bool) option \<Rightarrow> selection_options option" where
  "commanded_options opts pending = (case pending of
     None \<Rightarrow> Some \<lparr> so_preferred = (case so_preferred opts of Some (c # cs) \<Rightarrow> Some (c # cs) | _ \<Rightarrow> None),
        so_strict = ((case so_preferred opts of Some (c # cs) \<Rightarrow> True | _ \<Rightarrow> False) \<and> so_strict opts) \<rparr>
   | Some (a, storageUnavailable) \<Rightarrow>
       if storageUnavailable \<or> (case so_preferred opts of Some (c # cs) \<Rightarrow> c # cs \<noteq> pa_target a | _ \<Rightarrow> False) then None
       else Some \<lparr> so_preferred = Some (pa_target a), so_strict = True \<rparr>)"

definition choose_account :: "selection_env \<Rightarrow> selection_request \<Rightarrow> selection_options \<Rightarrow> pin_action option \<Rightarrow> jv list \<Rightarrow> jv list \<Rightarrow> prepared_quota \<Rightarrow> sched_world
    \<Rightarrow> sched_world \<times> account_choice" where
  "choose_account env q opts action conns available prep w =
     (case quota_checked env q prep available (gate (leases_w w)) of (g, routed) \<Rightarrow>
       let w1 = w\<lparr> leases_w := (leases_w w)\<lparr> gate := g \<rparr> \<rparr> in
       if routed = [] then (w1, if action \<noteq> None then commandWait (sv_now env) else locked_report env q opts prep conns available)
       else let w2 = w1\<lparr> leases_w := register_accounts env (provider_id q) (map fst routed) (leases_w w1) \<rparr> in
         hand_out env q available
           (case (case so_preferred opts of None \<Rightarrow> None | Some p \<Rightarrow> find (\<lambda>(c, ws). seq (get c ''id'') (Str p)) routed) of
              Some (c, ws) \<Rightarrow> operator_slot env q c ws action w2
            | None \<Rightarrow> scheduler_slot env q routed action w2))"

definition selection_pass :: "selection_env \<Rightarrow> selection_request \<Rightarrow> prepared_quota option \<Rightarrow> sched_world \<Rightarrow> sched_world \<times> pass_result" where
  "selection_pass env q prep0 w =
     (if sv_stops env then (w, Settled SelectionThrew)
      else if isNoAuthProvider (provider_id q) then (case public_account env q w of (w', choice) \<Rightarrow> (w', Settled choice))
      else case createSchedulerRepos (of_int (sv_now env)) of Inl _ \<Rightarrow> (w, Settled SelectionThrew)
      | Inr clk \<Rightarrow>
        (case getPendingPinAction (sv_sha env) (sr_session q) (model_key (sr_model q)) (nowIso clk) (db_w w) of (db, pending) \<Rightarrow>
          let w1 = w\<lparr> db_w := db \<rparr>; action = map_option fst pending; wait = commandWait (sv_now env) in
          (case commanded_options (sr_options q) pending of None \<Rightarrow> (w1, Settled wait)
           | Some opts \<Rightarrow>
             let conns = getProviderConnections (Str (provider_id q)) (Bool True) (sv_conns env) in
             if conns = [] then (w1, Settled (if action \<noteq> None then wait else NoAccount))
             else let available = available_accounts env q opts conns;
                      prep = (case prep0 of Some p \<Rightarrow> p | None \<Rightarrow> \<lparr> pq_evidence = [], pq_passes = 0, pq_pinActionId = map_option pa_id action \<rparr>);
                      missing = filter (\<lambda>c. evidence_of env prep c = None) available in
               if pq_pinActionId prep \<noteq> map_option pa_id action then (w1, Settled wait)
               else if missing \<noteq> [] then
                 (if MAX_QUOTA_REVALIDATIONS \<le> pq_passes prep then (w1, Settled wait)
                  else (w1, Again (prep\<lparr> pq_evidence := foldl (\<lambda>m c. om_set m (sv_identity_of env c) (sv_evaluate env c)) (pq_evidence prep) missing,
                    pq_passes := pq_passes prep + 1 \<rparr>)))
               else (case choose_account env q opts action conns available prep w1 of (w2, choice) \<Rightarrow> (w2, Settled choice)))))"

section \<open>The selection\<close>

text \<open>The passes that may still start over.\<close>

definition passes_used :: "prepared_quota option \<Rightarrow> nat" where
  "passes_used prep = (case prep of None \<Rightarrow> 0 | Some p \<Rightarrow> pq_passes p)"

lemma again_uses_pass: "selection_pass env q prep w = (w', Again p) \<Longrightarrow> pq_passes p = Suc (passes_used prep) \<and> passes_used prep < MAX_QUOTA_REVALIDATIONS"
  by (auto simp: selection_pass_def passes_used_def Let_def split: if_splits sum.splits prod.splits option.splits)

function getProviderCredentials :: "(nat \<Rightarrow> selection_env) \<Rightarrow> nat \<Rightarrow> prepared_quota option \<Rightarrow> selection_request \<Rightarrow> sched_world \<Rightarrow> sched_world \<times> account_choice" where
  "getProviderCredentials envs n prep q w = (case selection_pass (envs n) q prep w of
     (w', Settled choice) \<Rightarrow> (w', choice)
   | (w', Again p) \<Rightarrow> getProviderCredentials envs (Suc n) (Some p) q w')"
  by pat_completeness auto
termination
  by (relation "measure (\<lambda>(envs, n, prep, q, w). MAX_QUOTA_REVALIDATIONS - passes_used prep)")
    (auto dest!: sym [THEN again_uses_pass] simp: passes_used_def)

declare getProviderCredentials.simps [simp del]

end
