(* ===== verification/FailureGuarantees.thy ===== *)
theory FailureGuarantees
  imports AccountFailure
begin

text \<open>
  What marking and clearing an account promise: a lock that lasts as long as announced and touches one
  account and one model, no trace of an error that is the caller's, bounded cooldowns, and a success that
  lifts what the failures left.
\<close>

section \<open>A patch of an account\<close>

lemma patch_account_eq:
  assumes "om_get (aw_conns w) i = Some row" and "get (Obj kvs) ''priority'' = Undef"
  shows "patch_account env i kvs w = w\<lparr> aw_conns := fst (upsert (me_sha env) (me_uuid env)
     (spread (rowToConn row) (kvs @ [(''updatedAt'', Str (to_iso (me_now env)))])) (aw_conns w)) \<rparr>"
proof -
  obtain t res where u: "upsert (me_sha env) (me_uuid env) (spread (rowToConn row) (kvs @ [(''updatedAt'', Str (to_iso (me_now env)))])) (aw_conns w) = (t, res)"
    by fastforce
  show ?thesis using assms by (simp add: patch_account_def updateProviderConnection_def u)
qed

definition patch_ok :: "(string \<times> jv) list \<Rightarrow> bool" where
  "patch_ok kvs \<longleftrightarrow> om_get kvs ''id'' = None \<and> om_get kvs ''priority'' = None \<and> list_all (\<lambda>(k, v). wf_keys v) kvs"

lemma patch_object:
  assumes "conn_ok (aw_conns w)" and "om_get (aw_conns w) i = Some row" and "patch_ok kvs"
  shows "wf_keys (spread (rowToConn row) (kvs @ [(''updatedAt'', u)])) \<or> \<not> wf_keys u"
    and "get (spread (rowToConn row) (kvs @ [(''updatedAt'', u)])) ''id'' = Str i"
proof -
  have row: "row_ok i row" by (rule conn_okD [OF assms(1,2)])
  show "wf_keys (spread (rowToConn row) (kvs @ [(''updatedAt'', u)])) \<or> \<not> wf_keys u"
    using wf_keys_spread [OF wf_rowToConn [OF row], of "kvs @ [(''updatedAt'', u)]"] assms(3)
    by (auto simp: patch_ok_def list_all_iff)
  have "om_get (rev kvs) ''id'' = None" using assms(3) by (simp add: patch_ok_def om_get_None_iff)
  then show "get (spread (rowToConn row) (kvs @ [(''updatedAt'', u)])) ''id'' = Str i"
    using id_rowToConn [OF row] by (simp add: get_spread)
qed

lemma patch_frame:
  assumes "conn_ok (aw_conns w)" and "om_get (aw_conns w) i = Some row" and "patch_ok kvs"
  shows "conn_ok (aw_conns (patch_account env i kvs w))"
    and "j \<noteq> i \<Longrightarrow> om_get (aw_conns (patch_account env i kvs w)) j = om_get (aw_conns w) j"
    and "aw_gate (patch_account env i kvs w) = aw_gate w"
proof -
  have p: "get (Obj kvs) ''priority'' = Undef" using assms(3) by (simp add: patch_ok_def)
  let ?c = "spread (rowToConn row) (kvs @ [(''updatedAt'', Str (to_iso (me_now env)))])"
  have w: "wf_keys ?c" using patch_object(1) [OF assms, of "Str (to_iso (me_now env))"] by simp
  note i = patch_object(2) [OF assms, of "Str (to_iso (me_now env))"]
  show "conn_ok (aw_conns (patch_account env i kvs w))"
    using upsert_ok [OF assms(1) w i row_id_nonempty [OF conn_okD [OF assms(1,2)]]] by (simp add: patch_account_eq [OF assms(2) p])
  show "j \<noteq> i \<Longrightarrow> om_get (aw_conns (patch_account env i kvs w)) j = om_get (aw_conns w) j"
    by (simp add: patch_account_eq [OF assms(2) p] om_get_upsert [OF i])
  show "aw_gate (patch_account env i kvs w) = aw_gate w" by (simp add: patch_account_eq [OF assms(2) p])
qed

text \<open>A field after a patch: the last value the patch gives it, or what it was.\<close>

lemma patch_field:
  assumes "conn_ok (aw_conns w)" and "om_get (aw_conns w) i = Some row" and "patch_ok kvs"
    and f: "f \<notin> set ROW_COLUMNS" "f \<noteq> ''credentialRevisionId''"
  shows "get (getProviderConnectionById i (aw_conns (patch_account env i kvs w))) f = (case om_get (rev kvs) f of
     Some v \<Rightarrow> if v = Undef then Undef else json_clean v | None \<Rightarrow> get (rowToConn row) f)"
proof -
  have p: "get (Obj kvs) ''priority'' = Undef" using assms(3) by (simp add: patch_ok_def)
  let ?c = "spread (rowToConn row) (kvs @ [(''updatedAt'', Str (to_iso (me_now env)))])"
  let ?r = "revised (me_sha env) (me_uuid env) (Some (rowToConn row)) ?c"
  have row: "row_ok i row" by (rule conn_okD [OF assms(1,2)])
  have w: "wf_keys ?c" using patch_object(1) [OF assms(1-3), of "Str (to_iso (me_now env))"] by simp
  note i = patch_object(2) [OF assms(1-3), of "Str (to_iso (me_now env))"]
  have "wf_keys ?r" by (rule revised_wf [OF w]) (use wf_rowToConn [OF row] in simp)
  then have d: "distinct (om_keys (obj_entries ?r))" by (cases ?r) auto
  have u: "f \<noteq> ''updatedAt''" using f(1) by (auto simp: ROW_COLUMNS_def)
  have v: "get ?r f = (case om_get (rev kvs) f of Some v \<Rightarrow> v | None \<Rightarrow> get (rowToConn row) f)"
    using f(2) u by (simp add: get_revised get_spread)
  have old: "get (rowToConn row) f = Undef \<or> json_clean (get (rowToConn row) f) = get (rowToConn row) f"
    using row f(1) json_clean_id wf_json_get [of "row_data row" f]
    by (auto simp: row_ok_def get_rowToConn ROW_COLUMNS_def)
  have "getProviderConnectionById i (aw_conns (patch_account env i kvs w)) = rowToConn (connToRow ?r\<lparr> row_createdAt := row_createdAt row \<rparr>)"
    by (simp add: patch_account_eq [OF assms(2) p] getProviderConnectionById_def om_get_upsert [OF i] assms(2) Let_def)
  moreover have "get (rowToConn (connToRow ?r\<lparr> row_createdAt := row_createdAt row \<rparr>)) f = get (rowToConn (connToRow ?r)) f"
    using f(1) by (simp add: get_rowToConn ROW_COLUMNS_def)
  moreover have "get (rowToConn (connToRow ?r)) f = (if get ?r f = Undef then Undef else json_clean (get ?r f))"
    using f(1) unfolding stored_read [OF d] by (auto simp: ROW_COLUMNS_def)
  ultimately show ?thesis unfolding v using old by (auto split: option.split)
qed

text \<open>A patch of any account touches no other one.\<close>

lemma patch_others:
  assumes "conn_ok (aw_conns w)" and "patch_ok kvs"
  shows "conn_ok (aw_conns (patch_account env i kvs w)) \<and> (\<forall>j. j \<noteq> i \<longrightarrow> om_get (aw_conns (patch_account env i kvs w)) j = om_get (aw_conns w) j)"
proof (cases "om_get (aw_conns w) i")
  case None
  then have "aw_conns (patch_account env i kvs w) = aw_conns w" by (simp add: patch_account_def updateProviderConnection_def)
  then show ?thesis using assms(1) by simp
next
  case (Some row)
  then show ?thesis using patch_frame [OF assms(1) Some assms(2)] by blast
qed

section \<open>Locks\<close>

definition lock_target :: "mark_env \<Rightarrow> jv \<Rightarrow> jv \<Rightarrow> jv \<Rightarrow> jv \<Rightarrow> jv" where
  "lock_target env status err provider model =
     (case githubMonthlyResetMs (me_now env) status err provider of Some t \<Rightarrow> if t = 0 then model else Null | None \<Rightarrow> model)"

lemma lock_key_shape: "\<exists>s. getModelLockKey m = ''modelLock_'' @ s" "\<exists>s. getModelFailureKey m = ''modelFailure_'' @ s"
  by (simp_all add: getModelLockKey_def getModelFailureKey_def MODEL_LOCK_PREFIX_def MODEL_FAILURE_PREFIX_def MODEL_LOCK_ALL_def)

lemma lock_key_fresh:
  "getModelLockKey m \<notin> set ROW_COLUMNS \<and> getModelLockKey m \<noteq> ''credentialRevisionId''"
  "getModelLockKey m \<notin> {''testStatus'', ''lastError'', ''errorCode'', ''lastErrorAt'', ''backoffLevel'', ''updatedAt''}"
  "getModelFailureKey m \<noteq> ''id''" "getModelFailureKey m \<noteq> ''priority''" "getModelLockKey m \<noteq> ''id''" "getModelLockKey m \<noteq> ''priority''"
proof -
  obtain s u where k: "getModelLockKey m = ''modelLock_'' @ s" "getModelFailureKey m = ''modelFailure_'' @ u" using lock_key_shape by blast
  show "getModelLockKey m \<notin> set ROW_COLUMNS \<and> getModelLockKey m \<noteq> ''credentialRevisionId''"
    "getModelLockKey m \<notin> {''testStatus'', ''lastError'', ''errorCode'', ''lastErrorAt'', ''backoffLevel'', ''updatedAt''}"
    "getModelFailureKey m \<noteq> ''id''" "getModelFailureKey m \<noteq> ''priority''" "getModelLockKey m \<noteq> ''id''" "getModelLockKey m \<noteq> ''priority''"
    unfolding k by (simp_all add: ROW_COLUMNS_def)
qed

lemma wf_coalesce: "wf_keys v \<Longrightarrow> wf_keys (coalesce v Null)"
  by (simp add: coalesce_def)

lemma lock_fields_ok:
  assumes "wf_keys status" and "wf_keys metadata" and "wf_keys resets"
  shows "patch_ok (lock_fields env status err lockClass m metadata until resets level)"
proof -
  have "wf_keys (coalesce (get metadata ''clientErrorStatus'') Null)" by (rule wf_coalesce [OF wf_keys_get [OF assms(2)]])
  then show ?thesis using assms lock_key_fresh(3-6) [of m]
    by (simp add: patch_ok_def lock_fields_def Let_def buildModelLockUpdateAt_def buildModelFailureUpdate_def spread_def default_null_def)
qed

lemma lock_fields_get:
  "om_get (rev (lock_fields env status err lockClass m metadata until resets level)) (getModelLockKey m') =
    (if getModelLockKey m' = getModelLockKey m then Some (Str until) else None)"
proof -
  obtain s u v where k: "getModelLockKey m' = ''modelLock_'' @ s" "getModelFailureKey m = ''modelFailure_'' @ u" "getModelLockKey m = ''modelLock_'' @ v"
    using lock_key_shape by metis
  define K L where "K = getModelLockKey m'" and "L = getModelLockKey m"
  have ne: "getModelFailureKey m \<noteq> K" "''testStatus'' \<noteq> K" "''lastError'' \<noteq> K" "''errorCode'' \<noteq> K" "''lastErrorAt'' \<noteq> K" "''backoffLevel'' \<noteq> K"
    and ne': "getModelFailureKey m \<noteq> L" "''testStatus'' \<noteq> L" "''lastError'' \<noteq> L" "''errorCode'' \<noteq> L" "''lastErrorAt'' \<noteq> L" "''backoffLevel'' \<noteq> L"
    by (simp_all add: K_def L_def k)
  show ?thesis unfolding K_def [symmetric] L_def [symmetric]
    by (simp add: ne ne' lock_fields_def Let_def buildModelLockUpdateAt_def buildModelFailureUpdate_def L_def [symmetric] del: om_get.simps)
      (auto simp: ne ne')
qed

text \<open>A call that locks: the lock it writes and how long it lasts.\<close>

lemma mark_lock_cases:
  assumes "markAccountUnavailable env i status err provider model resetsAtMs metadata w = (w', Inr r)"
    and "mr_shouldFallback r" and "mr_cooldownMs r = Fin c" and "0 < c"
  obtains w1 cls level until resets where "aw_conns w1 = aw_conns w" "wf_keys resets"
    "w' = patch_account env i (lock_fields env status err cls (lock_target env status err provider model) metadata (to_iso until) resets level) w1"
    "\<bar>until\<bar> \<le> max_time" "\<And>t. of_int t + 1 \<le> of_int (me_now env) + c \<Longrightarrow> t < until"
proof -
  define w1 where "w1 = (if to_number status = Fin 429 \<and> \<not> seq (get metadata ''failurePhase'') (Str ''admission'')
    then w\<lparr> aw_gate := throttle_gate env provider (aw_gate w) \<rparr> else w)"
  have w1: "aw_conns w1 = aw_conns w" by (simp add: w1_def)
  obtain cls level d where ml: "mark_lock env i status err provider model resetsAtMs metadata cls level d w1 = (w', Inr r)"
    using assms by (auto simp: markAccountUnavailable_def Let_def w1_def [symmetric] stays_def moves_on_def split: if_splits)
  let ?gh = "githubMonthlyResetMs (me_now env) status err provider"
  define gh where "gh = (case ?gh of Some t \<Rightarrow> if t = 0 then None else Some t | None \<Rightarrow> None)"
  obtain cooldown newLevel where cd: "lock_cooldown env gh cls status provider model resetsAtMs d = (cooldown, newLevel)" by fastforce
  have target: "(if gh \<noteq> None then Null else model) = lock_target env status err provider model"
    by (simp add: gh_def lock_target_def split: option.split)
  define until where "until = (case gh of Some t \<Rightarrow> printed (JInt t) | None \<Rightarrow> printed (Num (num_add (Fin (of_int (me_now env))) cooldown)))"
  define resets where "resets = (if truthy resetsAtMs then map_option Str (printed resetsAtMs) else Some Null)"
  have ml': "(case (until, resets) of (Some u, Some x) \<Rightarrow>
      (patch_account env i (lock_fields env status err cls (lock_target env status err provider model) metadata u x
         (case newLevel of Some n \<Rightarrow> n | None \<Rightarrow> level)) w1, Inr (moves_on cooldown cls))
    | _ \<Rightarrow> (w1, Inl RangeError)) = (w', Inr r)"
    using ml unfolding mark_lock_def Let_def gh_def [symmetric] cd prod.case target until_def resets_def by simp
  then obtain u x where ux: "until = Some u" "resets = Some x"
    and w': "w' = patch_account env i (lock_fields env status err cls (lock_target env status err provider model) metadata u x
         (case newLevel of Some n \<Rightarrow> n | None \<Rightarrow> level)) w1" and r: "r = moves_on cooldown cls"
    by (auto split: option.splits)
  have c: "cooldown = Fin c" using r assms(3) by (simp add: moves_on_def)
  have x: "wf_keys x" using ux(2) by (auto simp: resets_def split: if_splits)
  obtain e where e: "u = to_iso e" "\<bar>e\<bar> \<le> max_time" and late: "\<And>t. of_int t + 1 \<le> of_int (me_now env) + c \<Longrightarrow> t < e"
  proof (cases gh)
    case None
    then have "num_to_time (Fin (of_int (me_now env) + c)) = Some e \<and> u = to_iso e" if "date_of (Num (Fin (of_int (me_now env) + c))) = Some e" for e
      using ux(1) that by (auto simp: until_def c printed_def)
    moreover obtain e where d: "date_of (Num (Fin (of_int (me_now env) + c))) = Some e"
      using ux(1) None by (auto simp: until_def c printed_def)
    ultimately have n: "num_to_time (Fin (of_int (me_now env) + c)) = Some e" "u = to_iso e" by auto
    have "\<lfloor>of_int (me_now env) + c\<rfloor> \<le> e" "\<bar>e\<bar> \<le> max_time"
      using n(1) by (auto simp: num_to_time_def time_clip_def split: if_splits) (linarith)?
    moreover have "t < e" if "of_int t + 1 \<le> of_int (me_now env) + c" for t
    proof -
      have "of_int (t + 1) \<le> of_int (me_now env) + c" using that by simp
      then have "t + 1 \<le> \<lfloor>of_int (me_now env) + c\<rfloor>" by (simp only: le_floor_iff)
      then show ?thesis using \<open>\<lfloor>of_int (me_now env) + c\<rfloor> \<le> e\<close> by linarith
    qed
    ultimately show ?thesis using that n(2) by blast
  next
    case (Some g)
    then have "g \<noteq> 0" by (auto simp: gh_def split: option.splits if_splits)
    then have cg: "c = of_int g - of_int (me_now env)" using cd c Some by (simp add: lock_cooldown_def Let_def num_sub_def)
    have g: "u = to_iso g \<and> \<bar>g\<bar> \<le> max_time"
      using ux(1) Some by (auto simp: until_def printed_def num_to_time_def time_clip_def split: if_splits)
    moreover have "t < g" if "of_int t + 1 \<le> of_int (me_now env) + c" for t
    proof -
      have "of_int (t + 1) \<le> (of_int g :: rat)" using that cg by simp
      then have "t + 1 \<le> g" by (simp only: of_int_le_iff)
      then show ?thesis by simp
    qed
    ultimately show ?thesis using that by blast
  qed
  show ?thesis by (rule that [OF w1 x w' [unfolded e(1)] e(2) late])
qed

lemma lock_effect:
  assumes "conn_ok (aw_conns w)" and "om_get (aw_conns w) i = Some row" and "wf_keys status" "wf_keys metadata"
    and "markAccountUnavailable env i status err provider model resetsAtMs metadata w = (w', Inr r)"
    and "mr_shouldFallback r" and "mr_cooldownMs r = Fin c" and "0 < c"
  shows "of_int t + 1 \<le> of_int (me_now env) + c \<Longrightarrow> isModelLockActive t (getProviderConnectionById i (aw_conns w')) model"
    and "j \<noteq> i \<Longrightarrow> om_get (aw_conns w') j = om_get (aw_conns w) j"
    and "getModelLockKey m \<noteq> getModelLockKey model \<Longrightarrow> getModelLockKey m \<noteq> MODEL_LOCK_ALL \<Longrightarrow>
      get (getProviderConnectionById i (aw_conns w')) (getModelLockKey m) = get (getProviderConnectionById i (aw_conns w)) (getModelLockKey m)"
    and "conn_ok (aw_conns w')"
proof -
  obtain w1 cls level until resets where w1: "aw_conns w1 = aw_conns w" and x: "wf_keys resets"
    and w': "w' = patch_account env i (lock_fields env status err cls (lock_target env status err provider model) metadata (to_iso until) resets level) w1"
    and max: "\<bar>until\<bar> \<le> max_time" and late: "\<And>t. of_int t + 1 \<le> of_int (me_now env) + c \<Longrightarrow> t < until"
    using mark_lock_cases [OF assms(5-8)] by metis
  define target where "target = lock_target env status err provider model"
  define kvs where "kvs = lock_fields env status err cls target metadata (to_iso until) resets level"
  have k: "conn_ok (aw_conns w1)" "om_get (aw_conns w1) i = Some row" "patch_ok kvs"
    using assms(1,2) w1 lock_fields_ok [OF assms(3,4) x] by (simp_all add: kvs_def)
  have w': "w' = patch_account env i kvs w1" using w' by (simp add: kvs_def target_def)
  have field: "get (getProviderConnectionById i (aw_conns w')) (getModelLockKey m) = (if getModelLockKey m = getModelLockKey target
     then Str (to_iso until) else get (rowToConn row) (getModelLockKey m))" for m
    using patch_field [OF k lock_key_fresh(1) [THEN conjunct1] lock_key_fresh(1) [THEN conjunct2], of env m]
    by (simp add: w' lock_fields_get kvs_def)
  have t: "getModelLockKey target = getModelLockKey model \<or> getModelLockKey target = MODEL_LOCK_ALL"
    by (auto simp: target_def lock_target_def split: option.split)
  show "of_int t + 1 \<le> of_int (me_now env) + c \<Longrightarrow> isModelLockActive t (getProviderConnectionById i (aw_conns w')) model"
    using t field [of model] field [of Null] max late [of t] by (auto simp: isModelLockActive_def)
  show "j \<noteq> i \<Longrightarrow> om_get (aw_conns w') j = om_get (aw_conns w) j" using patch_frame(2) [OF k] w1 by (simp add: w')
  show "conn_ok (aw_conns w')" using patch_frame(1) [OF k] by (simp add: w')
  show "getModelLockKey m \<noteq> getModelLockKey model \<Longrightarrow> getModelLockKey m \<noteq> MODEL_LOCK_ALL \<Longrightarrow>
      get (getProviderConnectionById i (aw_conns w')) (getModelLockKey m) = get (getProviderConnectionById i (aw_conns w)) (getModelLockKey m)"
    using t field [of m] assms(2) by (auto simp: getProviderConnectionById_def)
qed


text \<open>Whatever a mark does, it does to its own account.\<close>

lemma mark_patches_ok:
  assumes "wf_keys code" and "wf_keys metadata"
  shows "patch_ok [(''isActive'', Bool False), (''testStatus'', Str ''reauth_required''), (''lastError'', Str e), (''errorCode'', Num n),
       (''lastErrorAt'', Str t), (''backoffLevel'', JInt 0)]"
    and "patch_ok [(''isActive'', Bool False), (''testStatus'', Str ''unavailable''), (''lastError'', Str e), (''errorCode'', JInt 403),
       (''lastErrorAt'', Str t), (''backoffLevel'', JInt 0)]"
    and "patch_ok (buildModelLockUpdateAt model (Str u) @ buildModelFailureUpdate model (Obj [(''status'', code), (''message'', Str e), (''until'', Str u),
       (''resetsAt'', Null), (''clientErrorStatus'', coalesce (get metadata ''clientErrorStatus'') Null), (''unknownModelVerified'', Bool True)])
        @ [(''lastError'', Str e), (''errorCode'', code), (''lastErrorAt'', Str t)])"
proof -
  have "wf_keys (coalesce (get metadata ''clientErrorStatus'') Null)" by (rule wf_coalesce [OF wf_keys_get [OF assms(2)]])
  then show "patch_ok (buildModelLockUpdateAt model (Str u) @ buildModelFailureUpdate model (Obj [(''status'', code), (''message'', Str e), (''until'', Str u),
       (''resetsAt'', Null), (''clientErrorStatus'', coalesce (get metadata ''clientErrorStatus'') Null), (''unknownModelVerified'', Bool True)])
        @ [(''lastError'', Str e), (''errorCode'', code), (''lastErrorAt'', Str t)])"
    using assms lock_key_fresh(3-6) [of model]
    by (simp add: patch_ok_def buildModelLockUpdateAt_def buildModelFailureUpdate_def default_null_def)
qed (simp_all add: patch_ok_def)

lemma mark_others:
  assumes "conn_ok (aw_conns w)" and "wf_keys code" "wf_keys metadata"
  shows "conn_ok (aw_conns (fst (markAccountUnavailable env i code err provider model resetsAtMs metadata w)))
    \<and> (\<forall>j. j \<noteq> i \<longrightarrow> om_get (aw_conns (fst (markAccountUnavailable env i code err provider model resetsAtMs metadata w))) j = om_get (aw_conns w) j)"
proof -
  define good where "good w' \<longleftrightarrow> conn_ok (aw_conns w') \<and> (\<forall>j. j \<noteq> i \<longrightarrow> om_get (aw_conns w') j = om_get (aw_conns w) j)" for w' :: auth_world
  define w1 where "w1 = (if to_number code = Fin 429 \<and> \<not> seq (get metadata ''failurePhase'') (Str ''admission'')
    then w\<lparr> aw_gate := throttle_gate env provider (aw_gate w) \<rparr> else w)"
  have w1: "aw_conns w1 = aw_conns w" by (simp add: w1_def)
  have same: "good w" "good w1" using assms(1) w1 by (simp_all add: good_def)
  have patch: "good (patch_account env i kvs w1)" if "patch_ok kvs" for kvs
    using patch_others [of w1 kvs env i] that assms(1) w1 by (simp add: good_def)
  note ok = mark_patches_ok [OF assms(2,3)]
  have resets: "wf_keys x" if "(if truthy resetsAtMs then map_option Str (printed resetsAtMs) else Some Null) = Some x" for x
    using that by (auto split: if_splits)
  have lock: "good (fst (mark_lock env i code err provider model resetsAtMs metadata c l d w1))" for c l d
    unfolding mark_lock_def Let_def case_prod_beta
    by (auto simp: same intro!: patch lock_fields_ok [OF assms(2,3)] resets split: option.splits)
  have marks: "good (mark_credential env i code err w1)" "good (mark_qoder env i err w1)" "good (mark_unknown_model env i code err model metadata w1)"
    unfolding mark_credential_def mark_qoder_def mark_unknown_model_def Let_def by (rule patch [OF ok(1)], rule patch [OF ok(2)], rule patch [OF ok(3)])
  have "good (fst (markAccountUnavailable env i code err provider model resetsAtMs metadata w))"
    unfolding markAccountUnavailable_def w1_def [symmetric] Let_def
    by (simp add: same lock marks)
  then show ?thesis by (simp add: good_def)
qed

definition traceless :: "auth_world \<Rightarrow> auth_world \<times> (mark_error + mark_result) \<Rightarrow> bool" where
  "traceless w out = (case out of
     (w', Inl _) \<Rightarrow> aw_conns w' = aw_conns w
   | (w', Inr r) \<Rightarrow> (mr_shouldFallback r \<or> aw_conns w' = aw_conns w) \<and> \<not> truthy (mr_retrySameAccount r) \<and> \<not> truthy (mr_mustWait r))"

lemma traceless_simps [simp]:
  "traceless w (w', Inl e) \<longleftrightarrow> aw_conns w' = aw_conns w"
  "traceless w (w', Inr stays) \<longleftrightarrow> aw_conns w' = aw_conns w"
  "traceless w (w', Inr (moves_on c l))"
  by (simp_all add: traceless_def stays_def moves_on_def)

lemma mark_lock_traceless:
  "aw_conns w1 = aw_conns w \<Longrightarrow> traceless w (mark_lock env i status err provider model resetsAtMs metadata cls level d w1)"
  by (simp add: mark_lock_def Let_def case_prod_beta split: option.split)

lemma mark_traceless: "traceless w (markAccountUnavailable env i status err provider model resetsAtMs metadata w)"
  by (simp add: markAccountUnavailable_def Let_def mark_lock_traceless del: split_paired_All)

text \<open>An error that is the request's own leaves the account table as it was, whatever it says of the gate, and
  no result of marking asks to retry the same account or to wait: the callers' branches for the two never run.\<close>

theorem request_error_leaves_no_trace:
  "case markAccountUnavailable env i status err provider model resetsAtMs metadata w of
     (w', Inl _) \<Rightarrow> aw_conns w' = aw_conns w
   | (w', Inr r) \<Rightarrow> (mr_shouldFallback r \<or> aw_conns w' = aw_conns w) \<and> \<not> truthy (mr_retrySameAccount r) \<and> \<not> truthy (mr_mustWait r)"
  using mark_traceless [of w env i status err provider model resetsAtMs metadata] by (simp add: traceless_def)

section \<open>After a success\<close>

text \<open>Whether the account holds a running lock besides the ones that a success of the model lifts.\<close>

definition still_locked :: "int \<Rightarrow> jv \<Rightarrow> jv \<Rightarrow> bool" where
  "still_locked now conn model = list_ex (\<lambda>k. k \<noteq> getModelLockKey model \<and> k \<noteq> MODEL_LOCK_ALL
     \<and> truthy (get conn k) \<and> isActiveLockUntil now (get conn k)) (lock_keys conn)"

lemma remaining_iff: "truthy model \<Longrightarrow> (remainingActiveLocks now conn (keysToClear now conn model) = []) = (\<not> still_locked now conn model)"
  by (force simp: remainingActiveLocks_def keysToClear_def still_locked_def isActiveLockUntil_def filter_empty_conv list_ex_iff split: option.splits)

lemma rev_nulls: "om_get (rev (map (\<lambda>k. (k, Null)) ks)) k = (if k \<in> set ks then Some Null else None)"
  by (induction ks rule: rev_induct) auto

lemma cleared_keys_shape:
  "k \<in> set (keysToClear now conn model) \<Longrightarrow> \<exists>s. k = ''modelLock_'' @ s"
  "k \<in> set (failureKeysToClear conn model keys) \<Longrightarrow> \<exists>s. k = ''modelFailure_'' @ s"
  by (auto simp: keysToClear_def lock_keys_def failureKeysToClear_def starts_with_iff getModelFailureKey_def MODEL_FAILURE_PREFIX_def)

lemma cleared_ok: "patch_ok (cleared_fields now conn model)"
proof -
  have "''id'' \<notin> set (keysToClear now conn model)" "''priority'' \<notin> set (keysToClear now conn model)"
    "''id'' \<notin> set (failureKeysToClear conn model keys)" "''priority'' \<notin> set (failureKeysToClear conn model keys)" for keys
    using cleared_keys_shape by fastforce+
  then show ?thesis by (auto simp: patch_ok_def cleared_fields_def Let_def om_get_None_iff list_all_iff)
qed

lemma cleared_get:
  "om_get (rev (cleared_fields now conn model)) (''modelLock_'' @ s) = (if ''modelLock_'' @ s \<in> set (keysToClear now conn model) then Some Null else None)"
  "remainingActiveLocks now conn (keysToClear now conn model) = [] \<Longrightarrow> om_get (rev (cleared_fields now conn model)) ''testStatus'' = Some (Str ''active'')"
  "remainingActiveLocks now conn (keysToClear now conn model) = [] \<Longrightarrow> om_get (rev (cleared_fields now conn model)) ''lastError'' = Some Null"
proof -
  have "''modelLock_'' @ s \<notin> set (failureKeysToClear conn model keys)" for keys using cleared_keys_shape(2) by fastforce
  then show "om_get (rev (cleared_fields now conn model)) (''modelLock_'' @ s) = (if ''modelLock_'' @ s \<in> set (keysToClear now conn model) then Some Null else None)"
    by (simp add: cleared_fields_def Let_def om_get_append rev_nulls)
qed (simp_all add: cleared_fields_def Let_def)

lemma lock_key_kept: "get conn (getModelLockKey m) \<noteq> Undef \<Longrightarrow> getModelLockKey m \<in> set (lock_keys conn)"
  using lock_key_shape(1) [of m] by (cases conn) (auto simp: lock_keys_def starts_with_iff dest!: om_get_Some_set split: option.splits intro: image_eqI [of _ fst "(_, _)"])

lemma clear_others:
  assumes "conn_ok (aw_conns w)"
  shows "conn_ok (aw_conns (clearAccountError env i conn model w)) \<and> (\<forall>j. j \<noteq> i \<longrightarrow> om_get (aw_conns (clearAccountError env i conn model w)) j = om_get (aw_conns w) j)"
  using patch_others [OF assms cleared_ok] assms by (simp add: clearAccountError_def Let_def)

lemma success_effect:
  assumes "conn_ok (aw_conns w)" and "om_get (aw_conns w) i = Some row" and "i \<noteq> ''noauth''" and "truthy model"
    and "\<not> truthy (get (rowToConn row) ''_connection'')" and "me_now env \<le> t" and "0 \<le> t"
  defines "conn' \<equiv> getProviderConnectionById i (aw_conns (clearAccountError env i (rowToConn row) model w))"
  shows "\<not> isActiveLockUntil t (get conn' (getModelLockKey model)) \<and> \<not> isActiveLockUntil t (get conn' MODEL_LOCK_ALL)"
    and "isActiveLockUntil (me_now env) (get (rowToConn row) k) \<Longrightarrow> k = ''modelLock_'' @ s \<Longrightarrow> k \<noteq> getModelLockKey model \<Longrightarrow> k \<noteq> MODEL_LOCK_ALL
      \<Longrightarrow> get conn' k = get (rowToConn row) k"
    and "\<not> still_locked (me_now env) (rowToConn row) model \<Longrightarrow> get conn' ''testStatus'' \<noteq> Str ''unavailable'' \<and> \<not> truthy (get conn' ''lastError'')"
proof -
  define conn where "conn = rowToConn row"
  have i: "i \<noteq> []" by (rule row_id_nonempty [OF conn_okD [OF assms(1,2)]])
  have self: "js_or (get conn ''_connection'') conn = conn" using assms(5) by (simp add: js_or_def conn_def)
  let ?w' = "clearAccountError env i conn model w"
  let ?keys = "keysToClear (me_now env) conn model"
  have conn': "conn' = getProviderConnectionById i (aw_conns ?w')" by (simp add: conn'_def conn_def)
  have old: "getProviderConnectionById i (aw_conns w) = conn" using assms(2) by (simp add: getProviderConnectionById_def conn_def)
  have key: "\<exists>s. getModelLockKey m = ''modelLock_'' @ s" for m by (rule lock_key_shape)
  have all: "MODEL_LOCK_ALL = getModelLockKey Null" by simp
  consider (none) "?w' = w" "lock_keys conn = []" "\<not> truthy (get conn ''testStatus'')" "\<not> truthy (get conn ''lastError'')"
    | (idle) "?w' = w" "?keys = []" "get conn ''testStatus'' \<noteq> Str ''unavailable''" "\<not> truthy (get conn ''lastError'')"
    | (patch) "?w' = patch_account env i (cleared_fields (me_now env) conn model) w"
  proof -
    have "?w' = (if \<not> truthy (get conn ''testStatus'') \<and> \<not> truthy (get conn ''lastError'') \<and> lock_keys conn = [] \<and> failure_keys conn = [] then w
      else if ?keys = [] \<and> failureKeysToClear conn model ?keys = [] \<and> \<not> seq (get conn ''testStatus'') (Str ''unavailable'')
        \<and> \<not> truthy (get conn ''lastError'') then w else patch_account env i (cleared_fields (me_now env) conn model) w)"
      using i assms(3) by (simp add: clearAccountError_def self Let_def)
    moreover have "get conn ''testStatus'' \<noteq> Str ''unavailable''" if "\<not> seq (get conn ''testStatus'') (Str ''unavailable'')" using that by auto
    ultimately show ?thesis using that by metis
  qed
  then have "(\<not> isActiveLockUntil t (get conn' (getModelLockKey model)) \<and> \<not> isActiveLockUntil t (get conn' MODEL_LOCK_ALL)) \<and>
    (isActiveLockUntil (me_now env) (get conn k) \<longrightarrow> k = ''modelLock_'' @ s \<longrightarrow> k \<noteq> getModelLockKey model \<longrightarrow> k \<noteq> MODEL_LOCK_ALL \<longrightarrow> get conn' k = get conn k) \<and>
    (\<not> still_locked (me_now env) conn model \<longrightarrow> get conn' ''testStatus'' \<noteq> Str ''unavailable'' \<and> \<not> truthy (get conn' ''lastError''))" for k s
  proof cases
    case none
    have "get conn (getModelLockKey m) = Undef" for m using lock_key_kept [of conn m] none(2) by auto
    from this [of model] this [of Null] show ?thesis using none by (auto simp: conn' old)
  next
    case idle
    have "getModelLockKey m \<notin> set (lock_keys conn)" if "m = model \<or> m = Null" for m
      using idle(2) that assms(4) by (auto simp: keysToClear_def filter_empty_conv)
    then have "get conn (getModelLockKey m) = Undef" if "m = model \<or> m = Null" for m using lock_key_kept that by metis
    from this [of model] this [of Null] show ?thesis using idle by (auto simp: conn' old)
  next
    case patch
    note field = patch_field [OF assms(1,2) cleared_ok, of _ env "me_now env" conn model, folded conn_def, folded patch, folded conn']
    have lock: "get conn' (''modelLock_'' @ u) = (if ''modelLock_'' @ u \<in> set ?keys then Null else get conn (''modelLock_'' @ u))" for u
    proof -
      have "''modelLock_'' @ u \<notin> set ROW_COLUMNS" "''modelLock_'' @ u \<noteq> ''credentialRevisionId''" by (simp_all add: ROW_COLUMNS_def)
      from field [OF this] show ?thesis unfolding cleared_get(1) by (cases "''modelLock_'' @ u \<in> set ?keys") simp_all
    qed
    have "\<not> isActiveLockUntil t (get conn' (getModelLockKey m))" if m: "m = model \<or> m = Null" for m
    proof -
      obtain u where u: "getModelLockKey m = ''modelLock_'' @ u" using key by blast
      have "get conn (getModelLockKey m) = Undef \<or> getModelLockKey m \<in> set ?keys"
        using m assms(4) lock_key_kept [of conn m] by (auto simp: keysToClear_def)
      then show ?thesis using lock [of u] isActiveLockUntil_Null [OF assms(7)] unfolding u by auto
    qed
    from this [of model] this [of Null] have a: "\<not> isActiveLockUntil t (get conn' (getModelLockKey model)) \<and> \<not> isActiveLockUntil t (get conn' MODEL_LOCK_ALL)"
      by simp
    have b: "get conn' k = get conn k" if "isActiveLockUntil (me_now env) (get conn k)" "k = ''modelLock_'' @ s" "k \<noteq> getModelLockKey model" "k \<noteq> MODEL_LOCK_ALL"
      using that lock [of s] by (auto simp: keysToClear_def isActiveLockUntil_def split: option.splits)
    have "get conn' ''testStatus'' = Str ''active'' \<and> get conn' ''lastError'' = Null" if "\<not> still_locked (me_now env) conn model"
      using field [of "''testStatus''"] field [of "''lastError''"] cleared_get(2,3) [of "me_now env" conn model] that remaining_iff [OF assms(4)]
      by (simp add: ROW_COLUMNS_def)
    with a b show ?thesis by auto
  qed
  from this show "\<not> isActiveLockUntil t (get conn' (getModelLockKey model)) \<and> \<not> isActiveLockUntil t (get conn' MODEL_LOCK_ALL)"
    "isActiveLockUntil (me_now env) (get (rowToConn row) k) \<Longrightarrow> k = ''modelLock_'' @ s \<Longrightarrow> k \<noteq> getModelLockKey model \<Longrightarrow> k \<noteq> MODEL_LOCK_ALL
      \<Longrightarrow> get conn' k = get (rowToConn row) k"
    "\<not> still_locked (me_now env) (rowToConn row) model \<Longrightarrow> get conn' ''testStatus'' \<noteq> Str ''unavailable'' \<and> \<not> truthy (get conn' ''lastError'')"
    unfolding conn_def by blast+
qed

text \<open>C17: A success of a model lifts the account's lock for that model and its account-wide lock, keeps every
  other running lock, and when none is left the account is no longer unavailable and carries no error.\<close>

theorem success_restores_the_account:
  assumes "conn_ok (aw_conns w)" and "om_get (aw_conns w) i = Some row" and "i \<noteq> ''noauth''" and "truthy model"
    and "\<not> truthy (get (rowToConn row) ''_connection'')" and "0 \<le> me_now env"
  shows "let conn = rowToConn row; conn' = getProviderConnectionById i (aw_conns (clearAccountError env i conn model w)) in
    (\<forall>t \<ge> me_now env. \<not> isActiveLockUntil t (get conn' (getModelLockKey model)) \<and> \<not> isActiveLockUntil t (get conn' MODEL_LOCK_ALL)) \<and>
    (\<forall>s. isActiveLockUntil (me_now env) (get conn (''modelLock_'' @ s)) \<and> ''modelLock_'' @ s \<notin> {getModelLockKey model, MODEL_LOCK_ALL}
       \<longrightarrow> get conn' (''modelLock_'' @ s) = get conn (''modelLock_'' @ s)) \<and>
    (\<not> still_locked (me_now env) conn model \<longrightarrow> get conn' ''testStatus'' \<noteq> Str ''unavailable'' \<and> \<not> truthy (get conn' ''lastError''))"
proof -
  have "0 \<le> t" if "me_now env \<le> t" for t using that assms(6) by simp
  then show ?thesis unfolding Let_def
    using success_effect(1) [OF assms(1-5)] success_effect(2,3) [OF assms(1-5) order.refl assms(6)] by blast
qed

section \<open>Bounds\<close>

lemma capped_le: "min requested (Fin (of_int (applied_cap env status provider model requested))) \<le> Fin (of_int (retryDelayCapMs provider))"
  "to_number status = Fin 429 \<Longrightarrow> hasQuotaHeadroom (me_collate env) (me_windows env) (of_int (me_now env)) model = Some True
    \<Longrightarrow> requested \<noteq> NaN \<Longrightarrow> min requested (Fin (of_int (applied_cap env status provider model requested))) \<le> Fin (of_int HEADROOM_RETRY_CEILING_MS)"
proof -
  have "min requested (Fin (of_int (applied_cap env status provider model requested))) \<le> Fin (of_int (applied_cap env status provider model requested))"
    by simp
  also have "\<dots> \<le> Fin (of_int (retryDelayCapMs provider))" by (simp add: applied_cap_def less_eq_jsnum_def)
  finally show "min requested (Fin (of_int (applied_cap env status provider model requested))) \<le> Fin (of_int (retryDelayCapMs provider))" .
  assume h: "to_number status = Fin 429" "hasQuotaHeadroom (me_collate env) (me_windows env) (of_int (me_now env)) model = Some True" "requested \<noteq> NaN"
  show "min requested (Fin (of_int (applied_cap env status provider model requested))) \<le> Fin (of_int HEADROOM_RETRY_CEILING_MS)"
  proof (cases "num_lt (Fin (of_int HEADROOM_RETRY_CEILING_MS)) requested")
    case True
    then have "Fin (of_int (applied_cap env status provider model requested)) \<le> Fin (of_int HEADROOM_RETRY_CEILING_MS)"
      using h by (simp add: applied_cap_def less_eq_jsnum_def)
    then show ?thesis by (simp add: min_le_iff_disj)
  next
    case False
    then show ?thesis using h(3) by (simp add: num_lt_def min_le_iff_disj not_less)
  qed
qed

lemma retryDelayCapMs_pos: "0 < retryDelayCapMs provider"
  by (simp add: retryDelayCapMs_def MAX_RATE_LIMIT_COOLDOWN_MS_def FREE_TIER_RATE_LIMIT_COOLDOWN_MS_def Let_def)

text \<open>C39: Outside the quota class an announced reset is never trusted beyond the provider's cap, nor, after a
  rate limit with quota left, beyond a minute.\<close>

theorem announced_reset_is_capped:
  assumes "markAccountUnavailable env i status err provider model resetsAtMs metadata w = (w', Inr r)"
    and "mr_failureClass r \<noteq> Str ''quota''" and "githubMonthlyResetMs (me_now env) status err provider = None" and "later_reset env resetsAtMs"
  shows "mr_cooldownMs r \<le> Fin (of_int (retryDelayCapMs provider)) \<and>
    (to_number status = Fin 429 \<and> hasQuotaHeadroom (me_collate env) (me_windows env) (of_int (me_now env)) model = Some True
      \<longrightarrow> mr_cooldownMs r \<le> Fin (of_int HEADROOM_RETRY_CEILING_MS))"
proof -
  let ?requested = "num_sub (to_number resetsAtMs) (Fin (of_int (me_now env)))"
  have n: "?requested \<noteq> NaN" using assms(4) by (cases "to_number resetsAtMs") (auto simp: later_reset_def num_sub_def)
  have zero: "Fin 0 \<le> Fin (of_int (retryDelayCapMs provider))" "Fin 0 \<le> Fin (of_int HEADROOM_RETRY_CEILING_MS)"
    using retryDelayCapMs_pos [of provider] by (simp_all add: less_eq_jsnum_def HEADROOM_RETRY_CEILING_MS_def)
  have cases: "mr_cooldownMs r = Fin 0 \<or> mr_cooldownMs r = min ?requested (Fin (of_int (applied_cap env status provider model ?requested)))"
    using assms unfolding markAccountUnavailable_def Let_def
    by (auto simp: stays_def moves_on_def mark_lock_def lock_cooldown_def Let_def case_prod_beta split: if_splits option.splits)
  then show ?thesis using zero capped_le(1) capped_le(2) [OF _ _ n] by auto
qed

section \<open>A concrete account\<close>

definition sample_env :: "jv option \<Rightarrow> mark_env" where
  "sample_env windows = \<lparr> me_collate = (\<lambda>_ _. False), me_sha = id, me_uuid = ''u'', me_cfg = DEFAULT_BACKOFF_CONFIG, me_now = 1000, me_windows = windows \<rparr>"

definition sample_world :: "adm \<Rightarrow> auth_world" where
  "sample_world gate = \<lparr> aw_conns = sample_accounts, aw_gate = gate \<rparr>"

definition overload :: "adm \<Rightarrow> auth_world \<times> (mark_error + mark_result)" where
  "overload gate = markAccountUnavailable (sample_env None) ''work'' (JInt 503) (Str ''overloaded'') (Str ''claude'') (Str ''opus'') Null Null (sample_world gate)"

definition cooled :: "jsnum \<Rightarrow> auth_world \<times> (mark_error + mark_result) \<Rightarrow> bool" where
  "cooled c out = (case snd out of Inl _ \<Rightarrow> False | Inr r \<Rightarrow> mr_shouldFallback r \<and> mr_cooldownMs r = c)"

lemma claude_facts: "resolveProviderId (Str ''claude'') = Str ''claude''" "retryDelayCapMs (Str ''claude'') = 21600000"
  by code_simp+

lemma overloaded_facts: "get metadata ''unknownModelVerified'' = Undef \<Longrightarrow> classifyAccountFailure (Num (Fin 503)) (Str ''overloaded'') metadata = ''transient''"
  "checkFallbackError DEFAULT_BACKOFF_CONFIG (JInt 503) (Str ''overloaded'') 0 = \<lparr> shouldFallback = True, cooldownMs = 2000, newBackoffLevel = Some 1 \<rparr>"
  "stored_level (mark_connection ''work'' (Str ''claude'') \<lparr> aw_conns = sample_accounts, aw_gate = gate \<rparr>) = 0"
  by (simp add: classifyAccountFailure_def, code_simp+)

lemma claude_overloaded:
  "get metadata ''unknownModelVerified'' = Undef \<Longrightarrow>
    markAccountUnavailable (sample_env None) ''work'' (JInt 503) (Str ''overloaded'') (Str ''claude'') (Str ''opus'') resets metadata (sample_world gate) =
    mark_lock (sample_env None) ''work'' (JInt 503) (Str ''overloaded'') (Str ''claude'') (Str ''opus'') resets metadata ''transient'' 0
      \<lparr> shouldFallback = True, cooldownMs = 2000, newBackoffLevel = Some 1 \<rparr> (sample_world gate)"
  "githubMonthlyResetMs now (JInt 503) (Str ''overloaded'') (Str ''claude'') = None"
  by (simp_all add: markAccountUnavailable_def isPermanentOAuthFailure_def isQoderQuotaExhausted_def claude_facts overloaded_facts overloaded_facts(2) [simplified] githubMonthlyResetMs_def
      sample_env_def sample_world_def Let_def)

lemma overloaded_marked: "get metadata ''unknownModelVerified'' = Undef \<Longrightarrow>
    cooled (Fin 2000) (markAccountUnavailable (sample_env None) ''work'' (JInt 503) (Str ''overloaded'') (Str ''claude'') (Str ''opus'') Null metadata (sample_world gate))"
  unfolding claude_overloaded(1)
  by (simp add: cooled_def mark_lock_def claude_overloaded(2) [simplified] lock_cooldown_def later_reset_def claude_facts printed_def sample_env_def Let_def
      moves_on_def num_to_time_def time_clip_def)

lemma overload_outcome: "cooled (Fin 2000) (overload gate)"
  unfolding overload_def by (rule overloaded_marked) simp

lemma failure_world_ok: "conn_ok (aw_conns (sample_world gate))"
  "om_get (aw_conns (sample_world gate)) ''work'' = Some (sample_row ''work'' 7 ''acc-1'' ''p1'')"
  using sample_accounts_ok by (simp_all add: sample_world_def) (simp add: sample_accounts_def)

definition failure_gate :: adm where
  "failure_gate = projr (createResourceAdmission Undef)"


definition locked_row :: conn_row where
  "locked_row = connToRow (Obj [(''id'', Str ''work''), (''provider'', Str ''claude''), (''authType'', Str ''oauth''), (''testStatus'', Str ''unavailable''),
     (''lastError'', Str ''429''), (''modelLock_opus'', Str (to_iso 5000))])"

definition locked_world :: "adm \<Rightarrow> auth_world" where
  "locked_world gate = \<lparr> aw_conns = [(''work'', locked_row)], aw_gate = gate \<rparr>"

lemma locked_world_ok: "conn_ok (aw_conns (locked_world gate))"
  unfolding locked_world_def conn_ok_def locked_row_def by (auto intro: connToRow_ok)

lemma locked_row_facts: "\<not> truthy (get (rowToConn locked_row) ''_connection'')" "\<not> still_locked 1000 (rowToConn locked_row) (Str ''opus'')"
  "isActiveLockUntil 1000 (get (rowToConn locked_row) ''modelLock_opus'')"
  by code_simp+

theorem success_restores_the_account_witness:
  "let conn' = getProviderConnectionById ''work'' (aw_conns (clearAccountError (sample_env None) ''work'' (rowToConn locked_row) (Str ''opus'') (locked_world failure_gate))) in
   \<not> isActiveLockUntil 1000 (get conn' (getModelLockKey (Str ''opus''))) \<and> get conn' ''testStatus'' \<noteq> Str ''unavailable''"
proof -
  have row: "om_get (aw_conns (locked_world failure_gate)) ''work'' = Some locked_row" by (simp add: locked_world_def)
  have t: "me_now (sample_env None) = 1000" by (simp add: sample_env_def)
  note restored = success_restores_the_account [OF locked_world_ok row _ _ locked_row_facts(1), of "Str ''opus''" "sample_env None", unfolded t Let_def]
  show ?thesis unfolding Let_def using restored locked_row_facts(2) by simp
qed

definition far_reset :: "adm \<Rightarrow> auth_world \<times> (mark_error + mark_result)" where
  "far_reset gate = markAccountUnavailable (sample_env None) ''work'' (JInt 503) (Str ''overloaded'') (Str ''claude'') (Str ''opus'') (JInt 1000000000) Null (sample_world gate)"

lemma get_Null: "get Null k = Undef"
  by simp

lemma far_reset_outcome: "case snd (far_reset gate) of Inl _ \<Rightarrow> False | Inr r \<Rightarrow> mr_failureClass r \<noteq> Str ''quota'' \<and> mr_cooldownMs r = Fin 21600000"
  "githubMonthlyResetMs (me_now (sample_env None)) (JInt 503) (Str ''overloaded'') (Str ''claude'') = None" "later_reset (sample_env None) (JInt 1000000000)"
  unfolding far_reset_def claude_overloaded(1) [where metadata = Null, OF get_Null]
  by (simp_all add: mark_lock_def claude_overloaded(2) [simplified] lock_cooldown_def later_reset_def applied_cap_def claude_facts printed_def sample_env_def Let_def
      moves_on_def num_to_time_def time_clip_def num_sub_def min_def less_eq_jsnum_def)

theorem announced_reset_is_capped_witness:
  "\<exists>r. snd (far_reset failure_gate) = Inr r \<and> mr_cooldownMs r \<le> Fin (of_int (retryDelayCapMs (Str ''claude'')))"
proof -
  obtain r where r: "far_reset failure_gate = (fst (far_reset failure_gate), Inr r)" "mr_failureClass r \<noteq> Str ''quota''"
    using far_reset_outcome(1) [of failure_gate] by (cases "far_reset failure_gate") (auto split: sum.splits)
  from announced_reset_is_capped [OF r(1) [unfolded far_reset_def] r(2) far_reset_outcome(2,3)] r(1) show ?thesis by (metis snd_conv)
qed

end
