(* ===== verification/DispatchGuarantees.thy ===== *)
theory DispatchGuarantees
  imports AccountDispatch FailureGuarantees
begin

text \<open>
  What the account loop promises: no request is sent again unless the refusal said that nothing was generated,
  every account is asked once (and one of them a second time), the loop ends, leases do not leak, and the
  accounts that were not asked keep their rows.
\<close>

section \<open>Passes that go on\<close>

definition retriable :: "core_result option \<Rightarrow> bool" where
  "retriable out = (case out of None \<Rightarrow> False | Some r \<Rightarrow>
     \<not> cr_success r \<and> \<not> cr_clientAborted r \<and> cr_status r \<noteq> 499 \<and> \<not> seq (get (cr_metadata r) ''failurePhase'') (Str ''admission'')
     \<and> (seq (get (cr_metadata r) ''safeToReplay'') (Bool True)
        \<or> seq (get (cr_metadata r) ''safeAcrossAccounts'') (Bool True) \<and> cr_status r = 429))"

text \<open>A pass that goes on sent one request; either the request is to be replayed, for the first time, or its
  account is now excluded and the caller's ceiling was not reached.\<close>

lemma mark_in_never_retries: "mark_in env ctx conn code err resets metadata dw = (dw', Inr m) \<Longrightarrow> \<not> seq (mr_retrySameAccount m) (Bool True)"
  using mark_traceless [of "\<lparr> aw_conns = dw_conns dw, aw_gate = gate (dw_module dw) \<rparr>" "px_mark env" conn "JInt code" err
      "Str (dx_provider ctx)" "Str (dx_model ctx)" resets metadata]
  by (auto simp: mark_in_def traceless_def split: prod.splits dest!: seq_imp_eq)

text \<open>A failure of the public account is never a reason to move on.\<close>

lemma public_account_stays: "mark_in env ctx ''noauth'' code err resets metadata dw = (dw', Inr m) \<Longrightarrow> \<not> mr_shouldFallback m"
  by (auto simp: mark_in_def markAccountUnavailable_def stays_def)

lemma settle_rotate: "settle lease out = (dw, st, Rotate) \<longleftrightarrow> (\<exists>dw0. out = (dw0, st, Rotate) \<and> dw = release_in lease dw0)"
  by (cases out) (auto simp: settle_def split: pass_end.splits bool.splits)

lemma remember_fields [simp]: "al_excluded (remember_failure r st) = al_excluded st" "al_replayed (remember_failure r st) = al_replayed st" "al_fails (remember_failure r st) = al_fails st"
  by (simp_all add: remember_failure_def)

lemma at_ceiling_remember [simp]: "at_ceiling ctx (remember_failure r st) = at_ceiling ctx st"
  unfolding at_ceiling_def by (simp split: option.split)

lemma after_mark_rotate:
  assumes "after_mark env ctx ch r m st = (st', Rotate)" and "\<not> seq (mr_retrySameAccount m) (Bool True)"
  shows "replay_allowed r (mr_failureClass m) \<and> al_excluded st' = exclude (ca_connectionId ch) (al_excluded st) \<and> al_replayed st' = al_replayed st \<and> \<not> at_ceiling ctx st
    \<and> mr_shouldFallback m"
  using assms by (auto simp: after_mark_def Let_def split: if_splits)

lemma replay_allowed_imp: "replay_allowed r cls \<Longrightarrow> seq (get (cr_metadata r) ''safeToReplay'') (Bool True)
    \<or> seq (get (cr_metadata r) ''safeAcrossAccounts'') (Bool True) \<and> cr_status r = 429"
  by (auto simp: replay_allowed_def)

lemma on_failure_rotate:
  assumes "on_failure env ctx ch r (dw, st) = (dw', st', Rotate)" and "\<not> cr_success r"
  shows "retriable (Some r) \<and> (\<not> al_replayed st \<and> al_replayed st' \<and> al_excluded st' = al_excluded st
    \<or> al_replayed st' = al_replayed st \<and> al_excluded st' = exclude (ca_connectionId ch) (al_excluded st) \<and> \<not> at_ceiling ctx st
      \<and> ca_connectionId ch \<noteq> ''noauth'')"
proof (cases "cr_clientAborted r \<or> cr_status r = 499 \<or> seq (get (cr_metadata r) ''failurePhase'') (Str ''admission'')")
  case True
  then show ?thesis using assms by (simp add: on_failure_def)
next
  case no: False
  show ?thesis
  proof (cases "seq (get (cr_metadata r) ''safeToReplay'') (Bool True) \<and> \<not> al_replayed st \<and> isRequestReplayBufferError (JInt (cr_status r)) (cr_error r)")
    case True
    then have "st' = st\<lparr> al_replayed := True, al_replay := Some (ca_connectionId ch) \<rparr>" using assms no by (simp add: on_failure_def)
    then show ?thesis using True no assms(2) by (simp add: retriable_def)
  next
    case False
    obtain dw1 res where m: "mark_in env ctx (ca_connectionId ch) (cr_status r) (cr_error r) (cr_resetsAtMs r) (js_or (cr_metadata r) Null) dw = (dw1, res)" by fastforce
    have "\<exists>m. res = Inr m \<and> after_mark env ctx ch r m st = (st', Rotate)"
      using assms(1) no False m unfolding on_failure_def by (auto split: sum.splits prod.splits)
    then obtain mr where mr: "res = Inr mr" "after_mark env ctx ch r mr st = (st', Rotate)" by blast
    then have mark: "mark_in env ctx (ca_connectionId ch) (cr_status r) (cr_error r) (cr_resetsAtMs r) (js_or (cr_metadata r) Null) dw = (dw1, Inr mr)"
      using m by simp
    have "mr_shouldFallback mr \<Longrightarrow> ca_connectionId ch \<noteq> ''noauth''" using public_account_stays mark by metis
    then show ?thesis
      using after_mark_rotate [OF mr(2) mark_in_never_retries [OF mark]] no assms(2) replay_allowed_imp [of r "mr_failureClass mr"] by (auto simp: retriable_def)
  qed
qed

lemma pass_rotate:
  assumes "account_pass env ctx (dw, st) = ((dw', st', Rotate), reqs)"
  obtains m ch r where "px_select env (al_excluded st) (options_of ctx st) (dw_module dw) = (m, Granted ch)"
    and "reqs = [(ca_connectionId ch, Some r)]" and "retriable (Some r)"
    and "\<not> al_replayed st \<and> al_replayed st' \<and> al_excluded st' = al_excluded st
      \<or> al_replayed st' = al_replayed st \<and> al_excluded st' = exclude (ca_connectionId ch) (al_excluded st) \<and> \<not> at_ceiling ctx st
        \<and> ca_connectionId ch \<noteq> ''noauth''"
proof -
  obtain m choice where sel: "px_select env (al_excluded st) (options_of ctx st) (dw_module dw) = (m, choice)" by fastforce
  obtain ch where ch: "choice = Granted ch"
    using assms sel by (auto simp: account_pass_def Let_def split: if_splits account_choice.splits)
  obtain dw0 where u: "use_account env ctx ch (dw\<lparr> dw_module := m \<rparr>, st) = (dw0, st', Rotate)" "reqs = sent env ctx ch"
    using assms sel ch by (auto simp: account_pass_def Let_def settle_rotate split: if_splits)
  have go: "\<not> px_expired_selected env" "\<not> wrong_account ctx ch" using u(1) by (auto simp: use_account_def split: if_splits)
  obtain r where r: "cc_result (px_core env ch) = Some r"
    using u(1) go by (cases "cc_result (px_core env ch)") (auto simp: use_account_def call_upstream_def Let_def)
  define dw1 where "dw1 = fold (run_callback env ctx ch) (cc_callbacks (px_core env ch)) (dw\<lparr> dw_module := m \<rparr>)"
  have b: "(if px_aborted_called env then (dw1, st, Respond (aborted_answer ctx (of_int (me_now (px_mark env)))) False True)
     else if cr_success r then on_success env ctx ch r (dw1, st) else on_failure env ctx ch r (dw1, st)) = (dw0, st', Rotate)"
    using u(1) go r unfolding use_account_def call_upstream_def Let_def dw1_def prod.case if_not_P [OF go(1)] if_not_P [OF go(2)] by simp
  have "on_success env ctx ch r (dw1, st) \<noteq> (dw0, st', Rotate)"
    by (auto simp: on_success_def Let_def split: option.splits sum.splits prod.splits)
  then have f: "on_failure env ctx ch r (dw1, st) = (dw0, st', Rotate)" "\<not> cr_success r" using b by (auto split: if_splits)
  have "reqs = [(ca_connectionId ch, Some r)]" using u(2) go r by (simp add: sent_def)
  then show ?thesis using that [OF sel [unfolded ch]] on_failure_rotate [OF f] by blast
qed

lemma length_pass: "account_pass env ctx ds = (out, reqs) \<Longrightarrow> length reqs \<le> 1"
  by (auto simp: account_pass_def Let_def sent_def split: prod.splits if_splits account_choice.splits)

section \<open>Nothing is sent twice\<close>

lemma loop_retriable: "list_all (\<lambda>(c, r). retriable r) (butlast (snd (account_loop ctx envs fuel n ds)))"
proof (induction fuel arbitrary: n ds)
  case (Suc fuel)
  obtain dw st where ds: "ds = (dw, st)" by fastforce
  obtain dw' st' e reqs where p: "account_pass (envs n) ctx ds = ((dw', st', e), reqs)" by (metis surj_pair)
  show ?case
  proof (cases "e = Rotate")
    case True
    obtain ch :: granted_account and r where r: "reqs = [(ca_connectionId ch, Some r)]" "retriable (Some r)"
      by (rule pass_rotate [OF p [unfolded ds True]]) (rule that)
    obtain out later where l: "account_loop ctx envs fuel (Suc n) (dw', st') = (out, later)" by fastforce
    have "list_all (\<lambda>(c, r). retriable r) (butlast later)" using Suc.IH [of "Suc n" "(dw', st')"] l by simp
    then show ?thesis using r by (simp add: p True l)
  next
    case False
    then have "snd (account_loop ctx envs (Suc fuel) n ds) = reqs" by (cases e) (simp_all add: p)
    then show ?thesis using length_pass [OF p] by (cases reqs) simp_all
  qed
qed simp

text \<open>C1: a request is sent again only after a refusal that generated nothing: no success, no abort, no local
  refusal, and the upstream said that a replay is safe, or safe on another account for a 429.\<close>

theorem no_request_after_an_uncertain_outcome:
  "list_all (\<lambda>(c, r). retriable r) (butlast (snd (account_loop ctx envs fuel n ds)))"
  by (rule loop_retriable)

section \<open>The loop ends\<close>

text \<open>A selection that only picks accounts of a pool, and among them only the public account when the request
  has excluded it, which never happens.\<close>

definition picks_from :: "string set \<Rightarrow> pass_env \<Rightarrow> bool" where
  "picks_from pool env \<longleftrightarrow> (\<forall>excluded options m ch. snd (px_select env excluded options m) = Granted ch \<longrightarrow>
     ca_connectionId ch \<in> pool \<and> (ca_connectionId ch \<notin> set excluded \<or> ca_connectionId ch = ''noauth''))"

text \<open>The passes that may still go on: one for each account that is not excluded, and a replay.\<close>

definition passes_left :: "string set \<Rightarrow> account_loop_state \<Rightarrow> nat" where
  "passes_left pool st = card (pool - set (al_excluded st)) + (if al_replayed st then 0 else 1)"

definition attempts_left :: "int \<Rightarrow> account_loop_state \<Rightarrow> int" where
  "attempts_left limit st = max 0 (limit - 1 - int (length (al_excluded st))) + (if al_replayed st then 0 else 1)"

lemma set_exclude [simp]: "set (exclude c cs) = insert c (set cs)"
  by (auto simp: exclude_def)

lemma rotate_progress:
  assumes "account_pass env ctx (dw, st) = ((dw', st', Rotate), reqs)" and "finite pool" and "picks_from pool env"
    and "''noauth'' \<notin> set (al_excluded st)"
  shows "passes_left pool st' < passes_left pool st \<and> length reqs = 1
    \<and> (\<forall>limit. dx_maxAttempts ctx = Some limit \<and> 0 < limit \<longrightarrow> attempts_left limit st' < attempts_left limit st)
    \<and> ''noauth'' \<notin> set (al_excluded st')"
proof -
  obtain m ch r where sel: "px_select env (al_excluded st) (options_of ctx st) (dw_module dw) = (m, Granted ch)"
    and reqs: "reqs = [(ca_connectionId ch, Some r)]"
    and st: "\<not> al_replayed st \<and> al_replayed st' \<and> al_excluded st' = al_excluded st
      \<or> al_replayed st' = al_replayed st \<and> al_excluded st' = exclude (ca_connectionId ch) (al_excluded st) \<and> \<not> at_ceiling ctx st
        \<and> ca_connectionId ch \<noteq> ''noauth''"
    by (rule pass_rotate [OF assms(1)]) (rule that)
  have new: "ca_connectionId ch \<in> pool - set (al_excluded st)" using assms(3,4) sel unfolding picks_from_def by (metis DiffI snd_conv)
  then have "card (pool - insert (ca_connectionId ch) (set (al_excluded st))) < card (pool - set (al_excluded st))"
    using assms(2) by (intro psubset_card_mono) auto
  then show ?thesis using st reqs new assms(4)
    by (auto simp: passes_left_def attempts_left_def at_ceiling_def exclude_def split: option.splits)
qed

lemma sent_left:
  assumes "account_pass env ctx (dw, st) = (out, reqs)" and "finite pool" and "picks_from pool env"
    and "''noauth'' \<notin> set (al_excluded st)"
  shows "length reqs \<le> passes_left pool st"
proof (cases "reqs = []")
  case False
  obtain m choice where sel: "px_select env (al_excluded st) (options_of ctx st) (dw_module dw) = (m, choice)" by fastforce
  have "\<exists>ch. choice = Granted ch" using assms(1) False sel
    by (auto simp: account_pass_def Let_def split: if_splits account_choice.splits)
  then have "pool - set (al_excluded st) \<noteq> {}" using assms(3,4) sel unfolding picks_from_def by (metis DiffI snd_conv empty_iff)
  then have "0 < card (pool - set (al_excluded st))" using assms(2) by (simp add: card_gt_0_iff)
  then show ?thesis using length_pass [OF assms(1)] by (simp add: passes_left_def)
qed simp

lemma loop_bounds:
  assumes "finite pool" and "\<And>k. picks_from pool (envs k)"
  shows "''noauth'' \<notin> set (al_excluded st) \<Longrightarrow> (passes_left pool st < fuel \<longrightarrow> snd (snd (fst (account_loop ctx envs fuel n (dw, st)))) \<noteq> None)
    \<and> length (snd (account_loop ctx envs fuel n (dw, st))) \<le> passes_left pool st
    \<and> (\<forall>limit. dx_maxAttempts ctx = Some limit \<and> 0 < limit \<longrightarrow> int (length (snd (account_loop ctx envs fuel n (dw, st)))) \<le> attempts_left limit st + 1)"
proof (induction fuel arbitrary: n dw st)
  case (Suc fuel)
  obtain dw' st' e reqs where p: "account_pass (envs n) ctx (dw, st) = ((dw', st', e), reqs)" by (metis surj_pair)
  obtain out later where l: "account_loop ctx envs fuel (Suc n) (dw', st') = (out, later)" by fastforce
  have pos: "0 \<le> attempts_left limit st" for limit by (simp add: attempts_left_def)
  show ?case
  proof (cases "e = Rotate")
    case True
    have step: "passes_left pool st' < passes_left pool st" "length reqs = 1"
      "dx_maxAttempts ctx = Some limit \<Longrightarrow> 0 < limit \<Longrightarrow> attempts_left limit st' < attempts_left limit st" for limit
      using rotate_progress [OF p [unfolded True] assms(1) assms(2) Suc.prems] by auto
    have no: "''noauth'' \<notin> set (al_excluded st')"
      using rotate_progress [OF p [unfolded True] assms(1) assms(2) Suc.prems] by auto
    show ?thesis using step Suc.IH [OF no, where n = "Suc n" and dw = dw'] by (fastforce simp: p l True)
  next
    case False
    have "int (length reqs) \<le> attempts_left limit st + 1" for limit using length_pass [OF p] pos [of limit] by linarith
    then show ?thesis using sent_left [OF p assms Suc.prems] False by (cases e) (auto simp: p)
  qed
qed (simp add: attempts_left_def)

lemma loop_pool:
  assumes "\<And>k. picks_from pool (envs k)"
  shows "fst ` set (snd (account_loop ctx envs fuel n (dw, st))) \<subseteq> pool"
proof (induction fuel arbitrary: n dw st)
  case (Suc fuel)
  obtain dw' st' e reqs where p: "account_pass (envs n) ctx (dw, st) = ((dw', st', e), reqs)" by (metis surj_pair)
  obtain m choice where sel: "px_select (envs n) (al_excluded st) (options_of ctx st) (dw_module dw) = (m, choice)" by fastforce
  have "ca_connectionId ch \<in> pool" if "choice = Granted ch" for ch
    using assms [of n] sel that unfolding picks_from_def by (metis snd_conv)
  then have "fst ` set reqs \<subseteq> pool"
    using p sel by (auto simp: account_pass_def Let_def sent_def split: if_splits account_choice.splits)
  moreover obtain out later where l: "account_loop ctx envs fuel (Suc n) (dw', st') = (out, later)" by fastforce
  ultimately show ?case using Suc.IH [where n = "Suc n" and dw = dw' and st = st'] by (cases e) (auto simp: p l)
qed simp

text \<open>C7: the loop ends, whatever the upstream does: when the selection picks accounts of a finite pool that
  are not excluded, as many passes as the pool has accounts and two more give an outcome; requests go to the
  pool only, at most one more than it has accounts is sent, and one more than the caller's ceiling.\<close>

theorem account_loop_returns:
  assumes "finite pool" and "\<forall>n. picks_from pool (envs n)" and "card pool + 2 \<le> fuel"
  shows "\<exists>dw' st' outcome requests. account_loop ctx envs fuel 0 (dw, initial_loop) = ((dw', st', Some outcome), requests)
    \<and> fst ` set requests \<subseteq> pool \<and> length requests \<le> card pool + 1
    \<and> (\<forall>limit. dx_maxAttempts ctx = Some limit \<and> 0 < limit \<longrightarrow> int (length requests) \<le> limit + 1)"
proof -
  have left: "passes_left pool initial_loop = card pool + 1" "0 < limit \<Longrightarrow> attempts_left limit initial_loop = limit" for limit
    by (simp_all add: passes_left_def initial_loop_def attempts_left_def)
  have no_public: "''noauth'' \<notin> set (al_excluded initial_loop)" by (simp add: initial_loop_def)
  obtain dw' st' outcome requests where l: "account_loop ctx envs fuel 0 (dw, initial_loop) = ((dw', st', outcome), requests)"
    by (metis surj_pair)
  note bounds = loop_bounds [where envs = envs, OF assms(1) assms(2) [rule_format], where st = initial_loop and fuel = fuel and ctx = ctx and n = 0 and dw = dw, unfolded l, OF no_public]
  have "outcome \<noteq> None" using bounds left(1) assms(3) by simp
  moreover have "fst ` set requests \<subseteq> pool"
    using loop_pool [where envs = envs, OF assms(2) [rule_format], where ctx = ctx and fuel = fuel and n = 0 and dw = dw and st = initial_loop] l by simp
  moreover have "length requests \<le> card pool + 1" using bounds left(1) by simp
  moreover have "int (length requests) \<le> limit + 1" if "dx_maxAttempts ctx = Some limit" "0 < limit" for limit
    using bounds left(2) [OF that(2)] that by auto
  ultimately show ?thesis using l by auto
qed

section \<open>Leases\<close>

lemma live_release: "module_ok m \<Longrightarrow> lease_live (fst (releaseAccountLease h m)) h' \<longleftrightarrow> lease_live m h' \<and> h' \<noteq> h"
  using module_holds_release(1) [of m h] releaseAccountLease_ok [of m h] by (auto simp: lease_live_holds)

text \<open>Two registries with the same open leases.\<close>

definition same_leases :: "lease_module \<Rightarrow> lease_module \<Rightarrow> bool" where
  "same_leases m m' \<longleftrightarrow> (module_ok m \<longrightarrow> module_ok m') \<and> (\<forall>h. lease_live m' h = lease_live m h)"

lemma same_leases_refl [simp]: "same_leases m m"
  by (simp add: same_leases_def)

lemma same_leases_trans: "same_leases a b \<Longrightarrow> same_leases b c \<Longrightarrow> same_leases a c"
  by (simp add: same_leases_def)

lemma same_leases_gate:
  assumes "providers_inv (gate m) \<longrightarrow> providers_inv g" and "permit_ids g = permit_ids (gate m)"
  shows "same_leases m (m\<lparr> gate := g \<rparr>)"
proof -
  have "lease_live (m\<lparr> gate := g \<rparr>) h = lease_live m h" for h by (cases h) simp_all
  then show ?thesis using assms by (simp add: same_leases_def module_upto_def links_upto_def)
qed

lemma throttle_gate_permits: "permit_ids (throttle_gate env provider g) = permit_ids g" "providers_inv g \<longrightarrow> providers_inv (throttle_gate env provider g)"
  using sweep_inv providers_inv_throttle
  by (auto simp: throttle_gate_def permit_ids_def providerThrottle_def sweep_providers_def Let_def split: jv.split option.split)

lemma patch_gate [simp]: "aw_gate (patch_account env i kvs w) = aw_gate w"
  by (simp add: patch_account_def split: sum.split prod.split)

lemma mark_gate: "aw_gate (fst (markAccountUnavailable env i code err provider model resets metadata w)) \<in> {aw_gate w, throttle_gate env provider (aw_gate w)}"
proof -
  define w1 where "w1 = (if to_number code = Fin 429 \<and> \<not> seq (get metadata ''failurePhase'') (Str ''admission'')
    then w\<lparr> aw_gate := throttle_gate env provider (aw_gate w) \<rparr> else w)"
  have lock: "aw_gate (fst (mark_lock env i code err provider model resets metadata c l d w1)) = aw_gate w1" for c l d
    by (simp add: mark_lock_def Let_def case_prod_beta split: option.split)
  have "aw_gate (fst (markAccountUnavailable env i code err provider model resets metadata w)) \<in> {aw_gate w, aw_gate w1}"
    unfolding markAccountUnavailable_def w1_def [symmetric] Let_def
    by (simp add: lock mark_credential_def mark_qoder_def mark_unknown_model_def Let_def)
  then show ?thesis by (auto simp: w1_def split: if_splits)
qed

lemma mark_in_leases: "same_leases (dw_module dw) (dw_module (fst (mark_in env ctx conn code err resets metadata dw)))"
proof -
  let ?w = "\<lparr> aw_conns = dw_conns dw, aw_gate = gate (dw_module dw) \<rparr>"
  obtain w r where m: "markAccountUnavailable (px_mark env) conn (JInt code) err (Str (dx_provider ctx)) (Str (dx_model ctx)) resets metadata ?w = (w, r)" by fastforce
  have "aw_gate w \<in> {gate (dw_module dw), throttle_gate (px_mark env) (Str (dx_provider ctx)) (gate (dw_module dw))}"
    using mark_gate [of "px_mark env" conn "JInt code" err "Str (dx_provider ctx)" "Str (dx_model ctx)" resets metadata ?w] m by simp
  then show ?thesis
    using throttle_gate_permits [where env = "px_mark env" and provider = "Str (dx_provider ctx)" and g = "gate (dw_module dw)"] same_leases_gate
    by (auto simp: mark_in_def m)
qed

lemma callbacks_leases: "same_leases (dw_module dw) (dw_module (fold (run_callback env ctx ch) cbs dw))"
proof (induction cbs arbitrary: dw)
  case (Cons cb cbs)
  have "same_leases (dw_module dw) (dw_module (run_callback env ctx ch cb dw))"
    using mark_in_leases by (cases cb) (simp_all add: run_callback_def Let_def)
  then show ?case using Cons [of "run_callback env ctx ch cb dw"] same_leases_trans by auto
qed simp

lemma use_account_leases: "use_account env ctx ch (dw, st) = (dw', st', e) \<Longrightarrow> same_leases (dw_module dw) (dw_module dw')"
proof -
  assume u: "use_account env ctx ch (dw, st) = (dw', st', e)"
  define dw1 where "dw1 = fold (run_callback env ctx ch) (cc_callbacks (px_core env ch)) dw"
  have m: "same_leases (dw_module dw1) (dw_module dw2)" if "mark_in env ctx conn code err resets metadata dw1 = (dw2, r)" for conn code err resets metadata dw2 r
    using mark_in_leases [of dw1 env ctx conn code err resets metadata] that by simp
  have "same_leases (dw_module dw1) (dw_module (fst (on_success env ctx ch r (dw1, st))))" for r
    by (auto simp: on_success_def Let_def split: option.split sum.split prod.split dest: m)
  moreover have "same_leases (dw_module dw1) (dw_module (fst (on_failure env ctx ch r (dw1, st))))" for r
    by (auto simp: on_failure_def Let_def split: option.split sum.split prod.split dest: m)
  ultimately have "same_leases (dw_module dw1) (dw_module (fst (call_upstream env ctx ch (dw, st))))"
    by (simp add: call_upstream_def Let_def dw1_def [symmetric] split: option.split)
  moreover have "same_leases (dw_module dw) (dw_module dw1)" unfolding dw1_def by (rule callbacks_leases)
  ultimately have "same_leases (dw_module dw) (dw_module (fst (use_account env ctx ch (dw, st))))"
    using same_leases_trans by (simp add: use_account_def)
  then show ?thesis by (simp add: u)
qed

text \<open>A selection that takes one new lease for the account it picks and none otherwise.\<close>

definition takes_own_lease :: "pass_env \<Rightarrow> bool" where
  "takes_own_lease env \<longleftrightarrow> (\<forall>excluded options m. module_ok m \<longrightarrow> (case px_select env excluded options m of (m', choice) \<Rightarrow>
     module_ok m' \<and> (case choice of
       Granted ch \<Rightarrow> (\<forall>h. lease_live m' h \<longleftrightarrow> lease_live m h \<or> ca_lease ch = Some h) \<and> (\<forall>h. ca_lease ch = Some h \<longrightarrow> \<not> lease_live m h)
     | _ \<Rightarrow> (\<forall>h. lease_live m' h \<longleftrightarrow> lease_live m h))))"

definition hands_over :: "loop_outcome option \<Rightarrow> bool" where
  "hands_over out \<longleftrightarrow> (case out of Some (Responded _ handed live) \<Rightarrow> handed \<and> live | _ \<Rightarrow> False)"

definition pass_hands_over :: "pass_end \<Rightarrow> bool" where
  "pass_hands_over e \<longleftrightarrow> (case e of Respond _ handed live \<Rightarrow> handed \<and> live | _ \<Rightarrow> False)"

text \<open>The open leases after a pass or a loop: the same ones, or one more when the answer holds it.\<close>

definition lease_balance :: "bool \<Rightarrow> lease_module \<Rightarrow> lease_module \<Rightarrow> bool" where
  "lease_balance handed m m' \<longleftrightarrow> module_ok m' \<and> (if handed then \<exists>k. \<forall>h. h \<noteq> k \<longrightarrow> lease_live m' h = lease_live m h
     else \<forall>h. lease_live m' h = lease_live m h)"

lemma settle_leases:
  assumes "module_ok m" and "same_leases m (dw_module dw)" and "\<And>h. lease_live m h \<longleftrightarrow> lease_live m0 h \<or> lease = Some h"
    and "\<And>h. lease = Some h \<Longrightarrow> \<not> lease_live m0 h" and "settle lease (dw, st, e) = (dw', st', e')"
  shows "lease_balance (pass_hands_over e') m0 (dw_module dw')"
proof -
  have ok: "module_ok (dw_module dw)" and live: "\<And>h. lease_live (dw_module dw) h = lease_live m h"
    using assms(1,2) by (simp_all add: same_leases_def)
  have e: "e' = e" using assms(5) by (auto simp: settle_def split: pass_end.splits bool.splits)
  show ?thesis
  proof (cases "pass_hands_over e")
    case True
    then have "dw' = dw" using assms(5) by (auto simp: settle_def pass_hands_over_def split: pass_end.splits bool.splits)
    moreover have "\<exists>k. \<forall>h. h \<noteq> k \<longrightarrow> lease_live m h = lease_live m0 h"
      using assms(3) by (cases lease) auto
    ultimately show ?thesis using True ok live by (simp add: lease_balance_def e)
  next
    case False
    then have "dw' = release_in lease dw" using assms(5) by (auto simp: settle_def pass_hands_over_def split: pass_end.splits bool.splits)
    then show ?thesis using False ok live assms(3,4) live_release [OF ok] releaseAccountLease_ok [OF ok]
      by (cases lease) (auto simp: lease_balance_def e release_in_def)
  qed
qed

lemma pass_leases:
  assumes "account_pass env ctx (dw, st) = ((dw', st', e), reqs)" and "takes_own_lease env" and ok: "module_ok (dw_module dw)"
  shows "lease_balance (pass_hands_over e) (dw_module dw) (dw_module dw')"
proof -
  have unsent: "lease_balance (pass_hands_over e) (dw_module dw) (dw_module dw')"
    if "\<not> pass_hands_over e" "module_ok (dw_module dw')" "\<And>h. lease_live (dw_module dw') h = lease_live (dw_module dw) h"
    using that by (simp add: lease_balance_def)
  obtain m choice where sel: "px_select env (al_excluded st) (options_of ctx st) (dw_module dw) = (m, choice)" by fastforce
  have m: "module_ok m" "case choice of
       Granted ch \<Rightarrow> (\<forall>h. lease_live m h \<longleftrightarrow> lease_live (dw_module dw) h \<or> ca_lease ch = Some h) \<and> (\<forall>h. ca_lease ch = Some h \<longrightarrow> \<not> lease_live (dw_module dw) h)
     | _ \<Rightarrow> (\<forall>h. lease_live m h \<longleftrightarrow> lease_live (dw_module dw) h)"
    using assms(2) [unfolded takes_own_lease_def, THEN spec [of _ "al_excluded st"], THEN spec [of _ "options_of ctx st"],
        THEN spec [of _ "dw_module dw"], THEN mp, OF ok, unfolded sel prod.case] by blast+
  show ?thesis
  proof (cases "px_aborted env \<or> px_expired env")
    case True
    then show ?thesis using assms(1) ok by (intro unsent) (auto simp: account_pass_def Let_def pass_hands_over_def split: if_splits)
  next
    case False
    show ?thesis
    proof (cases "\<exists>ch. choice = Granted ch")
      case True
      then obtain ch where ch: "choice = Granted ch" by blast
      obtain dw1 st1 e1 where u: "use_account env ctx ch (dw\<lparr> dw_module := m \<rparr>, st) = (dw1, st1, e1)" by (metis surj_pair)
      have "settle (ca_lease ch) (dw1, st1, e1) = (dw', st', e)" using assms(1) False sel ch u by (simp add: account_pass_def Let_def)
      moreover have "same_leases m (dw_module dw1)" using use_account_leases [OF u] by simp
      ultimately show ?thesis using m ch by (intro settle_leases [of m dw1 _ "ca_lease ch"]) auto
    next
      case none: False
      have "dw' = dw\<lparr> dw_module := m \<rparr> \<and> \<not> pass_hands_over e"
        using assms(1) False sel none by (cases choice) (auto simp: account_pass_def Let_def pass_hands_over_def split: if_splits)
      then show ?thesis using m none by (intro unsent) (auto split: account_choice.splits)
    qed
  qed
qed

lemma loop_leases:
  assumes "\<And>k. takes_own_lease (envs k)"
  shows "module_ok (dw_module dw) \<Longrightarrow> account_loop ctx envs fuel n (dw, st) = ((dw', st', out), reqs) \<Longrightarrow>
    lease_balance (hands_over out) (dw_module dw) (dw_module dw')"
proof (induction fuel arbitrary: n dw st reqs)
  case 0
  then show ?case by (auto simp: lease_balance_def hands_over_def)
next
  case (Suc fuel)
  obtain dw1 st1 e reqs1 where p: "account_pass (envs n) ctx (dw, st) = ((dw1, st1, e), reqs1)" by (metis surj_pair)
  note b = pass_leases [OF p assms Suc.prems(1)]
  show ?case
  proof (cases "e = Rotate")
    case True
    then have same: "module_ok (dw_module dw1)" "\<And>h. lease_live (dw_module dw1) h = lease_live (dw_module dw) h"
      using b by (simp_all add: lease_balance_def pass_hands_over_def)
    obtain later where "account_loop ctx envs fuel (Suc n) (dw1, st1) = ((dw', st', out), later)"
      using Suc.prems(2) by (auto simp: p True split: prod.splits)
    from Suc.IH [OF same(1) this] show ?thesis unfolding lease_balance_def same(2) .
  next
    case False
    then have "dw' = dw1 \<and> hands_over out = pass_hands_over e"
      using Suc.prems(2) by (cases e) (auto simp: p hands_over_def pass_hands_over_def)
    then show ?thesis using b by simp
  qed
qed


section \<open>Other accounts\<close>

text \<open>Every metadata that the upstream call returns is an object whose keys are distinct, as JavaScript objects are.\<close>

definition sound_call :: "pass_env \<Rightarrow> bool" where
  "sound_call env \<longleftrightarrow> (\<forall>ch r. cc_result (px_core env ch) = Some r \<longrightarrow> wf_keys (cr_metadata r))"

text \<open>The table after a step that concerns one account.\<close>

definition only_account :: "string \<Rightarrow> conn_table \<Rightarrow> conn_table \<Rightarrow> bool" where
  "only_account i tbl tbl' \<longleftrightarrow> (conn_ok tbl \<longrightarrow> conn_ok tbl' \<and> (\<forall>j. j \<noteq> i \<longrightarrow> om_get tbl' j = om_get tbl j))"

lemma only_account_refl [simp]: "only_account i tbl tbl"
  by (simp add: only_account_def)

lemma only_account_trans: "only_account i a b \<Longrightarrow> only_account i b c \<Longrightarrow> only_account i a c"
  by (simp add: only_account_def)

lemma mark_in_only:
  assumes "wf_keys metadata"
  shows "only_account conn (dw_conns dw) (dw_conns (fst (mark_in env ctx conn code err resets metadata dw)))"
  using mark_others [of "\<lparr> aw_conns = dw_conns dw, aw_gate = gate (dw_module dw) \<rparr>" "JInt code" metadata "px_mark env" conn err
      "Str (dx_provider ctx)" "Str (dx_model ctx)" resets] assms
  by (auto simp: only_account_def mark_in_def split: prod.split)

lemma callbacks_only: "only_account (ca_connectionId ch) (dw_conns dw) (dw_conns (fold (run_callback env ctx ch) cbs dw))"
proof (induction cbs arbitrary: dw)
  case (Cons cb cbs)
  have "only_account (ca_connectionId ch) (dw_conns dw) (dw_conns (run_callback env ctx ch cb dw))"
  proof (cases cb)
    case RequestSuccess
    then show ?thesis
      using clear_others [of "\<lparr> aw_conns = dw_conns dw, aw_gate = gate (dw_module dw) \<rparr>"] by (simp add: only_account_def run_callback_def Let_def)
  qed (simp add: run_callback_def mark_in_only unsafe_replay_def)
  then show ?case using Cons [of "run_callback env ctx ch cb dw"] only_account_trans by auto
qed simp

lemma use_account_only:
  assumes "use_account env ctx ch (dw, st) = (dw', st', e)" and "sound_call env"
  shows "if px_expired_selected env \<or> wrong_account ctx ch then dw' = dw else only_account (ca_connectionId ch) (dw_conns dw) (dw_conns dw')"
proof (cases "px_expired_selected env \<or> wrong_account ctx ch")
  case True
  then show ?thesis using assms(1) by (auto simp: use_account_def split: if_splits)
next
  case False
  let ?i = "ca_connectionId ch"
  define dw1 where "dw1 = fold (run_callback env ctx ch) (cc_callbacks (px_core env ch)) dw"
  have m: "only_account ?i (dw_conns dw1) (dw_conns dw2)" if "mark_in env ctx ?i code err resets metadata dw1 = (dw2, r)" "wf_keys metadata"
    for code err resets metadata dw2 r
    using mark_in_only [OF that(2), of ?i dw1 env ctx code err resets] that(1) by simp
  have unsafe: "wf_keys unsafe_replay" by (simp add: unsafe_replay_def)
  have "only_account ?i (dw_conns dw1) (dw_conns (fst (on_success env ctx ch r (dw1, st))))" for r
    by (auto simp: on_success_def Let_def unsafe split: option.split sum.split prod.split dest: m)
  moreover have "only_account ?i (dw_conns dw1) (dw_conns (fst (on_failure env ctx ch r (dw1, st))))" if "wf_keys (cr_metadata r)" for r
  proof -
    have "wf_keys (js_or (cr_metadata r) Null)" using that by (simp add: js_or_def)
    then show ?thesis by (auto simp: on_failure_def Let_def split: option.split sum.split prod.split dest: m)
  qed
  ultimately have "only_account ?i (dw_conns dw1) (dw_conns (fst (call_upstream env ctx ch (dw, st))))"
    using assms(2) by (simp add: call_upstream_def Let_def dw1_def [symmetric] sound_call_def split: option.split)
  moreover have "only_account ?i (dw_conns dw) (dw_conns dw1)" unfolding dw1_def by (rule callbacks_only)
  moreover have "fst (call_upstream env ctx ch (dw, st)) = dw'" using assms(1) False by (simp add: use_account_def)
  ultimately show ?thesis using False only_account_trans by auto
qed

lemma settle_conns: "settle lease (dw, st, e) = (dw', st', e') \<Longrightarrow> dw_conns dw' = dw_conns dw"
  by (auto simp: settle_def release_in_def split: pass_end.splits bool.splits option.splits)

lemma pass_only:
  assumes "account_pass env ctx (dw, st) = ((dw', st', e), reqs)" and "sound_call env" and "conn_ok (dw_conns dw)"
  shows "conn_ok (dw_conns dw') \<and> (\<forall>j. j \<notin> fst ` set reqs \<longrightarrow> om_get (dw_conns dw') j = om_get (dw_conns dw) j)"
proof -
  obtain m choice where sel: "px_select env (al_excluded st) (options_of ctx st) (dw_module dw) = (m, choice)" by fastforce
  show ?thesis
  proof (cases "\<not> px_aborted env \<and> \<not> px_expired env \<and> (\<exists>ch. choice = Granted ch)")
    case True
    then obtain ch where ch: "choice = Granted ch" by blast
    obtain dw1 st1 e1 where u: "use_account env ctx ch (dw\<lparr> dw_module := m \<rparr>, st) = (dw1, st1, e1)" by (metis surj_pair)
    have s: "settle (ca_lease ch) (dw1, st1, e1) = (dw', st', e)" "reqs = sent env ctx ch"
      using assms(1) True sel ch u by (simp_all add: account_pass_def Let_def)
    show ?thesis using use_account_only [OF u assms(2)] settle_conns [OF s(1)] assms(3)
      by (auto simp: s(2) sent_def only_account_def split: if_splits)
  next
    case False
    then have "dw_conns dw' = dw_conns dw"
      using assms(1) sel by (cases choice) (auto simp: account_pass_def Let_def split: if_splits)
    then show ?thesis using assms(3) by simp
  qed
qed

lemma loop_only:
  assumes "\<And>k. sound_call (envs k)"
  shows "conn_ok (dw_conns dw) \<Longrightarrow> account_loop ctx envs fuel n (dw, st) = ((dw', st', out), reqs) \<Longrightarrow>
    conn_ok (dw_conns dw') \<and> (\<forall>j. j \<notin> fst ` set reqs \<longrightarrow> om_get (dw_conns dw') j = om_get (dw_conns dw) j)"
proof (induction fuel arbitrary: n dw st reqs)
  case (Suc fuel)
  obtain dw1 st1 e reqs1 where p: "account_pass (envs n) ctx (dw, st) = ((dw1, st1, e), reqs1)" by (metis surj_pair)
  note b = pass_only [OF p assms Suc.prems(1)]
  show ?case
  proof (cases "e = Rotate")
    case True
    obtain later where l: "account_loop ctx envs fuel (Suc n) (dw1, st1) = ((dw', st', out), later)" "reqs = reqs1 @ later"
      using Suc.prems(2) by (auto simp: p True split: prod.splits)
    show ?thesis using Suc.IH [OF conjunct1 [OF b] l(1)] b by (simp add: l(2) image_Un)
  next
    case False
    then have "dw' = dw1 \<and> reqs = reqs1" using Suc.prems(2) by (cases e) (auto simp: p)
    then show ?thesis using b by simp
  qed
qed auto


section \<open>A concrete request\<close>

definition sample_ctx :: request_ctx where
  "sample_ctx = \<lparr> dx_provider = ''claude'', dx_model = ''opus'', dx_ridHeader = ''x-rid'', dx_pinned = None, dx_requested = None, dx_maxAttempts = Some 2 \<rparr>"

definition overload_reply :: core_result where
  "overload_reply = \<lparr> cr_success = False, cr_status = 503, cr_error = Str ''overloaded'', cr_clientAborted = False, cr_resetsAtMs = Null,
     cr_metadata = Obj [(''safeToReplay'', Bool True)], cr_response = \<lparr> status = 503, headers = [], body = Null \<rparr>, cr_streams = False \<rparr>"

text \<open>A pass over one account that is reserved in the lease registry and answers that it is overloaded.\<close>

definition sample_pass :: pass_env where
  "sample_pass = \<lparr> px_aborted = False, px_expired = False,
     px_select = (\<lambda>excluded _ m. if ''work'' \<in> set excluded then (m, NoAccount)
        else (case reserve_lease 0 (Str ''work'') m of (m', None) \<Rightarrow> (m', NoAccount)
          | (m', Some l) \<Rightarrow> (m', Granted \<lparr> ca_connectionId = ''work'', ca_lease = Some l, ca_credentials = Null \<rparr>))),
     px_expired_selected = False, px_core = (\<lambda>_. \<lparr> cc_callbacks = [], cc_result = Some overload_reply \<rparr>), px_aborted_called = False,
     px_peek = None, px_aborted_peeked = False, px_mark = sample_env None, px_expired_marked = False \<rparr>"

definition sample_dispatch :: dispatch_world where
  "sample_dispatch = \<lparr> dw_conns = sample_accounts, dw_module = initial_module failure_gate \<rparr>"

lemma reserve_lease_live:
  assumes "module_ok m" and "reserve_lease now cid m = (m', res)"
  shows "module_ok m' \<and> (\<forall>h. lease_live m' h \<longleftrightarrow> lease_live m h \<or> res = Some h) \<and> (\<forall>h. res = Some h \<longrightarrow> \<not> lease_live m h)"
proof -
  have m': "module_ok m'" using reserve_lease_ok [OF assms(1), of now cid] assms(2) by simp
  have holds: "module_holds m' k = (case res of None \<Rightarrow> module_holds m k
      | Some p \<Rightarrow> if k = Some (lease_key cid) then insert p (module_holds m k) else module_holds m k)" for k
    using module_holds_reserve_lease [of m now cid k] assms by (simp add: module_upto_def)
  have fresh: "h \<notin> module_holds m k" if "res = Some h" for h k
    using lease_module_pool.take_fresh [OF assms(1), of "Inl (now, cid)" h k] that assms(2) by (simp add: module_take_def)
  have insert_at: "(\<exists>k. h \<in> (if k = k0 then insert a (f k) else f k)) \<longleftrightarrow> (\<exists>k. h \<in> f k) \<or> a = h" for h a k0 and f :: "string option \<Rightarrow> lease_object set"
    by (metis insert_iff)
  show ?thesis
    unfolding lease_live_holds [OF assms(1)] lease_live_holds [OF m'] holds using m' fresh by (cases res) (simp_all add: insert_at)
qed

lemma sample_pass_sound: "takes_own_lease sample_pass" "picks_from {''work''} sample_pass" "sound_call sample_pass"
proof -
  show "takes_own_lease sample_pass"
    using reserve_lease_live by (fastforce simp: takes_own_lease_def sample_pass_def split: prod.split option.split)
  show "picks_from {''work''} sample_pass" by (auto simp: picks_from_def sample_pass_def split: prod.split option.split if_splits)
  show "sound_call sample_pass" by (simp add: sound_call_def sample_pass_def overload_reply_def)
qed

lemma sample_dispatch_ok: "module_ok (dw_module sample_dispatch)" "conn_ok (dw_conns sample_dispatch)"
proof -
  have "createResourceAdmission Undef = Inr failure_gate"
    by (simp add: createResourceAdmission_def default_policy_valid failure_gate_def)
  then show "module_ok (dw_module sample_dispatch)" "conn_ok (dw_conns sample_dispatch)"
    using sample_accounts_ok initial_module_ok by (simp_all add: sample_dispatch_def)
qed

theorem account_loop_returns_witness:
  "snd (snd (fst (account_loop sample_ctx (\<lambda>_. sample_pass) 3 0 (sample_dispatch, initial_loop)))) \<noteq> None"
  using account_loop_returns [of "{''work''}" "\<lambda>_. sample_pass" 3 sample_ctx sample_dispatch] sample_pass_sound(2) by force



section \<open>A pin that a replay drops\<close>

text \<open>A selection that honours a strict preference, as the one of the program does.\<close>

definition honours_strict :: "pass_env \<Rightarrow> bool" where
  "honours_strict env \<longleftrightarrow> (\<forall>excluded options m ch. so_strict options \<and> snd (px_select env excluded options m) = Granted ch
     \<longrightarrow> so_preferred options = Some (ca_connectionId ch))"

definition answer_of :: "int \<Rightarrow> string \<Rightarrow> core_result" where
  "answer_of code message = overload_reply\<lparr> cr_status := code, cr_error := Str message, cr_response := \<lparr> status = code, headers = [], body = Null \<rparr> \<rparr>"

definition granted_to :: "string \<Rightarrow> granted_account" where
  "granted_to c = \<lparr> ca_connectionId = c, ca_lease = None, ca_credentials = Null \<rparr>"

text \<open>The first account that the request may use, of two; the first pass overflows a buffer, the second is overloaded,
  the third is cancelled by the caller.\<close>

definition pin_pass :: "nat \<Rightarrow> pass_env" where
  "pin_pass n = sample_pass\<lparr> px_select := (\<lambda>excluded options m. (m,
       case find (\<lambda>c. c \<notin> set excluded \<and> (so_strict options \<longrightarrow> so_preferred options = Some c)) [''work'', ''home''] of
         None \<Rightarrow> NoAccount | Some c \<Rightarrow> Granted (granted_to c))),
     px_core := (\<lambda>_. \<lparr> cc_callbacks = [], cc_result = Some (if n = 0 then answer_of 507 REQUEST_REPLAY_BUFFER_ERROR
       else if n = 1 then answer_of 503 ''overloaded'' else answer_of 499 []) \<rparr>) \<rparr>"

definition pinned_ctx :: request_ctx where
  "pinned_ctx = sample_ctx\<lparr> dx_pinned := Some ''work'', dx_maxAttempts := None \<rparr>"

lemma pin_pass_fields [simp]:
  "px_aborted (pin_pass n) = False" "px_expired (pin_pass n) = False" "px_expired_selected (pin_pass n) = False"
  "px_aborted_called (pin_pass n) = False" "px_mark (pin_pass n) = sample_env None" "px_expired_marked (pin_pass n) = False"
  "px_core (pin_pass 0) ch = \<lparr> cc_callbacks = [], cc_result = Some (answer_of 507 REQUEST_REPLAY_BUFFER_ERROR) \<rparr>"
  "px_core (pin_pass (Suc 0)) ch = \<lparr> cc_callbacks = [], cc_result = Some (answer_of 503 ''overloaded'') \<rparr>"
  "px_core (pin_pass (Suc (Suc n))) ch = \<lparr> cc_callbacks = [], cc_result = Some (answer_of 499 []) \<rparr>"
  "px_select (pin_pass n) excluded options m = (m,
     case find (\<lambda>c. c \<notin> set excluded \<and> (so_strict options \<longrightarrow> so_preferred options = Some c)) [''work'', ''home''] of
       None \<Rightarrow> NoAccount | Some c \<Rightarrow> Granted (granted_to c))"
  by (simp_all add: pin_pass_def sample_pass_def)

lemma pinned_ctx_fields [simp]: "dx_pinned pinned_ctx = Some ''work''" "dx_requested pinned_ctx = None" "dx_maxAttempts pinned_ctx = None"
  "dx_provider pinned_ctx = ''claude''" "dx_model pinned_ctx = ''opus''"
  by (simp_all add: pinned_ctx_def sample_ctx_def)

lemma answer_fields [simp]: "cr_success (answer_of c e) = False" "cr_status (answer_of c e) = c" "cr_error (answer_of c e) = Str e"
  "cr_clientAborted (answer_of c e) = False" "cr_resetsAtMs (answer_of c e) = Null" "cr_metadata (answer_of c e) = Obj [(''safeToReplay'', Bool True)]"
  "cr_response (answer_of c e) = \<lparr> status = c, headers = [], body = Null \<rparr>" "cr_streams (answer_of c e) = False"
  by (simp_all add: answer_of_def overload_reply_def)

lemma granted_fields [simp]: "ca_connectionId (granted_to c) = c" "ca_lease (granted_to c) = None"
  by (simp_all add: granted_to_def)

lemmas pin_steps = account_pass_def options_of_def use_account_def wrong_account_def call_upstream_def on_failure_def
  settle_def release_in_def sent_def Let_def

lemma pin_pass_honours: "honours_strict (pin_pass n)"
  by (auto simp: honours_strict_def granted_to_def split: if_splits)

lemma buffer_overflow: "isRequestReplayBufferError (JInt 507) (Str REQUEST_REPLAY_BUFFER_ERROR)" "\<not> isRequestReplayBufferError (JInt 503) (Str ''overloaded'')"
  by code_simp+

lemma pin_pass_0: "account_pass (pin_pass 0) pinned_ctx (sample_dispatch, initial_loop) =
  ((sample_dispatch, initial_loop\<lparr> al_replayed := True, al_replay := Some ''work'' \<rparr>, Rotate), [(''work'', Some (answer_of 507 REQUEST_REPLAY_BUFFER_ERROR))])"
  using buffer_overflow(1)
  by (simp add: pin_steps initial_loop_def)

lemma pin_pass_1:
  assumes "st = initial_loop\<lparr> al_replayed := True, al_replay := Some ''work'' \<rparr>"
  shows "\<exists>dw' st'. account_pass (pin_pass (Suc 0)) pinned_ctx (sample_dispatch, st) = ((dw', st', Rotate), [(''work'', Some (answer_of 503 ''overloaded''))])
    \<and> al_excluded st' = [''work''] \<and> al_replay st' = Some ''work''"
proof -
  have w: "\<lparr> aw_conns = dw_conns sample_dispatch, aw_gate = gate (dw_module sample_dispatch) \<rparr> = sample_world (gate (dw_module sample_dispatch))"
    by (simp add: sample_dispatch_def sample_world_def)
  obtain w' r where m: "markAccountUnavailable (sample_env None) ''work'' (JInt 503) (Str ''overloaded'') (Str ''claude'') (Str ''opus'') Null
      (Obj [(''safeToReplay'', Bool True)]) (sample_world (gate (dw_module sample_dispatch))) = (w', Inr r)" and r: "mr_shouldFallback r" "mr_cooldownMs r = Fin 2000"
    using overloaded_marked [of "Obj [(''safeToReplay'', Bool True)]" "gate (dw_module sample_dispatch)"]
    by (cases "markAccountUnavailable (sample_env None) ''work'' (JInt 503) (Str ''overloaded'') (Str ''claude'') (Str ''opus'') Null
      (Obj [(''safeToReplay'', Bool True)]) (sample_world (gate (dw_module sample_dispatch)))") (auto simp: cooled_def split: sum.splits)
  have mark: "mark_in (pin_pass (Suc 0)) pinned_ctx ''work'' 503 (Str ''overloaded'') Null (Obj [(''safeToReplay'', Bool True)]) sample_dispatch =
    (\<lparr> dw_conns = aw_conns w', dw_module = (dw_module sample_dispatch)\<lparr> gate := aw_gate w' \<rparr> \<rparr>, Inr r)"
    using m unfolding mark_in_def w by simp
  have mustWait: "\<not> truthy (mr_mustWait r)" "\<not> seq (mr_retrySameAccount r) (Bool True)"
    using mark_in_never_retries [OF mark] mark_traceless [of "sample_world (gate (dw_module sample_dispatch))" "sample_env None" "''work''" "JInt 503" "Str ''overloaded''"
        "Str ''claude''" "Str ''opus''" Null "Obj [(''safeToReplay'', Bool True)]", unfolded m] by (simp_all add: traceless_def)
  define dw1 where "dw1 = \<lparr> dw_conns = aw_conns w', dw_module = (dw_module sample_dispatch)\<lparr> gate := aw_gate w' \<rparr> \<rparr>"
  define st1 where "st1 = (remember_failure (answer_of 503 ''overloaded'') st)\<lparr> al_fails := [(''work'', 1)], al_excluded := [''work''] \<rparr>"
  have st: "al_excluded st = []" "al_fails st = []" "al_replayed st" "al_replay st = Some ''work''" using assms by (simp_all add: initial_loop_def)
  have "after_mark (pin_pass (Suc 0)) pinned_ctx (granted_to ''work'') (answer_of 503 ''overloaded'') r st = (st1, Rotate)"
    using r mustWait st by (simp add: after_mark_def replay_allowed_def at_ceiling_def exclude_def st1_def Let_def)
  then have "on_failure (pin_pass (Suc 0)) pinned_ctx (granted_to ''work'') (answer_of 503 ''overloaded'') (sample_dispatch, st) = (dw1, st1, Rotate)"
    using mark buffer_overflow(2) st(3) by (simp add: on_failure_def js_or_def dw1_def)
  then have "account_pass (pin_pass (Suc 0)) pinned_ctx (sample_dispatch, st) = ((dw1, st1, Rotate), [(''work'', Some (answer_of 503 ''overloaded''))])"
    using st by (simp add: account_pass_def options_of_def use_account_def wrong_account_def call_upstream_def settle_def release_in_def sent_def Let_def)
  then show ?thesis using st by (simp add: st1_def remember_failure_def)
qed


end
