(* ===== verification/SelectionGuarantees.thy ===== *)
theory SelectionGuarantees
  imports AccountSelection DispatchGuarantees SchedulerGuarantees
begin

text \<open>
  What the selection promises to the loop that asks it: the account it hands out is one that may be asked, it
  comes with exactly one new lease, every other way out leaves the leases as they were, and it
  starts over at most eight times. With that the promises of the account loop hold for the selection of the
  program and not only for an assumed one.
\<close>

section \<open>One lease or none\<close>

text \<open>One lease more, and it is a new one.\<close>

definition one_more :: "lease_module \<Rightarrow> lease_module \<Rightarrow> lease_object \<Rightarrow> bool" where
  "one_more m m' h \<longleftrightarrow> (module_ok m \<longrightarrow> module_ok m' \<and> \<not> lease_live m h \<and> (\<forall>k. lease_live m' k \<longleftrightarrow> lease_live m k \<or> k = h))"

definition kept :: "lease_module \<Rightarrow> lease_module \<Rightarrow> bool" where
  "kept m m' \<longleftrightarrow> (module_ok m \<longrightarrow> module_ok m' \<and> (\<forall>k. lease_live m' k = lease_live m k))"

lemma kept_refl [simp]: "kept m m"
  by (simp add: kept_def)

lemma kept_trans: "kept a b \<Longrightarrow> kept b c \<Longrightarrow> kept a c"
  by (simp add: kept_def)

lemma kept_one_more: "kept a b \<Longrightarrow> one_more b c h \<Longrightarrow> one_more a c h"
  by (auto simp: kept_def one_more_def)

lemma one_more_released: "one_more m m' h \<Longrightarrow> kept m (fst (releaseAccountLease h m'))"
  using live_release releaseAccountLease_ok by (auto simp: one_more_def kept_def)

lemma one_more_kept: "one_more m m1 h \<Longrightarrow> kept m1 m2 \<Longrightarrow> one_more m m2 h"
  by (simp add: one_more_def kept_def)

lemma same_slots_kept: "(module_ok m \<Longrightarrow> same_slots m m') \<Longrightarrow> kept m m'"
  by (simp add: kept_def same_slots_def lease_live_holds)

lemma insert_at: "(\<exists>k. h \<in> (if k = k0 then insert a (f k) else f k)) \<longleftrightarrow> (\<exists>k. h \<in> f k) \<or> h = a"
  by (metis insert_iff)

lemma one_slot_more:
  assumes "module_ok m \<Longrightarrow> one_slot m m' cid h"
  shows "one_more m m' h"
proof (cases "module_ok m")
  case True
  then have m': "module_ok m'" "\<And>k. h \<notin> module_holds m k"
    and holds: "module_holds m' k = (if k = Some cid then insert h (module_holds m k) else module_holds m k)" for k
    using assms unfolding one_slot_def by blast+
  show ?thesis
    unfolding one_more_def lease_live_holds [OF True] lease_live_holds [OF m'(1)] holds insert_at using m' by simp
qed (simp add: one_more_def)

lemma reserve_kept: "reserve_lease now cid m = (m', None) \<Longrightarrow> kept m m'"
  by (rule same_slots_kept) (rule refused_slot)

lemma reserve_more: "reserve_lease now cid m = (m', Some h) \<Longrightarrow> one_more m m' h"
  by (rule one_slot_more) (rule take_one_slot)

lemma public_lease:
  assumes "reserveProviderLease now p limit m = (m', res)"
  shows "case res of None \<Rightarrow> kept m m' | Some h \<Rightarrow> one_more m m' h"
proof (cases "module_ok m")
  case True
  then have ok: "module_ok m'" using reserveProviderLease_ok [OF True, of now p limit] assms by simp
  have holds: "module_holds m' k = (case res of None \<Rightarrow> module_holds m k | Some h \<Rightarrow> if k = None then insert h (module_holds m k) else module_holds m k)" for k
    using reserveProviderLease_cases(1) [OF True, of now p limit k] assms by simp
  have fresh: "res = Some h \<Longrightarrow> h \<notin> module_holds m k" for h k
    using reserveProviderLease_cases(2) [OF True, of now p limit h k] assms by simp
  show ?thesis
    using True ok fresh by (cases res) (simp_all only: kept_def one_more_def lease_live_holds holds insert_at option.case, auto)
qed (simp add: kept_def one_more_def split: option.split)

lemma gate_kept:
  assumes "providers_inv (gate m) \<longrightarrow> providers_inv g" and "permit_ids g = permit_ids (gate m)"
  shows "kept m (m\<lparr> gate := g \<rparr>)"
  using same_leases_gate [OF assms] by (simp add: kept_def same_leases_def)

lemma record_quota_gate: "providers_inv g \<longrightarrow> providers_inv (recordQuota now c snap paused g)" "permit_ids (recordQuota now c snap paused g) = permit_ids g"
proof -
  have "same_providers g (recordQuota now c snap paused g)"
    by (simp add: recordQuota_def same_providers_def split: option.split)
  then show "providers_inv g \<longrightarrow> providers_inv (recordQuota now c snap paused g)" using same_providers_inv by blast
qed (simp add: recordQuota_def permit_ids_def split: option.split)

lemma checked_gate:
  "quota_checked env q prep cs g = (g', routed) \<Longrightarrow> (providers_inv g \<longrightarrow> providers_inv g') \<and> permit_ids g' = permit_ids g"
proof (induction cs arbitrary: g routed)
  case (Cons c cs)
  from Cons.prems show ?case
    using record_quota_gate by (auto simp: Let_def split: option.splits if_splits prod.splits dest!: Cons.IH)
qed simp

lemma register_kept: "kept m (registerAccountCapacity cid limit provider providerLimit m)"
proof -
  let ?m = "registerAccountCapacity cid limit provider providerLimit m"
  have f: "accounts ?m = accounts m" "providerOnlyLeases ?m = providerOnlyLeases m"
    by (simp_all add: registerAccountCapacity_def Let_def split: option.split)
  have "lease_live ?m h = lease_live m h" for h by (cases h) (simp_all add: f)
  then show ?thesis using register_ok by (simp add: kept_def)
qed

lemma registered_kept: "kept m (register_accounts env p cs m)"
  unfolding register_accounts_def by (induction cs arbitrary: m) (auto intro: kept_trans register_kept)

text \<open>A step of the selection: an answer leaves the leases as they were, a reservation adds its own.\<close>

definition slot_taken :: "lease_module \<Rightarrow> sched_world \<times> (account_choice + reservation) \<Rightarrow> bool" where
  "slot_taken m out \<longleftrightarrow> (case out of
      (w, Inl choice) \<Rightarrow> kept m (leases_w w) \<and> (\<forall>ch. choice \<noteq> Granted ch)
    | (w, Inr r) \<Rightarrow> one_more m (leases_w w) (rs_lease r))"

definition granted_lease :: "lease_module \<Rightarrow> sched_world \<times> account_choice \<Rightarrow> bool" where
  "granted_lease m out \<longleftrightarrow> (case out of (w, choice) \<Rightarrow> (case choice of
      Granted ch \<Rightarrow> (\<exists>h. ca_lease ch = Some h \<and> one_more m (leases_w w) h)
    | _ \<Rightarrow> kept m (leases_w w)))"

lemma answers_grant_nothing [simp]: "wait_second now why \<noteq> Granted ch" "commandWait now \<noteq> Granted ch" "refused_answer env x \<noteq> Granted ch"
  "locked_report env q opts prep conns available \<noteq> Granted ch"
  by (simp_all add: wait_second_def commandWait_def refused_answer_def locked_report_def Let_def split: list.split)

lemma operator_slot_taken: "slot_taken (leases_w w) (operator_slot env q c ws action w)"
proof (cases "reserve_lease (sv_now env) (get c ''id'') (leases_w w)")
  case (Pair m res)
  show ?thesis
  proof (cases res)
    case None
    then show ?thesis using reserve_kept Pair by (simp add: operator_slot_def slot_taken_def)
  next
    case (Some h)
    then have "one_more (leases_w w) m h" using reserve_more Pair by simp
    then show ?thesis using one_more_released
      by (simp add: operator_slot_def slot_taken_def release_slot_def Let_def Pair Some)
  qed
qed

lemma scheduler_slot_taken: "slot_taken (leases_w w) (scheduler_slot env q routed action w)"
proof (cases "createSchedulerRepos (of_int (sv_now env))")
  case (Inl e)
  then show ?thesis by (simp add: scheduler_slot_def slot_taken_def)
next
  case (Inr clk)
  obtain w' res where s: "selectAndReserve (sv_collate env) (sv_sha env) (sv_uuid env) (sv_now env) clk (sv_commits env)
      (sched_request_of env q routed action) w = (w', res)" by fastforce
  have "case res of Inl e \<Rightarrow> kept (leases_w w) (leases_w w') | Inr (Refused x) \<Rightarrow> kept (leases_w w) (leases_w w')
      | Inr (Chosen x) \<Rightarrow> one_more (leases_w w) (leases_w w') (se_lease x)"
    using selection_slots [OF s] by (auto intro: same_slots_kept one_slot_more split: sum.splits outcome.splits)
  then show ?thesis by (auto simp: scheduler_slot_def slot_taken_def Inr s split: sum.splits outcome.splits)
qed

lemma hand_out_grants: "slot_taken m out \<Longrightarrow> granted_lease m (hand_out env q available out)"
  using one_more_released
  by (auto simp: slot_taken_def granted_lease_def hand_out_def release_slot_def
      split: prod.splits sum.splits account_choice.splits proxy_route.splits)

lemma granted_after: "kept a b \<Longrightarrow> granted_lease b out \<Longrightarrow> granted_lease a out"
  by (auto simp: granted_lease_def intro: kept_trans kept_one_more split: prod.splits account_choice.splits)

lemma slot_after: "kept a b \<Longrightarrow> slot_taken b out \<Longrightarrow> slot_taken a out"
  by (auto simp: slot_taken_def intro: kept_trans kept_one_more split: prod.splits sum.splits)

lemma granted_none: "kept m (leases_w w) \<Longrightarrow> (\<And>ch. choice \<noteq> Granted ch) \<Longrightarrow> granted_lease m (w, choice)"
  by (simp add: granted_lease_def split: account_choice.split)

lemma choose_grants: "granted_lease (leases_w w) (choose_account env q opts action conns available prep w)"
proof -
  obtain g routed where qc: "quota_checked env q prep available (gate (leases_w w)) = (g, routed)" by fastforce
  have g: "kept (leases_w w) ((leases_w w)\<lparr> gate := g \<rparr>)" using gate_kept checked_gate [OF qc] by blast
  show ?thesis
  proof (cases "routed = []")
    case True
    then show ?thesis using g by (auto simp: choose_account_def qc intro!: granted_none)
  next
    case False
    let ?m = "register_accounts env (provider_id q) (map fst routed) ((leases_w w)\<lparr> gate := g \<rparr>)"
    have m: "kept (leases_w w) ?m" using kept_trans [OF g registered_kept] .
    have "slot_taken ?m (operator_slot env q c ws action (w\<lparr> leases_w := ?m \<rparr>))" for c ws
      using operator_slot_taken [of "w\<lparr> leases_w := ?m \<rparr>" env q c ws action] by simp
    moreover have "slot_taken ?m (scheduler_slot env q routed action (w\<lparr> leases_w := ?m \<rparr>))"
      using scheduler_slot_taken [of "w\<lparr> leases_w := ?m \<rparr>" env q routed action] by simp
    ultimately show ?thesis
      using False granted_after [OF m hand_out_grants]
      by (simp add: choose_account_def qc Let_def split: option.split prod.split)
  qed
qed

lemma public_grants: "granted_lease (leases_w w) (public_account env q w)"
proof -
  obtain m res where r: "reserveProviderLease (sv_now env) (Some (provider_id q)) (provider_ceiling env (provider_id q)) (leases_w w) = (m, res)" by fastforce
  show ?thesis
    using public_lease [OF r] by (auto simp: public_account_def Let_def r granted_lease_def wait_second_def split: proxy_route.split option.splits)
qed

text \<open>The ways a pass can end.\<close>

definition prepared_of :: "prepared_quota option \<Rightarrow> pin_action option \<Rightarrow> prepared_quota" where
  "prepared_of prep action = (case prep of Some p \<Rightarrow> p | None \<Rightarrow> \<lparr> pq_evidence = [], pq_passes = 0, pq_pinActionId = map_option pa_id action \<rparr>)"

lemma selection_pass_cases:
  assumes "selection_pass env q prep w = (w', res)"
  obtains (plain) choice where "res = Settled choice" "\<And>ch. choice \<noteq> Granted ch" "leases_w w' = leases_w w"
  | (public) choice where "isNoAuthProvider (provider_id q)" "public_account env q w = (w', choice)" "res = Settled choice"
  | (again) action missing where "res = Again ((prepared_of prep action)\<lparr> pq_evidence := foldl (\<lambda>m c. om_set m (sv_identity_of env c) (sv_evaluate env c))
        (pq_evidence (prepared_of prep action)) missing, pq_passes := pq_passes (prepared_of prep action) + 1 \<rparr>)" "leases_w w' = leases_w w"
  | (chosen) db pending opts conns choice where "\<not> isNoAuthProvider (provider_id q)" "commanded_options (sr_options q) pending = Some opts"
      "conns = getProviderConnections (Str (provider_id q)) (Bool True) (sv_conns env)"
      "choose_account env q opts (map_option fst pending) conns (available_accounts env q opts conns)
         (prepared_of prep (map_option fst pending)) (w\<lparr> db_w := db \<rparr>) = (w', choice)" "res = Settled choice"
proof -
  consider "sv_stops env" | "\<not> sv_stops env" "isNoAuthProvider (provider_id q)" | (go) "\<not> sv_stops env" "\<not> isNoAuthProvider (provider_id q)" by blast
  then show ?thesis
  proof cases
    case 1
    then show ?thesis using assms by (intro plain) (auto simp: selection_pass_def)
  next
    case 2
    obtain w1 choice where p: "public_account env q w = (w1, choice)" by fastforce
    then show ?thesis using assms 2 by (intro public [of choice]) (auto simp: selection_pass_def)
  next
    case go
    show ?thesis
    proof (cases "createSchedulerRepos (of_int (sv_now env))")
      case (Inl e)
      then show ?thesis using assms go by (intro plain) (auto simp: selection_pass_def)
    next
      case (Inr clk)
      obtain db pending where g: "getPendingPinAction (sv_sha env) (sr_session q) (model_key (sr_model q)) (nowIso clk) (db_w w) = (db, pending)" by fastforce
      define conns where "conns = getProviderConnections (Str (provider_id q)) (Bool True) (sv_conns env)"
      show ?thesis
      proof (cases "commanded_options (sr_options q) pending")
        case None
        then show ?thesis using assms go Inr g by (intro plain) (auto simp: selection_pass_def Let_def)
      next
        case (Some opts)
        let ?prep = "prepared_of prep (map_option fst pending)" and ?av = "available_accounts env q opts conns"
        let ?missing = "filter (\<lambda>c. evidence_of env ?prep c = None) ?av"
        have pass: "selection_pass env q prep w = (if conns = [] then (w\<lparr> db_w := db \<rparr>, Settled (if map_option fst pending \<noteq> None then commandWait (sv_now env) else NoAccount))
          else if pq_pinActionId ?prep \<noteq> map_option pa_id (map_option fst pending) then (w\<lparr> db_w := db \<rparr>, Settled (commandWait (sv_now env)))
          else if ?missing \<noteq> [] then (if MAX_QUOTA_REVALIDATIONS \<le> pq_passes ?prep then (w\<lparr> db_w := db \<rparr>, Settled (commandWait (sv_now env)))
            else (w\<lparr> db_w := db \<rparr>, Again (?prep\<lparr> pq_evidence := foldl (\<lambda>m c. om_set m (sv_identity_of env c) (sv_evaluate env c)) (pq_evidence ?prep) ?missing,
                  pq_passes := pq_passes ?prep + 1 \<rparr>)))
          else (case choose_account env q opts (map_option fst pending) conns ?av ?prep (w\<lparr> db_w := db \<rparr>) of (w2, choice) \<Rightarrow> (w2, Settled choice)))"
          unfolding selection_pass_def Inr g prod.case sum.case Let_def Some option.case conns_def [symmetric] prepared_of_def [symmetric]
          using go by simp
        obtain w2 choice where ch: "choose_account env q opts (map_option fst pending) conns ?av ?prep (w\<lparr> db_w := db \<rparr>) = (w2, choice)" by fastforce
        consider "conns = [] \<or> pq_pinActionId ?prep \<noteq> map_option pa_id (map_option fst pending) \<or> ?missing \<noteq> [] \<and> MAX_QUOTA_REVALIDATIONS \<le> pq_passes ?prep"
          | (more) "conns \<noteq> []" "pq_pinActionId ?prep = map_option pa_id (map_option fst pending)" "?missing \<noteq> []" "\<not> MAX_QUOTA_REVALIDATIONS \<le> pq_passes ?prep"
          | (all) "conns \<noteq> []" "pq_pinActionId ?prep = map_option pa_id (map_option fst pending)" "?missing = []" by blast
        then show ?thesis
        proof cases
          case 1
          then have "\<exists>choice. res = Settled choice \<and> (\<forall>ch. choice \<noteq> Granted ch) \<and> leases_w w' = leases_w w"
            using assms unfolding pass by (auto split: if_splits)
          then show ?thesis using plain by blast
        next
          case more
          then show ?thesis using assms unfolding pass by (intro again [of "map_option fst pending" ?missing]) auto
        next
          case all
          then have "selection_pass env q prep w = (w2, Settled choice)"
            unfolding pass by (simp only: ch prod.case if_False simp_thms)
          then show ?thesis using assms go(2) Some ch conns_def by (intro chosen [of pending opts conns db choice]) simp_all
        qed
      qed
    qed
  qed
qed

lemma pass_grants:
  assumes "selection_pass env q prep w = (w', res)"
  shows "case res of Settled choice \<Rightarrow> granted_lease (leases_w w) (w', choice) | Again p \<Rightarrow> leases_w w' = leases_w w"
  using assms
proof (cases rule: selection_pass_cases)
  case (plain choice)
  then show ?thesis by (simp add: granted_none)
next
  case (public choice)
  then show ?thesis using public_grants [of w env q] by simp
next
  case (chosen db pending opts conns choice)
  then show ?thesis
    using choose_grants [of "w\<lparr> db_w := db \<rparr>" env q opts "map_option fst pending" conns "available_accounts env q opts conns"
        "prepared_of prep (map_option fst pending)"] by simp
qed simp

lemma credentials_grant: "granted_lease (leases_w w) (getProviderCredentials envs n prep q w)"
proof (induction envs n prep q w rule: getProviderCredentials.induct)
  case (1 envs n prep q w)
  obtain w' res where p: "selection_pass (envs n) q prep w = (w', res)" by fastforce
  show ?case
  proof (cases res)
    case (Settled choice)
    then show ?thesis using pass_grants [OF p] by (simp add: getProviderCredentials.simps [of envs n] p)
  next
    case (Again x)
    then have "leases_w w' = leases_w w" using pass_grants [OF p] by simp
    then show ?thesis using "1.IH" [OF p [symmetric] Again] by (simp add: getProviderCredentials.simps [of envs n] p Again)
  qed
qed

section \<open>Who is handed out\<close>

text \<open>An account that may be asked for the model: it can authenticate, this request has not excluded it, its own
  selection and the operator's lists allow the model, it is not draining, and it is the named account if the
  request insists on one.\<close>

definition may_serve :: "selection_env \<Rightarrow> selection_request \<Rightarrow> selection_options \<Rightarrow> jv \<Rightarrow> bool" where
  "may_serve env q opts c \<longleftrightarrow> holdsCredential c \<and> jstr (get c ''id'') \<notin> set (sr_excluded q) \<and> accountSupportsModel c (sr_model q)
     \<and> \<not> model_disabled env q (jstr (get c ''id'')) \<and> \<not> is_draining env c
     \<and> (so_strict opts \<longrightarrow> so_preferred opts = Some (jstr (get c ''id'')))"

text \<open>Its reading, if any, neither pauses it nor shows the window of the model exhausted.\<close>

definition quota_allows :: "selection_env \<Rightarrow> selection_request \<Rightarrow> quota_reading \<Rightarrow> jv \<Rightarrow> bool" where
  "quota_allows env q e c \<longleftrightarrow> \<not> qe_paused e \<and> getExhaustedQuotaWindow (sv_now env) (verified c (qe_snapshot e)) (sr_model q) = None"

definition good_options :: "selection_options \<Rightarrow> bool" where
  "good_options opts \<longleftrightarrow> so_strict opts \<longrightarrow> so_preferred opts \<noteq> None"

lemma commanded_good: "commanded_options opts pending = Some opts' \<Longrightarrow> good_options opts'"
  by (auto simp: commanded_options_def good_options_def split: option.splits prod.splits if_splits list.splits)

lemma commanded_strict: "commanded_options opts pending = Some opts' \<Longrightarrow> so_strict opts \<Longrightarrow> so_preferred opts = Some p \<Longrightarrow> p \<noteq> []
    \<Longrightarrow> so_strict opts' \<and> so_preferred opts' = Some p"
  by (cases p) (auto simp: commanded_options_def split: option.splits prod.splits if_splits)

lemma available_may_serve: "c \<in> set (available_accounts env q opts conns) \<Longrightarrow> good_options opts \<Longrightarrow> c \<in> set conns \<and> may_serve env q opts c"
  by (auto simp: available_accounts_def may_serve_def accountAdmissionReason_def admission_of_def good_options_def
      split: if_splits option.splits dest!: seq_imp_eq)

lemma checked_routed:
  "quota_checked env q prep cs g = (g', routed) \<Longrightarrow> (c, ws) \<in> set routed \<Longrightarrow>
    c \<in> set cs \<and> (\<exists>e. evidence_of env prep c = Some e \<and> quota_allows env q e c)"
proof (induction cs arbitrary: g routed)
  case (Cons x cs)
  show ?case
  proof (cases "evidence_of env prep x")
    case None
    then show ?thesis using Cons.prems by (auto dest!: Cons.IH)
  next
    case (Some e)
    show ?thesis
    proof (cases "quota_allows env q e x")
      case True
      then show ?thesis using Cons.prems Some by (auto simp: quota_allows_def Let_def split: prod.splits dest!: Cons.IH)
    next
      case False
      then have "quota_checked env q prep (x # cs) g = quota_checked env q prep cs g" using Some by (auto simp: quota_allows_def)
      then show ?thesis using Cons.prems by (auto dest!: Cons.IH)
    qed
  qed
qed simp

text \<open>The scheduler serves with one of the accounts that it was given.\<close>

lemma walked_in: "walk_slots clock rs m skipped = (m', Some (r, l), skipped') \<Longrightarrow> r \<in> set rs"
  by (induction clock rs m skipped rule: walk_slots.induct) (auto split: prod.splits option.splits)

lemma body_candidate:
  assumes "select_body collate sha uuid clock clk rq nowMs w = (w', taken, Inr (Chosen s))"
  shows "se_connection s \<in> set (candidates_of (rq_accounts rq) (rq_windows rq))"
proof -
  let ?cs = "candidates_of (rq_accounts rq) (rq_windows rq)"
  obtain cands pin load p w1 where plan: "planAccountSelection collate cands pin load (Str (rq_model rq)) (Num (Fin nowMs)) = Inr p" "set cands \<subseteq> set ?cs"
    and res: "\<exists>prev action. reserve_plan collate uuid clock clk rq nowMs ?cs prev action p w1 = (w', taken, Inr (Chosen s))"
    using assms by (fastforce simp: select_body_def Let_def split: prod.splits if_splits sum.splits option.splits)
  obtain r' where "r' \<in> set (pl_preferred p)" "se_connection s = rk_account r'"
    using res by (fastforce simp: reserve_plan_def Let_def split: if_splits prod.splits option.splits sum.splits dest: walked_in)
  then show ?thesis using plan_ids [OF plan(1)] plan(2) by auto
qed

lemma chosen_candidate:
  "selectAndReserve collate sha uuid clock clk commits rq w = (w', Inr (Chosen s)) \<Longrightarrow> se_connection s \<in> set (candidates_of (rq_accounts rq) (rq_windows rq))"
  by (auto simp: selectAndReserve_def split: jsnum.splits prod.splits sum.splits if_splits dest: body_candidate)

lemma candidate_id: "a \<in> set (candidates_of accts windows) \<Longrightarrow> \<exists>b \<in> set (arr_items accts). get a ''id'' = get b ''id''"
proof -
  assume a: "a \<in> set (candidates_of accts windows)"
  then obtain b where b: "b \<in> set (arr_items accts)" "a = Obj (om_set (obj_entries b) ''windows'' (windowsFor windows b))"
    and i: "case get b ''id'' of Str s \<Rightarrow> s \<noteq> [] | _ \<Rightarrow> False"
    by (auto simp: candidates_of_def)
  have "get a ''id'' = get b ''id''" unfolding b(2) using i by (cases b) (auto simp: om_get_set split: option.split)
  then show ?thesis using b(1) by blast
qed

lemma scheduler_picks:
  assumes "scheduler_slot env q routed action w = (w', Inr r)"
  shows "\<exists>(c, ws) \<in> set routed. get (rs_connection r) ''id'' = get c ''id''"
proof -
  obtain clk s where "selectAndReserve (sv_collate env) (sv_sha env) (sv_uuid env) (sv_now env) clk (sv_commits env) (sched_request_of env q routed action) w
      = (w', Inr (Chosen s))" "rs_connection r = se_connection s"
    using assms by (auto simp: scheduler_slot_def split: sum.splits prod.splits outcome.splits)
  then show ?thesis using candidate_id [OF chosen_candidate] by (fastforce simp: sched_request_of_def)
qed

lemma operator_picks: "operator_slot env q c ws action w = (w', Inr r) \<Longrightarrow> rs_connection r = c"
  by (auto simp: operator_slot_def Let_def split: if_splits prod.splits option.splits)

lemma choose_picks:
  assumes "choose_account env q opts action conns available prep w = (w', Granted ch)"
  shows "\<exists>c \<in> set available. jstr (get c ''id'') = ca_connectionId ch \<and> (\<exists>e. evidence_of env prep c = Some e \<and> quota_allows env q e c)"
proof -
  obtain g routed where qc: "quota_checked env q prep available (gate (leases_w w)) = (g, routed)" by fastforce
  define w1 where "w1 = w\<lparr> leases_w := (leases_w w)\<lparr> gate := g \<rparr> \<rparr>"
  define w2 where "w2 = w1\<lparr> leases_w := register_accounts env (provider_id q) (map fst routed) (leases_w w1) \<rparr>"
  define slot where "slot = (case (case so_preferred opts of None \<Rightarrow> None | Some p \<Rightarrow> find (\<lambda>(c, ws). seq (get c ''id'') (Str p)) routed) of
      Some (c, ws) \<Rightarrow> operator_slot env q c ws action w2 | None \<Rightarrow> scheduler_slot env q routed action w2)"
  have "routed \<noteq> []" using assms by (auto simp: choose_account_def qc Let_def split: if_splits)
  then have "hand_out env q available slot = (w', Granted ch)"
    using assms unfolding choose_account_def qc prod.case Let_def slot_def w2_def w1_def by (simp only: if_False)
  moreover have "slot_taken (leases_w w2) slot"
    unfolding slot_def using operator_slot_taken [of w2] scheduler_slot_taken [of w2] by (simp split: option.split prod.split)
  ultimately obtain w3 r where r: "slot = (w3, Inr r)" "ca_connectionId ch = jstr (get (rs_connection r) ''id'')"
    by (cases slot) (auto simp: hand_out_def slot_taken_def split: sum.splits if_splits proxy_route.splits)
  have "\<exists>(c, ws) \<in> set routed. get (rs_connection r) ''id'' = get c ''id''"
    using r(1) scheduler_picks operator_picks find_set unfolding slot_def
    by (fastforce split: option.splits prod.splits)
  then show ?thesis using checked_routed [OF qc] r(2) by fastforce
qed

text \<open>The evidence that a pass holds was reported for the identity it is filed under.\<close>

definition evidence_sound :: "(nat \<Rightarrow> selection_env) \<Rightarrow> prepared_quota option \<Rightarrow> bool" where
  "evidence_sound envs prep \<longleftrightarrow> (\<forall>p i e. prep = Some p \<and> om_get (pq_evidence p) i = Some e \<longrightarrow>
     (\<exists>j c. sv_identity_of (envs j) c = i \<and> e = sv_evaluate (envs j) c))"

lemma evaluated_from:
  "om_get (foldl (\<lambda>m c. om_set m (f c) (g c)) m0 cs) i = Some e \<Longrightarrow> om_get m0 i = Some e \<or> (\<exists>c. f c = i \<and> e = g c)"
proof (induction cs arbitrary: m0)
  case (Cons c cs)
  from Cons.IH [of "om_set m0 (f c) (g c)"] Cons.prems show ?case by (auto simp: om_get_set split: if_splits)
qed simp

lemma prepared_sound: "evidence_sound envs prep \<Longrightarrow> om_get (pq_evidence (prepared_of prep action)) i = Some e \<Longrightarrow>
    \<exists>j c. sv_identity_of (envs j) c = i \<and> e = sv_evaluate (envs j) c"
  by (cases prep) (auto simp: prepared_of_def evidence_sound_def)

lemma again_sound:
  assumes "selection_pass (envs n) q prep w = (w', Again p)" and "evidence_sound envs prep"
  shows "evidence_sound envs (Some p)"
  using assms(1)
proof (cases rule: selection_pass_cases)
  case (again action missing)
  then have p: "pq_evidence p = foldl (\<lambda>m c. om_set m (sv_identity_of (envs n) c) (sv_evaluate (envs n) c)) (pq_evidence (prepared_of prep action)) missing"
    by simp
  show ?thesis
    unfolding evidence_sound_def using evaluated_from prepared_sound [OF assms(2)] p by fastforce
qed simp_all

text \<open>What is said of an account that is handed out, in the pass that handed it out.\<close>

definition chosen_in :: "(nat \<Rightarrow> selection_env) \<Rightarrow> nat \<Rightarrow> selection_request \<Rightarrow> string \<Rightarrow> jv \<Rightarrow> bool" where
  "chosen_in envs k q i c \<longleftrightarrow> c \<in> set (getProviderConnections (Str (provider_id q)) (Bool True) (sv_conns (envs k))) \<and> jstr (get c ''id'') = i
     \<and> (\<exists>opts. may_serve (envs k) q opts c
         \<and> (\<forall>p. so_strict (sr_options q) \<and> so_preferred (sr_options q) = Some p \<and> p \<noteq> [] \<longrightarrow> so_strict opts \<and> so_preferred opts = Some p))
     \<and> (\<exists>j c'. sv_identity_of (envs j) c' = sv_identity_of (envs k) c \<and> quota_allows (envs k) q (sv_evaluate (envs j) c') c)"

lemma pass_picks:
  assumes "selection_pass (envs n) q prep w = (w', Settled (Granted ch))" and "evidence_sound envs prep"
  shows "if isNoAuthProvider (provider_id q) then ca_connectionId ch = ''noauth'' else \<exists>c. chosen_in envs n q (ca_connectionId ch) c"
  using assms(1)
proof (cases rule: selection_pass_cases)
  case (plain choice)
  then show ?thesis by blast
next
  case (public choice)
  then show ?thesis
    by (auto simp: public_account_def wait_second_def Let_def split: if_splits prod.splits proxy_route.splits option.splits)
next
  case (chosen db pending opts conns choice)
  then have "choose_account (envs n) q opts (map_option fst pending) conns (available_accounts (envs n) q opts conns)
      (prepared_of prep (map_option fst pending)) (w\<lparr> db_w := db \<rparr>) = (w', Granted ch)" by simp
  then obtain c e where c: "c \<in> set (available_accounts (envs n) q opts conns)" "jstr (get c ''id'') = ca_connectionId ch"
    and e: "evidence_of (envs n) (prepared_of prep (map_option fst pending)) c = Some e" "quota_allows (envs n) q e c"
    using choose_picks by blast
  obtain j c' where "sv_identity_of (envs j) c' = sv_identity_of (envs n) c" "e = sv_evaluate (envs j) c'"
    using prepared_sound [OF assms(2) e(1) [unfolded evidence_of_def]] by blast
  then have "chosen_in envs n q (ca_connectionId ch) c"
    unfolding chosen_in_def chosen(3) [symmetric]
    using available_may_serve [OF c(1) commanded_good [OF chosen(2)]] commanded_strict [OF chosen(2)] c(2) e(2) by blast
  then show ?thesis using chosen(1) by auto
qed simp_all

lemma credentials_picks:
  "evidence_sound envs prep \<Longrightarrow> getProviderCredentials envs n prep q w = (w', Granted ch) \<Longrightarrow>
    if isNoAuthProvider (provider_id q) then ca_connectionId ch = ''noauth'' else \<exists>k c. chosen_in envs k q (ca_connectionId ch) c"
proof (induction envs n prep q w rule: getProviderCredentials.induct)
  case (1 envs n prep q w)
  obtain w1 res where p: "selection_pass (envs n) q prep w = (w1, res)" by fastforce
  show ?case
  proof (cases res)
    case (Settled choice)
    then have "selection_pass (envs n) q prep w = (w', Settled (Granted ch))"
      using "1.prems"(2) by (simp add: getProviderCredentials.simps [of envs n] p)
    from pass_picks [OF this "1.prems"(1)] show ?thesis by auto
  next
    case (Again x)
    then have "getProviderCredentials envs (Suc n) (Some x) q w1 = (w', Granted ch)"
      using "1.prems"(2) by (simp add: getProviderCredentials.simps [of envs n] p)
    from "1.IH" [OF p [symmetric] Again again_sound [OF p [unfolded Again] "1.prems"(1)] this] show ?thesis .
  qed
qed

text \<open>C5: Whoever is handed out is an active account of the provider that may be asked: it can authenticate, was not
  excluded by this request, serves the model by its own list and by the operator's, is not draining, and its
  reading, taken for its present identity, neither pauses it nor is spent. A request that insists on an
  account gets no other. A provider without accounts hands out the public one.\<close>

theorem selected_account_may_serve:
  assumes "getProviderCredentials envs n None q w = (w', Granted ch)"
  shows "if isNoAuthProvider (provider_id q) then ca_connectionId ch = ''noauth'' else
    \<exists>k c. c \<in> set (getProviderConnections (Str (provider_id q)) (Bool True) (sv_conns (envs k))) \<and> jstr (get c ''id'') = ca_connectionId ch
      \<and> holdsCredential c \<and> ca_connectionId ch \<notin> set (sr_excluded q) \<and> accountSupportsModel c (sr_model q)
      \<and> \<not> model_disabled (envs k) q (ca_connectionId ch) \<and> \<not> is_draining (envs k) c
      \<and> (\<exists>j c'. sv_identity_of (envs j) c' = sv_identity_of (envs k) c \<and> quota_allows (envs k) q (sv_evaluate (envs j) c') c)
      \<and> (\<forall>p. so_strict (sr_options q) \<and> so_preferred (sr_options q) = Some p \<and> p \<noteq> [] \<longrightarrow> ca_connectionId ch = p)"
proof -
  have "if isNoAuthProvider (provider_id q) then ca_connectionId ch = ''noauth'' else \<exists>k c. chosen_in envs k q (ca_connectionId ch) c"
    using credentials_picks [OF _ assms] by (simp add: evidence_sound_def)
  then show ?thesis
  proof (cases "isNoAuthProvider (provider_id q)")
    case False
    then obtain k c where c: "chosen_in envs k q (ca_connectionId ch) c"
      using \<open>if isNoAuthProvider _ then _ else _\<close> by auto
    show ?thesis unfolding if_not_P [OF False]
      by (rule exI [of _ k], rule exI [of _ c]) (use c in \<open>auto simp: chosen_in_def may_serve_def\<close>)
  qed simp
qed

section \<open>The selection inside the account loop\<close>

text \<open>The selection as the loop asks it: with its own exclusions and options, over any database of pins.\<close>

definition select_with :: "(nat \<Rightarrow> selection_env) \<Rightarrow> selection_request \<Rightarrow> pin_db \<Rightarrow> string list \<Rightarrow> selection_options \<Rightarrow> lease_module \<Rightarrow> lease_module \<times> account_choice" where
  "select_with envs q db excluded options m =
     (case getProviderCredentials envs 0 None (q\<lparr> sr_excluded := excluded, sr_options := options \<rparr>) \<lparr> leases_w = m, db_w = db \<rparr> of
        (w, choice) \<Rightarrow> (leases_w w, choice))"

definition accounts_within :: "string set \<Rightarrow> (nat \<Rightarrow> selection_env) \<Rightarrow> selection_request \<Rightarrow> bool" where
  "accounts_within pool envs q \<longleftrightarrow> (\<forall>k. \<forall>c \<in> set (getProviderConnections (Str (provider_id q)) (Bool True) (sv_conns (envs k))). jstr (get c ''id'') \<in> pool)"

lemma provider_id_options [simp]: "provider_id (q\<lparr> sr_excluded := x, sr_options := y \<rparr>) = provider_id q"
  by (simp add: provider_id_def)

lemma selection_takes_own_lease: "px_select env = select_with envs q db \<Longrightarrow> takes_own_lease env"
proof -
  assume sel: "px_select env = select_with envs q db"
  have "module_ok m \<longrightarrow> (case select_with envs q db excluded options m of (m', choice) \<Rightarrow> module_ok m' \<and> (case choice of
       Granted ch \<Rightarrow> (\<forall>h. lease_live m' h \<longleftrightarrow> lease_live m h \<or> ca_lease ch = Some h) \<and> (\<forall>h. ca_lease ch = Some h \<longrightarrow> \<not> lease_live m h)
     | _ \<Rightarrow> (\<forall>h. lease_live m' h \<longleftrightarrow> lease_live m h)))" for excluded options m
  proof -
    obtain w choice where g: "getProviderCredentials envs 0 None (q\<lparr> sr_excluded := excluded, sr_options := options \<rparr>) \<lparr> leases_w = m, db_w = db \<rparr> = (w, choice)"
      by fastforce
    have "granted_lease m (w, choice)"
      using credentials_grant [of "\<lparr> leases_w = m, db_w = db \<rparr>" envs 0 None "q\<lparr> sr_excluded := excluded, sr_options := options \<rparr>"] by (simp add: g)
    then have "module_ok m \<longrightarrow> module_ok (leases_w w) \<and> (case choice of
       Granted ch \<Rightarrow> (\<forall>h. lease_live (leases_w w) h \<longleftrightarrow> lease_live m h \<or> ca_lease ch = Some h) \<and> (\<forall>h. ca_lease ch = Some h \<longrightarrow> \<not> lease_live m h)
     | _ \<Rightarrow> (\<forall>h. lease_live (leases_w w) h \<longleftrightarrow> lease_live m h))"
      unfolding granted_lease_def one_more_def kept_def prod.case by (cases choice) (simp_all only: account_choice.case, fastforce+)
    then show ?thesis by (simp add: select_with_def g)
  qed
  then show ?thesis by (simp add: takes_own_lease_def sel)
qed

lemma selection_picks_from:
  assumes "px_select env = select_with envs q db" and "accounts_within pool envs q"
  shows "picks_from (insert ''noauth'' pool) env"
proof -
  have "ca_connectionId ch \<in> insert ''noauth'' pool \<and> (ca_connectionId ch \<notin> set excluded \<or> ca_connectionId ch = ''noauth'')"
    if g: "snd (select_with envs q db excluded options m) = Granted ch" for excluded options m ch
  proof -
    let ?q = "q\<lparr> sr_excluded := excluded, sr_options := options \<rparr>"
    obtain w' where "getProviderCredentials envs 0 None ?q \<lparr> leases_w = m, db_w = db \<rparr> = (w', Granted ch)"
      using g by (auto simp: select_with_def split: prod.splits)
    from credentials_picks [OF _ this]
    have "ca_connectionId ch = ''noauth'' \<or> (\<exists>k c. chosen_in envs k ?q (ca_connectionId ch) c)" by (auto simp: evidence_sound_def split: if_splits)
    moreover have "ca_connectionId ch \<in> pool \<and> ca_connectionId ch \<notin> set excluded" if "chosen_in envs k ?q (ca_connectionId ch) c" for k c
      using that assms(2) unfolding chosen_in_def accounts_within_def may_serve_def by fastforce
    ultimately show ?thesis by blast
  qed
  then show ?thesis by (simp add: picks_from_def assms(1))
qed


section \<open>Starting over\<close>

lemma passes_bounded:
  "\<exists>k prep' w1. n \<le> k \<and> k - n \<le> MAX_QUOTA_REVALIDATIONS - passes_used prep
     \<and> selection_pass (envs k) q prep' w1 = (fst (getProviderCredentials envs n prep q w), Settled (snd (getProviderCredentials envs n prep q w)))"
proof (induction envs n prep q w rule: getProviderCredentials.induct)
  case (1 envs n prep q w)
  obtain w1 res where p: "selection_pass (envs n) q prep w = (w1, res)" by fastforce
  show ?case
  proof (cases res)
    case (Settled choice)
    then show ?thesis using p by (intro exI [of _ n] exI [of _ prep] exI [of _ w]) (simp add: getProviderCredentials.simps [of envs n])
  next
    case (Again x)
    have x: "passes_used (Some x) = Suc (passes_used prep)" "passes_used prep < MAX_QUOTA_REVALIDATIONS"
      using again_uses_pass [OF p [unfolded Again]] by (simp_all add: passes_used_def [of "Some x"])
    obtain k prep' w2 where k: "Suc n \<le> k" "k - Suc n \<le> MAX_QUOTA_REVALIDATIONS - passes_used (Some x)"
      "selection_pass (envs k) q prep' w2 = (fst (getProviderCredentials envs (Suc n) (Some x) q w1), Settled (snd (getProviderCredentials envs (Suc n) (Some x) q w1)))"
      using "1.IH" [OF p [symmetric] Again] by blast
    have "getProviderCredentials envs n prep q w = getProviderCredentials envs (Suc n) (Some x) q w1"
      by (simp add: getProviderCredentials.simps [of envs n] p Again)
    moreover have "n \<le> k" "k - n \<le> MAX_QUOTA_REVALIDATIONS - passes_used prep" using k(1,2) x by linarith+
    ultimately show ?thesis using k(3) by auto
  qed
qed

text \<open>C18: The selection settles: after at most eight revalidations of quota evidence, whatever is read
  in between, there is a pass whose answer is the answer of the request.\<close>

theorem selection_settles:
  "\<exists>k prep w1. k \<le> 8 \<and> selection_pass (envs k) q prep w1
     = (fst (getProviderCredentials envs 0 None q w), Settled (snd (getProviderCredentials envs 0 None q w)))"
  using passes_bounded [of 0 None envs q w] by (auto simp: passes_used_def MAX_QUOTA_REVALIDATIONS_def)

section \<open>What the gate learns about the quota\<close>

definition no_paused :: "adm \<Rightarrow> bool" where
  "no_paused g \<longleftrightarrow> (\<forall>(k, v) \<in> set (quotaEvidence g). \<not> q_paused v)"

lemma set_om_set: "set (om_set m k v) \<subseteq> insert (k, v) (set m)"
  by (induction m k v rule: om_set.induct) auto

lemma record_unpaused: "no_paused g \<Longrightarrow> no_paused (recordQuota now c snap (Bool False) g)"
  by (auto simp: recordQuota_def no_paused_def split: option.split dest!: set_om_set [THEN subsetD])

lemma checked_unpaused: "no_paused g \<Longrightarrow> quota_checked env q prep cs g = (g', routed) \<Longrightarrow> no_paused g'"
proof (induction cs arbitrary: g routed)
  case (Cons c cs)
  from Cons.prems(2) show ?case
    using Cons.prems(1) by (auto simp: Let_def split: option.splits if_splits prod.splits dest: Cons.IH [rotated] intro: record_unpaused)
qed simp

text \<open>C37: An account that the quota check pauses never reaches the gate: the selection leaves it out before it
  records the reading, so that the gate goes on to report no paused account, however many there are.\<close>

theorem paused_accounts_never_reported:
  assumes "no_paused g" and "quota_checked env q prep cs g = (g', routed)"
  shows "no_paused g' \<and> r_pausedAccounts (Admission.snapshot now g') = 0"
proof -
  have "no_paused g'" using checked_unpaused [OF assms] .
  then show ?thesis by (auto simp: snapshot_def no_paused_def filter_empty_conv)
qed

section \<open>A selection\<close>

text \<open>A request that excludes one of two accounts and prefers the other: the first pass has no evidence, the second
  hands the account out.\<close>

definition direct_config :: proxy_config where
  "direct_config = \<lparr> pc_resolutionKind = ''intentional-direct'', pc_reason = None, pc_source = ''pool'', pc_poolId = None, pc_enabled = False, pc_url = [],
     pc_noProxy = [], pc_relayUrl = [], pc_strict = False \<rparr>"

definition open_env :: selection_env where
  "open_env = \<lparr> sv_now = 1000, sv_stops = False, sv_collate = (\<lambda>_ _. False), sv_sha = id, sv_uuid = ''u1'', sv_disabled = Null, sv_nodes = [],
     sv_conns = sample_accounts, sv_drains = Null, sv_settings = Null, sv_route = (\<lambda>_. Usable direct_config), sv_public_route = Usable direct_config,
     sv_identity_of = (\<lambda>c. jstr (get c ''id'')), sv_evaluate = (\<lambda>_. \<lparr> qe_paused = False, qe_snapshot = Null, qe_rawUsage = Null \<rparr>), sv_commits = True, sv_pin_commits = True,
     sv_stops_reserved = False \<rparr>"

definition open_request :: selection_request where
  "open_request = \<lparr> sr_provider = ''claude'', sr_model = Null, sr_session = [], sr_identity_source = ''none'', sr_excluded = [''home''],
     sr_options = \<lparr> so_preferred = Some ''work'', so_strict = False \<rparr> \<rparr>"

definition open_world :: sched_world where
  "open_world = \<lparr> leases_w = initial_module failure_gate, db_w = \<lparr> sql_js = False, affinity = [], pin_actions = [], switches = [] \<rparr> \<rparr>"

lemma open_fields: "sv_now open_env = 1000" "sv_stops open_env = False" "sv_stops_reserved open_env = False"
  by (simp_all add: open_env_def)

lemma open_provider: "provider_id open_request = ''claude''" "\<not> isNoAuthProvider ''claude''" by code_simp+

definition home :: jv where
  "home = rowToConn (sample_row ''home'' 3 ''acc-2'' ''p2'')"

definition work :: jv where "work = rowToConn (sample_row ''work'' 7 ''acc-1'' ''p1'')"

lemma open_conns: "getProviderConnections (Str ''claude'') (Bool True) (sv_conns open_env) = [home, work]" by code_simp

lemma open_clock: "case createSchedulerRepos (of_int 1000) of Inl _ \<Rightarrow> False | Inr clk \<Rightarrow> True" by code_simp

lemma open_available: "available_accounts open_env open_request (sr_options open_request) [home, work] = [work]" by code_simp

lemma open_id: "get work ''id'' = Str ''work''" "get home ''id'' = Str ''home''" by code_simp+

lemma open_slot: "case reserve_lease 1000 (Str ''work'') (register_accounts open_env ''claude'' [work] (initial_module failure_gate)) of (m, Some _) \<Rightarrow> True | _ \<Rightarrow> False"
  by code_simp

definition open_evidence :: prepared_quota where
  "open_evidence = \<lparr> pq_evidence = [(''work'', \<lparr> qe_paused = False, qe_snapshot = Null, qe_rawUsage = Null \<rparr>)], pq_passes = 1, pq_pinActionId = None \<rparr>"

lemma open_pending: "getPendingPinAction sha h m t (db_w open_world) = (db_w open_world, None)" by (simp add: getPendingPinAction_def open_world_def)

lemma open_options: "commanded_options (sr_options open_request) None = Some (sr_options open_request)" by (simp add: commanded_options_def open_request_def)

lemma open_missing: "evidence_of open_env \<lparr> pq_evidence = [], pq_passes = 0, pq_pinActionId = None \<rparr> work = None"
  "evidence_of open_env open_evidence work = Some \<lparr> qe_paused = False, qe_snapshot = Null, qe_rawUsage = Null \<rparr>"
   "sv_identity_of open_env work = ''work''" by code_simp+

lemma open_pass: "selection_pass open_env open_request prep open_world =
   (let p = prepared_of prep None; missing = filter (\<lambda>c. evidence_of open_env p c = None) [work] in
    if pq_pinActionId p \<noteq> None then (open_world, Settled (commandWait 1000))
    else if missing \<noteq> [] then
                 (if MAX_QUOTA_REVALIDATIONS \<le> pq_passes p then (open_world, Settled (commandWait 1000))
                  else (open_world, Again (p\<lparr> pq_evidence := foldl (\<lambda>m c. om_set m (sv_identity_of open_env c) (sv_evaluate open_env c)) (pq_evidence p) missing,
                    pq_passes := pq_passes p + 1 \<rparr>)))
               else (case choose_account open_env open_request (sr_options open_request) None [home, work] [work] p open_world of (w2, choice) \<Rightarrow> (w2, Settled choice)))"
proof -
  obtain clk where clk: "createSchedulerRepos (of_int 1000) = Inr clk" using open_clock by (cases "createSchedulerRepos (of_int 1000)") simp_all
  have db: "open_world\<lparr> db_w := db_w open_world \<rparr> = open_world" by simp
  show ?thesis
    unfolding selection_pass_def open_fields(1,2) open_provider(1) clk sum.case open_pending prod.case option.case Let_def option.map open_options open_conns open_available prepared_of_def db
    using open_provider(2) by simp
qed

lemma open_first: "selection_pass open_env open_request None open_world = (open_world, Again open_evidence)"
  by (simp add: open_pass prepared_of_def open_missing MAX_QUOTA_REVALIDATIONS_def) (simp add: open_evidence_def open_env_def)

lemma open_checked: "quota_checked open_env open_request open_evidence [work] g = (g, [(work, [])])" unfolding open_evidence_def
  by (simp, code_simp)

definition open_grant :: "lease_object \<Rightarrow> account_choice" where
  "open_grant h = Granted \<lparr> ca_connectionId = ''work'', ca_lease = Some h, ca_credentials = credentials_of open_request
     \<lparr> rs_connection = work, rs_lease = h, rs_selection = selection_report ''operator-pinned'' work Null \<rparr> direct_config \<rparr>"

lemma open_choice: "\<exists>w h. choose_account open_env open_request (sr_options open_request) None conns [work] open_evidence open_world = (w, open_grant h)"
proof -
  obtain m h where slot: "reserve_lease 1000 (Str ''work'') (register_accounts open_env ''claude'' [work] (initial_module failure_gate)) = (m, Some h)"
    using open_slot by (auto split: prod.splits option.splits)
  have w: "leases_w open_world = initial_module failure_gate" "(initial_module failure_gate)\<lparr> gate := gate (initial_module failure_gate) \<rparr> = initial_module failure_gate"
    by (simp_all add: open_world_def)
  have f: "so_preferred (sr_options open_request) = Some ''work''" "sr_session open_request = []" "sv_route open_env c = Usable direct_config" for c
    by (simp_all add: open_request_def open_env_def)
  show ?thesis
    unfolding choose_account_def open_checked prod.case Let_def w list.map fst_conv f option.case open_provider(1)
    using slot by (simp add: w(2) operator_slot_def persistOperatorPin_def hand_out_def resolved_route_def open_id open_fields f open_grant_def)
qed

theorem selected_account_may_serve_witness:
  "\<exists>w ch. getProviderCredentials (\<lambda>_. open_env) 0 None open_request open_world = (w, Granted ch) \<and> ca_connectionId ch = ''work''
     \<and> ca_connectionId ch \<notin> set (sr_excluded open_request)"
proof -
  obtain w h where c: "choose_account open_env open_request (sr_options open_request) None [home, work] [work] open_evidence open_world = (w, open_grant h)"
    using open_choice by blast
  have "selection_pass open_env open_request (Some open_evidence) open_world = (w, Settled (open_grant h))"
    by (simp add: open_pass prepared_of_def open_missing c) (simp add: open_evidence_def)
  then have g: "getProviderCredentials (\<lambda>_. open_env) 0 None open_request open_world = (w, open_grant h)"
    by (simp add: getProviderCredentials.simps [of _ 0] getProviderCredentials.simps [of _ "Suc 0"] open_first)
  from selected_account_may_serve [OF g [unfolded open_grant_def]] g show ?thesis
    by (simp add: open_provider open_grant_def del: split_paired_Ex) auto
qed

definition selecting_pass :: pass_env where
  "selecting_pass = sample_pass\<lparr> px_select := select_with (\<lambda>_. open_env) open_request \<lparr> sql_js = False, affinity = [], pin_actions = [], switches = [] \<rparr> \<rparr>"


text \<open>The same account when its reading pauses it.\<close>

definition paused_evidence :: prepared_quota where
  "paused_evidence = \<lparr> pq_evidence = [(''work'', \<lparr> qe_paused = True, qe_snapshot = Null, qe_rawUsage = Null \<rparr>)], pq_passes = 1, pq_pinActionId = None \<rparr>"

theorem paused_accounts_never_reported_witness:
  "r_pausedAccounts (Admission.snapshot 1000 (fst (quota_checked open_env open_request paused_evidence [work] failure_gate))) = 0"
proof -
  have "no_paused failure_gate" by code_simp
  from paused_accounts_never_reported [OF this, of open_env open_request paused_evidence "[work]" _ _ 1000] show ?thesis
    by (cases "quota_checked open_env open_request paused_evidence [work] failure_gate") (simp del: quota_checked.simps)
qed

end
